(* ===== verification/Prelude.thy ===== *)
theory Prelude
  imports Main "HOL-Library.Word" "HOL-Library.Monad_Syntax"
begin

text \<open>
  The shared vocabulary of the development: the machine integers of the C sources as words of their
  width, byte buffers with bounds-checked writes and reads, the outcomes of code that may fail an
  assertion, and the generic lemmas on lists, words and buffers that the components use.
\<close>

unbundle bit_operations_syntax

section \<open>Machine integers\<close>

text \<open>
  A C integer type is a word of its width. The signed types share the representation of the
  unsigned ones; where the code compares signed values the model reads them with \<open>sint\<close>
  (\<open><s\<close>, \<open>\<le>s\<close>).
\<close>

type_synonym byte = "8 word"
type_synonym uint16_t = "16 word"
type_synonym int16_t = "16 word"
type_synonym uint32_t = "32 word"
type_synonym int32_t = "32 word"
type_synonym uint64_t = "64 word"
type_synonym int64_t = "64 word"

section \<open>Collections of facts\<close>

named_theorems buf_simps \<open>reads and writes of byte buffers\<close>
named_theorems codec_simps \<open>serialised forms of values\<close>
named_theorems state_simps \<open>projections of states after an operation\<close>

section \<open>Outcomes\<close>

text \<open>
  A routine of the storage daemon returns, or dies: a failed \<open>ASSERT\<close> aborts the daemon, and an
  access outside a buffer is undefined behaviour in C. Both are values of the model, so that a
  theorem can say that they do not happen.
\<close>

datatype failure = Assert_failed | Out_of_bounds

datatype 'a outcome = Ret 'a | Dies failure

fun bind_outcome :: "'a outcome \<Rightarrow> ('a \<Rightarrow> 'b outcome) \<Rightarrow> 'b outcome" where
  "bind_outcome (Ret x) f = f x"
| "bind_outcome (Dies e) f = Dies e"

definition from_option :: "failure \<Rightarrow> 'a option \<Rightarrow> 'a outcome" where
  "from_option e x = (case x of None \<Rightarrow> Dies e | Some y \<Rightarrow> Ret y)"

lemma from_option_simps [simp]:
  "from_option e None = Dies e"
  "from_option e (Some y) = Ret y"
  by (simp_all add: from_option_def)

lemma bind_outcome_Ret_iff:
  "bind_outcome x f = Ret y \<longleftrightarrow> (\<exists>z. x = Ret z \<and> f z = Ret y)"
  by (cases x) auto

section \<open>Byte buffers\<close>

text \<open>
  A buffer is the list of its bytes and a pointer into it is an offset. \<open>mem_write\<close> is
  \<open>memcpy\<close> into the buffer, \<open>mem_read\<close> is \<open>memcpy\<close> out of it; both are \<open>None\<close> when the access
  leaves the buffer.
\<close>

definition mem_write :: "'a list \<Rightarrow> nat \<Rightarrow> 'a list \<Rightarrow> 'a list option" where
  "mem_write buf off bs =
     (if off + length bs \<le> length buf
      then Some (take off buf @ bs @ drop (off + length bs) buf) else None)"

definition mem_read :: "'a list \<Rightarrow> nat \<Rightarrow> nat \<Rightarrow> 'a list option" where
  "mem_read buf off n =
     (if off + n \<le> length buf then Some (take n (drop off buf)) else None)"

lemma mem_write_length [buf_simps]:
  "mem_write buf off bs = Some buf' \<Longrightarrow> length buf' = length buf"
  by (auto simp: mem_write_def split: if_splits)

lemma mem_write_SomeI:
  "off + length bs \<le> length buf \<Longrightarrow>
     mem_write buf off bs = Some (take off buf @ bs @ drop (off + length bs) buf)"
  by (simp add: mem_write_def)

lemma mem_write_Nil [simp]: "off \<le> length buf \<Longrightarrow> mem_write buf off [] = Some buf"
  by (simp add: mem_write_def)

text \<open>Two adjacent writes are one write of the concatenation.\<close>

lemma mem_write_append:
  "Option.bind (mem_write buf off xs) (\<lambda>b. mem_write b (off + length xs) ys)
     = mem_write buf off (xs @ ys)"
  by (auto simp: mem_write_def add.assoc add.commute add.left_commute)

lemma mem_write_prefix:
  "mem_write buf off bs = Some buf' \<Longrightarrow> n \<le> off \<Longrightarrow> take n buf' = take n buf"
  by (auto simp: mem_write_def split: if_splits)

lemma mem_write_suffix:
  "mem_write buf off bs = Some buf' \<Longrightarrow> off + length bs \<le> n \<Longrightarrow> drop n buf' = drop n buf"
  by (auto simp: mem_write_def split: if_splits)

lemma mem_write_at:
  "mem_write buf off bs = Some buf' \<Longrightarrow> take (length bs) (drop off buf') = bs"
  by (auto simp: mem_write_def split: if_splits)

lemma mem_write_take_upto:
  "mem_write buf off bs = Some buf' \<Longrightarrow> take (off + length bs) buf' = take off buf @ bs"
  by (auto simp: mem_write_def split: if_splits)

lemma mem_read_write_same:
  "mem_write buf off bs = Some buf' \<Longrightarrow> mem_read buf' off (length bs) = Some bs"
  by (auto simp: mem_write_def mem_read_def split: if_splits)

lemma mem_read_Some_length:
  "mem_read buf off n = Some bs \<Longrightarrow> length bs = n"
  by (auto simp: mem_read_def split: if_splits)

section \<open>Words as bytes\<close>

text \<open>\<open>le_bytes n w\<close>: the \<open>n\<close> low-order bytes of a word, least significant first.\<close>

definition le_bytes :: "nat \<Rightarrow> 'a::len word \<Rightarrow> byte list" where
  "le_bytes n w = map (\<lambda>i. ucast (drop_bit (8 * i) w)) [0..<n]"

fun of_le_bytes :: "byte list \<Rightarrow> 'a::len word" where
  "of_le_bytes [] = 0"
| "of_le_bytes (b # bs) = ucast b OR push_bit 8 (of_le_bytes bs)"

lemma length_le_bytes [simp]: "length (le_bytes n w) = n"
  by (simp add: le_bytes_def)

lemma bit_of_le_bytes:
  "bit (of_le_bytes bs :: 'a::len word) k \<longleftrightarrow>
     k < LENGTH('a) \<and> k div 8 < length bs \<and> bit (bs ! (k div 8)) (k mod 8)"
proof (induction bs arbitrary: k)
  case Nil
  then show ?case by simp
next
  case (Cons b bs)
  show ?case
  proof (cases "k < 8")
    case True
    then show ?thesis by (auto simp: bit_or_iff bit_push_bit_iff bit_unsigned_iff)
  next
    case False
    then have "k div 8 = Suc ((k - 8) div 8)" "(k - 8) mod 8 = k mod 8"
      by (simp_all add: le_div_geq le_mod_geq)
    with False show ?thesis
      using bit_imp_le_length [of b k] Cons.IH [of "k - 8"]
      by (auto simp: bit_or_iff bit_push_bit_iff bit_unsigned_iff)
  qed
qed

lemma of_le_bytes_le_bytes:
  fixes w :: "'a::len word"
  assumes "8 * n = LENGTH('a)"
  shows "of_le_bytes (le_bytes n w) = w"
proof (rule bit_eqI)
  fix k assume "possible_bit TYPE('a word) k"
  then have k: "k < LENGTH('a)" by simp
  then have "k div 8 < n" using assms by linarith
  with k show "bit (of_le_bytes (le_bytes n w) :: 'a word) k \<longleftrightarrow> bit w k"
    by (simp add: bit_of_le_bytes le_bytes_def bit_unsigned_iff bit_drop_bit_eq)
qed

lemma le_bytes_of_le_bytes:
  assumes "8 * length bs = LENGTH('a::len)"
  shows "le_bytes (length bs) (of_le_bytes bs :: 'a word) = bs"
proof (rule nth_equalityI)
  show "length (le_bytes (length bs) (of_le_bytes bs :: 'a word)) = length bs" by simp
next
  fix i assume "i < length (le_bytes (length bs) (of_le_bytes bs :: 'a word))"
  then have i: "i < length bs" by simp
  show "le_bytes (length bs) (of_le_bytes bs :: 'a word) ! i = bs ! i"
  proof (rule bit_eqI)
    fix k assume "possible_bit TYPE(8 word) k"
    then have k: "k < 8" by simp
    then have "8 * i + k < LENGTH('a)" "(8 * i + k) div 8 = i" "(8 * i + k) mod 8 = k"
      using i assms by auto
    with i k show "bit (le_bytes (length bs) (of_le_bytes bs :: 'a word) ! i) k \<longleftrightarrow> bit (bs ! i) k"
      by (simp add: le_bytes_def bit_of_le_bytes bit_unsigned_iff bit_drop_bit_eq)
  qed
qed

lemma of_le_bytes_inj:
  assumes "length bs = length bs'" and "8 * length bs \<le> LENGTH('a::len)"
    and eq: "(of_le_bytes bs :: 'a word) = of_le_bytes bs'"
  shows "bs = bs'"
proof (rule nth_equalityI)
  fix i assume i: "i < length bs"
  show "bs ! i = bs' ! i"
  proof (rule bit_eqI)
    fix k assume "possible_bit TYPE(8 word) k"
    then have k: "k < 8" by simp
    then have "8 * i + k < LENGTH('a)" "(8 * i + k) div 8 = i" "(8 * i + k) mod 8 = k"
      using i assms(2) by auto
    then show "bit (bs ! i) k \<longleftrightarrow> bit (bs' ! i) k"
      using arg_cong [OF eq, of "\<lambda>w. bit w (8 * i + k)"] i assms(1) by (simp add: bit_of_le_bytes)
  qed
qed (rule assms(1))

section \<open>Word arithmetic without wrap-around\<close>

lemma unat_sub_no_wrap:
  fixes a b :: "'a::len word"
  shows "b \<le> a \<Longrightarrow> unat (a - b) = unat a - unat b"
  by (rule unat_sub)

lemma unat_add_no_wrap:
  fixes a b :: "'a::len word"
  shows "unat a + unat b < 2 ^ LENGTH('a) \<Longrightarrow> unat (a + b) = unat a + unat b"
  by (simp add: unat_word_ariths)

lemma unat_of_nat_small:
  "n < 2 ^ LENGTH('a::len) \<Longrightarrow> unat (of_nat n :: 'a word) = n"
  by (simp add: unat_of_nat take_bit_nat_eq_self)

section \<open>Signed integers\<close>

text \<open>The value of a 32-bit \<open>int\<close>, and its conversion to a 64-bit \<open>size_t\<close>.\<close>

lemma sint_cases:
  fixes w :: "32 word"
  shows "sint w = (if unat w < 2 ^ 31 then int (unat w) else int (unat w) - 2 ^ 32)"
proof -
  define n where "n = unat w"
  have u: "uint w = int n" and lt: "n < 2 ^ 32"
    using unsigned_less [of w, where 'a = nat] by (simp_all add: n_def)
  have s: "sint w = (int n + 2 ^ 31) mod 2 ^ 32 - 2 ^ 31"
    by (simp add: sint_uint signed_take_bit_eq_take_bit_shift take_bit_eq_mod u)
  have "(int n + 2 ^ 31) mod 2 ^ 32 = (if n < 2 ^ 31 then int n + 2 ^ 31 else int n + 2 ^ 31 - 2 ^ 32)"
  proof (cases "n < 2 ^ 31")
    case True
    then show ?thesis by simp
  next
    case False
    then have "(int n + 2 ^ 31 - 2 ^ 32) mod 2 ^ 32 = int n + 2 ^ 31 - 2 ^ 32"
      using lt by (intro mod_pos_pos_trivial) simp_all
    then show ?thesis using False by (metis minus_mod_self2)
  qed
  then show ?thesis unfolding n_def [symmetric] s by simp
qed

lemma unat_scast_64:
  fixes w :: "32 word"
  shows "unat (scast w :: 64 word) = (if unat w < 2 ^ 31 then unat w else unat w + (2 ^ 64 - 2 ^ 32))"
proof -
  define n where "n = unat w"
  have lt: "n < 2 ^ 32" using unsigned_less [of w, where 'a = nat] by (simp add: n_def)
  have "int (unat (scast w :: 64 word)) = sint w mod 2 ^ 64"
    by (simp only: scast_eq uint_word_of_int uint_nat [symmetric]) simp
  also have "\<dots> = int (if n < 2 ^ 31 then n else n + (2 ^ 64 - 2 ^ 32))"
    unfolding sint_cases n_def [symmetric]
  proof (cases "n < 2 ^ 31")
    case False
    have "(int n - 2 ^ 32 + 2 ^ 64) mod 2 ^ 64 = int n - 2 ^ 32 + 2 ^ 64"
      using lt by (intro mod_pos_pos_trivial) simp_all
    then have "(int n - 2 ^ 32) mod 2 ^ 64 = int n - 2 ^ 32 + 2 ^ 64"
      by (simp only: mod_add_self2)
    then show "(if n < 2 ^ 31 then int n else int n - 2 ^ 32) mod 2 ^ 64 =
        int (if n < 2 ^ 31 then n else n + (2 ^ 64 - 2 ^ 32))" using False by simp
  qed simp
  finally show ?thesis by (simp only: of_nat_eq_iff n_def)
qed
end
