(* ===== verification/Serial.thy ===== *)
theory Serial
  imports Prelude
begin

text \<open>
  The serialisation routines of \<^verbatim>\<open>lib/serial.c\<close> and the macros of \<^verbatim>\<open>lib/serial.h\<close>: integers go to
  the volume in network byte order, strings with their terminating zero. The pointer \<open>ser_ptr\<close> of
  the C code is a cursor, the buffer it points into with an offset; a write or a read outside the
  buffer is \<open>None\<close>. The routines take the byte order of the host (\<open>bigendian()\<close>) as an argument,
  and the theory shows that what they write does not depend on it.
\<close>

section \<open>The host's view of an integer\<close>

type_synonym cursor = "byte list \<times> nat"

text \<open>The bytes of an \<open>n\<close>-byte integer object in memory, and \<open>htons\<close>/\<open>htonl\<close>.\<close>

definition host_bytes :: "bool \<Rightarrow> nat \<Rightarrow> 'a::len word \<Rightarrow> byte list" where
  "host_bytes be n v = (if be then rev (le_bytes n v) else le_bytes n v)"

definition of_host_bytes :: "bool \<Rightarrow> byte list \<Rightarrow> 'a::len word" where
  "of_host_bytes be bs = of_le_bytes (if be then rev bs else bs)"

definition hton :: "bool \<Rightarrow> nat \<Rightarrow> 'a::len word \<Rightarrow> 'a word" where
  "hton be n v = (if be then v else of_le_bytes (rev (le_bytes n v)))"

text \<open>\<open>memcpy(*ptr, src, n); *ptr += n\<close> and its inverse.\<close>

definition put_bytes :: "byte list \<Rightarrow> cursor \<Rightarrow> cursor option" where
  "put_bytes bs c =
     (case c of (buf, p) \<Rightarrow> map_option (\<lambda>b. (b, p + length bs)) (mem_write buf p bs))"

definition get_bytes :: "nat \<Rightarrow> cursor \<Rightarrow> (byte list \<times> cursor) option" where
  "get_bytes n c =
     (case c of (buf, p) \<Rightarrow> map_option (\<lambda>bs. (bs, (buf, p + n))) (mem_read buf p n))"

section \<open>Serialisation\<close>

definition serial_int16 :: "bool \<Rightarrow> int16_t \<Rightarrow> cursor \<Rightarrow> cursor option" where
  "serial_int16 be v = (let vo = hton be 2 v in put_bytes (host_bytes be 2 vo))"

definition serial_uint16 :: "bool \<Rightarrow> uint16_t \<Rightarrow> cursor \<Rightarrow> cursor option" where
  "serial_uint16 be v = (let vo = hton be 2 v in put_bytes (host_bytes be 2 vo))"

definition serial_int32 :: "bool \<Rightarrow> int32_t \<Rightarrow> cursor \<Rightarrow> cursor option" where
  "serial_int32 be v = (let vo = hton be 4 v in put_bytes (host_bytes be 4 vo))"

definition serial_uint32 :: "bool \<Rightarrow> uint32_t \<Rightarrow> cursor \<Rightarrow> cursor option" where
  "serial_uint32 be v = (let vo = hton be 4 v in put_bytes (host_bytes be 4 vo))"

text \<open>The 64-bit routines reverse the bytes themselves when the host is little-endian.\<close>

definition serial_int64 :: "bool \<Rightarrow> int64_t \<Rightarrow> cursor \<Rightarrow> cursor option" where
  "serial_int64 be v =
     (if be then put_bytes (host_bytes be 8 v)
      else (let pv = host_bytes be 8 v; rv = map (\<lambda>i. pv ! (7 - i)) [0..<8] in put_bytes rv))"

definition serial_uint64 :: "bool \<Rightarrow> uint64_t \<Rightarrow> cursor \<Rightarrow> cursor option" where
  "serial_uint64 be v =
     (if be then put_bytes (host_bytes be 8 v)
      else (let pv = host_bytes be 8 v; rv = map (\<lambda>i. pv ! (7 - i)) [0..<8] in put_bytes rv))"

definition serial_btime :: "bool \<Rightarrow> int64_t \<Rightarrow> cursor \<Rightarrow> cursor option" where
  "serial_btime be v =
     (if be then put_bytes (host_bytes be 8 v)
      else (let pv = host_bytes be 8 v; rv = map (\<lambda>i. pv ! (7 - i)) [0..<8] in put_bytes rv))"

text \<open>A \<open>float64_t\<close> is its 64-bit IEEE pattern: the code only moves its bytes.\<close>

definition serial_float64 :: "bool \<Rightarrow> uint64_t \<Rightarrow> cursor \<Rightarrow> cursor option" where
  "serial_float64 be v =
     (if be then put_bytes (host_bytes be 8 v)
      else (let pv = host_bytes be 8 v; rv = map (\<lambda>i. pv ! (7 - i)) [0..<8] in put_bytes rv))"

text \<open>
  \<open>serial_string\<close> copies the bytes of the array at \<open>str\<close> up to its first zero and a zero after
  them. An array with no zero in it is read past its end.
\<close>

fun serial_string :: "byte list \<Rightarrow> cursor \<Rightarrow> cursor option" where
  "serial_string [] c = None"
| "serial_string (x # xs) c =
     (if x = 0 then put_bytes [0] c else Option.bind (put_bytes [x] c) (serial_string xs))"

section \<open>Unserialisation\<close>

definition unserial_int16 :: "bool \<Rightarrow> cursor \<Rightarrow> (int16_t \<times> cursor) option" where
  "unserial_int16 be c =
     map_option (\<lambda>(bs, c'). (hton be 2 (of_host_bytes be bs), c')) (get_bytes 2 c)"

definition unserial_uint16 :: "bool \<Rightarrow> cursor \<Rightarrow> (uint16_t \<times> cursor) option" where
  "unserial_uint16 be c =
     map_option (\<lambda>(bs, c'). (hton be 2 (of_host_bytes be bs), c')) (get_bytes 2 c)"

definition unserial_int32 :: "bool \<Rightarrow> cursor \<Rightarrow> (int32_t \<times> cursor) option" where
  "unserial_int32 be c =
     map_option (\<lambda>(bs, c'). (hton be 4 (of_host_bytes be bs), c')) (get_bytes 4 c)"

definition unserial_uint32 :: "bool \<Rightarrow> cursor \<Rightarrow> (uint32_t \<times> cursor) option" where
  "unserial_uint32 be c =
     map_option (\<lambda>(bs, c'). (hton be 4 (of_host_bytes be bs), c')) (get_bytes 4 c)"

definition unserial_int64 :: "bool \<Rightarrow> cursor \<Rightarrow> (int64_t \<times> cursor) option" where
  "unserial_int64 be c =
     map_option (\<lambda>(bs, c'). (of_host_bytes be
        (if be then bs else map (\<lambda>i. bs ! (7 - i)) [0..<8]), c')) (get_bytes 8 c)"

definition unserial_uint64 :: "bool \<Rightarrow> cursor \<Rightarrow> (uint64_t \<times> cursor) option" where
  "unserial_uint64 be c =
     map_option (\<lambda>(bs, c'). (of_host_bytes be
        (if be then bs else map (\<lambda>i. bs ! (7 - i)) [0..<8]), c')) (get_bytes 8 c)"

definition unserial_btime :: "bool \<Rightarrow> cursor \<Rightarrow> (int64_t \<times> cursor) option" where
  "unserial_btime be c =
     map_option (\<lambda>(bs, c'). (of_host_bytes be
        (if be then bs else map (\<lambda>i. bs ! (7 - i)) [0..<8]), c')) (get_bytes 8 c)"

definition unserial_float64 :: "bool \<Rightarrow> cursor \<Rightarrow> (uint64_t \<times> cursor) option" where
  "unserial_float64 be c =
     map_option (\<lambda>(bs, c'). (of_host_bytes be
        (if be then bs else map (\<lambda>i. bs ! (7 - i)) [0..<8]), c')) (get_bytes 8 c)"

text \<open>
  \<open>unserial_string\<close> fills the array \<open>dest\<close>: the loop copies while \<open>i < max\<close> and the source byte is
  not zero, then stores a zero at \<open>dest[i]\<close> and advances the pointer by \<open>i + 1\<close>.
\<close>

function unserial_string_loop ::
    "byte list \<Rightarrow> byte list \<Rightarrow> nat \<Rightarrow> nat \<Rightarrow> nat \<Rightarrow> (byte list \<times> nat) option" where
  "unserial_string_loop dest buf p i maxlen =
     (if i < maxlen then
        (if p + i < length buf then
           (if buf ! (p + i) \<noteq> 0 then
              (if i < length dest
               then unserial_string_loop (dest[i := buf ! (p + i)]) buf p (Suc i) maxlen
               else None)
            else Some (dest, i))
         else None)
      else Some (dest, i))"
  by pat_completeness auto
termination
  by (relation "measure (\<lambda>(dest, buf, p, i, maxlen). maxlen - i)") auto

declare unserial_string_loop.simps [simp del]

definition unserial_string :: "nat \<Rightarrow> byte list \<Rightarrow> cursor \<Rightarrow> (byte list \<times> cursor) option" where
  "unserial_string maxlen dest c =
     (case c of (buf, p) \<Rightarrow>
        Option.bind (unserial_string_loop dest buf p 0 maxlen) (\<lambda>(d, i).
          if i < length d then Some (d[i := 0], (buf, p + i + 1)) else None))"

text \<open>
  The macros. \<open>unser_string(x)\<close> passes \<open>sizeof(x)\<close>, the whole length of the array, as \<open>max\<close>.
  They are stated for a little-endian host; the theorems below show that the choice of the host
  makes no difference to the bytes written or to the values read.
\<close>

abbreviation ser_int32 :: "int32_t \<Rightarrow> cursor \<Rightarrow> cursor option" where
  "ser_int32 \<equiv> serial_int32 False"
abbreviation ser_uint32 :: "uint32_t \<Rightarrow> cursor \<Rightarrow> cursor option" where
  "ser_uint32 \<equiv> serial_uint32 False"
abbreviation ser_uint64 :: "uint64_t \<Rightarrow> cursor \<Rightarrow> cursor option" where
  "ser_uint64 \<equiv> serial_uint64 False"
abbreviation ser_btime :: "int64_t \<Rightarrow> cursor \<Rightarrow> cursor option" where
  "ser_btime \<equiv> serial_btime False"
abbreviation ser_float64 :: "uint64_t \<Rightarrow> cursor \<Rightarrow> cursor option" where
  "ser_float64 \<equiv> serial_float64 False"
abbreviation ser_string :: "byte list \<Rightarrow> cursor \<Rightarrow> cursor option" where
  "ser_string \<equiv> serial_string"
abbreviation ser_bytes :: "byte list \<Rightarrow> cursor \<Rightarrow> cursor option" where
  "ser_bytes \<equiv> put_bytes"
abbreviation unser_int32 :: "cursor \<Rightarrow> (int32_t \<times> cursor) option" where
  "unser_int32 \<equiv> unserial_int32 False"
abbreviation unser_uint32 :: "cursor \<Rightarrow> (uint32_t \<times> cursor) option" where
  "unser_uint32 \<equiv> unserial_uint32 False"
abbreviation unser_uint64 :: "cursor \<Rightarrow> (uint64_t \<times> cursor) option" where
  "unser_uint64 \<equiv> unserial_uint64 False"
abbreviation unser_btime :: "cursor \<Rightarrow> (int64_t \<times> cursor) option" where
  "unser_btime \<equiv> unserial_btime False"
abbreviation unser_float64 :: "cursor \<Rightarrow> (uint64_t \<times> cursor) option" where
  "unser_float64 \<equiv> unserial_float64 False"
abbreviation unser_bytes :: "nat \<Rightarrow> cursor \<Rightarrow> (byte list \<times> cursor) option" where
  "unser_bytes \<equiv> get_bytes"

definition unser_string :: "byte list \<Rightarrow> cursor \<Rightarrow> (byte list \<times> cursor) option" where
  "unser_string dest = unserial_string (length dest) dest"


section \<open>The contract of a codec\<close>

text \<open>
  A codec is a writer and a reader of values of one type that agree on the bytes \<open>enc v\<close>: the writer
  stores them at the pointer and moves behind them, and the reader, finding them, returns the value
  and moves behind them. The clients (headers and labels) are proved against these two laws.
\<close>

definition be_bytes :: "nat \<Rightarrow> 'a::len word \<Rightarrow> byte list" where
  "be_bytes n v = rev (le_bytes n v)"

lemma length_be_bytes [simp]: "length (be_bytes n v) = n"
  by (simp add: be_bytes_def)

text \<open>
  The reader inverts the writer at every offset, and both move by the width; with too little room
  the writer refuses.
\<close>

definition roundtrips ::
    "('v \<Rightarrow> cursor \<Rightarrow> cursor option) \<Rightarrow> (cursor \<Rightarrow> ('v \<times> cursor) option) \<Rightarrow> nat \<Rightarrow> bool" where
  "roundtrips wr rd w \<longleftrightarrow>
     (\<forall>v buf p. case wr v (buf, p) of
        None \<Rightarrow> length buf < p + w
      | Some (b, q) \<Rightarrow> q = p + w \<and> q \<le> length buf \<and> rd (b, p) = Some (v, (b, q)))"

locale codec =
  fixes put :: "'a \<Rightarrow> cursor \<Rightarrow> cursor option"
    and get :: "cursor \<Rightarrow> ('a \<times> cursor) option"
    and enc :: "'a \<Rightarrow> byte list"
  assumes put_enc: "put v (buf, p) = put_bytes (enc v) (buf, p)"
    and get_enc: "mem_read buf p (length (enc v)) = Some (enc v) \<Longrightarrow>
          get (buf, p) = Some (v, (buf, p + length (enc v)))"
begin

lemma put_SomeI:
  "p + length (enc v) \<le> length buf \<Longrightarrow>
     put v (buf, p) = Some (take p buf @ enc v @ drop (p + length (enc v)) buf, p + length (enc v))"
  by (simp add: put_enc put_bytes_def mem_write_def)

lemma put_NoneI: "length buf < p + length (enc v) \<Longrightarrow> put v (buf, p) = None"
  by (simp add: put_enc put_bytes_def mem_write_def)

lemma put_then_get:
  assumes "put v (buf, p) = Some (buf', q)"
  shows "get (buf', p) = Some (v, (buf', q))"
proof -
  from assms have "mem_write buf p (enc v) = Some buf'" and q: "q = p + length (enc v)"
    by (auto simp: put_enc put_bytes_def)
  then have "mem_read buf' p (length (enc v)) = Some (enc v)"
    by (intro mem_read_write_same)
  with q show ?thesis by (simp add: get_enc)
qed

text \<open>Reading at a place where the encoding stands, whatever stands around it.\<close>

lemma get_in_context:
  "get (pre @ enc v @ post, length pre) = Some (v, (pre @ enc v @ post, length pre + length (enc v)))"
  by (rule get_enc) (simp add: mem_read_def)

lemma enc_inj: "enc v = enc w \<Longrightarrow> v = w"
  using get_in_context [of "[]" v "[]"] get_in_context [of "[]" w "[]"] by simp

end

text \<open>A codec of a fixed width always reads when there is room.\<close>

locale fixed_codec = codec +
  fixes width :: nat
  assumes length_enc: "length (enc v) = width"
    and get_total: "p + width \<le> length buf \<Longrightarrow> \<exists>v. get (buf, p) = Some (v, (buf, p + width))"
    and get_short: "length buf < p + width \<Longrightarrow> get (buf, p) = None"
begin

lemma put_defined_iff: "(\<exists>c. put v (buf, p) = Some c) \<longleftrightarrow> p + width \<le> length buf"
  by (auto simp: put_enc put_bytes_def mem_write_def length_enc)

lemma put_moves: "put v (buf, p) = Some (buf', q) \<Longrightarrow> q = p + width \<and> length buf' = length buf"
  by (auto simp: put_enc put_bytes_def mem_write_def length_enc split: if_splits)

lemma put_get_roundtrips: "roundtrips put get width"
  unfolding roundtrips_def
proof (intro allI)
  fix v buf p
  show "case put v (buf, p) of None \<Rightarrow> length buf < p + width
    | Some (b, q) \<Rightarrow> q = p + width \<and> q \<le> length buf \<and> get (b, p) = Some (v, (b, q))"
  proof (cases "put v (buf, p)")
    case None
    then show ?thesis using put_defined_iff [of v buf p] by auto
  next
    case (Some c)
    then show ?thesis
      using put_moves [of v buf p] put_then_get [of v buf p] put_defined_iff [of v buf p]
      by (cases c) auto
  qed
qed

end

section \<open>The integer codecs\<close>

lemma rev8_by_index:
  "length pv = 8 \<Longrightarrow> map (\<lambda>i. pv ! (7 - i)) [0..<8] = rev pv"
  by (rule nth_equalityI) (simp_all add: rev_nth)

lemma put_bytes_cases:
  "put_bytes bs (buf, p) = map_option (\<lambda>b. (b, p + length bs)) (mem_write buf p bs)"
  by (simp add: put_bytes_def)

lemma host_bytes_hton:
  fixes v :: "'a::len word"
  assumes "8 * n = LENGTH('a)"
  shows "host_bytes be n (hton be n v) = be_bytes n v"
proof (cases be)
  case True
  then show ?thesis by (simp add: host_bytes_def hton_def be_bytes_def)
next
  case False
  have "le_bytes (length (rev (le_bytes n v))) (of_le_bytes (rev (le_bytes n v)) :: 'a word)
          = rev (le_bytes n v)"
    using assms by (intro le_bytes_of_le_bytes) simp
  with False show ?thesis by (simp add: host_bytes_def hton_def be_bytes_def)
qed

lemma hton_of_host_bytes:
  assumes "8 * n = LENGTH('a::len)" "length bs = n"
  shows "hton be n (of_host_bytes be bs :: 'a word) = of_le_bytes (rev bs)"
proof (cases be)
  case True
  then show ?thesis by (simp add: of_host_bytes_def hton_def)
next
  case False
  have "le_bytes n (of_le_bytes bs :: 'a word) = bs"
    using assms le_bytes_of_le_bytes [of bs, where 'a = 'a] by simp
  with False show ?thesis by (simp add: of_host_bytes_def hton_def)
qed

text \<open>What every integer writer does, on either host: network byte order at the pointer.\<close>

lemma serial_int_put [codec_simps]:
  "serial_int16 be v1 = put_bytes (be_bytes 2 v1)"
  "serial_uint16 be v2 = put_bytes (be_bytes 2 v2)"
  "serial_int32 be v3 = put_bytes (be_bytes 4 v3)"
  "serial_uint32 be v4 = put_bytes (be_bytes 4 v4)"
  unfolding serial_int16_def serial_uint16_def serial_int32_def serial_uint32_def Let_def
  by (simp_all add: host_bytes_hton)

lemma serial_int64_put [codec_simps]:
  "serial_int64 be v5 = put_bytes (be_bytes 8 v5)"
  "serial_uint64 be v6 = put_bytes (be_bytes 8 v6)"
  "serial_btime be v7 = put_bytes (be_bytes 8 v7)"
  "serial_float64 be v8 = put_bytes (be_bytes 8 v8)"
  unfolding serial_int64_def serial_uint64_def serial_btime_def serial_float64_def Let_def
  by (simp_all add: rev8_by_index host_bytes_def be_bytes_def)

text \<open>What every integer reader does, on either host.\<close>

definition get_be :: "nat \<Rightarrow> cursor \<Rightarrow> ('a::len word \<times> cursor) option" where
  "get_be n c = map_option (\<lambda>(bs, c'). (of_le_bytes (rev bs), c')) (get_bytes n c)"

lemma get_bytes_map_cong:
  assumes "\<And>bs. length bs = n \<Longrightarrow> f bs = g bs"
  shows "map_option (\<lambda>(bs, c'). (f bs, c')) (get_bytes n c) =
         map_option (\<lambda>(bs, c'). (g bs, c')) (get_bytes n c)"
  using assms by (cases c) (auto simp: get_bytes_def mem_read_def)

lemma unserial_int_get [codec_simps]:
  "unserial_int16 be c = get_be 2 c"
  "unserial_uint16 be c = get_be 2 c"
  "unserial_int32 be c = get_be 4 c"
  "unserial_uint32 be c = get_be 4 c"
  unfolding unserial_int16_def unserial_uint16_def unserial_int32_def unserial_uint32_def get_be_def
  by (rule get_bytes_map_cong, simp add: hton_of_host_bytes)+

lemma unserial_int64_get [codec_simps]:
  "unserial_int64 be c = get_be 8 c"
  "unserial_uint64 be c = get_be 8 c"
  "unserial_btime be c = get_be 8 c"
  "unserial_float64 be c = get_be 8 c"
  unfolding unserial_int64_def unserial_uint64_def unserial_btime_def unserial_float64_def get_be_def
  by (rule get_bytes_map_cong, simp add: of_host_bytes_def rev8_by_index)+

lemma fixed_codec_be:
  assumes "8 * n = LENGTH('a::len)"
  shows "fixed_codec (\<lambda>v :: 'a word. put_bytes (be_bytes n v)) (get_be n) (be_bytes n) n"
proof unfold_locales
  fix v :: "'a word" and buf p
  assume "mem_read buf p (length (be_bytes n v)) = Some (be_bytes n v)"
  then show "get_be n (buf, p) = Some (v, buf, p + length (be_bytes n v))"
    using assms by (simp add: get_be_def get_bytes_def be_bytes_def of_le_bytes_le_bytes)
qed (auto simp: get_be_def get_bytes_def mem_read_def)

interpretation s16: fixed_codec "serial_int16 be" "unserial_int16 be" "be_bytes 2" 2 for be
  using fixed_codec_be [of 2, where 'a = 16] by (simp add: codec_simps [abs_def])

interpretation u16: fixed_codec "serial_uint16 be" "unserial_uint16 be" "be_bytes 2" 2 for be
  using fixed_codec_be [of 2, where 'a = 16] by (simp add: codec_simps [abs_def])

interpretation s32: fixed_codec "serial_int32 be" "unserial_int32 be" "be_bytes 4" 4 for be
  using fixed_codec_be [of 4, where 'a = 32] by (simp add: codec_simps [abs_def])

interpretation u32: fixed_codec "serial_uint32 be" "unserial_uint32 be" "be_bytes 4" 4 for be
  using fixed_codec_be [of 4, where 'a = 32] by (simp add: codec_simps [abs_def])

interpretation s64: fixed_codec "serial_int64 be" "unserial_int64 be" "be_bytes 8" 8 for be
  using fixed_codec_be [of 8, where 'a = 64] by (simp add: codec_simps [abs_def])

interpretation u64: fixed_codec "serial_uint64 be" "unserial_uint64 be" "be_bytes 8" 8 for be
  using fixed_codec_be [of 8, where 'a = 64] by (simp add: codec_simps [abs_def])

interpretation bt: fixed_codec "serial_btime be" "unserial_btime be" "be_bytes 8" 8 for be
  using fixed_codec_be [of 8, where 'a = 64] by (simp add: codec_simps [abs_def])

interpretation f64: fixed_codec "serial_float64 be" "unserial_float64 be" "be_bytes 8" 8 for be
  using fixed_codec_be [of 8, where 'a = 64] by (simp add: codec_simps [abs_def])

section \<open>Strings\<close>

lemma put_bytes_append:
  "Option.bind (put_bytes xs c) (put_bytes ys) = put_bytes (xs @ ys) c"
proof (cases c)
  case (Pair buf p)
  have "Option.bind (put_bytes xs (buf, p)) (put_bytes ys) =
      map_option (\<lambda>b. (b, p + length (xs @ ys)))
        (Option.bind (mem_write buf p xs) (\<lambda>b. mem_write b (p + length xs) ys))"
    by (cases "mem_write buf p xs") (simp_all add: put_bytes_cases add.assoc)
  then show ?thesis using Pair by (simp only: mem_write_append put_bytes_cases)
qed

text \<open>A chain of writes is one write of everything; a read finds what stands at the pointer.\<close>

lemma put_bytes_bind:
  "Option.bind (put_bytes xs c) (\<lambda>c'. Option.bind (put_bytes ys c') f) = Option.bind (put_bytes (xs @ ys) c) f"
  by (simp add: put_bytes_append [symmetric])

lemma put_bytes_at: 
  "p + length bs \<le> length b \<Longrightarrow>
     put_bytes bs (b, p) = Some (take p b @ bs @ drop (p + length bs) b, p + length bs)"
  by (simp add: put_bytes_cases mem_write_def)

lemma get_bytes_at:
  assumes "take n (drop p b) = bs" and "length bs = n" and "0 < n"
  shows "get_bytes n (b, p) = Some (bs, (b, p + n))"
proof -
  have "length (take n (drop p b)) = n" using assms by simp
  then have "p + n \<le> length b" using assms(3) by (simp split: if_splits)
  with assms show ?thesis by (simp add: get_bytes_def mem_read_def)
qed

lemma get_be_at:
  fixes v :: "'a::len word"
  assumes "take n (drop p b) = be_bytes n v" and "8 * n = LENGTH('a)"
  shows "get_be n (b, p) = Some (v, (b, p + n))"
proof -
  have "0 < n" using assms(2) len_gt_0 [where 'a = 'a] by linarith
  with assms show ?thesis
    by (simp add: get_be_def get_bytes_at be_bytes_def of_le_bytes_le_bytes)
qed

lemma serial_string_put:
  "0 \<notin> set s \<Longrightarrow> serial_string (s @ 0 # rest) c = put_bytes (s @ [0]) c"
proof (induction s arbitrary: c)
  case Nil
  then show ?case by simp
next
  case (Cons x s)
  then have "serial_string ((x # s) @ 0 # rest) c
      = Option.bind (put_bytes [x] c) (put_bytes (s @ [0]))"
    by (auto cong: bind_option_cong)
  then show ?case by (simp only: put_bytes_append append_Cons append_Nil)
qed

text \<open>
  The copying loop, started in the middle: it copies the rest of a zero-free string that fits below
  the bound and stops at the zero after it.
\<close>

lemma unserial_string_loop_copies:
  assumes "take (length s + 1) (drop p buf) = s @ [0]" "0 \<notin> set s" "length s < maxlen"
    "length s \<le> length dest" "i \<le> length s" "p + length s < length buf"
  shows "unserial_string_loop (take i s @ drop i dest) buf p i maxlen
           = Some (s @ drop (length s) dest, length s)"
  using assms(5)
proof (induction "length s - i" arbitrary: i)
  case 0
  have "buf ! (p + length s) = take (length s + 1) (drop p buf) ! length s"
    using assms(6) by simp
  then have "buf ! (p + length s) = 0" by (simp only: assms(1) nth_append_length)
  with 0 assms(3,6) show ?case by (simp add: unserial_string_loop.simps)
next
  case (Suc n)
  then have i: "i < length s" by simp
  then have "buf ! (p + i) = take (length s + 1) (drop p buf) ! i"
    using assms(6) by simp
  then have b: "buf ! (p + i) = s ! i" using i by (simp only: assms(1) nth_append if_True)
  have nz: "s ! i \<noteq> 0" using assms(2) i by (metis nth_mem)
  have upd: "(take i s @ drop i dest)[i := s ! i] = take (Suc i) s @ drop (Suc i) dest"
    using i assms(4)
    by (simp add: list_update_append take_Suc_conv_app_nth Cons_nth_drop_Suc [symmetric])
  have "unserial_string_loop (take (Suc i) s @ drop (Suc i) dest) buf p (Suc i) maxlen
          = Some (s @ drop (length s) dest, length s)"
    using Suc i by (intro Suc.hyps(1)) simp_all
  then show ?case
    using i assms(3,4,6) b nz upd by (subst unserial_string_loop.simps) simp
qed

lemma unserial_string_copies:
  assumes "take (length s + 1) (drop p buf) = s @ [0]" "0 \<notin> set s" "length s < maxlen"
    "length s < length dest" "p + length s < length buf"
  shows "unserial_string maxlen dest (buf, p)
           = Some (s @ 0 # drop (Suc (length s)) dest, (buf, p + length s + 1))"
proof -
  have "unserial_string_loop dest buf p 0 maxlen = Some (s @ drop (length s) dest, length s)"
    using unserial_string_loop_copies [OF assms(1-3), of dest 0] assms(4,5) by simp
  then show ?thesis
    using assms(4) by (simp add: unserial_string_def list_update_append Cons_nth_drop_Suc [symmetric])
qed

text \<open>With no zero among the first \<open>maxlen\<close> bytes the loop runs to the bound.\<close>

lemma unserial_string_loop_runs_full:
  assumes "p + maxlen \<le> length buf" "0 \<notin> set (take maxlen (drop p buf))" "i \<le> maxlen"
    "maxlen \<le> length dest"
  shows "\<exists>d. unserial_string_loop dest buf p i maxlen = Some (d, maxlen) \<and> length d = length dest"
  using assms(3,4)
proof (induction "maxlen - i" arbitrary: i dest)
  case 0
  then show ?case by (simp add: unserial_string_loop.simps)
next
  case (Suc n)
  then have i: "i < maxlen" by simp
  then have "buf ! (p + i) \<in> set (take maxlen (drop p buf))"
    using assms(1) by (auto simp: in_set_conv_nth intro!: exI [of _ i])
  then have "buf ! (p + i) \<noteq> 0" using assms(2) by auto
  moreover obtain d where "unserial_string_loop (dest[i := buf ! (p + i)]) buf p (Suc i) maxlen
      = Some (d, maxlen)" "length d = length dest"
  proof -
    have "n = maxlen - Suc i" using Suc.hyps(2) by simp
    then show thesis
      using Suc.hyps(1) [of "Suc i" "dest[i := buf ! (p + i)]"] Suc.prems i that by auto
  qed
  ultimately show ?case
    using i assms(1) Suc.prems by (subst unserial_string_loop.simps) auto
qed

section \<open>Properties\<close>


text \<open>
  A zero-free string that fits the destination array with its terminator comes back from
  \<open>unserial_string\<close> as \<open>serial_string\<close> wrote it, with the pointer behind the terminator on both
  sides and the rest of the array untouched.
\<close>

lemma serial_string_roundtrip:
  assumes "0 \<notin> set s" "length s < length dest" "p + length s < length buf"
  shows "\<exists>buf'. serial_string (s @ 0 # rest) (buf, p) = Some (buf', p + length s + 1)
    \<and> unser_string dest (buf', p)
        = Some (s @ 0 # drop (Suc (length s)) dest, (buf', p + length s + 1))"
proof -
  let ?b = "take p buf @ (s @ [0]) @ drop (p + length (s @ [0])) buf"
  have w: "mem_write buf p (s @ [0]) = Some ?b"
    using assms(3) by (intro mem_write_SomeI) simp
  then have "serial_string (s @ 0 # rest) (buf, p) = Some (?b, p + length s + 1)"
    using assms(1) by (simp add: serial_string_put put_bytes_cases)
  moreover have "take (length s + 1) (drop p ?b) = s @ [0]"
    using mem_write_at [OF w] by simp
  then have "unser_string dest (?b, p)
      = Some (s @ 0 # drop (Suc (length s)) dest, (?b, p + length s + 1))"
    using assms mem_write_length [OF w] unfolding unser_string_def
    by (intro unserial_string_copies) simp_all
  ultimately show ?thesis by blast
qed

lemma serial_string_example:
  "\<exists>buf'. serial_string ([0x56, 0x6f] @ 0 # []) ([0, 0, 0, 0, 0, 0], 1) = Some (buf', 1 + 2 + 1)
    \<and> unser_string [7, 7, 7, 7] (buf', 1) = Some ([0x56, 0x6f, 0, 7], (buf', 1 + 2 + 1))"
  using serial_string_roundtrip [of "[0x56, 0x6f]" "[7, 7, 7, 7]" 1 "[0, 0, 0, 0, 0, 0]" "[]"]
  by (simp del: serial_string.simps)

text \<open>
  C31: \<open>unser_string(x)\<close> passes the whole size of \<open>x\<close> as the bound, and the terminator is stored
  behind what was copied: on a source without a zero in its first \<open>sizeof(x)\<close> bytes the store is
  one byte behind the array.
\<close>

theorem unser_string_overruns:
  assumes "p + length dest \<le> length buf" "0 \<notin> set (take (length dest) (drop p buf))"
  shows "unser_string dest (buf, p) = None"
  using unserial_string_loop_runs_full [OF assms, of 0 dest]
  by (auto simp: unser_string_def unserial_string_def)

theorem unser_string_overruns_witness: "unser_string [0, 0] ([1, 1, 1, 1, 1], 1) = None"
  by (rule unser_string_overruns) simp_all

end
