(* ===== verification/Crc32.thy ===== *)
theory Crc32
  imports Crc32_Table Serial
begin

text \<open>
  The CRC32 routines of \<^verbatim>\<open>lib/bcrc32.c\<close>: the bitwise definition, the half-byte and byte table
  variants, and the slicing variants, among them \<open>bcrc32\<close>, the checksum of every block on a volume.
  All of them compute the same function, on hosts of either byte order, and that function detects
  every change confined to four consecutive bytes.
\<close>

section \<open>The algorithms\<close>

text \<open>\<open>swap\<close>: reverse the bytes of a 32-bit integer.\<close>

definition swap :: "uint32_t \<Rightarrow> uint32_t" where
  "swap x = drop_bit 24 x OR (drop_bit 8 x AND 0x0000FF00) OR (push_bit 8 x AND 0x00FF0000)
     OR push_bit 24 x"

fun crc32_bitwise_loop :: "uint32_t \<Rightarrow> byte list \<Rightarrow> uint32_t" where
  "crc32_bitwise_loop crc [] = crc"
| "crc32_bitwise_loop crc (b # bs) = crc32_bitwise_loop ((crc_bit ^^ 8) (crc XOR ucast b)) bs"

definition crc32_bitwise :: "byte list \<Rightarrow> uint32_t \<Rightarrow> uint32_t" where
  "crc32_bitwise data previousCrc32 = NOT (crc32_bitwise_loop (NOT previousCrc32) data)"

definition Crc32Lookup16 :: "uint32_t list" where
  "Crc32Lookup16 =
     [0x00000000, 0x1DB71064, 0x3B6E20C8, 0x26D930AC, 0x76DC4190, 0x6B6B51F4, 0x4DB26158, 0x5005713C,
      0xEDB88320, 0xF00F9344, 0xD6D6A3E8, 0xCB61B38C, 0x9B64C2B0, 0x86D3D2D4, 0xA00AE278, 0xBDBDF21C]"

fun crc32_halfbyte_loop :: "uint32_t \<Rightarrow> byte list \<Rightarrow> uint32_t" where
  "crc32_halfbyte_loop crc [] = crc"
| "crc32_halfbyte_loop crc (b # bs) =
     (let crc = Crc32Lookup16 ! unat ((crc XOR ucast b) AND 0x0F) XOR drop_bit 4 crc;
          crc = Crc32Lookup16 ! unat ((crc XOR ucast (drop_bit 4 b)) AND 0x0F) XOR drop_bit 4 crc
      in crc32_halfbyte_loop crc bs)"

definition crc32_halfbyte :: "byte list \<Rightarrow> uint32_t \<Rightarrow> uint32_t" where
  "crc32_halfbyte data previousCrc32 = NOT (crc32_halfbyte_loop (NOT previousCrc32) data)"

definition crc_lookup :: "nat \<Rightarrow> uint32_t \<Rightarrow> uint32_t" where
  "crc_lookup k i = Crc32Lookup ! k ! unat i"

fun crc32_1byte_loop :: "uint32_t \<Rightarrow> byte list \<Rightarrow> uint32_t" where
  "crc32_1byte_loop crc [] = crc"
| "crc32_1byte_loop crc (b # bs) =
     crc32_1byte_loop (drop_bit 8 crc XOR crc_lookup 0 ((crc AND 0xFF) XOR ucast b)) bs"

definition crc32_1byte :: "byte list \<Rightarrow> uint32_t \<Rightarrow> uint32_t" where
  "crc32_1byte data previousCrc32 = NOT (crc32_1byte_loop (NOT previousCrc32) data)"

text \<open>
  The slicing variants load whole 32-bit integers, in the byte order \<open>be\<close> of the host, and look the
  four bytes of each up in four slices. \<open>slice_word be k w\<close> is the group of four lookups of one
  integer in the slices \<open>k\<close> to \<open>k + 3\<close>; the first integer of a step is combined with the CRC so far.
\<close>

definition load :: "bool \<Rightarrow> byte list \<Rightarrow> uint32_t" where
  "load be data = of_host_bytes be (take 4 data)"

definition slice_word :: "bool \<Rightarrow> nat \<Rightarrow> uint32_t \<Rightarrow> uint32_t" where
  "slice_word be k w =
     (if be then
        crc_lookup k (w AND 0xFF) XOR crc_lookup (k + 1) (drop_bit 8 w AND 0xFF) XOR
        crc_lookup (k + 2) (drop_bit 16 w AND 0xFF) XOR crc_lookup (k + 3) (drop_bit 24 w AND 0xFF)
      else
        crc_lookup k (drop_bit 24 w AND 0xFF) XOR crc_lookup (k + 1) (drop_bit 16 w AND 0xFF) XOR
        crc_lookup (k + 2) (drop_bit 8 w AND 0xFF) XOR crc_lookup (k + 3) (w AND 0xFF))"

definition load_first :: "bool \<Rightarrow> uint32_t \<Rightarrow> byte list \<Rightarrow> uint32_t" where
  "load_first be crc data = load be data XOR (if be then swap crc else crc)"

definition slice4 :: "bool \<Rightarrow> uint32_t \<Rightarrow> byte list \<Rightarrow> uint32_t" where
  "slice4 be crc data = (let one = load_first be crc data in slice_word be 0 one)"

definition slice8 :: "bool \<Rightarrow> uint32_t \<Rightarrow> byte list \<Rightarrow> uint32_t" where
  "slice8 be crc data =
     (let one = load_first be crc data; two = load be (drop 4 data)
      in slice_word be 0 two XOR slice_word be 4 one)"

definition slice16 :: "bool \<Rightarrow> uint32_t \<Rightarrow> byte list \<Rightarrow> uint32_t" where
  "slice16 be crc data =
     (let one = load_first be crc data; two = load be (drop 4 data);
          three = load be (drop 8 data); four = load be (drop 12 data)
      in slice_word be 0 four XOR slice_word be 4 three XOR slice_word be 8 two XOR
         slice_word be 12 one)"

text \<open>The inner loop \<open>for (unrolling = 0; unrolling < Unroll; unrolling++)\<close> of \<open>n\<close>-byte steps.\<close>

fun unrolled :: "(uint32_t \<Rightarrow> byte list \<Rightarrow> uint32_t) \<Rightarrow> nat \<Rightarrow> nat \<Rightarrow> uint32_t \<Rightarrow> byte list
    \<Rightarrow> uint32_t" where
  "unrolled step n 0 crc data = crc"
| "unrolled step n (Suc u) crc data = unrolled step n u (step crc data) (drop n data)"

text \<open>The outer loop \<open>while (length >= BytesAtOnce + ahead)\<close>, \<open>BytesAtOnce\<close> being \<open>n * u\<close>.\<close>

function sliced :: "(uint32_t \<Rightarrow> byte list \<Rightarrow> uint32_t) \<Rightarrow> nat \<Rightarrow> nat \<Rightarrow> nat \<Rightarrow> uint32_t \<Rightarrow> byte list
    \<Rightarrow> uint32_t \<times> byte list" where
  "sliced step n u ahead crc data =
     (if 0 < n * u \<and> n * u + ahead \<le> length data
      then sliced step n u ahead (unrolled step n u crc data) (drop (n * u) data)
      else (crc, data))"
  by pat_completeness auto
termination
proof (relation "measure (\<lambda>(step, n, u, ahead, crc, data). length data)")
  fix step :: "uint32_t \<Rightarrow> byte list \<Rightarrow> uint32_t" and n u ahead :: nat and crc and data :: "byte list"
  assume "0 < n * u \<and> n * u + ahead \<le> length data"
  then have "length (drop (n * u) data) < length data" unfolding length_drop by linarith
  then show "((step, n, u, ahead, unrolled step n u crc data, drop (n * u) data),
      step, n, u, ahead, crc, data) \<in> measure (\<lambda>(step, n, u, ahead, crc, data). length data)"
    by simp
qed simp

declare sliced.simps [simp del]

text \<open>What is left when the outer loop ends goes through the byte algorithm.\<close>

definition sliced_crc :: "(uint32_t \<Rightarrow> byte list \<Rightarrow> uint32_t) \<Rightarrow> nat \<Rightarrow> nat \<Rightarrow> nat \<Rightarrow> byte list
    \<Rightarrow> uint32_t \<Rightarrow> uint32_t" where
  "sliced_crc step n u ahead data previousCrc32 =
     (case sliced step n u ahead (NOT previousCrc32) data of (crc, rest) \<Rightarrow>
        NOT (crc32_1byte_loop crc rest))"

definition crc32_4bytes :: "bool \<Rightarrow> byte list \<Rightarrow> uint32_t \<Rightarrow> uint32_t" where
  "crc32_4bytes be = sliced_crc (slice4 be) 4 1 0"

definition crc32_8bytes :: "bool \<Rightarrow> byte list \<Rightarrow> uint32_t \<Rightarrow> uint32_t" where
  "crc32_8bytes be = sliced_crc (slice8 be) 8 1 0"

definition crc32_4x8bytes :: "bool \<Rightarrow> byte list \<Rightarrow> uint32_t \<Rightarrow> uint32_t" where
  "crc32_4x8bytes be = sliced_crc (slice8 be) 8 4 0"

definition crc32_16bytes :: "bool \<Rightarrow> byte list \<Rightarrow> uint32_t \<Rightarrow> uint32_t" where
  "crc32_16bytes be = sliced_crc (slice16 be) 16 4 0"

definition crc32_fast :: "bool \<Rightarrow> byte list \<Rightarrow> uint32_t \<Rightarrow> uint32_t" where
  "crc32_fast be data previousCrc32 = crc32_16bytes be data previousCrc32"

text \<open>The block checksum: slicing by 16, unrolled four times, looking 256 bytes ahead.\<close>

definition bcrc32_host :: "bool \<Rightarrow> byte list \<Rightarrow> uint32_t" where
  "bcrc32_host be buf = sliced_crc (slice16 be) 16 4 256 buf 0"

abbreviation bcrc32 :: "byte list \<Rightarrow> uint32_t" where
  "bcrc32 \<equiv> bcrc32_host False"

section \<open>One byte\<close>

text \<open>A byte \<open>b\<close> takes the CRC \<open>c\<close> to \<open>crc_upd c b\<close> in every variant.\<close>

definition crc_upd :: "uint32_t \<Rightarrow> byte \<Rightarrow> uint32_t" where
  "crc_upd crc b = crc_zero (crc XOR ucast b)"

definition zero_table :: "nat \<Rightarrow> uint32_t list" where
  "zero_table n = map (\<lambda>i. (crc_zero ^^ n) (of_nat i)) [0..<256]"

lemma Crc32Lookup_zero_table: "Crc32Lookup = map zero_table [1..<17]"
proof -
  have "[1..<17] = [1, 2, 3, 4, 5, 6, 7, 8, 9, 10, 11, 12, 13, 14, 15, 16 :: nat]"
    by (simp add: upt_conv_Cons)
  then show ?thesis
    by (simp only: Crc32Lookup_def slice_0 slice_1 slice_2 slice_3 slice_4 slice_5 slice_6 slice_7
        slice_8 slice_9 slice_10 slice_11 slice_12 slice_13 slice_14 slice_15 list.map
        zero_table_def)
qed

lemma Crc32Lookup_nth: "k < 16 \<Longrightarrow> Crc32Lookup ! k = zero_table (Suc k)"
  by (simp add: Crc32Lookup_zero_table del: upt_Suc)

lemma unat_less_256: "unat (x AND 0xFF :: uint32_t) < 256"
proof -
  have "x AND 0xFF \<le> (0xFF :: uint32_t)" by (rule word_and_le1)
  then show ?thesis by (simp add: word_le_nat_alt)
qed

lemma lookup_low_byte:
  assumes "k < 16"
  shows "crc_lookup k (x AND 0xFF) = (crc_zero ^^ Suc k) (x AND 0xFF)"
  using assms unat_less_256 [of x] nth_map [of "unat (x AND 0xFF)" "[0..<256]"]
  by (simp only: crc_lookup_def Crc32Lookup_nth zero_table_def length_upt)
    (simp del: funpow.simps)

text \<open>Bit steps shift while the bits they shift out are zero.\<close>

lemma crc_bits_shift: "take_bit n x = 0 \<Longrightarrow> (crc_bit ^^ n) x = drop_bit n x"
proof (induction n arbitrary: x)
  case 0
  then show ?case by simp
next
  case (Suc n)
  have even: "x AND 1 = 0" and low: "take_bit n (drop_bit 1 x) = 0"
  proof -
    have "\<not> bit x i" if "i < Suc n" for i
      using that Suc.prems by (metis bit_0_eq bit_take_bit_iff bot_apply bot_bool_def)
    then show "x AND 1 = 0" "take_bit n (drop_bit 1 x) = 0"
      by (auto intro!: bit_eqI simp: bit_and_iff bit_1_iff bit_take_bit_iff bit_drop_bit_eq)
  qed
  have "(crc_bit ^^ Suc n) x = (crc_bit ^^ n) (crc_bit x)" by (simp add: funpow_swap1)
  also have "crc_bit x = drop_bit 1 x" using even by (simp add: crc_bit_def)
  also have "(crc_bit ^^ n) (drop_bit 1 x) = drop_bit (Suc n) x"
    using Suc.IH [OF low] by (simp add: drop_bit_drop_bit)
  finally show ?case .
qed

lemma crc_zero_split: "crc_zero x = crc_zero (x AND 0xFF) XOR drop_bit 8 x"
proof -
  have mask: "(0xFF :: uint32_t) = mask 8" by (simp add: mask_eq_exp_minus_1)
  have "x = (x AND 0xFF) XOR push_bit 8 (drop_bit 8 x)"
    by (rule bit_eqI) (auto simp: mask bit_simps)
  then have "crc_zero x = crc_zero (x AND 0xFF) XOR crc_zero (push_bit 8 (drop_bit 8 x))"
    by (metis crc_zero_xor)
  also have "crc_zero (push_bit 8 (drop_bit 8 x)) = drop_bit 8 (push_bit 8 (drop_bit 8 x))"
    unfolding crc_zero_def by (rule crc_bits_shift) (simp add: take_bit_push_bit)
  also have "\<dots> = drop_bit 8 x"
    by (rule bit_eqI) (auto simp: bit_simps dest: bit_imp_le_length)
  finally show ?thesis .
qed

lemma byte_xor_low: "(crc XOR ucast (b :: byte)) AND (0xFF :: uint32_t) = (crc AND 0xFF) XOR ucast b"
proof -
  have mask: "(0xFF :: uint32_t) = mask 8" by (simp add: mask_eq_exp_minus_1)
  show ?thesis
    by (rule bit_eqI) (auto simp: mask bit_simps dest: bit_imp_le_length)
qed

lemma byte_xor_high: "drop_bit 8 (crc XOR ucast (b :: byte)) = drop_bit 8 (crc :: uint32_t)"
  by (rule bit_eqI) (auto simp: bit_simps dest: bit_imp_le_length)

lemma table_step: "drop_bit 8 crc XOR crc_lookup 0 ((crc AND 0xFF) XOR ucast b) = crc_upd crc b"
proof -
  have "crc_lookup 0 ((crc XOR ucast b) AND 0xFF) = crc_zero ((crc XOR ucast b) AND 0xFF)"
    by (subst lookup_low_byte) simp_all
  then show ?thesis
    using crc_zero_split [of "crc XOR ucast b"]
    by (simp only: crc_upd_def byte_xor_low byte_xor_high xor.commute)
qed

lemma crc32_bitwise_foldl: "crc32_bitwise_loop crc bs = foldl crc_upd crc bs"
  by (induction crc bs rule: crc32_bitwise_loop.induct) (simp_all add: crc_upd_def crc_zero_def)

lemma crc32_1byte_foldl: "crc32_1byte_loop crc bs = foldl crc_upd crc bs"
  by (induction crc bs rule: crc32_1byte_loop.induct) (simp_all add: table_step)

section \<open>Half bytes\<close>

lemma crc_nibble_unfold: "(crc_bit ^^ 4) x = crc_bit (crc_bit (crc_bit (crc_bit x)))"
  by (simp add: eval_nat_numeral)

lemma crc_nibble_xor: "(crc_bit ^^ 4) (x XOR y) = (crc_bit ^^ 4) x XOR (crc_bit ^^ 4) y"
  by (simp add: crc_nibble_unfold crc_bit_xor)

lemma Crc32Lookup16_table: "Crc32Lookup16 = map (\<lambda>i. (crc_bit ^^ 4) (of_nat i)) [0..<16]"
proof -
  have "map (\<lambda>j. f (of_nat (2 ^ j))) (rev [0..<4]) = map f [8, 4, 2, 1]"
    for f :: "uint32_t \<Rightarrow> uint32_t"
    by (simp add: upt_rec)
  moreover have "map (crc_bit ^^ 4) [8, 4, 2, 1] = [0xEDB88320, 0x76DC4190, 0x3B6E20C8, 0x1DB71064]"
    by (simp add: crc_nibble_unfold crc_bit_def Polynomial_def)
  ultimately show ?thesis
    using xor_span_linear [of "crc_bit ^^ 4" 4, OF crc_nibble_xor] by (simp add: Crc32Lookup16_def)
qed

lemma Crc32Lookup16_nth: "Crc32Lookup16 ! unat (x AND 0x0F) = (crc_bit ^^ 4) (x AND 0x0F)"
proof -
  have "x AND 0x0F \<le> (0x0F :: uint32_t)" by (rule word_and_le1)
  then have "unat (x AND 0x0F) < 16" by (simp add: word_le_nat_alt)
  then have "Crc32Lookup16 ! unat (x AND 0x0F) = (crc_bit ^^ 4) (of_nat (unat (x AND 0x0F)))"
    by (simp only: Crc32Lookup16_table) simp
  then show ?thesis by simp
qed

text \<open>A nibble \<open>d\<close> combined with the low bits, the rest shifted down.\<close>

lemma nibble_step:
  assumes "drop_bit 4 d = (0 :: uint32_t)"
  shows "Crc32Lookup16 ! unat ((crc XOR d) AND 0x0F) XOR drop_bit 4 crc = (crc_bit ^^ 4) (crc XOR d)"
proof -
  have mask: "(0x0F :: uint32_t) = mask 4" by (simp add: mask_eq_exp_minus_1)
  have split: "x = (x AND 0x0F) XOR push_bit 4 (drop_bit 4 x)" for x :: uint32_t
    by (rule bit_eqI) (auto simp: mask bit_simps)
  have "(crc_bit ^^ 4) (crc XOR d) =
      (crc_bit ^^ 4) ((crc XOR d) AND 0x0F) XOR (crc_bit ^^ 4) (push_bit 4 (drop_bit 4 (crc XOR d)))"
    by (subst split [of "crc XOR d"]) (rule crc_nibble_xor)
  also have "(crc_bit ^^ 4) (push_bit 4 (drop_bit 4 (crc XOR d)))
      = drop_bit 4 (push_bit 4 (drop_bit 4 (crc XOR d)))"
    by (rule crc_bits_shift) (simp add: take_bit_push_bit)
  also have "\<dots> = drop_bit 4 (crc XOR d)"
    by (rule bit_eqI) (auto simp: bit_simps dest: bit_imp_le_length)
  also have "\<dots> = drop_bit 4 crc" using assms by (simp add: drop_bit_xor)
  finally show ?thesis by (simp only: Crc32Lookup16_nth)
qed

lemma halfbyte_step:
  "(let crc = Crc32Lookup16 ! unat ((crc XOR ucast b) AND 0x0F) XOR drop_bit 4 crc
    in Crc32Lookup16 ! unat ((crc XOR ucast (drop_bit 4 b)) AND 0x0F) XOR drop_bit 4 crc)
   = crc_upd crc (b :: byte)" (is "?l = _")
proof -
  let ?lo = "ucast b AND 0x0F :: uint32_t" and ?hi = "push_bit 4 (ucast (drop_bit 4 b)) :: uint32_t"
  let ?c = "(crc_bit ^^ 4) (crc XOR ?lo)"
  have mask: "(0x0F :: uint32_t) = mask 4" by (simp add: mask_eq_exp_minus_1)
  have b: "(ucast b :: uint32_t) = ?lo XOR ?hi"
    by (rule bit_eqI) (auto simp: mask bit_simps dest: bit_imp_le_length)
  have lo0: "drop_bit 4 ?lo = 0" by (rule bit_eqI) (auto simp: mask bit_simps)
  have hi0: "drop_bit 4 (ucast (drop_bit 4 b) :: uint32_t) = 0"
    by (rule bit_eqI) (auto simp: bit_simps dest: bit_imp_le_length)
  have "(crc XOR ucast b) AND 0x0F = (crc XOR ?lo) AND 0x0F"
    by (rule bit_eqI) (auto simp: bit_simps)
  then have l: "?l = (crc_bit ^^ 4) (?c XOR ucast (drop_bit 4 b))"
    by (simp only: Let_def nibble_step [OF lo0] nibble_step [OF hi0])
  have "(crc_bit ^^ 4) ?hi = drop_bit 4 ?hi"
    by (rule crc_bits_shift) (simp add: take_bit_push_bit)
  also have "\<dots> = ucast (drop_bit 4 b)"
    by (rule bit_eqI) (auto simp: bit_simps dest: bit_imp_le_length)
  finally have "?l = (crc_bit ^^ 4) (?c XOR (crc_bit ^^ 4) ?hi)"
    using l by simp
  also have "(crc_bit ^^ 4) (?c XOR (crc_bit ^^ 4) ?hi) = (crc_bit ^^ 4) ((crc_bit ^^ 4) (crc XOR ucast b))"
    using arg_cong [OF b, of "\<lambda>x. (crc_bit ^^ 4) ((crc_bit ^^ 4) (crc XOR x))"]
    by (simp only: crc_nibble_xor xor.assoc)
  also have "\<dots> = crc_upd crc b"
    by (simp only: crc_upd_def crc_zero_unfold crc_nibble_unfold)
  finally show ?thesis .
qed

lemma crc32_halfbyte_foldl: "crc32_halfbyte_loop crc bs = foldl crc_upd crc bs"
  by (induction crc bs rule: crc32_halfbyte_loop.induct)
    (simp_all only: crc32_halfbyte_loop.simps foldl.simps halfbyte_step [symmetric] Let_def)

section \<open>Whole integers\<close>

lemma crc_zeros_split:
  "(crc_zero ^^ Suc n) x = (crc_zero ^^ Suc n) (x AND 0xFF) XOR (crc_zero ^^ n) (drop_bit 8 x)"
proof -
  have "(crc_zero ^^ Suc n) x = (crc_zero ^^ n) (crc_zero x)" by (simp add: funpow_swap1)
  also have "\<dots> = (crc_zero ^^ n) (crc_zero (x AND 0xFF)) XOR (crc_zero ^^ n) (drop_bit 8 x)"
    by (subst crc_zero_split) (rule crc_zeros_xor)
  finally show ?thesis by (simp add: funpow_swap1)
qed

text \<open>The four lookups of an integer advance it by the bytes that follow its first one.\<close>

lemma slice_word_le:
  assumes "k + 3 < 16"
  shows "slice_word False k w = (crc_zero ^^ (k + 4)) w"
proof -
  have "drop_bit 24 w AND 0xFF = drop_bit 24 w"
  proof -
    have mask: "(0xFF :: uint32_t) = mask 8" by (simp add: mask_eq_exp_minus_1)
    show ?thesis by (rule bit_eqI) (auto simp: mask bit_simps dest: bit_imp_le_length)
  qed
  moreover have "crc_lookup k (drop_bit 24 w AND 0xFF) = (crc_zero ^^ Suc k) (drop_bit 24 w AND 0xFF)"
    using assms by (intro lookup_low_byte) simp
  moreover have "crc_lookup (Suc k) (drop_bit 16 w AND 0xFF)
      = (crc_zero ^^ Suc (Suc k)) (drop_bit 16 w AND 0xFF)"
    using assms by (intro lookup_low_byte) simp
  moreover have "crc_lookup (Suc (Suc k)) (drop_bit 8 w AND 0xFF)
      = (crc_zero ^^ Suc (Suc (Suc k))) (drop_bit 8 w AND 0xFF)"
    using assms by (intro lookup_low_byte) simp
  moreover have "crc_lookup (Suc (Suc (Suc k))) (w AND 0xFF)
      = (crc_zero ^^ Suc (Suc (Suc (Suc k)))) (w AND 0xFF)"
    using assms by (intro lookup_low_byte) simp
  moreover have "drop_bit 8 (drop_bit 8 w) = drop_bit 16 w" "drop_bit 8 (drop_bit 16 w) = drop_bit 24 w"
    by (simp_all add: drop_bit_drop_bit)
  ultimately have "(crc_zero ^^ Suc (Suc (Suc (Suc k)))) w = slice_word False k w"
    using crc_zeros_split [of "Suc (Suc (Suc k))" w] crc_zeros_split [of "Suc (Suc k)" "drop_bit 8 w"]
      crc_zeros_split [of "Suc k" "drop_bit 16 w"]
    by (simp add: slice_word_def numeral_2_eq_2 numeral_3_eq_3 ac_simps del: funpow.simps)
  then show ?thesis by (simp add: numeral_eq_Suc)
qed

section \<open>Both byte orders\<close>

lemma swap_of_le_bytes: "swap w = of_le_bytes (rev (le_bytes 4 w))"
proof (rule bit_eqI)
  fix n assume "possible_bit TYPE(32 word) n"
  then have "n < 32" by simp
  then have "\<exists>m < 8. n = m \<or> n = m + 8 \<or> n = m + 16 \<or> n = m + 24" by presburger
  then obtain m where m: "m < 8" "n = m \<or> n = m + 8 \<or> n = m + 16 \<or> n = m + 24" by blast
  have masks: "(0x0000FF00 :: uint32_t) = push_bit 8 (mask 8)" "(0x00FF0000 :: uint32_t) = push_bit 16 (mask 8)"
    by (simp_all add: mask_eq_exp_minus_1 push_bit_eq_mult)
  have bytes: "rev (le_bytes 4 w) = [ucast (drop_bit 24 w), ucast (drop_bit 16 w), ucast (drop_bit 8 w), ucast w]"
    by (simp add: le_bytes_def upt_rec)
  have mod8: "m div 8 = 0" "m mod 8 = m" "(m + 8) div 8 = 1" "(m + 8) mod 8 = m" "(m + 16) div 8 = 2"
    "(m + 16) mod 8 = m" "(m + 24) div 8 = 3" "(m + 24) mod 8 = m"
    using m(1) by presburger+
  have "bit (swap w) n \<longleftrightarrow> bit w (n + 24) \<or> (8 \<le> n \<and> n < 16 \<and> bit w (n + 8)) \<or>
      (16 \<le> n \<and> n < 24 \<and> bit w (n - 8)) \<or> (24 \<le> n \<and> bit w (n - 24))"
    using \<open>n < 32\<close> unfolding swap_def masks by (auto simp: bit_simps ac_simps)
  moreover have "\<not> bit w k" if "32 \<le> k" for k
    using that bit_imp_le_length [of w k] by auto
  ultimately show "bit (swap w) n \<longleftrightarrow> bit (of_le_bytes (rev (le_bytes 4 w)) :: uint32_t) n"
    using m unfolding bytes bit_of_le_bytes
    by (elim disjE) (simp_all add: mod8 bit_unsigned_iff bit_drop_bit_eq ac_simps)
qed

lemma swap_swap [simp]: "swap (swap w) = w"
proof -
  have "le_bytes 4 (of_le_bytes (rev (le_bytes 4 w)) :: uint32_t) = rev (le_bytes 4 w)"
    using le_bytes_of_le_bytes [of "rev (le_bytes 4 w)", where 'a = 32] by simp
  then show ?thesis by (simp add: swap_of_le_bytes of_le_bytes_le_bytes)
qed

lemma swap_xor: "swap (v XOR w) = swap v XOR swap w"
proof -
  have "bit (swap x) n \<longleftrightarrow> n < 32 \<and> bit x (8 * (3 - n div 8) + n mod 8)" for x n
    by (auto simp: swap_of_le_bytes bit_of_le_bytes le_bytes_def rev_nth bit_unsigned_iff
        bit_drop_bit_eq)
  then show ?thesis by (auto intro!: bit_eqI simp: bit_xor_iff)
qed

lemma load_le: "load False data = of_le_bytes (take 4 data)"
  by (simp add: load_def of_host_bytes_def)

lemma load_be: "4 \<le> length data \<Longrightarrow> load True data = swap (load False data)"
  using le_bytes_of_le_bytes [of "take 4 data", where 'a = 32]
  by (simp add: load_def of_host_bytes_def swap_of_le_bytes min_def)

lemma slice_word_be: "slice_word True k w = slice_word False k (swap w)"
proof -
  have bytes: "swap w AND 0xFF = drop_bit 24 w AND 0xFF" "drop_bit 8 (swap w) AND 0xFF = drop_bit 16 w AND 0xFF"
    "drop_bit 16 (swap w) AND 0xFF = drop_bit 8 w AND 0xFF" "drop_bit 24 (swap w) AND 0xFF = w AND 0xFF"
  proof -
    have masks: "(0xFF :: uint32_t) = mask 8" "(0x0000FF00 :: uint32_t) = push_bit 8 (mask 8)"
      "(0x00FF0000 :: uint32_t) = push_bit 16 (mask 8)"
      by (simp_all add: mask_eq_exp_minus_1 push_bit_eq_mult)
    have high: "\<not> bit w k" if "32 \<le> k" for k
      using that bit_imp_le_length [of w k] by auto
    show "swap w AND 0xFF = drop_bit 24 w AND 0xFF" "drop_bit 8 (swap w) AND 0xFF = drop_bit 16 w AND 0xFF"
      "drop_bit 16 (swap w) AND 0xFF = drop_bit 8 w AND 0xFF" "drop_bit 24 (swap w) AND 0xFF = w AND 0xFF"
      unfolding swap_def masks
      by (rule bit_eqI; auto simp: bit_simps ac_simps high)+
  qed
  show ?thesis by (simp add: slice_word_def bytes ac_simps)
qed

text \<open>On either host, the first integer of a step contributes the CRC so far and its four bytes.\<close>

lemma slice_load_first:
  assumes "4 \<le> length data" and "k + 3 < 16"
  shows "slice_word be k (load_first be crc data) = (crc_zero ^^ (k + 4)) (crc XOR of_le_bytes (take 4 data))"
  using assms
  by (cases be) (simp_all add: load_first_def load_be slice_word_be slice_word_le swap_xor
      load_le xor.commute)

lemma slice_load:
  assumes "4 \<le> length data" and "k + 3 < 16"
  shows "slice_word be k (load be data) = (crc_zero ^^ (k + 4)) (of_le_bytes (take 4 data))"
  using slice_load_first [OF assms, of be 0] by (cases be) (simp_all add: load_first_def swap_def)

section \<open>Slicing steps\<close>

text \<open>Up to four bytes are consumed as the little-endian integer they form.\<close>

lemma foldl_crc_upd_word:
  "length bs \<le> 4 \<Longrightarrow> foldl crc_upd crc bs = (crc_zero ^^ length bs) (crc XOR of_le_bytes bs)"
proof (induction bs arbitrary: crc)
  case Nil
  then show ?case by simp
next
  case (Cons b bs)
  have shift: "drop_bit 8 (push_bit 8 (of_le_bytes bs)) = (of_le_bytes bs :: uint32_t)"
  proof (rule bit_eqI)
    fix n
    have "bit (of_le_bytes bs :: uint32_t) n \<Longrightarrow> n div 8 < 3"
      using Cons.prems by (simp add: bit_of_le_bytes)
    then have "bit (of_le_bytes bs :: uint32_t) n \<Longrightarrow> n + 8 < 32" by linarith
    then show "bit (drop_bit 8 (push_bit 8 (of_le_bytes bs)) :: uint32_t) n = bit (of_le_bytes bs :: uint32_t) n"
      by (auto simp: bit_simps)
  qed
  have join: "crc XOR of_le_bytes (b # bs) = (crc XOR ucast b) XOR push_bit 8 (of_le_bytes bs)"
    by (rule bit_eqI) (auto simp: bit_simps dest: bit_imp_le_length)
  have "crc_zero (push_bit 8 (of_le_bytes bs)) = of_le_bytes bs"
    unfolding crc_zero_def by (subst crc_bits_shift) (simp_all add: take_bit_push_bit shift)
  then have "crc_zero (crc XOR of_le_bytes (b # bs)) = crc_upd crc b XOR of_le_bytes bs"
    unfolding join by (simp add: crc_zero_xor crc_upd_def)
  moreover have "foldl crc_upd crc (b # bs) = (crc_zero ^^ length bs) (crc_upd crc b XOR of_le_bytes bs)"
    using Cons by simp
  ultimately show ?case by (simp add: funpow_swap1)
qed

text \<open>
  The contract of a slicing step: it consumes the next \<open>n\<close> bytes as the byte algorithm would. The
  loops around the steps are proved once for every step that keeps it.
\<close>

locale slice_step =
  fixes step :: "uint32_t \<Rightarrow> byte list \<Rightarrow> uint32_t" and n :: nat
  assumes step: "n \<le> length data \<Longrightarrow> step crc data = foldl crc_upd crc (take n data)"
begin

lemma unrolled_foldl:
  "n * u \<le> length data \<Longrightarrow> unrolled step n u crc data = foldl crc_upd crc (take (n * u) data)"
proof (induction u arbitrary: crc data)
  case 0
  then show ?case by simp
next
  case (Suc u)
  then have "n \<le> length data" "n * u \<le> length (drop n data)" by auto
  with Suc.IH show ?case
    by (simp add: step take_add)
qed

lemma sliced_foldl:
  "foldl crc_upd (fst (sliced step n u ahead crc data)) (snd (sliced step n u ahead crc data)) =
     foldl crc_upd crc data"
proof (induction "length data" arbitrary: crc data rule: less_induct)
  case less
  show ?case
  proof (cases "0 < n * u \<and> n * u + ahead \<le> length data")
    case True
    then have "length (drop (n * u) data) < length data" unfolding length_drop by linarith
    from less [OF this] True show ?thesis
      by (subst (1 2) sliced.simps)
        (simp add: unrolled_foldl foldl_append [symmetric] del: foldl_append)
  next
    case False
    then show ?thesis by (subst (1 2) sliced.simps) auto
  qed
qed

lemma sliced_crc_bitwise: "sliced_crc step n u ahead data prev = crc32_bitwise data prev"
  using sliced_foldl [of u ahead "NOT prev" data]
  by (simp add: sliced_crc_def crc32_bitwise_def crc32_1byte_foldl crc32_bitwise_foldl
      case_prod_beta)

end

lemma crc_zeros_word:
  assumes "4 \<le> length data"
  shows "foldl crc_upd crc (take 4 data) = (crc_zero ^^ 4) (crc XOR of_le_bytes (take 4 data))"
  using assms foldl_crc_upd_word [of "take 4 data" crc] by (simp add: min_def)

lemma crc_zeros_add: "(crc_zero ^^ m) ((crc_zero ^^ k) x) = (crc_zero ^^ (m + k)) x"
  by (simp add: funpow_add)

lemmas word_step = crc_zeros_word crc_zeros_xor crc_zeros_add slice_load slice_load_first

interpretation by4: slice_step "slice4 be" 4 for be
  by unfold_locales (simp add: slice4_def slice_load_first crc_zeros_word)

interpretation by8: slice_step "slice8 be" 8 for be
proof
  fix data :: "byte list" and crc
  assume "8 \<le> length data"
  then show "slice8 be crc data = foldl crc_upd crc (take 8 data)"
    using take_add [of 4 4 data] by (simp add: slice8_def word_step ac_simps)
qed

interpretation by16: slice_step "slice16 be" 16 for be
proof
  fix data :: "byte list" and crc
  assume "16 \<le> length data"
  then show "slice16 be crc data = foldl crc_upd crc (take 16 data)"
    using take_add [of 4 12 data] take_add [of 4 8 "drop 4 data"] take_add [of 4 4 "drop 8 data"]
    by (simp add: slice16_def word_step ac_simps)
qed

section \<open>All variants compute the same checksum\<close>

text \<open>
  C26: Every optimised CRC routine of the file, on hosts of either byte order, returns what the bitwise
  definition returns, for every input and every previous CRC; \<open>bcrc32\<close>, the block checksum, is the
  bitwise CRC32 of the buffer.
\<close>

theorem crc32_variants_agree:
  "crc32_halfbyte data prev = crc32_bitwise data prev \<and>
   crc32_1byte data prev = crc32_bitwise data prev \<and>
   crc32_4bytes be data prev = crc32_bitwise data prev \<and>
   crc32_8bytes be data prev = crc32_bitwise data prev \<and>
   crc32_4x8bytes be data prev = crc32_bitwise data prev \<and>
   crc32_16bytes be data prev = crc32_bitwise data prev \<and>
   crc32_fast be data prev = crc32_bitwise data prev \<and>
   bcrc32_host be data = crc32_bitwise data 0"
  by (simp add: crc32_halfbyte_def crc32_1byte_def crc32_4bytes_def crc32_8bytes_def
      crc32_4x8bytes_def crc32_16bytes_def crc32_fast_def bcrc32_host_def by4.sliced_crc_bitwise
      by8.sliced_crc_bitwise by16.sliced_crc_bitwise crc32_halfbyte_foldl crc32_1byte_foldl
      crc32_bitwise_foldl crc32_bitwise_def)

section \<open>Error detection\<close>

lemma bcrc32_foldl: "bcrc32_host be data = NOT (foldl crc_upd (NOT 0) data)"
  by (simp add: bcrc32_host_def by16.sliced_crc_bitwise crc32_bitwise_def crc32_bitwise_foldl)

lemma bcrc32_host_indep: "bcrc32_host be data = bcrc32 data"
  by (simp add: bcrc32_foldl)

text \<open>
  The polynomial has its top bit set, so a bit step loses nothing: the bit it shifts out is the top
  bit of the result.
\<close>

lemma crc_bit_0D: "crc_bit x = 0 \<Longrightarrow> x = 0"
proof (rule ccontr)
  assume z: "crc_bit x = 0" and "x \<noteq> 0"
  have P: "bit Polynomial 31" by (simp add: Polynomial_def bit_numeral_rec)
  have neg: "- (x AND 1) AND Polynomial = (if odd x then Polynomial else 0)"
    by (auto simp: and_one_eq mod2_eq_if)
  have "bit (crc_bit x) 31 = odd x"
    unfolding crc_bit_def neg using P bit_imp_le_length [of x 32] by (auto simp: bit_simps)
  with z have "even x" by simp
  with z neg have "drop_bit 1 x = 0" by (simp add: crc_bit_def)
  with \<open>even x\<close> \<open>x \<noteq> 0\<close> show False
    by (metis bits_ident drop_bit_0 mult_not_zero add_0 push_bit_0_id push_bit_of_0 even_iff_mod_2_eq_zero take_bit_Suc_0 One_nat_def)
qed

lemma xor_cancel [simp]:
  "x XOR z = y XOR z \<longleftrightarrow> x = (y :: uint32_t)" "z XOR x = z XOR y \<longleftrightarrow> x = y"
proof -
  have "(a XOR z) XOR z = a" "z XOR (z XOR a) = a" for a
    by (simp_all only: xor.assoc xor_self_eq xor.right_neutral, simp add: xor.assoc [symmetric])
  then show "x XOR z = y XOR z \<longleftrightarrow> x = y" "z XOR x = z XOR y \<longleftrightarrow> x = y" by metis+
qed

lemma crc_zeros_inj: "inj (crc_zero ^^ n)"
proof (rule injI)
  fix x y assume "(crc_zero ^^ n) x = (crc_zero ^^ n) y"
  then have "(crc_zero ^^ n) (x XOR y) = 0" by (simp add: crc_zeros_xor)
  moreover have "(crc_bit ^^ k) z = 0 \<Longrightarrow> z = 0" for k z
    by (induction k) (auto dest: crc_bit_0D)
  then have "(crc_zero ^^ k) z = 0 \<Longrightarrow> z = 0" for k z
    by (induction k) (auto simp: crc_zero_def)
  ultimately have "x XOR y = 0" by blast
  then have "x XOR y = y XOR y" by simp
  then show "x = y" by (simp only: xor_cancel)
qed

lemma foldl_crc_upd_inj: "foldl crc_upd c bs = foldl crc_upd c' bs \<Longrightarrow> c = c'"
proof (induction bs arbitrary: c c')
  case (Cons b bs)
  then have "crc_zero (c XOR ucast b) = crc_zero (c' XOR ucast b)" by (simp add: crc_upd_def)
  then have "c XOR ucast b = c' XOR ucast b"
    using crc_zeros_inj [of 1] by (simp add: inj_eq)
  then show ?case by simp
qed simp

lemma bcrc32_burst:
  assumes "length d = length d'" and "length d \<le> 4" and "d \<noteq> d'"
  shows "bcrc32_host be (pre @ d @ post) \<noteq> bcrc32_host be (pre @ d' @ post)"
proof
  let ?c = "foldl crc_upd (NOT 0) pre"
  assume "bcrc32_host be (pre @ d @ post) = bcrc32_host be (pre @ d' @ post)"
  then have "foldl crc_upd (foldl crc_upd ?c d) post = foldl crc_upd (foldl crc_upd ?c d') post"
    by (simp add: bcrc32_foldl)
  then have "foldl crc_upd ?c d = foldl crc_upd ?c d'" by (rule foldl_crc_upd_inj)
  then have "(crc_zero ^^ length d) (?c XOR of_le_bytes d) = (crc_zero ^^ length d) (?c XOR of_le_bytes d')"
    using assms by (simp add: foldl_crc_upd_word)
  then have "?c XOR of_le_bytes d = ?c XOR of_le_bytes d'"
    using crc_zeros_inj by (metis inj_eq)
  then have "(of_le_bytes d :: uint32_t) = of_le_bytes d'"
    by simp
  then have "d = d'" using assms(1,2) by (intro of_le_bytes_inj [where 'a = 32]) simp_all
  with assms(3) show False by contradiction
qed

text \<open>
  C27: The block checksum detects every change confined to four consecutive bytes: two buffers that
  differ, and only within a window of at most four bytes, have different checksums.
\<close>

theorem bcrc32_detects_burst:
  assumes "length d = length d'" and "length d \<le> 4" and "d \<noteq> d'"
  shows "bcrc32_host be (pre @ d @ post) \<noteq> bcrc32_host be (pre @ d' @ post)"
  using assms by (rule bcrc32_burst)

theorem bcrc32_detects_burst_witness:
  "bcrc32_host True ([1] @ [2, 3] @ [4]) \<noteq> bcrc32_host True ([1] @ [2, 5] @ [4])"
  by (rule bcrc32_detects_burst) simp_all

text \<open>
  The checksum of a buffer read in parts: continuing with the CRC of the first part gives the CRC of
  the whole, so chained calls of any variant agree with one call.
\<close>

lemma crc32_chained:
  "crc32_16bytes be ys (crc32_16bytes be xs prev) = crc32_bitwise (xs @ ys) prev"
  by (simp add: crc32_16bytes_def by16.sliced_crc_bitwise crc32_bitwise_def crc32_bitwise_foldl)

end
