(* ===== verification/Base64.thy ===== *)
theory Base64
  imports Prelude
begin

text \<open>
  \<^verbatim>\<open>lib/base64.c\<close>: numbers and binary data as base64 characters. Characters are bytes, a buffer is a
  byte list, and an access outside of it is \<open>None\<close>.
\<close>

section \<open>Digits\<close>

definition base64_digits :: "byte list" where
  "base64_digits = map of_char ''ABCDEFGHIJKLMNOPQRSTUVWXYZabcdefghijklmnopqrstuvwxyz0123456789+/''"

text \<open>\<open>base64_init\<close>: the table that inverts the digits.\<close>

definition base64_map :: "byte list" where
  "base64_map = fold (\<lambda>i m. m[unat (base64_digits ! i) := of_nat i]) [0..<64] (replicate 256 0)"

definition base64_val :: "byte \<Rightarrow> byte" where
  "base64_val c = base64_map ! unat c"

section \<open>Numbers\<close>

text \<open>The loop that counts the digits, and the one that stores them from the last to the first.\<close>

lemma unat_drop_6: "unat (drop_bit 6 v) = unat v div 64" for v :: uint64_t
  by (simp add: drop_bit_eq_div unat_div)

lemma drop_6_less: "drop_bit 6 v \<noteq> 0 \<Longrightarrow> unat (drop_bit 6 v) < unat v" for v :: uint64_t
proof -
  assume "drop_bit 6 v \<noteq> 0"
  then have "unat (drop_bit 6 v) \<noteq> 0" by (simp add: unat_eq_zero)
  then show ?thesis unfolding unat_drop_6 by (cases "unat v = 0") simp_all
qed

function b64_len :: "uint64_t \<Rightarrow> nat \<Rightarrow> nat" where
  "b64_len val i = (let val = drop_bit 6 val in if val \<noteq> 0 then b64_len val (i + 1) else i + 1)"
  by pat_completeness auto
termination by (relation "measure (\<lambda>(v, _). unat v)") (simp_all add: drop_6_less)

definition digit :: "uint64_t \<Rightarrow> byte" where
  "digit val = base64_digits ! unat (val AND 0x3F)"

function b64_put :: "uint64_t \<Rightarrow> nat \<Rightarrow> nat \<Rightarrow> byte list \<Rightarrow> byte list option" where
  "b64_put val where_p i mem =
     (if i = 0 then None
      else case mem_write mem (where_p + (i - 1)) [digit val] of
             None \<Rightarrow> None
           | Some mem \<Rightarrow>
               (let val = drop_bit 6 val in if val \<noteq> 0 then b64_put val where_p (i - 1) mem else Some mem))"
  by pat_completeness auto
termination by (relation "measure (\<lambda>(v, _). unat v)") (simp_all add: drop_6_less)

text \<open>
  \<open>to_base64\<close> stores the characters and a zero at \<open>where_p\<close> of the buffer and returns the number of
  characters. Negation wraps at the smallest value.
\<close>

definition to_base64 :: "int64_t \<Rightarrow> nat \<Rightarrow> byte list \<Rightarrow> (nat \<times> byte list) option" where
  "to_base64 value where_p mem = do {
     (i, value, mem) \<leftarrow>
       (if value <s 0 then map_option (\<lambda>mem. (1, - value, mem)) (mem_write mem where_p [of_char CHR ''-''])
        else Some (0, value, mem));
     let n = b64_len value i;
     mem \<leftarrow> mem_write mem (where_p + n) [0];
     mem \<leftarrow> b64_put value where_p n mem;
     Some (n, mem)
   }"

function from_loop :: "nat \<Rightarrow> uint64_t \<Rightarrow> byte list \<Rightarrow> (uint64_t \<times> nat) option" where
  "from_loop p val mem =
     (if length mem \<le> p then None
      else if mem ! p \<noteq> 0 \<and> mem ! p \<noteq> of_char CHR '' ''
      then from_loop (p + 1) (push_bit 6 val + ucast (base64_val (mem ! p))) mem
      else Some (val, p))"
  by pat_completeness auto
termination by (relation "measure (\<lambda>(p, _, mem). length mem - p)") auto

text \<open>\<open>from_base64\<close>: the value and the number of characters it took.\<close>

definition from_base64 :: "nat \<Rightarrow> byte list \<Rightarrow> (int64_t \<times> nat) option" where
  "from_base64 where_p mem =
     (if length mem \<le> where_p then None
      else
        (let neg = (mem ! where_p = of_char CHR ''-'')
         in case from_loop (if neg then where_p + 1 else where_p) 0 mem of
              None \<Rightarrow> None
            | Some (val, p) \<Rightarrow> Some (if neg then - val else val, p - where_p)))"

declare b64_len.simps [simp del] b64_put.simps [simp del] from_loop.simps [simp del]

section \<open>Binary data\<close>

text \<open>
  The loop of \<open>bin_to_base64\<close>: \<open>bin\<close> is what is left of the data, \<open>reg\<close> holds at least \<open>rem\<close> bits that are
  still to be encoded, \<open>out\<close> is what has been stored. Without \<open>compatible\<close> a byte is sign-extended.
\<close>

definition b64_digit :: "uint32_t \<Rightarrow> byte" where
  "b64_digit reg = base64_digits ! unat (reg AND 0x3F)"

definition store :: "int \<Rightarrow> byte \<Rightarrow> byte list \<Rightarrow> byte list" where
  "store buflen c out = (if int (length out) < buflen then out @ [c] else out)"

definition take_in :: "bool \<Rightarrow> byte \<Rightarrow> uint32_t \<Rightarrow> uint32_t" where
  "take_in compatible b reg = push_bit 8 reg OR (if compatible then ucast b else scast b)"

function bin_loop :: "bool \<Rightarrow> int \<Rightarrow> byte list \<Rightarrow> uint32_t \<Rightarrow> nat \<Rightarrow> byte list \<Rightarrow> uint32_t \<times> nat \<times> byte list" where
  "bin_loop compatible buflen bin reg rem out =
     (case bin of
        [] \<Rightarrow> (reg, rem, out)
      | b # bs \<Rightarrow>
          if rem < 6 then
            (let reg = take_in compatible b reg; rem = rem + 8
             in bin_loop compatible buflen bs reg (rem - 6) (store buflen (b64_digit (drop_bit (rem - 6) reg)) out))
          else bin_loop compatible buflen bin reg (rem - 6) (store buflen (b64_digit (drop_bit (rem - 6) reg)) out))"
  by pat_completeness auto
termination by (relation "measure (\<lambda>(_, _, bin, _, rem, _). 3 * length bin + rem)") auto

declare bin_loop.simps [simp del]

text \<open>The characters stored, without the zero behind them; \<open>None\<close> when there is no room for the zero.\<close>

definition bin_to_base64 :: "int \<Rightarrow> byte list \<Rightarrow> bool \<Rightarrow> byte list option" where
  "bin_to_base64 buflen bin compatible =
     (if buflen \<le> 0 then None
      else
        (case bin_loop compatible (buflen - 1) bin 0 0 [] of
           (reg, rem, out) \<Rightarrow>
             (let mask = push_bit rem 1 - 1 :: uint32_t;
                  last = (if compatible then push_bit (6 - rem) (reg AND mask) else reg AND mask)
              in Some (if rem \<noteq> 0 then store (buflen - 1) (base64_digits ! unat last) out else out))))"

text \<open>
  \<open>base64_to_bin\<close>: whole groups of four characters while more than four are left, then what the last
  characters give.
\<close>

definition dec1 :: "byte \<Rightarrow> byte \<Rightarrow> byte" where
  "dec1 a b = push_bit 2 (base64_val a) OR drop_bit 4 (base64_val b)"

definition dec2 :: "byte \<Rightarrow> byte \<Rightarrow> byte" where
  "dec2 b c = push_bit 4 (base64_val b) OR drop_bit 2 (base64_val c)"

definition dec3 :: "byte \<Rightarrow> byte \<Rightarrow> byte" where
  "dec3 c d = push_bit 6 (base64_val c) OR base64_val d"

fun dec_loop :: "byte list \<Rightarrow> byte list" where
  "dec_loop (a # b # c # d # e # rest) = dec1 a b # dec2 b c # dec3 c d # dec_loop (e # rest)"
| "dec_loop [a, b, c, d] = [dec1 a b, dec2 b c, dec3 c d]"
| "dec_loop [a, b, c] = [dec1 a b, dec2 b c]"
| "dec_loop [a, b] = [dec1 a b]"
| "dec_loop _ = []"

text \<open>
  \<open>base64_to_bin\<close> into a buffer: the bytes that are stored, and behind them a zero. The result is the
  buffer and the number of bytes.
\<close>

definition base64_to_bin :: "byte list \<Rightarrow> byte list \<Rightarrow> (byte list \<times> nat) option" where
  "base64_to_bin dest src =
     (if length dest < (length src + 3) div 4 * 3 then map_option (\<lambda>d. (d, 0)) (mem_write dest 0 [0])
      else
        (let bytes = dec_loop (takeWhile (\<lambda>c. c \<noteq> of_char CHR '' '') src)
         in map_option (\<lambda>d. (d, length bytes)) (mem_write dest 0 (bytes @ [0]))))"

section \<open>Lemmas on digits\<close>

lemma digits_distinct: "distinct base64_digits" "length base64_digits = 64"
  by code_simp+

lemma map_updates:
  assumes "distinct ds" and "\<forall>d \<in> set ds. unat d < length m" and "n \<le> length ds" and "i < n"
  shows "fold (\<lambda>i m. m[unat (ds ! i) := of_nat i]) [0..<n] m ! unat (ds ! i) = (of_nat i :: byte)"
  using assms(3,4)
proof (induction n)
  case (Suc n)
  have len: "length (fold (\<lambda>i m. m[unat (ds ! i) := of_nat i]) xs m) = length m" for xs and m :: "byte list"
    by (induction xs arbitrary: m) simp_all
  have lt: "unat (ds ! k) < length m" if "k \<le> n" for k using assms(2) Suc.prems(1) that by simp
  show ?case
  proof (cases "i = n")
    case True
    then show ?thesis using lt by (simp add: len)
  next
    case False
    then have "ds ! n \<noteq> ds ! i" using assms(1) Suc.prems by (simp add: nth_eq_iff_index_eq)
    then have "unat (ds ! n) \<noteq> unat (ds ! i)" using unsigned_word_eqI by blast
    then show ?thesis using Suc False by simp
  qed
qed simp

lemma map_digit: "i < 64 \<Longrightarrow> base64_val (base64_digits ! i) = of_nat i"
proof -
  assume "i < 64"
  moreover have "unat d < length (replicate 256 (0 :: byte))" for d :: byte using unsigned_less [where w = d and 'a = nat] by simp
  ultimately show ?thesis
    unfolding base64_val_def base64_map_def by (intro map_updates [OF digits_distinct(1)]) (simp_all add: digits_distinct(2))
qed

lemma digits_numerals: "base64_digits =
    [65, 66, 67, 68, 69, 70, 71, 72, 73, 74, 75, 76, 77, 78, 79, 80, 81, 82, 83, 84, 85,
     86, 87, 88, 89, 90, 97, 98, 99, 100, 101, 102, 103, 104, 105, 106, 107, 108, 109,
     110, 111, 112, 113, 114, 115, 116, 117, 118, 119, 120, 121, 122, 48, 49, 50, 51, 52,
     53, 54, 55, 56, 57, 43, 47]"
  by (simp add: base64_digits_def)

lemma digit_plain: "i < 64 \<Longrightarrow> base64_digits ! i \<noteq> 0 \<and> base64_digits ! i \<noteq> of_char CHR '' '' \<and> base64_digits ! i \<noteq> of_char CHR ''-''"
proof -
  assume "i < 64"
  then have "base64_digits ! i \<in> set base64_digits" by (simp add: digits_distinct(2))
  moreover have "0 \<notin> set base64_digits" "of_char CHR '' '' \<notin> set base64_digits" "of_char CHR ''-'' \<notin> set base64_digits"
    by (simp_all add: digits_numerals)
  ultimately show ?thesis by metis
qed

section \<open>The text of a number\<close>

function digits_of :: "uint64_t \<Rightarrow> byte list" where
  "digits_of v = (if drop_bit 6 v \<noteq> 0 then digits_of (drop_bit 6 v) @ [digit v] else [digit v])"
  by pat_completeness auto
termination by (relation "measure unat") (simp_all add: drop_6_less)

declare digits_of.simps [simp del]

definition text_of :: "int64_t \<Rightarrow> byte list" where
  "text_of v = (if v <s 0 then of_char CHR ''-'' # digits_of (- v) else digits_of v)"

lemma and_63_less: "unat (v AND 0x3F :: uint64_t) < 64"
proof -
  have "v AND 0x3F \<le> (0x3F :: uint64_t)" by (rule word_and_le1)
  then show ?thesis by (simp add: word_le_nat_alt)
qed

lemma digits_of_plain: "list_all (\<lambda>c. c \<noteq> 0 \<and> c \<noteq> of_char CHR '' '' \<and> c \<noteq> of_char CHR ''-'') (digits_of v)"
proof (induction v rule: digits_of.induct)
  case (1 v)
  have "digit v \<noteq> 0 \<and> digit v \<noteq> of_char CHR '' '' \<and> digit v \<noteq> of_char CHR ''-''"
    unfolding digit_def by (rule digit_plain [OF and_63_less])
  then show ?case using 1 by (subst digits_of.simps) simp
qed

lemma digits_of_ne: "digits_of v \<noteq> []"
  by (subst digits_of.simps) simp

lemma digits_of_length: "unat v < 64 ^ k \<Longrightarrow> 0 < k \<Longrightarrow> length (digits_of v) \<le> k"
proof (induction v arbitrary: k rule: digits_of.induct)
  case (1 v)
  show ?case
  proof (cases "drop_bit 6 v = 0")
    case True
    then show ?thesis using 1(3) by (subst digits_of.simps) simp
  next
    case False
    then have "unat (drop_bit 6 v) \<noteq> 0" by (simp add: unat_eq_zero)
    then have "64 \<le> unat v" unfolding unat_drop_6 by (cases "unat v < 64") simp_all
    then obtain j where k: "k = Suc j" "0 < j" using 1(2,3) by (cases k; cases "k - 1") auto
    have "unat (drop_bit 6 v) < 64 ^ j" using 1(2) unfolding unat_drop_6 k(1) by (simp add: less_mult_imp_div_less mult.commute)
    then show ?thesis using 1(1) [OF False, of j] k False by (subst digits_of.simps) simp
  qed
qed

lemma text_of_length: "length (text_of v) \<le> 12"
proof -
  have "unat w < 64 ^ 11" for w :: uint64_t using unsigned_less [where w = w and 'a = nat] by simp
  then have "length (digits_of w) \<le> 11" for w by (intro digits_of_length) simp_all
  from this [of v] this [of "- v"] show ?thesis by (simp add: text_of_def)
qed

section \<open>Storing and reading a number\<close>

lemma mem_write_prepend:
  assumes "mem_write m (q + length xs) ys = Some m1"
  shows "mem_write m1 q xs = mem_write m q (xs @ ys)"
  using assms by (auto simp: mem_write_def min_def add.assoc split: if_splits)

lemma b64_len_digits: "b64_len v i = i + length (digits_of v)"
proof (induction v arbitrary: i rule: digits_of.induct)
  case (1 v)
  then show ?case by (subst b64_len.simps, subst digits_of.simps) (simp add: Let_def)
qed

lemma b64_put_digits:
  assumes "where_p + k + length (digits_of v) \<le> length mem"
  shows "b64_put v where_p (k + length (digits_of v)) mem = mem_write mem (where_p + k) (digits_of v)"
  using assms
proof (induction v arbitrary: mem rule: digits_of.induct)
  case (1 v)
  show ?case
  proof (cases "drop_bit 6 v = 0")
    case True
    then have d: "digits_of v = [digit v]" by (subst digits_of.simps) simp
    show ?thesis unfolding d by (subst b64_put.simps) (simp add: True Let_def split: option.split)
  next
    case False
    let ?ds = "digits_of (drop_bit 6 v)"
    have d: "digits_of v = ?ds @ [digit v]" using False by (subst digits_of.simps) simp
    have room: "where_p + k + length ?ds + 1 \<le> length mem" using 1(2) by (simp add: d)
    obtain m1 where m1: "mem_write mem (where_p + k + length ?ds) [digit v] = Some m1"
      using mem_write_SomeI [of "where_p + k + length ?ds" "[digit v]" mem] room by simp
    have "b64_put v where_p (k + length (digits_of v)) mem = b64_put (drop_bit 6 v) where_p (k + length ?ds) m1"
      using m1 False by (subst b64_put.simps) (simp add: d Let_def add.assoc)
    also have "\<dots> = mem_write m1 (where_p + k) ?ds"
      using 1(1) [OF False, of m1] room mem_write_length [OF m1] by simp
    also have "\<dots> = mem_write mem (where_p + k) (digits_of v)" unfolding d by (rule mem_write_prepend [OF m1])
    finally show ?thesis .
  qed
qed

lemma to_base64_text:
  assumes "where_p + length (text_of v) < length mem"
  shows "to_base64 v where_p mem = map_option (Pair (length (text_of v))) (mem_write mem where_p (text_of v @ [0]))"
proof -
  have put: "Option.bind (mem_write m (where_p + (i + length (digits_of w))) [0]) (b64_put w where_p (i + length (digits_of w)))
      = mem_write m (where_p + i) (digits_of w @ [0])" if r: "where_p + i + length (digits_of w) < length m" for m i w
  proof -
    obtain m1 where m1: "mem_write m (where_p + i + length (digits_of w)) [0] = Some m1"
      using mem_write_SomeI [of "where_p + i + length (digits_of w)" "[0]" m] r by (simp add: Suc_le_eq)
    have "b64_put w where_p (i + length (digits_of w)) m1 = mem_write m1 (where_p + i) (digits_of w)"
      using r mem_write_length [OF m1] by (intro b64_put_digits) simp
    then show ?thesis using m1 mem_write_prepend [OF m1] by (simp add: add.assoc)
  qed
  have opt: "Option.bind a (\<lambda>m. Option.bind (f m) (\<lambda>m'. Some (n, m'))) = map_option (Pair n) (Option.bind a f)"
    for a :: "byte list option" and f :: "byte list \<Rightarrow> byte list option" and n :: nat
    by (cases a; cases "f (the a)") simp_all
  show ?thesis
  proof (cases "v <s 0")
    case True
    let ?ds = "digits_of (- v)"
    obtain m1 where m1: "mem_write mem where_p [of_char CHR ''-''] = Some m1"
      using mem_write_SomeI [of where_p "[of_char CHR ''-'']" mem] assms by simp
    have "to_base64 v where_p mem = map_option (Pair (1 + length ?ds)) (mem_write m1 (where_p + 1) (?ds @ [0]))"
      using True m1 put [of 1 "- v" m1] assms mem_write_length [OF m1] opt
      by (simp add: to_base64_def b64_len_digits text_of_def Let_def)
    also have "mem_write m1 (where_p + 1) (?ds @ [0]) = mem_write mem where_p (text_of v @ [0])"
      using mem_write_append [of mem where_p "[of_char CHR ''-'']" "?ds @ [0]"] m1 True by (simp add: text_of_def)
    finally show ?thesis using True by (simp add: text_of_def)
  next
    case False
    then show ?thesis
      using put [of 0 v mem] assms opt by (simp add: to_base64_def b64_len_digits text_of_def Let_def)
  qed
qed

lemma from_loop_digits:
  assumes "drop p mem = ds @ c # rest" and "c = 0 \<or> c = of_char CHR '' ''"
    and "list_all (\<lambda>c. c \<noteq> 0 \<and> c \<noteq> of_char CHR '' '' \<and> c \<noteq> of_char CHR ''-'') ds"
  shows "from_loop p acc mem = Some (foldl (\<lambda>v c. push_bit 6 v + ucast (base64_val c)) acc ds, p + length ds)"
  using assms
proof (induction ds arbitrary: p acc)
  case Nil
  have "p < length mem" using Nil.prems(1) by (metis append_Nil drop_all list.distinct(1) not_le)
  moreover from this have "mem ! p = c" using Nil.prems(1) by (simp add: Cons_nth_drop_Suc [symmetric])
  ultimately show ?case using Nil.prems(2) by (subst from_loop.simps) auto
next
  case (Cons d ds)
  have "p < length mem" using Cons.prems(1) by (metis append_Cons drop_all list.distinct(1) not_le)
  moreover from this have "mem ! p = d" "drop (Suc p) mem = ds @ c # rest"
    using Cons.prems(1) by (simp_all add: Cons_nth_drop_Suc [symmetric])
  ultimately show ?case
    using Cons.IH [of "Suc p" "push_bit 6 acc + ucast (base64_val d)"] Cons.prems(2,3) by (subst from_loop.simps) simp
qed

lemma val_digit: "ucast (base64_val (digit v)) = v AND 0x3F"
proof -
  have "unat (ucast (of_nat n :: byte) :: uint64_t) = n" if "n < 64" for n
    using that by (simp add: unsigned_ucast_eq unsigned_of_nat take_bit_nat_eq_self)
  from this [OF and_63_less] have "ucast (of_nat (unat (v AND 0x3F)) :: byte) = v AND 0x3F" by (rule unsigned_word_eqI)
  then show ?thesis unfolding digit_def by (simp only: map_digit [OF and_63_less])
qed

lemma value_of_digits: "foldl (\<lambda>v c. push_bit 6 v + ucast (base64_val c)) 0 (digits_of v) = v"
proof (induction v rule: digits_of.induct)
  case (1 v)
  have m: "v AND 0x3F = take_bit 6 v" by (simp add: take_bit_eq_mask mask_eq_exp_minus_1)
  have "push_bit 6 (drop_bit 6 v) + (v AND 0x3F) = v" unfolding m by (rule bits_ident)
  then show ?case using 1 by (subst digits_of.simps) (auto simp: val_digit)
qed

lemma from_base64_text:
  assumes "drop p mem = text_of v @ c # rest" and "c = 0 \<or> c = of_char CHR '' ''"
  shows "from_base64 p mem = Some (v, length (text_of v))"
proof -
  have p: "p < length mem" using assms(1) by (metis drop_all list.distinct(1) append_is_Nil_conv not_le)
  then have hd: "mem ! p = hd (text_of v @ c # rest)" using assms(1) by (metis hd_drop_conv_nth)
  show ?thesis
  proof (cases "v <s 0")
    case True
    then have t: "text_of v = of_char CHR ''-'' # digits_of (- v)" by (simp add: text_of_def)
    then have "drop (p + 1) mem = digits_of (- v) @ c # rest" using assms(1) p by (simp add: Cons_nth_drop_Suc [symmetric])
    from from_loop_digits [OF this assms(2) digits_of_plain, of 0] show ?thesis
      using p hd t by (simp add: from_base64_def value_of_digits)
  next
    case False
    then have t: "text_of v = digits_of v" by (simp add: text_of_def)
    obtain d ds where d: "digits_of v = d # ds" using digits_of_ne by (cases "digits_of v") auto
    then have "d \<noteq> of_char CHR ''-''" using digits_of_plain [of v] by simp
    moreover have "drop p mem = digits_of v @ c # rest" using assms(1) t by simp
    ultimately show ?thesis
      using p hd t d from_loop_digits [OF _ assms(2) digits_of_plain, of p mem v rest 0] value_of_digits [of v]
      by (simp add: from_base64_def)
  qed
qed

text \<open>
  C9: Every 64-bit number survives \<open>to_base64\<close> and \<open>from_base64\<close>. With thirteen bytes of room \<open>to_base64\<close>
  stores at most twelve characters and a zero and changes nothing else, and \<open>from_base64\<close> reads
  the same number from the same number of characters. The smallest number is no exception.
\<close>

theorem base64_roundtrip:
  assumes "where_p + 13 \<le> length mem"
  shows "\<exists>n mem'. to_base64 v where_p mem = Some (n, mem') \<and> n \<le> 12 \<and> from_base64 where_p mem' = Some (v, n) \<and>
     take where_p mem' = take where_p mem \<and> drop (where_p + n + 1) mem' = drop (where_p + n + 1) mem"
proof -
  have room: "where_p + length (text_of v) < length mem" using assms text_of_length [of v] by simp
  obtain m where m: "mem_write mem where_p (text_of v @ [0]) = Some m"
    using mem_write_SomeI [of where_p "text_of v @ [0]" mem] room by (simp add: Suc_le_eq)
  have "drop where_p m = text_of v @ 0 # drop (where_p + length (text_of v @ [0])) mem"
    using m room by (auto simp: mem_write_def split: if_splits)
  then have "from_base64 where_p m = Some (v, length (text_of v))" by (rule from_base64_text) simp
  moreover have "to_base64 v where_p mem = Some (length (text_of v), m)" using to_base64_text [OF room] m by simp
  ultimately show ?thesis
    using text_of_length [of v] mem_write_prefix [OF m] mem_write_suffix [OF m] by auto
qed

theorem base64_roundtrip_witness:
  "\<exists>n mem'. to_base64 (- 70) 2 (replicate 20 9) = Some (n, mem') \<and> from_base64 2 mem' = Some (- 70, n)"
  using base64_roundtrip [of 2 "replicate 20 9" "- 70"] by auto

section \<open>Binary data as groups of six bits\<close>

definition D :: "byte \<Rightarrow> byte" where
  "D x = base64_digits ! unat x"

definition sextet1 :: "byte \<Rightarrow> byte" where "sextet1 a = drop_bit 2 a"
definition sextet2 :: "byte \<Rightarrow> byte \<Rightarrow> byte" where "sextet2 a b = push_bit 4 (take_bit 2 a) OR drop_bit 4 b"
definition sextet3 :: "byte \<Rightarrow> byte \<Rightarrow> byte" where "sextet3 b c = push_bit 2 (take_bit 4 b) OR drop_bit 6 c"
definition sextet4 :: "byte \<Rightarrow> byte" where "sextet4 c = take_bit 6 c"

lemmas sextet_defs = sextet1_def sextet2_def sextet3_def sextet4_def

fun enc :: "byte list \<Rightarrow> byte list" where
  "enc (a # b # c # rest) = D (sextet1 a) # D (sextet2 a b) # D (sextet3 b c) # D (sextet4 c) # enc rest"
| "enc [a, b] = [D (sextet1 a), D (sextet2 a b), D (sextet3 b 0)]"
| "enc [a] = [D (sextet1 a), D (sextet2 a 0)]"
| "enc [] = []"

lemma byte_high: "8 \<le> n \<Longrightarrow> \<not> bit a n" for a :: byte
  using bit_imp_le_length [of a n] by auto

lemma byte_eqI:
  fixes x y :: byte
  assumes "bit x 0 = bit y 0" "bit x 1 = bit y 1" "bit x 2 = bit y 2" "bit x 3 = bit y 3"
    "bit x 4 = bit y 4" "bit x 5 = bit y 5" "bit x 6 = bit y 6" "bit x 7 = bit y 7"
  shows "x = y"
proof (rule bit_word_eqI)
  fix n assume "n < LENGTH(8)"
  then have "n = 0 \<or> n = 1 \<or> n = 2 \<or> n = 3 \<or> n = 4 \<or> n = 5 \<or> n = 6 \<or> n = 7" by simp linarith
  then show "bit x n = bit y n" using assms by blast
qed

lemma take_bit_less_64: "take_bit 6 x = x \<Longrightarrow> unat x < 64" for x :: byte
proof -
  assume "take_bit 6 x = x"
  then have "take_bit 6 (unat x) = unat x" by (metis unsigned_take_bit_eq)
  then show ?thesis by (simp add: take_bit_nat_eq_self_iff)
qed

lemma sextet_less:
  "unat (sextet1 a) < 64" "unat (sextet2 a b) < 64" "unat (sextet3 b c) < 64" "unat (sextet4 c) < 64"
  by (rule take_bit_less_64, rule byte_eqI; simp add: sextet_defs bit_simps byte_high)+

lemma val_D: "unat x < 64 \<Longrightarrow> base64_val (D x) = x"
  by (simp add: D_def map_digit)

lemma dec_sextets:
  "dec1 (D (sextet1 a)) (D (sextet2 a b)) = a" "dec2 (D (sextet2 a b)) (D (sextet3 b c)) = b"
  "dec3 (D (sextet3 b c)) (D (sextet4 c)) = c"
  unfolding dec1_def dec2_def dec3_def val_D [OF sextet_less(1)] val_D [OF sextet_less(2)] val_D [OF sextet_less(3)]
    val_D [OF sextet_less(4)]
  by (rule byte_eqI; simp add: sextet_defs bit_simps byte_high)+

lemma dec_enc: "dec_loop (enc bs) = bs"
proof (induction bs rule: enc.induct)
  case (1 a b c rest)
  then show ?case by (cases "enc rest") (auto simp: dec_sextets)
qed (simp_all add: dec_sextets)

lemma digit32: "b64_digit w = D (ucast (take_bit 6 w))"
proof -
  have "w AND 0x3F = take_bit 6 w" by (simp add: take_bit_eq_mask mask_eq_exp_minus_1)
  then show ?thesis by (simp add: b64_digit_def D_def unsigned_ucast_eq unsigned_take_bit_eq)
qed

lemma emitted:
  "b64_digit (drop_bit 2 (take_in True a r)) = D (sextet1 a)"
  "b64_digit (drop_bit 4 (take_in True b (take_in True a r))) = D (sextet2 a b)"
  "b64_digit (drop_bit 6 (take_in True c (take_in True b r))) = D (sextet3 b c)"
  "b64_digit (take_in True c r) = D (sextet4 c)"
  unfolding digit32 by (rule arg_cong [of _ _ D], rule byte_eqI; simp add: take_in_def sextet_defs bit_simps byte_high)+

section \<open>Encoding and decoding binary data\<close>

text \<open>The part of \<open>bin_to_base64\<close> behind the loop.\<close>

definition last_digit :: "int \<Rightarrow> uint32_t \<times> nat \<times> byte list \<Rightarrow> byte list" where
  "last_digit buflen r = (case r of (reg, rem, out) \<Rightarrow>
     if rem \<noteq> 0 then store buflen (base64_digits ! unat (push_bit (6 - rem) (reg AND (push_bit rem 1 - 1)))) out else out)"

lemma bin_to_base64_last:
  "0 < buflen \<Longrightarrow> bin_to_base64 buflen bin True = Some (last_digit (buflen - 1) (bin_loop True (buflen - 1) bin 0 0 []))"
  by (simp add: bin_to_base64_def last_digit_def Let_def split: prod.split)

lemma D_ucast: "base64_digits ! unat (ucast x :: uint32_t) = D x"
proof -
  have "unat x < 2 ^ 32" using unsigned_less [where w = x and 'a = nat] by simp
  then show ?thesis by (simp add: D_def unsigned_ucast_eq take_bit_nat_eq_self)
qed

lemma and_low: "x AND (push_bit k 1 - 1) = take_bit k x" for x :: uint32_t
  by (simp add: take_bit_eq_mask mask_eq_exp_minus_1 push_bit_of_1)

lemma last_bits:
  "push_bit 4 (take_bit 2 (take_in True a r)) = ucast (sextet2 a 0)"
  "push_bit 2 (take_bit 4 (take_in True b r)) = ucast (sextet3 b 0)"
  "take_bit 6 (take_in True c r) = ucast (sextet4 c)"
  by (rule bit_word_eqI; auto simp: take_in_def sextet_defs bit_simps byte_high)+

lemma bin_loop_Cons:
  "bin_loop True bl (b # bs) r 0 out =
     bin_loop True bl bs (take_in True b r) 2 (store bl (b64_digit (drop_bit 2 (take_in True b r))) out)"
  "bin_loop True bl (b # bs) r 2 out =
     bin_loop True bl bs (take_in True b r) 4 (store bl (b64_digit (drop_bit 4 (take_in True b r))) out)"
  "bin_loop True bl (b # bs) r 4 out =
     bin_loop True bl bs (take_in True b r) 6 (store bl (b64_digit (drop_bit 6 (take_in True b r))) out)"
  "bin_loop True bl (b # bs) r 6 out = bin_loop True bl (b # bs) r 0 (store bl (b64_digit r) out)"
  by (subst bin_loop.simps; simp add: Let_def)+

lemma bin_loop_Nil: "bin_loop True bl [] r rem out = (r, rem, out)"
  by (subst bin_loop.simps) simp

lemma store_fits: "int (length out) < bl \<Longrightarrow> store bl c out = out @ [c]"
  by (simp add: store_def)

lemma last_digit_rem:
  "int (length out) < bl \<Longrightarrow> last_digit bl (r, 2, out) = out @ [base64_digits ! unat (push_bit 4 (take_bit 2 r))]"
  "int (length out) < bl \<Longrightarrow> last_digit bl (r, 4, out) = out @ [base64_digits ! unat (push_bit 2 (take_bit 4 r))]"
  "int (length out) < bl \<Longrightarrow> last_digit bl (r, 6, out) = out @ [base64_digits ! unat (take_bit 6 r)]"
  unfolding last_digit_def prod.case and_low by (simp_all add: store_fits)

text \<open>A group of three bytes; when more bytes follow, its fourth digit comes at the start of the next group.\<close>

lemma bin_loop_enc:
  assumes "int (length out + length (enc bs)) \<le> bl"
  shows "last_digit bl (bin_loop True bl bs r 0 out) = out @ enc bs"
  using assms
proof (induction bs arbitrary: r out rule: enc.induct)
  case (1 a b c rest)
  let ?r = "take_in True c (take_in True b (take_in True a r))"
    and ?out = "out @ [D (sextet1 a), D (sextet2 a b), D (sextet3 b c)]"
  have three: "bin_loop True bl (a # b # c # rest) r 0 out = bin_loop True bl rest ?r 6 ?out"
    using 1(2) by (simp add: bin_loop_Cons(1-3) emitted store_fits)
  show ?case
  proof (cases rest)
    case Nil
    then show ?thesis
      using 1(2) unfolding three by (simp add: bin_loop_Nil last_digit_rem last_bits D_ucast store_fits)
  next
    case (Cons d ds)
    have "bin_loop True bl rest ?r 6 ?out = bin_loop True bl rest ?r 0 (?out @ [D (sextet4 c)])"
      using 1(2) unfolding Cons by (simp add: bin_loop_Cons(4) emitted store_fits)
    then show ?thesis using 1(1) [of "?out @ [D (sextet4 c)]" ?r] 1(2) unfolding three by simp
  qed
next
  case (2 a b)
  then show ?case
    by (simp add: bin_loop_Cons(1-3) bin_loop_Nil emitted store_fits last_digit_rem last_bits D_ucast)
next
  case (3 a)
  then show ?case
    by (simp add: bin_loop_Cons(1-3) bin_loop_Nil emitted store_fits last_digit_rem last_bits D_ucast)
next
  case 4
  then show ?case by (simp add: bin_loop_Nil last_digit_def)
qed

lemma enc_no_space: "list_all (\<lambda>c. c \<noteq> of_char CHR '' '') (enc bs)"
  by (induction bs rule: enc.induct) (use digit_plain sextet_less in \<open>auto simp: D_def\<close>)

lemma enc_length: "length (enc bs) = (4 * length bs + 2) div 3"
  by (induction bs rule: enc.induct) simp_all

text \<open>
  C10: Binary data survives \<open>bin_to_base64\<close> in its compatible form and \<open>base64_to_bin\<close>, for every length.
  The text has four characters for three bytes, without padding; the buffer for the
  bytes needs a multiple of three, and one byte more for the zero.
\<close>

theorem base64_bin_roundtrip:
  assumes "4 * int (length bs) + 2 < 3 * buflen" and "(length bs + 2) div 3 * 3 < length dest"
  shows "\<exists>cs dest'. bin_to_base64 buflen bs True = Some cs \<and> length cs = (4 * length bs + 2) div 3 \<and>
     base64_to_bin dest cs = Some (dest', length bs) \<and> take (length bs) dest' = bs"
proof -
  have group: "((4 * n + 2) div 3 + 3) div 4 = (n + 2) div 3" for n :: nat
  proof -
    have "n = 3 * (n div 3) \<or> n = 3 * (n div 3) + 1 \<or> n = 3 * (n div 3) + 2" by presburger
    moreover have "((4 * n + 2) div 3 + 3) div 4 = (n + 2) div 3" if "n = 3 * q \<or> n = 3 * q + 1 \<or> n = 3 * q + 2" for q
      using that by (elim disjE) (simp_all add: algebra_simps)
    ultimately show ?thesis by blast
  qed
  have len: "int (length (enc bs)) \<le> buflen - 1" using assms(1) by (simp add: enc_length)
  have tw: "takeWhile (\<lambda>c. c \<noteq> of_char CHR '' '') (enc bs) = enc bs"
    using enc_no_space by (simp add: takeWhile_eq_all_conv list_all_iff)
  have "bin_to_base64 buflen bs True = Some (enc bs)"
    using bin_to_base64_last [of buflen bs] bin_loop_enc [of "[]" bs "buflen - 1" 0] len assms(1) by simp
  moreover have room: "(length (enc bs) + 3) div 4 * 3 \<le> length dest" using assms(2) group [of "length bs"] by (simp add: enc_length)
  moreover have "length bs < length dest" using assms(2) by linarith
  moreover from this obtain d where d: "mem_write dest 0 (bs @ [0]) = Some d"
    using mem_write_SomeI [of 0 "bs @ [0]" dest] by simp
  moreover have "take (length bs) d = bs" using d by (auto simp: mem_write_def split: if_splits)
  moreover have "base64_to_bin dest (enc bs) = Some (d, length bs)"
    unfolding base64_to_bin_def tw Let_def using room d by (simp add: dec_enc)
  ultimately show ?thesis by (simp add: enc_length)
qed

theorem base64_bin_roundtrip_witness:
  "\<exists>cs dest'. bin_to_base64 30 [0xA5, 0x7D, 0xA3, 0xC4] True = Some cs \<and> length cs = 6 \<and>
     base64_to_bin (replicate 10 0) cs = Some (dest', 4) \<and> take 4 dest' = [0xA5, 0x7D, 0xA3, 0xC4]"
proof -
  have "length [0xA5, 0x7D, 0xA3, 0xC4 :: byte] = 4" by simp
  from base64_bin_roundtrip [of "[0xA5, 0x7D, 0xA3, 0xC4]" 30 "replicate 10 0", unfolded this] show ?thesis by simp
qed

text \<open>
  A buffer of the size that \<open>base64_to_bin\<close> asks for is one byte too short: with three bytes for
  every group of four characters it passes the check of the size, is filled completely, and the zero
  is stored behind its end.
\<close>

lemma base64_to_bin_overruns:
  assumes "4 dvd length src" and "of_char CHR '' '' \<notin> set src" and "length dest = length src div 4 * 3"
  shows "base64_to_bin dest src = None"
proof -
  have len: "length (dec_loop cs) = length cs div 4 * 3" if "4 dvd length cs" for cs
    using that
  proof (induction cs rule: dec_loop.induct)
    case (1 a b c d e rest)
    then show ?case using dvd_diff_nat [OF 1(2), of 4] div_add_self1 [of 4 "Suc (length rest)"] by simp
  qed (auto dest: dvd_imp_le)
  have tw: "takeWhile (\<lambda>c. c \<noteq> of_char CHR '' '') src = src" using assms(2) by (auto simp: takeWhile_eq_all_conv)
  have "(length src + 3) div 4 * 3 = length dest" using assms(1,3) by (auto elim!: dvdE)
  then show ?thesis
    unfolding base64_to_bin_def tw Let_def using len [OF assms(1)] assms(3) by (simp add: mem_write_def)
qed

lemma base64_to_bin_overruns_example: "base64_to_bin [0, 0, 0] (map of_char ''YWJj'') = None"
proof -
  have "length (map of_char ''YWJj'' :: byte list) = 4" "length [0, 0, 0 :: byte] = 3" by simp_all
  from base64_to_bin_overruns [of "map of_char ''YWJj''" "[0, 0, 0]", unfolded this] show ?thesis by simp
qed

end
