(* ===== verification/Bsnprintf.thy ===== *)
theory Bsnprintf
  imports Prelude
begin

text \<open>
  \<^verbatim>\<open>lib/bsnprintf.c\<close>, the printf of the daemons: the state machine that reads a format, and the routines that put out integers and strings. A C string is
  the list of its characters with the zero at the end; a pointer into it is the rest of the list. Floating point numbers are put out by the parameter
  \<open>fp\<close>, which gives the characters of \<open>fmtfp\<close>.
\<close>

abbreviation NUL :: char where
  "NUL \<equiv> CHR 0x00"

section \<open>Undefined behaviour\<close>

text \<open>An access outside a buffer or a string, an argument that is not of the type of the conversion, and the overflow of an \<open>int\<close>.\<close>

datatype fault = Beyond | Bad_vararg | Overflow

definition and_then :: "fault + 'a \<Rightarrow> ('a \<Rightarrow> fault + 'b) \<Rightarrow> fault + 'b" where
  "and_then x f = (case x of Inl e \<Rightarrow> Inl e | Inr y \<Rightarrow> f y)"

lemma and_then_simps [simp]: "and_then (Inl e) f = Inl e" "and_then (Inr y) f = f y"
  by (simp_all add: and_then_def)

definition fits_int :: "int \<Rightarrow> bool" where
  "fits_int x \<longleftrightarrow> - (2 ^ 31) \<le> x \<and> x < 2 ^ 31"

section \<open>Output\<close>

type_synonym out = "string \<times> int"

definition store :: "string \<Rightarrow> int \<Rightarrow> char \<Rightarrow> fault + string" where
  "store buffer i c = (if 0 \<le> i \<and> i < int (length buffer) then Inr (buffer[nat i := c]) else Inl Beyond)"

definition outch :: "int \<Rightarrow> char \<Rightarrow> out \<Rightarrow> fault + out" where
  "outch maxlen c out =
     (case out of (buffer, currlen) \<Rightarrow>
        if currlen < maxlen then and_then (store buffer currlen c) (\<lambda>buffer. Inr (buffer, currlen + 1)) else Inr (buffer, currlen))"

text \<open>The loops that put out one character after the other.\<close>

fun outs :: "int \<Rightarrow> string \<Rightarrow> out \<Rightarrow> fault + out" where
  "outs maxlen [] out = Inr out"
| "outs maxlen (c # cs) out = and_then (outch maxlen c out) (outs maxlen cs)"

definition pad :: "int \<Rightarrow> char \<Rightarrow> string" where
  "pad n c = replicate (nat n) c"

section \<open>Formats\<close>

record dp_flags =
  DP_F_MINUS :: bool
  DP_F_PLUS :: bool
  DP_F_SPACE :: bool
  DP_F_NUM :: bool
  DP_F_ZERO :: bool
  DP_F_UP :: bool
  DP_F_UNSIGNED :: bool
  DP_F_DOT :: bool

definition no_flags :: dp_flags where
  "no_flags = \<lparr>DP_F_MINUS = False, DP_F_PLUS = False, DP_F_SPACE = False, DP_F_NUM = False, DP_F_ZERO = False, DP_F_UP = False,
     DP_F_UNSIGNED = False, DP_F_DOT = False\<rparr>"

datatype dp_cflags = DP_C_NONE | DP_C_INT16 | DP_C_INT32 | DP_C_LDOUBLE | DP_C_INT64 | DP_C_WCHAR | DP_C_SIZE_T

datatype dp_state = DP_S_DEFAULT | DP_S_FLAGS | DP_S_MIN | DP_S_DOT | DP_S_MAX | DP_S_MOD | DP_S_CONV | DP_S_DONE

text \<open>The arguments behind the format: 32 and 64 bit integers, strings of both kinds, which may be null pointers, and floating point numbers.\<close>

datatype vararg = Va_int int32_t | Va_long int64_t | Va_str "string option" | Va_wstr "uint32_t list option" | Va_double int64_t

section \<open>Strings and integers\<close>

text \<open>\<open>value\<close> is the string in front of its zero.\<close>

definition fmtstr :: "int \<Rightarrow> string \<Rightarrow> dp_flags \<Rightarrow> int \<Rightarrow> int \<Rightarrow> out \<Rightarrow> fault + out" where
  "fmtstr maxlen value flags mn mx out =
     (let mx = (if DP_F_DOT flags \<and> mx < 0 then 0 else if mx < 0 then maxlen else mx);
          strln = int (length value);
          strln = (if strln > mx then mx else strln);
          padlen = mn - strln
      in if \<not> fits_int padlen then Inl Overflow
         else
           (let padlen = (if padlen < 0 then 0 else padlen);
                padlen = (if DP_F_MINUS flags then - padlen else padlen)
            in outs maxlen (pad padlen CHR '' '' @ take (nat mx) value @ pad (- padlen) CHR '' '') out))"

definition fmtwstr :: "int \<Rightarrow> uint32_t list \<Rightarrow> dp_flags \<Rightarrow> int \<Rightarrow> int \<Rightarrow> out \<Rightarrow> fault + out" where
  "fmtwstr maxlen value flags mn mx out = fmtstr maxlen (map (\<lambda>w. char_of (unat (w AND 0xff))) value) flags mn mx out"

text \<open>The digits, last one first, in an array with \<open>room\<close> places left.\<close>

fun convert_digits :: "string \<Rightarrow> nat \<Rightarrow> nat \<Rightarrow> nat \<Rightarrow> string" where
  "convert_digits cvt_string base uvalue 0 = []"
| "convert_digits cvt_string base uvalue (Suc room) =
     cvt_string ! (uvalue mod base) # (if uvalue div base \<noteq> 0 \<and> room \<noteq> 0 then convert_digits cvt_string base (uvalue div base) room else [])"

definition fmtint :: "int \<Rightarrow> int64_t \<Rightarrow> nat \<Rightarrow> dp_flags \<Rightarrow> int \<Rightarrow> int \<Rightarrow> out \<Rightarrow> fault + out" where
  "fmtint maxlen value base flags mn mx out =
     (let mx = (if mx < 0 then 0 else mx);
          negative = (\<not> DP_F_UNSIGNED flags \<and> value <s 0);
          signvalue = (if DP_F_UNSIGNED flags then '''' else if value <s 0 then ''-'' else if DP_F_PLUS flags then ''+''
                       else if DP_F_SPACE flags then '' '' else '''');
          uvalue = (if negative then - value else value);
          cvt_string = (if DP_F_UP flags then ''0123456789ABCDEF'' else ''0123456789abcdef'');
          convert = convert_digits cvt_string base (unat uvalue) 25;
          convert = (if length convert = 25 then butlast convert else convert);
          place = int (length convert);
          zpadlen = mx - place;
          spadlen = mn - (if mx \<ge> place then mx else place) - (if signvalue \<noteq> '''' then 1 else 0)
      in if \<not> fits_int spadlen then Inl Overflow
         else
           (let zpadlen = (if zpadlen < 0 then 0 else zpadlen);
                spadlen = (if spadlen < 0 then 0 else spadlen);
                (zpadlen, spadlen) = (if DP_F_ZERO flags then (if zpadlen \<ge> spadlen then zpadlen else spadlen, 0) else (zpadlen, spadlen));
                spadlen = (if DP_F_MINUS flags then - spadlen else spadlen)
            in outs maxlen (pad spadlen CHR '' '' @ signvalue @ pad zpadlen CHR ''0'' @ rev convert @ pad (- spadlen) CHR '' '') out))"

section \<open>Reading the format\<close>

record fmt_state =
  dp_state :: dp_state
  ch :: char
  fmt :: string
  flags :: dp_flags
  cflags :: dp_cflags
  fmin :: int
  fmax :: int
  va_args :: "vararg list"
  fmt_out :: out

definition next_ch :: "fmt_state \<Rightarrow> fault + fmt_state" where
  "next_ch s = (case fmt s of [] \<Rightarrow> Inl Beyond | c # cs \<Rightarrow> Inr (s\<lparr>ch := c, fmt := cs\<rparr>))"

definition va_int :: "fmt_state \<Rightarrow> fault + int32_t \<times> fmt_state" where
  "va_int s = (case va_args s of Va_int w # as \<Rightarrow> Inr (w, s\<lparr>va_args := as\<rparr>) | _ \<Rightarrow> Inl Bad_vararg)"

definition va_long :: "fmt_state \<Rightarrow> fault + int64_t \<times> fmt_state" where
  "va_long s = (case va_args s of Va_long w # as \<Rightarrow> Inr (w, s\<lparr>va_args := as\<rparr>) | _ \<Rightarrow> Inl Bad_vararg)"

text \<open>An integer argument, widened with or without its sign.\<close>

definition va_integer :: "bool \<Rightarrow> fmt_state \<Rightarrow> fault + int64_t \<times> fmt_state" where
  "va_integer has_sign s =
     (if cflags s = DP_C_INT64 \<or> cflags s = DP_C_SIZE_T then va_long s
      else and_then (va_int s) (\<lambda>(w, s). Inr (if has_sign then scast w else ucast w, s)))"

definition is_digit :: "char \<Rightarrow> bool" where
  "is_digit c \<longleftrightarrow> 48 \<le> (of_char c :: nat) \<and> (of_char c :: nat) \<le> 57"


definition digit_value :: "char \<Rightarrow> int" where
  "digit_value c = of_char c - 48"

text \<open>The states of the machine, one function for each.\<close>

definition fmt_default :: "int \<Rightarrow> fmt_state \<Rightarrow> fault + fmt_state" where
  "fmt_default maxlen s =
     (if ch s = CHR ''%'' then next_ch (s\<lparr>dp_state := DP_S_FLAGS\<rparr>)
      else and_then (outch maxlen (ch s) (fmt_out s)) (\<lambda>out. next_ch (s\<lparr>fmt_out := out\<rparr>)))"

definition fmt_flags :: "fmt_state \<Rightarrow> fault + fmt_state" where
  "fmt_flags s =
     (let f = flags s
      in if ch s = CHR ''-'' then next_ch (s\<lparr>flags := f\<lparr>DP_F_MINUS := True\<rparr>\<rparr>)
         else if ch s = CHR ''+'' then next_ch (s\<lparr>flags := f\<lparr>DP_F_PLUS := True\<rparr>\<rparr>)
         else if ch s = CHR '' '' then next_ch (s\<lparr>flags := f\<lparr>DP_F_SPACE := True\<rparr>\<rparr>)
         else if ch s = CHR ''#'' then next_ch (s\<lparr>flags := f\<lparr>DP_F_NUM := True\<rparr>\<rparr>)
         else if ch s = CHR ''0'' then next_ch (s\<lparr>flags := f\<lparr>DP_F_ZERO := True\<rparr>\<rparr>)
         else Inr (s\<lparr>dp_state := DP_S_MIN\<rparr>))"

definition fmt_min :: "fmt_state \<Rightarrow> fault + fmt_state" where
  "fmt_min s =
     (if is_digit (ch s) then
        (let m = 10 * fmin s + digit_value (ch s) in if fits_int m then next_ch (s\<lparr>fmin := m\<rparr>) else Inl Overflow)
      else if ch s = CHR ''*'' then and_then (va_int s) (\<lambda>(w, s). next_ch (s\<lparr>fmin := sint w, dp_state := DP_S_DOT\<rparr>))
      else Inr (s\<lparr>dp_state := DP_S_DOT\<rparr>))"

definition fmt_dot :: "fmt_state \<Rightarrow> fault + fmt_state" where
  "fmt_dot s =
     (if ch s = CHR ''.'' then next_ch (s\<lparr>dp_state := DP_S_MAX, flags := (flags s)\<lparr>DP_F_DOT := True\<rparr>\<rparr>)
      else Inr (s\<lparr>dp_state := DP_S_MOD\<rparr>))"

definition fmt_max :: "fmt_state \<Rightarrow> fault + fmt_state" where
  "fmt_max s =
     (if is_digit (ch s) then
        (let m = 10 * (if fmax s < 0 then 0 else fmax s) + digit_value (ch s) in if fits_int m then next_ch (s\<lparr>fmax := m\<rparr>) else Inl Overflow)
      else if ch s = CHR ''*'' then and_then (va_int s) (\<lambda>(w, s). next_ch (s\<lparr>fmax := sint w, dp_state := DP_S_MOD\<rparr>))
      else Inr (s\<lparr>dp_state := DP_S_MOD\<rparr>))"

definition fmt_mod :: "fmt_state \<Rightarrow> fault + fmt_state" where
  "fmt_mod s =
     (let s' = s\<lparr>dp_state := DP_S_CONV\<rparr>
      in if ch s = CHR ''h'' then next_ch (s'\<lparr>cflags := DP_C_INT16\<rparr>)
         else if ch s = CHR ''l'' then
           and_then (next_ch (s'\<lparr>cflags := DP_C_INT32\<rparr>)) (\<lambda>s.
             if ch s = CHR ''s'' then Inr (s\<lparr>cflags := DP_C_WCHAR\<rparr>)
             else if ch s = CHR ''l'' then next_ch (s\<lparr>cflags := DP_C_INT64\<rparr>)
             else Inr s)
         else if ch s = CHR ''z'' then next_ch (s'\<lparr>cflags := DP_C_SIZE_T\<rparr>)
         else if ch s = CHR ''L'' then next_ch (s'\<lparr>cflags := DP_C_LDOUBLE\<rparr>)
         else if ch s = CHR ''q'' then next_ch (s'\<lparr>cflags := DP_C_INT64\<rparr>)
         else Inr s')"

definition put_out :: "fmt_state \<Rightarrow> fault + out \<Rightarrow> fault + fmt_state" where
  "put_out s r = and_then r (\<lambda>out. Inr (s\<lparr>fmt_out := out\<rparr>))"

definition put_integer :: "int \<Rightarrow> bool \<Rightarrow> nat \<Rightarrow> fmt_state \<Rightarrow> fault + fmt_state" where
  "put_integer maxlen has_sign base s =
     and_then (va_integer has_sign s) (\<lambda>(value, s). put_out s (fmtint maxlen value base (flags s) (fmin s) (fmax s) (fmt_out s)))"

definition put_unsigned :: "int \<Rightarrow> nat \<Rightarrow> bool \<Rightarrow> fmt_state \<Rightarrow> fault + fmt_state" where
  "put_unsigned maxlen base up s =
     put_integer maxlen False base (s\<lparr>flags := (flags s)\<lparr>DP_F_UP := DP_F_UP (flags s) \<or> up, DP_F_UNSIGNED := True\<rparr>\<rparr>)"

definition put_fp :: "int \<Rightarrow> (int64_t \<Rightarrow> int \<Rightarrow> int \<Rightarrow> dp_flags \<Rightarrow> string) \<Rightarrow> bool \<Rightarrow> fmt_state \<Rightarrow> fault + fmt_state" where
  "put_fp maxlen fp up s =
     (case va_args s of
        Va_double x # as \<Rightarrow>
          (let s = s\<lparr>flags := (flags s)\<lparr>DP_F_UP := DP_F_UP (flags s) \<or> up\<rparr>, va_args := as\<rparr>
           in put_out s (outs maxlen (fp x (fmin s) (fmax s) (flags s)) (fmt_out s)))
      | _ \<Rightarrow> Inl Bad_vararg)"

definition put_string :: "int \<Rightarrow> fmt_state \<Rightarrow> fault + fmt_state" where
  "put_string maxlen s =
     (case va_args s of
        Va_str p # as \<Rightarrow>
          if cflags s = DP_C_WCHAR then Inl Bad_vararg
          else put_out (s\<lparr>va_args := as\<rparr>)
                 (fmtstr maxlen (case p of None \<Rightarrow> ''<NULL>'' | Some value \<Rightarrow> value) (flags s) (fmin s) (fmax s) (fmt_out s))
      | Va_wstr p # as \<Rightarrow>
          if cflags s \<noteq> DP_C_WCHAR then Inl Bad_vararg
          else put_out (s\<lparr>va_args := as\<rparr>)
                 (fmtwstr maxlen (case p of None \<Rightarrow> map of_char ''<NULL>'' | Some value \<Rightarrow> value) (flags s) (fmin s) (fmax s) (fmt_out s))
      | _ \<Rightarrow> Inl Bad_vararg)"

definition fmt_convert :: "int \<Rightarrow> (int64_t \<Rightarrow> int \<Rightarrow> int \<Rightarrow> dp_flags \<Rightarrow> string) \<Rightarrow> fmt_state \<Rightarrow> fault + fmt_state" where
  "fmt_convert maxlen fp s =
     (let c = ch s
      in if c = CHR ''d'' \<or> c = CHR ''i'' then put_integer maxlen True 10 s
         else if c = CHR ''o'' then put_unsigned maxlen 8 False s
         else if c = CHR ''x'' then put_unsigned maxlen 16 False s
         else if c = CHR ''X'' then put_unsigned maxlen 16 True s
         else if c = CHR ''u'' then put_unsigned maxlen 10 False s
         else if c = CHR ''f'' \<or> c = CHR ''e'' \<or> c = CHR ''g'' then put_fp maxlen fp False s
         else if c = CHR ''E'' \<or> c = CHR ''G'' then put_fp maxlen fp True s
         else if c = CHR ''c'' then and_then (va_int s) (\<lambda>(w, s). put_out s (outch maxlen (char_of (unat w mod 256)) (fmt_out s)))
         else if c = CHR ''s'' then put_string maxlen s
         else if c = CHR ''p'' then
           (let s = s\<lparr>flags := (flags s)\<lparr>DP_F_UNSIGNED := True\<rparr>\<rparr>
            in and_then (va_long s) (\<lambda>(value, s). put_out s (fmtint maxlen value 16 (flags s) (fmin s) (fmax s) (fmt_out s))))
         else if c = CHR ''%'' then put_out s (outch maxlen c (fmt_out s))
         else if c = CHR ''w'' then next_ch s
         else Inr s)"

definition fmt_conv :: "int \<Rightarrow> (int64_t \<Rightarrow> int \<Rightarrow> int \<Rightarrow> dp_flags \<Rightarrow> string) \<Rightarrow> fmt_state \<Rightarrow> fault + fmt_state" where
  "fmt_conv maxlen fp s =
     and_then (fmt_convert maxlen fp s) (\<lambda>s.
       and_then (next_ch s) (\<lambda>s. Inr (s\<lparr>dp_state := DP_S_DEFAULT, flags := no_flags, cflags := DP_C_NONE, fmin := 0, fmax := - 1\<rparr>)))"

definition fmt_step :: "int \<Rightarrow> (int64_t \<Rightarrow> int \<Rightarrow> int \<Rightarrow> dp_flags \<Rightarrow> string) \<Rightarrow> fmt_state \<Rightarrow> fault + fmt_state" where
  "fmt_step maxlen fp s =
     (if ch s = NUL \<or> maxlen \<le> snd (fmt_out s) then Inr (s\<lparr>dp_state := DP_S_DONE\<rparr>)
      else case dp_state s of
             DP_S_DEFAULT \<Rightarrow> fmt_default maxlen s
           | DP_S_FLAGS \<Rightarrow> fmt_flags s
           | DP_S_MIN \<Rightarrow> fmt_min s
           | DP_S_DOT \<Rightarrow> fmt_dot s
           | DP_S_MAX \<Rightarrow> fmt_max s
           | DP_S_MOD \<Rightarrow> fmt_mod s
           | DP_S_CONV \<Rightarrow> fmt_conv maxlen fp s
           | DP_S_DONE \<Rightarrow> Inr s)"

section \<open>Termination\<close>

text \<open>Every state takes characters from the format or is followed by a later one.\<close>

definition rank :: "dp_state \<Rightarrow> nat" where
  "rank st = (case st of DP_S_DEFAULT \<Rightarrow> 7 | DP_S_FLAGS \<Rightarrow> 6 | DP_S_MIN \<Rightarrow> 5 | DP_S_DOT \<Rightarrow> 4 | DP_S_MAX \<Rightarrow> 3 | DP_S_MOD \<Rightarrow> 2 | DP_S_CONV \<Rightarrow> 1 | DP_S_DONE \<Rightarrow> 0)"

definition todo :: "fmt_state \<Rightarrow> nat" where
  "todo s = 8 * length (fmt s) + rank (dp_state s)"

lemma next_ch_Inr: "next_ch s = Inr s' \<Longrightarrow> \<exists>c cs. fmt s = c # cs \<and> s' = s\<lparr>ch := c, fmt := cs\<rparr>"
  by (auto simp: next_ch_def split: list.splits)

lemma and_then_Inr: "and_then x f = Inr z \<longleftrightarrow> (\<exists>y. x = Inr y \<and> f y = Inr z)"
  by (cases x) auto

text \<open>A conversion leaves the rest of the format alone, apart from \<^verbatim>\<open>%w\<close>.\<close>

definition same_fmt :: "fmt_state \<Rightarrow> fmt_state \<Rightarrow> bool" where
  "same_fmt s s' \<longleftrightarrow> fmt s' = fmt s \<and> dp_state s' = dp_state s"

lemma va_same:
  "va_int s = Inr (w, s') \<Longrightarrow> same_fmt s s'" "va_long s = Inr (v, s') \<Longrightarrow> same_fmt s s'" "va_integer h s = Inr (v, s') \<Longrightarrow> same_fmt s s'"
  by (auto simp: va_int_def va_long_def va_integer_def same_fmt_def and_then_Inr split: list.splits vararg.splits if_splits)

lemma put_same:
  "put_out s r = Inr s' \<Longrightarrow> same_fmt s s'"
  "put_integer m h b s = Inr s' \<Longrightarrow> same_fmt s s'"
  "put_unsigned m b u s = Inr s' \<Longrightarrow> same_fmt s s'"
  "put_fp m fp u s = Inr s' \<Longrightarrow> same_fmt s s'"
  "put_string m s = Inr s' \<Longrightarrow> same_fmt s s'"
proof -
  show 1: "put_out s r = Inr s' \<Longrightarrow> same_fmt s s'" for s r s' by (auto simp: put_out_def and_then_Inr same_fmt_def)
  show 2: "put_integer m h b s = Inr s' \<Longrightarrow> same_fmt s s'" for m h b s s'
    by (auto simp: put_integer_def and_then_Inr same_fmt_def dest!: 1 va_same)
  show "put_unsigned m b u s = Inr s' \<Longrightarrow> same_fmt s s'" by (auto simp: put_unsigned_def same_fmt_def dest: 2)
  show "put_fp m fp u s = Inr s' \<Longrightarrow> same_fmt s s'"
    by (auto simp: put_fp_def Let_def same_fmt_def dest!: 1 split: list.splits vararg.splits)
  show "put_string m s = Inr s' \<Longrightarrow> same_fmt s s'"
    by (auto simp: put_string_def same_fmt_def dest!: 1 split: list.splits vararg.splits if_splits)
qed

lemma fmt_convert_fmt:
  assumes "fmt_convert m fp s = Inr s'"
  shows "dp_state s' = dp_state s \<and> (fmt s' = fmt s \<or> ch s = CHR ''w'' \<and> next_ch s = Inr s')"
proof -
  have "same_fmt s s' \<or> ch s = CHR ''w'' \<and> next_ch s = Inr s'"
    using assms unfolding fmt_convert_def Let_def
    by (auto simp: and_then_Inr same_fmt_def dest!: put_same va_same split: if_splits)
  then show ?thesis by (auto simp: same_fmt_def dest: next_ch_Inr)
qed

lemma next_ch_len: "next_ch s = Inr s' \<Longrightarrow> length (fmt s) = Suc (length (fmt s')) \<and> dp_state s' = dp_state s"
  by (auto dest: next_ch_Inr)

lemma fmt_mod_len: "fmt_mod s = Inr s' \<Longrightarrow> length (fmt s') \<le> length (fmt s) \<and> dp_state s' = DP_S_CONV"
  unfolding fmt_mod_def Let_def by (auto simp: and_then_Inr dest!: next_ch_len split: if_splits)

lemma fmt_step_todo:
  assumes "dp_state s \<noteq> DP_S_DONE" and "fmt_step m fp s = Inr s'"
  shows "todo s' < todo s"
proof (cases "ch s = NUL \<or> m \<le> snd (fmt_out s)")
  case True
  then show ?thesis using assms by (auto simp: fmt_step_def todo_def rank_def split: dp_state.splits)
next
  case False
  note step = assms(2) [unfolded fmt_step_def if_not_P [OF False]]
  show ?thesis
  proof (cases "dp_state s")
    case DP_S_DEFAULT
    then show ?thesis using step by (auto simp: fmt_default_def and_then_Inr todo_def rank_def dest!: next_ch_len split: if_splits)
  next
    case DP_S_FLAGS
    then show ?thesis using step by (auto simp: fmt_flags_def Let_def todo_def rank_def dest!: next_ch_len split: if_splits)
  next
    case DP_S_MIN
    then show ?thesis using step
      by (auto simp: fmt_min_def Let_def and_then_Inr same_fmt_def todo_def rank_def dest!: next_ch_len va_same split: if_splits)
  next
    case DP_S_DOT
    then show ?thesis using step by (auto simp: fmt_dot_def todo_def rank_def dest!: next_ch_len split: if_splits)
  next
    case DP_S_MAX
    then show ?thesis using step
      by (auto simp: fmt_max_def Let_def and_then_Inr same_fmt_def todo_def rank_def dest!: next_ch_len va_same split: if_splits)
  next
    case DP_S_MOD
    then show ?thesis using step by (auto simp: todo_def rank_def dest!: fmt_mod_len)
  next
    case DP_S_CONV
    then show ?thesis using step
      by (auto simp: fmt_conv_def and_then_Inr todo_def rank_def dest!: next_ch_len fmt_convert_fmt)
  qed (use assms(1) in simp)
qed

function fmt_loop :: "int \<Rightarrow> (int64_t \<Rightarrow> int \<Rightarrow> int \<Rightarrow> dp_flags \<Rightarrow> string) \<Rightarrow> fmt_state \<Rightarrow> fault + fmt_state" where
  "fmt_loop maxlen fp s =
     (if dp_state s = DP_S_DONE then Inr s
      else case fmt_step maxlen fp s of Inl e \<Rightarrow> Inl e | Inr s' \<Rightarrow> fmt_loop maxlen fp s')"
  by pat_completeness auto
termination by (relation "measure (\<lambda>(_, _, s). todo s)") (auto dest: fmt_step_todo)

declare fmt_loop.simps [simp del]

definition bvsnprintf :: "(int64_t \<Rightarrow> int \<Rightarrow> int \<Rightarrow> dp_flags \<Rightarrow> string) \<Rightarrow> string \<Rightarrow> int \<Rightarrow> string \<Rightarrow> vararg list \<Rightarrow> fault + int \<times> string" where
  "bvsnprintf fp buffer maxlen format args =
     and_then (store buffer 0 NUL) (\<lambda>buffer.
       and_then (next_ch \<lparr>dp_state = DP_S_DEFAULT, ch = NUL, fmt = format, flags = no_flags, cflags = DP_C_NONE, fmin = 0, fmax = - 1,
           va_args = args, fmt_out = (buffer, 0)\<rparr>) (\<lambda>s.
         and_then (fmt_loop maxlen fp s) (\<lambda>s. case fmt_out s of (buffer, currlen) \<Rightarrow>
           and_then (store buffer (if currlen < maxlen - 1 then currlen else maxlen - 1) NUL) (\<lambda>buffer. Inr (currlen, buffer)))))"

section \<open>Bounds\<close>

text \<open>No access outside a buffer or string, and afterwards \<open>P\<close>.\<close>

definition safe :: "fault + 'a \<Rightarrow> ('a \<Rightarrow> bool) \<Rightarrow> bool" where
  "safe r P \<longleftrightarrow> (case r of Inl e \<Rightarrow> e \<noteq> Beyond | Inr x \<Rightarrow> P x)"

lemma safe_simps [simp]: "safe (Inl e) P \<longleftrightarrow> e \<noteq> Beyond" "safe (Inr x) P \<longleftrightarrow> P x"
  by (simp_all add: safe_def)

lemma safe_and_then: "safe x P \<Longrightarrow> (\<And>y. P y \<Longrightarrow> safe (f y) Q) \<Longrightarrow> safe (and_then x f) Q"
  by (cases x) simp_all

lemma safe_mono: "safe x P \<Longrightarrow> (\<And>y. P y \<Longrightarrow> Q y) \<Longrightarrow> safe x Q"
  by (cases x) simp_all

text \<open>The buffer \<open>b\<close> has been changed within its first \<open>m\<close> characters only.\<close>

definition out_ok :: "string \<Rightarrow> int \<Rightarrow> out \<Rightarrow> bool" where
  "out_ok b m out \<longleftrightarrow> m \<le> int (length b) \<and> length (fst out) = length b \<and> 0 \<le> snd out \<and> snd out \<le> m \<and> drop (nat m) (fst out) = drop (nat m) b"

lemma outch_ok: "out_ok b m out \<Longrightarrow> safe (outch m c out) (out_ok b m)"
  by (cases out) (auto simp: outch_def store_def out_ok_def)

lemma outs_ok: "out_ok b m out \<Longrightarrow> safe (outs m cs out) (out_ok b m)"
  by (induction cs arbitrary: out) (auto intro: safe_and_then outch_ok)

lemma fmtstr_ok: "out_ok b m out \<Longrightarrow> safe (fmtstr m v f mn mx out) (out_ok b m)"
  by (simp add: fmtstr_def Let_def outs_ok)

lemma fmtint_ok: "out_ok b m out \<Longrightarrow> safe (fmtint m v base f mn mx out) (out_ok b m)"
  by (simp add: fmtint_def Let_def outs_ok split: prod.split)

text \<open>What is left of the format: a string, that does not end with a \<^verbatim>\<open>w\<close>.\<close>

definition cstr :: "string \<Rightarrow> bool" where
  "cstr xs \<longleftrightarrow> (\<exists>t. xs = t @ [NUL] \<and> NUL \<notin> set t \<and> (t = [] \<or> last t \<noteq> CHR ''w''))"

lemma cstr_ConsD:
  assumes "cstr (c # cs)" and "c \<noteq> NUL"
  shows "cstr cs" and "c = CHR ''w'' \<Longrightarrow> hd cs \<noteq> NUL" and "cs \<noteq> []"
proof -
  obtain t where t: "c # cs = t @ [NUL]" "NUL \<notin> set t" "t = [] \<or> last t \<noteq> CHR ''w''" using assms(1) by (auto simp: cstr_def)
  then obtain t' where t': "t = c # t'" "cs = t' @ [NUL]" using assms(2) by (cases t) auto
  show "cstr cs" using t t' by (auto simp: cstr_def split: if_splits)
  show "c = CHR ''w'' \<Longrightarrow> hd cs \<noteq> NUL" using t t' by (cases t') auto
  show "cs \<noteq> []" using t' by simp
qed

lemma cstr_not_Nil: "cstr cs \<Longrightarrow> cs \<noteq> []"
  by (auto simp: cstr_def)

definition fmt_ok :: "string \<Rightarrow> int \<Rightarrow> fmt_state \<Rightarrow> bool" where
  "fmt_ok b m s \<longleftrightarrow> out_ok b m (fmt_out s) \<and> cstr (ch s # fmt s)"

definition conv_ok :: "string \<Rightarrow> int \<Rightarrow> fmt_state \<Rightarrow> bool" where
  "conv_ok b m s \<longleftrightarrow> out_ok b m (fmt_out s) \<and> cstr (fmt s)"

lemma next_ch_ok: "conv_ok b m s \<Longrightarrow> safe (next_ch s) (fmt_ok b m)"
  by (auto simp: next_ch_def conv_ok_def fmt_ok_def dest: cstr_not_Nil split: list.split)

lemma conv_ok_updates [simp]:
  "conv_ok b m (s\<lparr>dp_state := x\<rparr>) = conv_ok b m s" "conv_ok b m (s\<lparr>flags := f\<rparr>) = conv_ok b m s" "conv_ok b m (s\<lparr>cflags := g\<rparr>) = conv_ok b m s"
  "conv_ok b m (s\<lparr>fmin := i\<rparr>) = conv_ok b m s" "conv_ok b m (s\<lparr>fmax := i\<rparr>) = conv_ok b m s" "conv_ok b m (s\<lparr>va_args := a\<rparr>) = conv_ok b m s"
  "fmt_ok b m (s\<lparr>dp_state := x\<rparr>) = fmt_ok b m s" "fmt_ok b m (s\<lparr>flags := f\<rparr>) = fmt_ok b m s" "fmt_ok b m (s\<lparr>cflags := g\<rparr>) = fmt_ok b m s"
  "fmt_ok b m (s\<lparr>fmin := i\<rparr>) = fmt_ok b m s" "fmt_ok b m (s\<lparr>fmax := i\<rparr>) = fmt_ok b m s"
  by (simp_all add: conv_ok_def fmt_ok_def)

lemma fmt_ok_conv: "fmt_ok b m s \<Longrightarrow> ch s \<noteq> NUL \<Longrightarrow> conv_ok b m s"
  by (auto simp: fmt_ok_def conv_ok_def dest: cstr_ConsD)

lemma put_out_ok: "conv_ok b m s \<Longrightarrow> safe r (out_ok b m) \<Longrightarrow> safe (put_out s r) (conv_ok b m)"
  unfolding put_out_def by (rule safe_and_then, assumption) (simp add: conv_ok_def)

lemma conv_ok_out: "conv_ok b m s \<Longrightarrow> out_ok b m (fmt_out s)"
  by (simp add: conv_ok_def)

lemma va_ok:
  assumes "conv_ok b m s"
  shows "safe (va_int s) (\<lambda>(w, s). conv_ok b m s)" "safe (va_long s) (\<lambda>(w, s). conv_ok b m s)" "safe (va_integer h s) (\<lambda>(w, s). conv_ok b m s)"
proof -
  show 1: "safe (va_int s) (\<lambda>(w, s). conv_ok b m s)" and 2: "safe (va_long s) (\<lambda>(w, s). conv_ok b m s)"
    using assms by (auto simp: va_int_def va_long_def split: list.split vararg.split)
  show "safe (va_integer h s) (\<lambda>(w, s). conv_ok b m s)"
    unfolding va_integer_def using 2 by (auto intro!: safe_and_then [OF 1])
qed

lemma put_ok:
  assumes "conv_ok b m s"
  shows "safe (put_integer m h base s) (conv_ok b m)" "safe (put_unsigned m base u s) (conv_ok b m)" "safe (put_fp m fp u s) (conv_ok b m)"
    "safe (put_string m s) (conv_ok b m)"
proof -
  have 1: "safe (put_integer m h base s) (conv_ok b m)" if "conv_ok b m s" for s h base
    unfolding put_integer_def using that by (auto intro!: safe_and_then [OF va_ok(3)] put_out_ok fmtint_ok dest: conv_ok_out)
  show "safe (put_integer m h base s) (conv_ok b m)" by (rule 1 [OF assms])
  show "safe (put_unsigned m base u s) (conv_ok b m)" unfolding put_unsigned_def using assms by (intro 1) simp
  show "safe (put_fp m fp u s) (conv_ok b m)"
    unfolding put_fp_def Let_def using assms by (auto intro!: put_out_ok outs_ok dest: conv_ok_out split: list.split vararg.split)
  show "safe (put_string m s) (conv_ok b m)"
    unfolding put_string_def fmtwstr_def using assms by (auto intro!: put_out_ok fmtstr_ok dest: conv_ok_out split: list.split vararg.split)
qed

lemma fmt_conv_ok:
  assumes f: "fmt_ok b m s" and n: "ch s \<noteq> NUL"
  shows "safe (fmt_conv m fp s) (fmt_ok b m)"
proof -
  note c = fmt_ok_conv [OF f n]
  have w: "safe (next_ch s) (conv_ok b m)" if w0: "ch s = CHR ''w''"
  proof -
    obtain x xs where x: "fmt s = x # xs" "x \<noteq> NUL" "cstr (x # xs)"
      using cstr_ConsD [OF f [unfolded fmt_ok_def, THEN conjunct2] n] w0 by (cases "fmt s") auto
    then show ?thesis using c cstr_ConsD(1) [OF x(3,2)] by (simp add: next_ch_def conv_ok_def)
  qed
  have p: "safe (and_then (va_long s') (\<lambda>(value, s). put_out s (fmtint m value 16 (flags s) (fmin s) (fmax s) (fmt_out s)))) (conv_ok b m)"
      "safe (and_then (va_int s') (\<lambda>(w, s). put_out s (outch m (char_of (unat w mod 256)) (fmt_out s)))) (conv_ok b m)" if "conv_ok b m s'" for s'
    using that by (auto intro!: safe_and_then [OF va_ok(2)] safe_and_then [OF va_ok(1)] put_out_ok fmtint_ok outch_ok dest: conv_ok_out)
  have "safe (fmt_convert m fp s) (conv_ok b m)"
    unfolding fmt_convert_def Let_def using c w p put_ok [OF c] put_out_ok [OF c outch_ok [OF conv_ok_out [OF c]]] by simp
  then show ?thesis unfolding fmt_conv_def by (rule safe_and_then) (auto intro!: safe_and_then [OF next_ch_ok])
qed

lemma fmt_step_ok:
  assumes f: "fmt_ok b m s"
  shows "safe (fmt_step m fp s) (fmt_ok b m)"
proof (cases "ch s = NUL \<or> m \<le> snd (fmt_out s)")
  case True
  then show ?thesis using f by (simp add: fmt_step_def)
next
  case False
  then have n: "ch s \<noteq> NUL" by simp
  note c = fmt_ok_conv [OF f n]
  note nx = next_ch_ok [of b m]
  have "safe (fmt_default m s) (fmt_ok b m)" unfolding fmt_default_def
    using c by (auto intro!: nx safe_and_then [OF outch_ok [OF conv_ok_out [OF c]]]) (simp add: conv_ok_def)
  moreover have "safe (fmt_flags s) (fmt_ok b m)" "safe (fmt_dot s) (fmt_ok b m)"
    unfolding fmt_flags_def fmt_dot_def Let_def using c f by (auto intro!: nx)
  moreover have "safe (fmt_min s) (fmt_ok b m)" "safe (fmt_max s) (fmt_ok b m)"
    unfolding fmt_min_def fmt_max_def Let_def using c f by (auto intro!: nx safe_and_then [OF va_ok(1)])
  moreover have "safe (fmt_mod s) (fmt_ok b m)"
  proof -
    have l: "safe (if ch y = CHR ''s'' then Inr (y\<lparr>cflags := DP_C_WCHAR\<rparr>) else if ch y = CHR ''l'' then next_ch (y\<lparr>cflags := DP_C_INT64\<rparr>) else Inr y)
        (fmt_ok b m)" if "fmt_ok b m y" for y using that fmt_ok_conv [OF that] by (auto intro!: nx)
    show ?thesis unfolding fmt_mod_def Let_def using c f by (auto intro!: nx safe_and_then [OF nx l])
  qed
  moreover have "safe (fmt_conv m fp s) (fmt_ok b m)" by (rule fmt_conv_ok [OF f n])
  ultimately show ?thesis using False f by (auto simp: fmt_step_def split: dp_state.split)
qed

lemma fmt_loop_ok: "fmt_ok b m s \<Longrightarrow> safe (fmt_loop m fp s) (fmt_ok b m)"
proof (induction m fp s rule: fmt_loop.induct)
  case (1 m fp s)
  show ?case
  proof (cases "dp_state s = DP_S_DONE")
    case True
    then show ?thesis using 1(2) by (simp add: fmt_loop.simps)
  next
    case False
    then show ?thesis using 1(1) [OF False] fmt_step_ok [OF 1(2), of fp]
      by (subst fmt_loop.simps) (cases "fmt_step m fp s", simp_all)
  qed
qed



end
