(* ===== verification/Scan.thy ===== *)
theory Scan
  imports Bsnprintf
begin

text \<open>
  Scanning of text (\<^verbatim>\<open>lib/scan.c\<close>): \<open>bsscanf\<close>, which the daemons use as \<^verbatim>\<open>sscanf\<close>, and the stricter \<open>scan_string\<close>, one definition with the flag
  \<open>strict\<close>; the splitting of commands into arguments and of file names. What is scanned is the list of the values stored through the pointers behind the format.
\<close>

section \<open>Scanning by a format\<close>

datatype scanned = Sc_int int32_t | Sc_long int64_t | Sc_str string | Sc_char char

definition B_ISSPACE :: "char \<Rightarrow> bool" where
  "B_ISSPACE c \<longleftrightarrow> (let n = of_char c :: nat in n = 32 \<or> 9 \<le> n \<and> n \<le> 13)"

definition hex_value :: "char \<Rightarrow> nat option" where
  "hex_value c =
     (let n = of_char c :: nat
      in if is_digit c then Some (n - 48) else if 65 \<le> n \<and> n \<le> 70 then Some (n - 55) else if 97 \<le> n \<and> n \<le> 102 then Some (n - 87) else None)"

definition BIG :: nat where
  "BIG = 1000"

fun scan_digits :: "uint64_t \<Rightarrow> string \<Rightarrow> fault + uint64_t \<times> string" where
  "scan_digits value [] = Inl Beyond"
| "scan_digits value (c # cs) = (if is_digit c then scan_digits (10 * value + of_int (digit_value c)) cs else Inr (value, c # cs))"

fun scan_hex :: "uint64_t \<Rightarrow> string \<Rightarrow> fault + uint64_t \<times> string" where
  "scan_hex value [] = Inl Beyond"
| "scan_hex value (c # cs) = (case hex_value c of Some d \<Rightarrow> scan_hex (16 * value + of_nat d) cs | None \<Rightarrow> Inr (value, c # cs))"

fun scan_chars :: "nat \<Rightarrow> string \<Rightarrow> fault + string \<times> string" where
  "scan_chars max_len [] = Inl Beyond"
| "scan_chars max_len (c # cs) =
     (if c = NUL \<or> B_ISSPACE c \<or> max_len = 0 then Inr ([], c # cs)
      else and_then (scan_chars (max_len - 1) cs) (\<lambda>(xs, rest). Inr (c # xs, rest)))"

fun skip_space :: "string \<Rightarrow> fault + string" where
  "skip_space [] = Inl Beyond"
| "skip_space (c # cs) = (if B_ISSPACE c then skip_space cs else Inr (c # cs))"

definition deref :: "string \<Rightarrow> fault + char" where
  "deref p = (case p of [] \<Rightarrow> Inl Beyond | c # cs \<Rightarrow> Inr c)"

text \<open>The integer stored for \<open>l\<close> letters \<^verbatim>\<open>l\<close>.\<close>

definition sc_store :: "nat \<Rightarrow> uint64_t \<Rightarrow> scanned" where
  "sc_store l value = (if l = 2 then Sc_long value else Sc_int (ucast value))"

text \<open>A conversion has a value and the rest of the text as its result, or is an error.\<close>

definition scan_decimal :: "bool \<Rightarrow> string \<Rightarrow> fault + (uint64_t \<times> string) option" where
  "scan_decimal strict buf =
     and_then (deref buf) (\<lambda>c.
       if strict \<and> \<not> is_digit c then Inr None else and_then (scan_digits 0 buf) (\<lambda>r. Inr (Some r)))"

definition scan_integer :: "bool \<Rightarrow> char \<Rightarrow> string \<Rightarrow> fault + (uint64_t \<times> string) option" where
  "scan_integer strict conv buf =
     (if conv = CHR ''x'' then
        and_then (deref buf) (\<lambda>c.
          if c \<noteq> CHR ''0'' then Inr None
          else and_then (deref (tl buf)) (\<lambda>c.
            if c \<noteq> CHR ''x'' then Inr None else and_then (scan_hex 0 (drop 2 buf)) (\<lambda>r. Inr (Some r))))
      else if conv = CHR ''u'' then scan_decimal strict buf
      else
        and_then (deref buf) (\<lambda>c.
          if c = CHR ''-'' then and_then (scan_decimal strict (tl buf)) (\<lambda>r. Inr (map_option (\<lambda>(value, rest). (- value, rest)) r))
          else scan_decimal strict buf))"

type_synonym conversion = "(scanned list \<times> string \<times> string) option"

definition put_scanned :: "nat \<Rightarrow> string \<Rightarrow> (uint64_t \<times> string) option \<Rightarrow> conversion" where
  "put_scanned l fm r = map_option (\<lambda>(value, buf). ([sc_store l value], fm, buf)) r"

definition scan_long :: "bool \<Rightarrow> bool \<Rightarrow> nat \<Rightarrow> string \<Rightarrow> string \<Rightarrow> fault + conversion" where
  "scan_long strict hex l fm buf =
     and_then (deref fm) (\<lambda>c.
       if c = CHR ''d'' \<or> c = CHR ''u'' \<or> hex \<and> c = CHR ''x'' then and_then (scan_integer strict c buf) (\<lambda>r. Inr (put_scanned l (tl fm) r))
       else Inr None)"

fun fmt_digits :: "int \<Rightarrow> string \<Rightarrow> fault + int \<times> string" where
  "fmt_digits n [] = Inl Beyond"
| "fmt_digits n (c # cs) =
     (if is_digit c then (let m = 10 * n + digit_value c in if fits_int m then fmt_digits m cs else Inl Overflow) else Inr (n, c # cs))"

definition scan_text :: "nat \<Rightarrow> string \<Rightarrow> string \<Rightarrow> fault + conversion" where
  "scan_text max_len fm buf = and_then (scan_chars max_len buf) (\<lambda>(xs, buf). Inr (Some ([Sc_str xs], fm, buf)))"

text \<open>The conversion behind a percent sign.\<close>

definition scan_conv :: "bool \<Rightarrow> string \<Rightarrow> string \<Rightarrow> fault + conversion" where
  "scan_conv strict fm buf =
     and_then (deref fm) (\<lambda>c.
       let f = tl fm
       in if c = CHR ''d'' \<or> c = CHR ''u'' \<or> strict \<and> c = CHR ''x'' then and_then (scan_integer strict c buf) (\<lambda>r. Inr (put_scanned 0 f r))
          else if c = CHR ''l'' then
            and_then (deref f) (\<lambda>c. if c = CHR ''l'' then scan_long strict strict 2 (tl f) buf else scan_long strict strict 1 f buf)
          else if c = CHR ''q'' then scan_long strict False 2 f buf
          else if c = CHR ''s'' then scan_text BIG f buf
          else if c = CHR ''c'' then
            and_then (deref buf) (\<lambda>b. if strict \<and> b = NUL then Inr None else Inr (Some ([Sc_char b], f, tl buf)))
          else if c = CHR ''%'' then and_then (deref buf) (\<lambda>b. if b = CHR ''%'' then Inr (Some ([], f, tl buf)) else Inr None)
          else and_then (fmt_digits 0 fm) (\<lambda>(max_len, f).
                 and_then (deref f) (\<lambda>c. if c = CHR ''s'' then scan_text (nat max_len) (tl f) buf else Inr None)))"

lemma fmt_digits_len: "fmt_digits n f = Inr (m, f') \<Longrightarrow> length f' \<le> length f"
  by (induction n f rule: fmt_digits.induct) (auto simp: Let_def split: if_splits)

lemma deref_Inr: "deref p = Inr c \<Longrightarrow> p = c # tl p"
  by (auto simp: deref_def split: list.splits)

lemma deref_simps [simp]: "deref [] = Inl Beyond" "deref (c # cs) = Inr c"
  by (simp_all add: deref_def)

lemma scan_long_len: "scan_long strict hex l f b = Inr (Some (vs, f', b')) \<Longrightarrow> length f' < length f"
  by (cases f) (auto simp: scan_long_def and_then_Inr put_scanned_def split: if_splits)

lemma scan_text_len: "scan_text n f b = Inr (Some (vs, f', b')) \<Longrightarrow> f' = f"
  by (auto simp: scan_text_def and_then_Inr)

lemma scan_conv_len:
  assumes "scan_conv strict f b = Inr (Some (vs, f', b'))"
  shows "length f' < length f"
proof -
  obtain c f1 where f: "f = c # f1" using assms by (cases f) (auto simp: scan_conv_def)
  have "length f' \<le> length f1"
    using assms unfolding scan_conv_def f Let_def
    by (cases f1)
      (auto simp: and_then_Inr put_scanned_def simp del: fmt_digits.simps dest!: deref_Inr scan_long_len scan_text_len fmt_digits_len split: if_splits,
       (metis length_Cons length_tl diff_Suc_1 le_0_eq length_0_conv list.size(3) Suc_le_mono)+)
  then show ?thesis by (simp add: f)
qed


function scan_loop :: "bool \<Rightarrow> string \<Rightarrow> string \<Rightarrow> int \<Rightarrow> scanned list \<Rightarrow> fault + int \<times> scanned list" where
  "scan_loop strict fm buf count vals =
     (case fm of
        [] \<Rightarrow> Inl Beyond
      | c # f \<Rightarrow>
          if c = NUL then Inr (count, vals)
          else if c = CHR ''%'' then
            (case scan_conv strict f buf of
               Inl e \<Rightarrow> Inl e
             | Inr None \<Rightarrow> Inr (- 1, vals)
             | Inr (Some (vs, f', buf')) \<Rightarrow> scan_loop strict f' buf' (count + int (length vs)) (vals @ vs))
          else if B_ISSPACE c then
            (case deref buf of
               Inl e \<Rightarrow> Inl e
             | Inr b \<Rightarrow>
                 if strict \<and> \<not> B_ISSPACE b then Inr (- 1, vals)
                 else (case skip_space buf of
                         Inl e \<Rightarrow> Inl e
                       | Inr buf \<Rightarrow> scan_loop strict (if strict then dropWhile B_ISSPACE f else f) buf count vals))
          else (case deref buf of
                  Inl e \<Rightarrow> Inl e
                | Inr b \<Rightarrow> if b = c then scan_loop strict f (tl buf) count vals else Inr (- 1, vals)))"
  by pat_completeness auto
termination
  by (relation "measure (\<lambda>(_, fm, _). length fm)") (auto dest!: scan_conv_len simp: less_Suc_eq_le length_dropWhile_le)

declare scan_loop.simps [simp del]

definition bsscanf :: "string \<Rightarrow> string \<Rightarrow> fault + int \<times> scanned list" where
  "bsscanf buf fm = scan_loop False fm buf 0 []"

definition scan_string :: "string option \<Rightarrow> string option \<Rightarrow> fault + int \<times> scanned list" where
  "scan_string buf fm =
     (case (buf, fm) of
        (Some buf, Some fm) \<Rightarrow>
          and_then (deref buf) (\<lambda>b. and_then (deref fm) (\<lambda>c. if b = NUL \<and> c \<noteq> NUL then Inr (- 1, []) else scan_loop True fm buf 0 []))
      | _ \<Rightarrow> Inr (- 1, []))"

section \<open>Numbers as text\<close>

text \<open>Integers of both widths as arguments and as values stored, and the conversions \<^verbatim>\<open>%d\<close>, \<^verbatim>\<open>%ld\<close>, \<^verbatim>\<open>%lld\<close>, \<^verbatim>\<open>%u\<close>, \<^verbatim>\<open>%lu\<close> and \<^verbatim>\<open>%llu\<close>.\<close>

datatype number = N32 int32_t | N64 int64_t

fun vararg_of :: "number \<Rightarrow> vararg" where
  "vararg_of (N32 w) = Va_int w"
| "vararg_of (N64 w) = Va_long w"

fun scanned_of :: "number \<Rightarrow> scanned" where
  "scanned_of (N32 w) = Sc_int w"
| "scanned_of (N64 w) = Sc_long w"

type_synonym iconv = "nat \<times> bool"

fun conv_char :: "bool \<Rightarrow> char" where
  "conv_char True = CHR ''d''"
| "conv_char False = CHR ''u''"

definition conv_text :: "iconv \<Rightarrow> string" where
  "conv_text k = CHR ''%'' # replicate (fst k) CHR ''l'' @ [conv_char (snd k)]"

fun conv_for :: "iconv \<Rightarrow> number \<Rightarrow> bool" where
  "conv_for (l, sg) (N32 w) \<longleftrightarrow> l < 2"
| "conv_for (l, sg) (N64 w) \<longleftrightarrow> l = 2"

fun widened :: "bool \<Rightarrow> number \<Rightarrow> int64_t" where
  "widened sg (N32 w) = (if sg then scast w else ucast w)"
| "widened sg (N64 w) = w"

definition digits :: "nat \<Rightarrow> string" where
  "digits u = rev (convert_digits ''0123456789abcdef'' 10 u 25)"

definition number_text :: "bool \<Rightarrow> number \<Rightarrow> string" where
  "number_text sg n = (let v = widened sg n in if sg \<and> v <s 0 then CHR ''-'' # digits (unat (- v)) else digits (unat v))"

lemma digit_char:
  assumes "d < 10"
  shows "is_digit (''0123456789abcdef'' ! d)" "digit_value (''0123456789abcdef'' ! d) = int d"
proof -
  have "d \<in> {0,1,2,3,4,5,6,7,8,9}" using assms by auto
  then show "is_digit (''0123456789abcdef'' ! d)" "digit_value (''0123456789abcdef'' ! d) = int d"
    by (auto simp: is_digit_def digit_value_def)
qed

lemma convert_digits_ok:
  assumes "u < 10 ^ room"
  shows "list_all is_digit (convert_digits ''0123456789abcdef'' 10 u room)" "length (convert_digits ''0123456789abcdef'' 10 u room) \<le> room"
  using assms by (induction room arbitrary: u) (auto simp: digit_char div_less_iff_less_mult mult.commute)

lemma convert_digits_length: "u < 10 ^ k \<Longrightarrow> 0 < k \<Longrightarrow> length (convert_digits cvt 10 u room) \<le> k"
proof (induction room arbitrary: u k)
  case (Suc room)
  obtain j where j: "k = Suc j" using Suc.prems(2) by (cases k) auto
  have "length (convert_digits cvt 10 (u div 10) room) \<le> j" if "u div 10 \<noteq> 0"
    using Suc.IH [of "u div 10" j] Suc.prems(1) that by (cases "j = 0") (auto simp: j div_less_iff_less_mult mult.commute)
  then show ?case by (simp add: j)
qed simp

lemma scan_converted:
  assumes "u < 10 ^ room"
  shows "scan_digits v (rev (convert_digits ''0123456789abcdef'' 10 u room) @ t)
    = scan_digits (10 ^ length (convert_digits ''0123456789abcdef'' 10 u room) * v + of_nat u) t"
  using assms
proof (induction room arbitrary: u t)
  case (Suc room)
  let ?d = "''0123456789abcdef'' ! (u mod 10)"
  have d: "is_digit ?d" "digit_value ?d = int (u mod 10)" using digit_char [of "u mod 10"] by simp_all
  have step: "scan_digits x (?d # t) = scan_digits (10 * x + of_nat (u mod 10)) t" for x using d by simp
  show ?case
  proof (cases "u div 10 \<noteq> 0 \<and> room \<noteq> 0")
    case True
    let ?c = "convert_digits ''0123456789abcdef'' 10 (u div 10) room"
    have lt: "u div 10 < 10 ^ room" using Suc.prems by (simp add: div_less_iff_less_mult mult.commute)
    have "of_nat (10 * (u div 10) + u mod 10) = (of_nat u :: uint64_t)" by (simp only: mult_div_mod_eq)
    then have u: "10 * of_nat (u div 10) + of_nat (u mod 10) = (of_nat u :: uint64_t)" by (simp only: of_nat_add of_nat_mult of_nat_numeral)
    have v: "10 * (10 ^ length ?c * v + of_nat (u div 10)) + of_nat (u mod 10) = 10 ^ Suc (length ?c) * v + (of_nat u :: uint64_t)"
      unfolding u [symmetric] by (simp add: algebra_simps)
    have c: "convert_digits ''0123456789abcdef'' 10 u (Suc room) = ?d # ?c" using True by simp
    show ?thesis unfolding c rev.simps append_assoc append.simps length_Cons Suc.IH [OF lt] step v ..
  next
    case False
    then have "u < 10" using Suc.prems by (cases "room = 0") auto
    then show ?thesis using False step [of v] by auto
  qed
qed simp

lemma unat64: "unat (v :: 64 word) < 10 ^ 25"
  using unsigned_less [of v, where 'a = nat] by simp

lemma scan_digits_text:
  assumes "\<not> is_digit b"
  shows "scan_digits 0 (digits (unat v) @ b # bs) = Inr (v, b # bs)"
  using scan_converted [OF unat64, of 0 v "b # bs"] assms by (simp add: digits_def)

lemma digits_hd: "\<exists>c cs. digits (unat (v :: 64 word)) = c # cs \<and> is_digit c"
proof -
  have l: "list_all is_digit (digits (unat v))" using convert_digits_ok(1) [OF unat64] by (simp add: digits_def)
  have "convert_digits cvt b u room \<noteq> []" if "0 < room" for cvt b u room using that by (cases room) simp_all
  then have "digits (unat v) \<noteq> []" by (simp add: digits_def)
  then show ?thesis using l by (cases "digits (unat v)") auto
qed

lemma ucast_32: "ucast (scast (w :: 32 word) :: 64 word) = w" "ucast (ucast (w :: 32 word) :: 64 word) = w"
  by (rule bit_word_eqI; auto simp: bit_unsigned_iff bit_signed_iff)+

lemma scan_decimal_text:
  assumes "\<not> is_digit b"
  shows "scan_decimal strict (digits (unat v) @ b # bs) = Inr (Some (v, b # bs))"
proof -
  obtain c cs where "digits (unat v) = c # cs" "is_digit c" using digits_hd by blast
  then show ?thesis using scan_digits_text [OF assms, of v bs] by (simp add: scan_decimal_def)
qed

lemma scan_integer_text:
  assumes "\<not> is_digit b"
  shows "scan_integer strict (conv_char sg) (number_text sg n @ b # bs) = Inr (Some (widened sg n, b # bs))"
proof -
  let ?v = "widened sg n"
  obtain c cs where c: "digits (unat ?v) = c # cs" "is_digit c" using digits_hd by blast
  then have m: "c \<noteq> CHR ''-''" by (auto simp: is_digit_def)
  note pos = scan_decimal_text [OF assms, of strict ?v bs]
  show ?thesis
  proof (cases sg)
    case True
    then show ?thesis using pos m c scan_decimal_text [OF assms, of strict "- ?v" bs]
      by (cases "?v <s 0") (simp_all add: scan_integer_def number_text_def Let_def)
  next
    case False
    then show ?thesis using pos by (simp add: scan_integer_def number_text_def)
  qed
qed

lemma scan_conv_text:
  assumes "conv_for (l, sg) n" and "\<not> is_digit b"
  shows "scan_conv strict (replicate l CHR ''l'' @ conv_char sg # f) (number_text sg n @ b # bs) = Inr (Some ([scanned_of n], f, b # bs))"
proof -
  note i = scan_integer_text [OF assms(2), of strict sg n bs]
  have st: "sc_store l (widened sg n) = scanned_of n" using assms(1) by (cases n) (auto simp: sc_store_def ucast_32)
  have c: "conv_char sg = CHR ''d'' \<or> conv_char sg = CHR ''u''" by (cases sg) simp_all
  have "l = 0 \<or> l = 1 \<or> l = 2" using assms(1) by (cases n) auto
  then show ?thesis
  proof (elim disjE)
    assume "l = 0"
    then show ?thesis using i st c by (auto simp: scan_conv_def put_scanned_def)
  next
    assume "l = 1"
    then show ?thesis using i st c by (auto simp: scan_conv_def scan_long_def put_scanned_def)
  next
    assume "l = 2"
    then show ?thesis using i st c by (auto simp: scan_conv_def scan_long_def put_scanned_def numeral_2_eq_2)
  qed
qed

text \<open>Several conversions and their numbers, separated by blanks.\<close>

definition convs_text :: "iconv list \<Rightarrow> string" where
  "convs_text ks = concat (map (\<lambda>k. CHR '' '' # conv_text k) ks)"

fun numbers_text :: "iconv list \<Rightarrow> number list \<Rightarrow> string" where
  "numbers_text (k # ks) (n # ns) = CHR '' '' # number_text (snd k) n @ numbers_text ks ns"
| "numbers_text _ _ = []"

lemma convs_text_simps [simp]: "convs_text [] = []" "convs_text (k # ks) = CHR '' '' # conv_text k @ convs_text ks"
  by (simp_all add: convs_text_def)

lemma numbers_text_cong: "map snd ks' = map snd ks \<Longrightarrow> numbers_text ks ns = numbers_text ks' ns"
proof (induction ns arbitrary: ks ks')
  case (Cons n ns)
  show ?case
  proof (cases ks; cases ks')
    fix k r k' r'
    assume k: "ks = k # r" "ks' = k' # r'"
    then have "numbers_text r ns = numbers_text r' ns" using Cons.prems by (intro Cons.IH) simp
    then show ?thesis using k Cons.prems by simp
  qed (use Cons.prems in simp_all)
qed simp

lemma number_text_hd: "\<exists>c cs. number_text sg n = c # cs \<and> \<not> B_ISSPACE c \<and> c \<noteq> NUL"
proof -
  have d: "\<not> B_ISSPACE c \<and> c \<noteq> NUL" if "is_digit c" for c using that by (auto simp: is_digit_def B_ISSPACE_def Let_def)
  obtain c cs where "digits (unat (widened sg n)) = c # cs" "is_digit c" using digits_hd by blast
  then show ?thesis using d by (auto simp: number_text_def Let_def B_ISSPACE_def)
qed

lemma not_digit [simp]: "\<not> is_digit CHR '' ''" "\<not> is_digit NUL" "\<not> is_digit CHR ''%''"
  by (simp_all add: is_digit_def)

lemma numbers_text_hd: "\<exists>b bs. numbers_text ks ns @ NUL # junk = b # bs \<and> \<not> is_digit b"
  by (cases "(ks, ns)" rule: numbers_text.cases) simp_all

lemma scan_percent:
  assumes "conv_for (l, sg) n" and "\<not> is_digit b"
  shows "scan_loop strict (conv_text (l, sg) @ f) (number_text sg n @ b # bs) count vals = scan_loop strict f (b # bs) (count + 1) (vals @ [scanned_of n])"
  using scan_conv_text [OF assms, of strict f bs] by (subst scan_loop.simps) (simp add: conv_text_def)

lemma scan_blank:
  assumes "b \<noteq> NUL" and "\<not> B_ISSPACE b"
  shows "scan_loop strict (CHR '' '' # CHR ''%'' # f) (CHR '' '' # b # bs) count vals = scan_loop strict (CHR ''%'' # f) (b # bs) count vals"
proof -
  have "B_ISSPACE CHR '' ''" "\<not> B_ISSPACE CHR ''%''" by (simp_all add: B_ISSPACE_def)
  then show ?thesis using assms by (subst scan_loop.simps) simp
qed

lemma scan_numbers:
  assumes "list_all2 conv_for ks ns"
  shows "scan_loop strict (convs_text ks @ [NUL]) (numbers_text ks ns @ NUL # junk) count vals = Inr (count + int (length ns), vals @ map scanned_of ns)"
  using assms
proof (induction arbitrary: count vals rule: list_all2_induct)
  case Nil
  show ?case by (subst scan_loop.simps) simp
next
  case (Cons k ks n ns)
  obtain l sg where k: "k = (l, sg)" by (cases k)
  obtain b bs where b: "numbers_text ks ns @ NUL # junk = b # bs" "\<not> is_digit b" using numbers_text_hd by blast
  obtain c cs where c: "number_text sg n = c # cs" "\<not> B_ISSPACE c" "c \<noteq> NUL" using number_text_hd by blast
  let ?f = "convs_text ks @ [NUL]"
  have "scan_loop strict (convs_text (k # ks) @ [NUL]) (numbers_text (k # ks) (n # ns) @ NUL # junk) count vals
      = scan_loop strict (conv_text (l, sg) @ ?f) (number_text sg n @ numbers_text ks ns @ NUL # junk) count vals"
    using scan_blank [OF c(3,2), of strict "replicate l CHR ''l'' @ conv_char sg # ?f" "cs @ b # bs" count vals] c(1) b(1)
    by (simp add: k conv_text_def)
  also have "\<dots> = scan_loop strict ?f (numbers_text ks ns @ NUL # junk) (count + 1) (vals @ [scanned_of n])"
    unfolding b(1) by (rule scan_percent [OF _ b(2)]) (use Cons(1) k in simp)
  finally show ?case using Cons(3) by simp
qed

section \<open>Printing them\<close>

definition put_at :: "nat \<Rightarrow> string \<Rightarrow> string \<Rightarrow> string" where
  "put_at n cs b = take n b @ cs @ drop (n + length cs) b"

lemma put_at_length [simp]: "n + length cs \<le> length b \<Longrightarrow> length (put_at n cs b) = length b"
  by (simp add: put_at_def)

lemma put_at_append: "n + length cs + length ds \<le> length b \<Longrightarrow> put_at (n + length cs) ds (put_at n cs b) = put_at n (cs @ ds) b"
  by (simp add: put_at_def add.commute add.left_commute)

lemma outch_put: "int n < m \<Longrightarrow> n < length b \<Longrightarrow> outch m c (b, int n) = Inr (put_at n [c] b, int (n + 1))"
  by (simp add: outch_def store_def put_at_def upd_conv_take_nth_drop)

lemma outs_put:
  "int (n + length cs) \<le> m \<Longrightarrow> m \<le> int (length b) \<Longrightarrow> outs m cs (b, int n) = Inr (put_at n cs b, int (n + length cs))"
proof (induction cs arbitrary: n b)
  case Nil
  then show ?case by (simp add: put_at_def)
next
  case (Cons c cs)
  have "outs m cs (put_at n [c] b, int (n + 1)) = Inr (put_at (n + 1) cs (put_at n [c] b), int (n + 1 + length cs))"
    using Cons by (intro Cons.IH) simp_all
  then show ?case using Cons.prems put_at_append [of n "[c]" cs b] by (simp add: outch_put)
qed

lemma digits_length: "length (convert_digits ''0123456789abcdef'' 10 (unat (v :: 64 word)) 25) \<le> 20"
  using unsigned_less [of v, where 'a = nat] by (intro convert_digits_length) simp_all

lemma number_text_length: "length (number_text sg n) \<le> 21"
  using digits_length [of "widened sg n"] digits_length [of "- widened sg n"] by (cases sg) (simp_all add: number_text_def digits_def Let_def)

lemma fmtint_text:
  assumes "int (k + length (number_text sg n)) \<le> m" and "m \<le> int (length b)"
  shows "fmtint m (widened sg n) 10 (no_flags\<lparr>DP_F_UNSIGNED := \<not> sg\<rparr>) 0 (- 1) (b, int k)
    = Inr (put_at k (number_text sg n) b, int (k + length (number_text sg n)))"
proof -
  let ?v = "widened sg n"
  note len = digits_length
  have "fmtint m ?v 10 (no_flags\<lparr>DP_F_UNSIGNED := \<not> sg\<rparr>) 0 (- 1) (b, int k) = outs m (number_text sg n) (b, int k)"
    using len [of ?v] len [of "- ?v"]
    by (cases "?v <s 0"; cases sg) (simp_all add: fmtint_def Let_def number_text_def digits_def no_flags_def fits_int_def pad_def)
  then show ?thesis using outs_put [OF assms] by simp
qed

definition between :: "char \<Rightarrow> string \<Rightarrow> vararg list \<Rightarrow> string \<Rightarrow> nat \<Rightarrow> fmt_state" where
  "between c f as b n = \<lparr>dp_state = DP_S_DEFAULT, ch = c, fmt = f, flags = no_flags, cflags = DP_C_NONE, fmin = 0, fmax = - 1, va_args = as,
     fmt_out = (b, int n)\<rparr>"

lemma fmt_loop_step: "dp_state s \<noteq> DP_S_DONE \<Longrightarrow> fmt_step m fp s = Inr s' \<Longrightarrow> fmt_loop m fp s = fmt_loop m fp s'"
  by (subst fmt_loop.simps) simp

lemma print_char:
  assumes "c \<noteq> NUL" "c \<noteq> CHR ''%''" "int n < m" "m \<le> int (length b)"
  shows "fmt_loop m fp (between c (x # f) as b n) = fmt_loop m fp (between x f as (put_at n [c] b) (n + 1))"
  using assms by (intro fmt_loop_step) (simp_all add: between_def fmt_step_def fmt_default_def outch_put next_ch_def)

lemma print_mod:
  assumes "conv_for (l, sg) v" and "int n < m"
  shows "fmt_loop m fp (between CHR ''%'' (replicate l CHR ''l'' @ conv_char sg # f) as b n)
    = fmt_loop m fp ((between (conv_char sg) f as b n)\<lparr>dp_state := DP_S_CONV, cflags := [DP_C_NONE, DP_C_INT32, DP_C_INT64] ! l\<rparr>)"
proof -
  obtain c f' where f: "replicate l CHR ''l'' @ conv_char sg # f = c # f'" "c = CHR ''l'' \<or> c = conv_char sg"
    by (cases l) auto
  then have c: "c \<noteq> NUL \<and> c \<noteq> CHR ''-'' \<and> c \<noteq> CHR ''+'' \<and> c \<noteq> CHR '' '' \<and> c \<noteq> CHR ''#'' \<and> c \<noteq> CHR ''0'' \<and> \<not> is_digit c \<and> c \<noteq> CHR ''*'' \<and> c \<noteq> CHR ''.''"
    by (cases sg) (auto simp: is_digit_def)
  let ?s = "between c f' as b n"
  have "fmt_loop m fp (between CHR ''%'' (c # f') as b n) = fmt_loop m fp (?s\<lparr>dp_state := DP_S_FLAGS\<rparr>)"
    using assms(2) by (intro fmt_loop_step) (simp_all add: between_def fmt_step_def fmt_default_def next_ch_def)
  also have "\<dots> = fmt_loop m fp (?s\<lparr>dp_state := DP_S_MIN\<rparr>)"
    using assms(2) c by (intro fmt_loop_step) (simp_all add: between_def fmt_step_def fmt_flags_def)
  also have "\<dots> = fmt_loop m fp (?s\<lparr>dp_state := DP_S_DOT\<rparr>)"
    using assms(2) c by (intro fmt_loop_step) (simp_all add: between_def fmt_step_def fmt_min_def)
  also have "\<dots> = fmt_loop m fp (?s\<lparr>dp_state := DP_S_MOD\<rparr>)"
    using assms(2) c by (intro fmt_loop_step) (simp_all add: between_def fmt_step_def fmt_dot_def)
  also have "\<dots> = fmt_loop m fp ((between (conv_char sg) f as b n)\<lparr>dp_state := DP_S_CONV, cflags := [DP_C_NONE, DP_C_INT32, DP_C_INT64] ! l\<rparr>)"
  proof (rule fmt_loop_step)
    have cc: "conv_char sg = CHR ''d'' \<or> conv_char sg = CHR ''u''" by (cases sg) simp_all
    have "fmt_mod (?s\<lparr>dp_state := DP_S_MOD\<rparr>)
        = Inr ((between (conv_char sg) f as b n)\<lparr>dp_state := DP_S_CONV, cflags := [DP_C_NONE, DP_C_INT32, DP_C_INT64] ! l\<rparr>)"
    proof -
      have "l = 0 \<or> l = 1 \<or> l = 2" using assms(1) by (cases v) auto
      then consider "l = 0" "c = conv_char sg" "f' = f" | "l = 1" "c = CHR ''l''" "f' = conv_char sg # f"
        | "l = 2" "c = CHR ''l''" "f' = CHR ''l'' # conv_char sg # f"
        using f(1) by (elim disjE) (auto simp: numeral_2_eq_2)
      then show ?thesis
        using cc by cases (elim disjE; simp add: fmt_mod_def Let_def between_def next_ch_def)+
    qed
    then show "fmt_step m fp (?s\<lparr>dp_state := DP_S_MOD\<rparr>)
        = Inr ((between (conv_char sg) f as b n)\<lparr>dp_state := DP_S_CONV, cflags := [DP_C_NONE, DP_C_INT32, DP_C_INT64] ! l\<rparr>)"
      using c assms(2) by (simp add: fmt_step_def) (simp add: between_def)
  qed (simp add: between_def)
  finally show ?thesis by (simp add: f(1))
qed

lemma print_conv:
  assumes k: "conv_for (l, sg) v" and fit: "int (n + length (number_text sg v)) \<le> m" "m \<le> int (length b)" and x: "int n < m"
  shows "fmt_loop m fp (between CHR ''%'' (replicate l CHR ''l'' @ conv_char sg # x # f) (vararg_of v # as) b n)
    = fmt_loop m fp (between x f as (put_at n (number_text sg v) b) (n + length (number_text sg v)))"
proof -
  let ?s = "(between (conv_char sg) (x # f) (vararg_of v # as) b n)\<lparr>dp_state := DP_S_CONV, cflags := [DP_C_NONE, DP_C_INT32, DP_C_INT64] ! l\<rparr>"
  have fl: "no_flags = no_flags\<lparr>DP_F_UNSIGNED := False\<rparr>" by (simp add: no_flags_def)
  have va: "va_integer sg (?s\<lparr>flags := g\<rparr>) = Inr (widened sg v, ?s\<lparr>flags := g, va_args := as\<rparr>)" for g
    using k by (cases v) (auto simp: va_integer_def va_int_def va_long_def between_def less_2_cases_iff)
  note ft = fmtint_text [OF fit]
  have cv: "fmt_convert m fp ?s = Inr (?s\<lparr>flags := no_flags\<lparr>DP_F_UNSIGNED := \<not> sg\<rparr>, va_args := as,
      fmt_out := (put_at n (number_text sg v) b, int (n + length (number_text sg v)))\<rparr>)"
  proof (cases sg)
    case True
    then show ?thesis using ft va [of no_flags]
      by (simp add: fmt_convert_def put_integer_def put_out_def between_def fl [symmetric])
  next
    case False
    have "(no_flags\<lparr>DP_F_UP := DP_F_UP no_flags \<or> False, DP_F_UNSIGNED := True\<rparr>) = no_flags\<lparr>DP_F_UNSIGNED := True\<rparr>" by (simp add: no_flags_def)
    then show ?thesis using False ft va [of "no_flags\<lparr>DP_F_UNSIGNED := True\<rparr>"]
      by (simp add: fmt_convert_def put_unsigned_def put_integer_def put_out_def between_def)
  qed
  have "fmt_step m fp ?s = Inr (between x f as (put_at n (number_text sg v) b) (n + length (number_text sg v)))"
    using x cv by (cases sg) (simp_all add: fmt_step_def fmt_conv_def next_ch_def between_def)
  then have "fmt_loop m fp ?s = fmt_loop m fp (between x f as (put_at n (number_text sg v) b) (n + length (number_text sg v)))"
    by (intro fmt_loop_step) (simp_all add: between_def)
  then show ?thesis using print_mod [OF k x] by simp
qed

lemma print_numbers:
  assumes "list_all2 conv_for ks ns" and "int (n + length (numbers_text ks ns)) < m" and "m \<le> int (length b)"
    and "convs_text ks @ [NUL] = c # f"
  shows "fmt_loop m fp (between c f (map vararg_of ns) b n) = Inr ((between NUL [] [] (put_at n (numbers_text ks ns) b)
    (n + length (numbers_text ks ns)))\<lparr>dp_state := DP_S_DONE\<rparr>)"
  using assms
proof (induction arbitrary: n b c f rule: list_all2_induct)
  case Nil
  then show ?case
    by (subst fmt_loop.simps) (simp add: between_def fmt_step_def put_at_def fmt_loop.simps)
next
  case (Cons k ks v ns)
  obtain l sg where k: "k = (l, sg)" by (cases k)
  let ?t = "number_text sg v" and ?r = "numbers_text ks ns"
  obtain x g where x: "convs_text ks @ [NUL] = x # g" by (cases "convs_text ks @ [NUL]") auto
  have cf: "c = CHR '' ''" "f = CHR ''%'' # replicate l CHR ''l'' @ conv_char sg # x # g" using Cons.prems(3) x by (simp_all add: k conv_text_def)
  have fit: "int (n + 1 + length ?t + length ?r) < m" using Cons.prems(1) by (simp add: k)
  let ?b1 = "put_at n '' '' b"
  have b1: "length ?b1 = length b" using fit Cons.prems(2) by simp
  have "fmt_loop m fp (between c f (map vararg_of (v # ns)) b n)
      = fmt_loop m fp (between CHR ''%'' (replicate l CHR ''l'' @ conv_char sg # x # g) (vararg_of v # map vararg_of ns) ?b1 (n + 1))"
    unfolding cf using fit Cons.prems(2) print_char [of "CHR '' ''" n m b fp] by simp
  also have "\<dots> = fmt_loop m fp (between x g (map vararg_of ns) (put_at (n + 1) ?t ?b1) (n + 1 + length ?t))"
    using fit Cons.prems(2) Cons(1) b1 by (intro print_conv) (simp_all add: k)
  also have "\<dots> = Inr ((between NUL [] [] (put_at (n + 1 + length ?t) ?r (put_at (n + 1) ?t ?b1)) (n + 1 + length ?t + length ?r))\<lparr>dp_state := DP_S_DONE\<rparr>)"
    using fit Cons.prems(2) b1 x by (intro Cons.IH) simp_all
  also have "put_at (n + 1 + length ?t) ?r (put_at (n + 1) ?t ?b1) = put_at n (numbers_text (k # ks) (v # ns)) b"
    using put_at_append [of "n + 1" ?t ?r ?b1] put_at_append [of n "'' ''" "?t @ ?r" b] fit Cons.prems(2) b1 by (simp add: k)
  finally show ?case by (simp add: k add.assoc)
qed

text \<open>
  C11: Numbers survive printing and scanning. A message of integers separated by blanks, as the daemons send them, is printed by \<open>bvsnprintf\<close> with any of the
  conversions of 32 and 64 bit integers, signed and unsigned, in any number; with a buffer that is large enough, both \<open>bsscanf\<close> and \<open>scan_string\<close> with conversions of
  the same widths and signs store exactly the numbers printed and return how many there are. The conversions need not be spelled the same: \<^verbatim>\<open>%d\<close> and \<^verbatim>\<open>%ld\<close>
  are both of 32 bits.
\<close>

theorem numbers_printed_and_scanned:
  assumes "conv_for (l, sg) n" and "conv_for (l', sg) n" and "list_all2 conv_for ks ns" and "list_all2 conv_for ks' ns" and "map snd ks' = map snd ks"
    and "int (length (number_text sg n @ numbers_text ks ns)) < maxlen" and "maxlen \<le> int (length buffer)"
  shows "\<exists>len msg. bvsnprintf fp buffer maxlen (conv_text (l, sg) @ convs_text ks @ [NUL]) (map vararg_of (n # ns)) = Inr (len, msg) \<and>
     bsscanf msg (conv_text (l', sg) @ convs_text ks' @ [NUL]) = Inr (1 + int (length ns), map scanned_of (n # ns)) \<and>
     scan_string (Some msg) (Some (conv_text (l', sg) @ convs_text ks' @ [NUL])) = Inr (1 + int (length ns), map scanned_of (n # ns))"
proof -
  let ?t = "number_text sg n" and ?r = "numbers_text ks ns" and ?b = "buffer[0 := NUL]"
  obtain x g where x: "convs_text ks @ [NUL] = x # g" by (cases "convs_text ks @ [NUL]") auto
  have t0: "?t \<noteq> []" using number_text_hd [of sg n] by auto
  have fit: "int (0 + length ?t) \<le> maxlen" "int (length ?t + length ?r) < maxlen" "maxlen \<le> int (length ?b)" "int 0 < maxlen" using assms(6,7) by simp_all
  have "fmt_loop maxlen fp (between CHR ''%'' (replicate l CHR ''l'' @ conv_char sg # x # g) (vararg_of n # map vararg_of ns) ?b 0)
      = fmt_loop maxlen fp (between x g (map vararg_of ns) (put_at 0 ?t ?b) (0 + length ?t))"
    by (rule print_conv [OF assms(1) fit(1,3,4)])
  also have "\<dots> = Inr ((between NUL [] [] (put_at (length ?t) ?r (put_at 0 ?t ?b)) (length ?t + length ?r))\<lparr>dp_state := DP_S_DONE\<rparr>)"
    using print_numbers [OF assms(3), of "length ?t" maxlen "put_at 0 ?t ?b" x g fp] fit x by simp
  also have "put_at (length ?t) ?r (put_at 0 ?t ?b) = put_at 0 (?t @ ?r) ?b" using put_at_append [of 0 ?t ?r ?b] fit by simp
  finally have loop: "fmt_loop maxlen fp (between CHR ''%'' (replicate l CHR ''l'' @ conv_char sg # x # g) (vararg_of n # map vararg_of ns) ?b 0)
      = Inr ((between NUL [] [] (put_at 0 (?t @ ?r) ?b) (length ?t + length ?r))\<lparr>dp_state := DP_S_DONE\<rparr>)" .
  define i where "i = (if int (length ?t + length ?r) < maxlen - 1 then int (length ?t + length ?r) else maxlen - 1)"
  have i: "i = int (length ?t + length ?r)" using fit(2) by (simp add: i_def)
  let ?msg = "(put_at 0 (?t @ ?r) ?b)[length ?t + length ?r := NUL]"
  have lb: "length (put_at 0 (?t @ ?r) ?b) = length buffer" using fit by (subst put_at_length) simp_all
  have st: "store buffer 0 NUL = Inr ?b" "store (put_at 0 (?t @ ?r) ?b) i NUL = Inr ?msg"
    using fit lb by (auto simp: store_def i nat_add_distrib)
  have pr: "bvsnprintf fp buffer maxlen (conv_text (l, sg) @ convs_text ks @ [NUL]) (map vararg_of (n # ns)) = Inr (int (length ?t + length ?r), ?msg)"
  proof -
    have nx: "next_ch \<lparr>dp_state = DP_S_DEFAULT, ch = NUL, fmt = conv_text (l, sg) @ x # g, flags = no_flags, cflags = DP_C_NONE, fmin = 0, fmax = - 1,
        va_args = map vararg_of (n # ns), fmt_out = (?b, 0)\<rparr>
      = Inr (between CHR ''%'' (replicate l CHR ''l'' @ conv_char sg # x # g) (vararg_of n # map vararg_of ns) ?b 0)"
      by (simp add: next_ch_def conv_text_def between_def)
    have o: "fmt_out ((between NUL [] [] (put_at 0 (?t @ ?r) ?b) (length ?t + length ?r))\<lparr>dp_state := DP_S_DONE\<rparr>) = (put_at 0 (?t @ ?r) ?b, int (length ?t + length ?r))"
      by (simp add: between_def)
    show ?thesis unfolding bvsnprintf_def x st(1) and_then_simps nx loop o prod.case i_def [symmetric] st(2) ..
  qed
  have "\<exists>junk. ?msg = ?t @ ?r @ NUL # junk" using fit(2,3) by (simp add: put_at_def upd_conv_take_nth_drop)
  then obtain junk where msg: "?msg = ?t @ ?r @ NUL # junk" ..
  have r': "?r = numbers_text ks' ns" by (rule numbers_text_cong [OF assms(5)])
  obtain b bs where b: "numbers_text ks' ns @ NUL # junk = b # bs" "\<not> is_digit b" using numbers_text_hd by blast
  have msg': "?msg = ?t @ b # bs" using msg b(1) r' by simp
  have sc: "scan_loop strict (conv_text (l', sg) @ convs_text ks' @ [NUL]) ?msg 0 [] = Inr (1 + int (length ns), map scanned_of (n # ns))" for strict
    using scan_percent [OF assms(2) b(2), of strict "convs_text ks' @ [NUL]" bs 0 "[]"] scan_numbers [OF assms(4), of strict junk 1 "[scanned_of n]"]
    using b(1) by (simp add: msg')
  obtain c cs where c: "?t = c # cs" "c \<noteq> NUL" using number_text_hd by blast
  have "scan_string (Some ?msg) (Some (conv_text (l', sg) @ convs_text ks' @ [NUL])) = Inr (1 + int (length ns), map scanned_of (n # ns))"
    using sc [of True] c unfolding scan_string_def msg by (simp add: conv_text_def)
  then show ?thesis using pr sc [of False] by (intro exI [of _ "int (length ?t + length ?r)"] exI [of _ ?msg]) (simp add: bsscanf_def)
qed

theorem numbers_printed_and_scanned_witness:
  "\<exists>len msg. bvsnprintf (\<lambda>_ _ _ _. []) (replicate 80 CHR ''x'') 80 (''%ld %d %lld'' @ [NUL]) [Va_int 7, Va_int (- 2), Va_long 9000000000] = Inr (len, msg) \<and>
     bsscanf msg (''%ld %ld %lld'' @ [NUL]) = Inr (3, [Sc_int 7, Sc_int (- 2), Sc_long 9000000000])"
proof -
  have c: "conv_text (1, True) @ convs_text [(0, True), (2, True)] @ [NUL] = ''%ld %d %lld'' @ [NUL]"
      "conv_text (1, True) @ convs_text [(1, True), (2, True)] @ [NUL] = ''%ld %ld %lld'' @ [NUL]"
    by (simp_all add: conv_text_def numeral_2_eq_2)
  have "int (length (number_text True (N32 7) @ numbers_text [(0, True), (2, True)] [N32 (- 2), N64 9000000000])) < 80"
    using number_text_length [of True "N32 7"] number_text_length [of True "N32 (- 2)"] number_text_length [of True "N64 9000000000"] by simp
  then show ?thesis
    using numbers_printed_and_scanned [of 1 True "N32 7" 1 "[(0, True), (2, True)]" "[N32 (- 2), N64 9000000000]" "[(1, True), (2, True)]" 80
        "replicate 80 CHR ''x''" "\<lambda>_ _ _ _. []"] unfolding c by (simp del: replicate.simps append.simps) blast
qed

text \<open>
  C32: A malformed stream header is not noticed. \<open>do_append_data\<close> scans the header that the File daemon sends in front of each stream with \<open>bsscanf\<close> and takes
  a count other than 3 for a malformed header; but \<open>bsscanf\<close> stores 0 for a number without digits, so it returns 3 for every text, the empty one too.
  \<open>scan_string\<close> rejects a text that does not begin with a number.
\<close>

theorem stream_header_never_malformed:
  "\<exists>fi strm len. bsscanf (msg @ [NUL]) (''%ld %ld %lld'' @ [NUL]) = Inr (3, [Sc_int fi, Sc_int strm, Sc_long len]) \<and>
     (\<not> is_digit (hd (msg @ [NUL])) \<and> hd (msg @ [NUL]) \<noteq> CHR ''-'' \<longrightarrow> scan_string (Some (msg @ [NUL])) (Some (''%ld %ld %lld'' @ [NUL])) = Inr (- 1, []))"
proof -
  have digs: "\<exists>v t. scan_digits x (s @ [NUL]) = Inr (v, t @ [NUL])" for x s
  proof (induction s arbitrary: x)
    case Nil
    show ?case by (intro exI [of _ x] exI [of _ "[]"]) simp
  next
    case (Cons c s)
    show ?case
    proof (cases "is_digit c")
      case False
      then show ?thesis by (intro exI [of _ x] exI [of _ "c # s"]) simp
    qed (use Cons in simp)
  qed
  have dec: "\<exists>v t. scan_decimal False (s @ [NUL]) = Inr (Some (v, t @ [NUL]))" for s
    using digs [of 0 s] by (cases "s @ [NUL]") (auto simp: scan_decimal_def)
  have int: "\<exists>v t. scan_integer False CHR ''d'' (s @ [NUL]) = Inr (Some (v, t @ [NUL]))" for s
    using dec [of s] dec [of "tl s"] by (cases s) (auto simp: scan_integer_def)
  have skip: "\<exists>t. skip_space (s @ [NUL]) = Inr (t @ [NUL]) \<and> deref (s @ [NUL]) \<noteq> Inl Beyond" for s
    by (induction s) (auto simp: B_ISSPACE_def)
  have conv: "\<exists>v t. scan_loop False (CHR ''%'' # replicate l CHR ''l'' @ CHR ''d'' # f) (s @ [NUL]) n vs
      = scan_loop False f (t @ [NUL]) (n + 1) (vs @ [sc_store l v])" if "l = 1 \<or> l = 2" for l f s n vs
  proof -
    obtain v t where "scan_integer False CHR ''d'' (s @ [NUL]) = Inr (Some (v, t @ [NUL]))" using int by blast
    then have "scan_loop False (CHR ''%'' # replicate l CHR ''l'' @ CHR ''d'' # f) (s @ [NUL]) n vs = scan_loop False f (t @ [NUL]) (n + 1) (vs @ [sc_store l v])"
      using that by (subst scan_loop.simps) (auto simp: scan_conv_def scan_long_def put_scanned_def numeral_2_eq_2)
    then show ?thesis by blast
  qed
  have blank: "\<exists>t. scan_loop False (CHR '' '' # f) (s @ [NUL]) n vs = scan_loop False f (t @ [NUL]) n vs" for f s n vs
    using skip [of s] by (subst scan_loop.simps) (cases "s @ [NUL]", auto simp: B_ISSPACE_def)
  have e: "''%ld %ld %lld'' @ [NUL] = CHR ''%'' # replicate 1 CHR ''l'' @ CHR ''d'' # CHR '' '' # CHR ''%'' # replicate 1 CHR ''l'' @ CHR ''d'' #
      CHR '' '' # CHR ''%'' # replicate 2 CHR ''l'' @ CHR ''d'' # [NUL]" by (simp add: numeral_2_eq_2)
  have fin: "scan_loop False [NUL] s n vs = Inr (n, vs)" for s n vs by (subst scan_loop.simps) simp
  obtain v1 t1 where 1: "scan_loop False (''%ld %ld %lld'' @ [NUL]) (msg @ [NUL]) 0 [] = scan_loop False (CHR '' '' # CHR ''%'' # replicate 1 CHR ''l'' @ CHR ''d'' #
      CHR '' '' # CHR ''%'' # replicate 2 CHR ''l'' @ CHR ''d'' # [NUL]) (t1 @ [NUL]) (0 + 1) ([] @ [sc_store 1 v1])"
    unfolding e using conv [of 1] by blast
  obtain t2 where 2: "\<dots> = scan_loop False (CHR ''%'' # replicate 1 CHR ''l'' @ CHR ''d'' # CHR '' '' # CHR ''%'' # replicate 2 CHR ''l'' @ CHR ''d'' # [NUL])
      (t2 @ [NUL]) (0 + 1) ([] @ [sc_store 1 v1])" using blank by blast
  obtain v3 t3 where 3: "\<dots> = scan_loop False (CHR '' '' # CHR ''%'' # replicate 2 CHR ''l'' @ CHR ''d'' # [NUL])
      (t3 @ [NUL]) (0 + 1 + 1) (([] @ [sc_store 1 v1]) @ [sc_store 1 v3])" using conv [of 1] by blast
  obtain t4 where 4: "\<dots> = scan_loop False (CHR ''%'' # replicate 2 CHR ''l'' @ CHR ''d'' # [NUL])
      (t4 @ [NUL]) (0 + 1 + 1) (([] @ [sc_store 1 v1]) @ [sc_store 1 v3])" using blank by blast
  obtain v5 t5 where 5: "\<dots> = scan_loop False [NUL] (t5 @ [NUL]) (0 + 1 + 1 + 1) ((([] @ [sc_store 1 v1]) @ [sc_store 1 v3]) @ [sc_store 2 v5])"
    using conv [of 2] by blast
  have loose: "bsscanf (msg @ [NUL]) (''%ld %ld %lld'' @ [NUL]) = Inr (3, [Sc_int (ucast v1), Sc_int (ucast v3), Sc_long v5])"
    unfolding bsscanf_def 1 2 3 4 5 fin by (simp add: sc_store_def)
  have strict: "scan_string (Some (msg @ [NUL])) (Some (''%ld %ld %lld'' @ [NUL])) = Inr (- 1, [])"
    if "\<not> is_digit (hd (msg @ [NUL]))" "hd (msg @ [NUL]) \<noteq> CHR ''-''"
    using that unfolding scan_string_def
    by (cases msg) (simp_all add: scan_loop.simps [of True "CHR ''%'' # _"] scan_conv_def scan_long_def scan_integer_def scan_decimal_def put_scanned_def)
  show ?thesis using loose strict by blast
qed

theorem stream_header_never_malformed_witness:
  "\<exists>fi strm len. bsscanf (''garbage'' @ [NUL]) (''%ld %ld %lld'' @ [NUL]) = Inr (3, [Sc_int fi, Sc_int strm, Sc_long len]) \<and>
     scan_string (Some (''garbage'' @ [NUL])) (Some (''%ld %ld %lld'' @ [NUL])) = Inr (- 1, [])"
  using stream_header_never_malformed [of "''garbage''"] by (simp add: is_digit_def)

end
