(* ===== verification/Args.thy ===== *)
theory Args
  imports Scan
begin

text \<open>
  Commands and file names (\<^verbatim>\<open>lib/scan.c\<close>): the routines that split a command line into arguments in place, and a file name into path and name. A buffer is a list of
  characters, a pointer an offset into it.
\<close>

section \<open>Strings in a buffer\<close>

definition at :: "string \<Rightarrow> nat \<Rightarrow> fault + char" where
  "at buf p = (if p < length buf then Inr (buf ! p) else Inl Beyond)"

definition poke :: "string \<Rightarrow> nat \<Rightarrow> char \<Rightarrow> fault + string" where
  "poke buf p c = (if p < length buf then Inr (buf[p := c]) else Inl Beyond)"

text \<open>The string at an offset, and its length.\<close>

definition c_string :: "string \<Rightarrow> nat \<Rightarrow> string" where
  "c_string buf p = takeWhile (\<lambda>c. c \<noteq> NUL) (drop p buf)"

definition strlen :: "string \<Rightarrow> nat \<Rightarrow> fault + nat" where
  "strlen buf p = (if NUL \<in> set (drop p buf) then Inr (length (c_string buf p)) else Inl Beyond)"

text \<open>
  The loops that overwrite the characters at the end of a string that fulfil \<open>junk\<close> with zeros, for a string of length \<open>n\<close> at the beginning of the buffer, and the three routines
  with it.
\<close>

fun strip_end :: "(char \<Rightarrow> bool) \<Rightarrow> nat \<Rightarrow> string \<Rightarrow> fault + string" where
  "strip_end junk 0 buf = Inr buf"
| "strip_end junk (Suc n) buf = and_then (at buf n) (\<lambda>c. if junk c then and_then (poke buf n NUL) (strip_end junk n) else Inr buf)"

definition strip_trailing_junk :: "string \<Rightarrow> fault + string" where
  "strip_trailing_junk cmd = and_then (strlen cmd 0) (\<lambda>n. strip_end (\<lambda>c. B_ISSPACE c \<or> c = CHR 0x0A \<or> c = CHR 0x0D) n cmd)"

definition strip_trailing_newline :: "string \<Rightarrow> fault + string" where
  "strip_trailing_newline cmd = and_then (strlen cmd 0) (\<lambda>n. strip_end (\<lambda>c. c = CHR 0x0A \<or> c = CHR 0x0D) n cmd)"

definition IsPathSeparator :: "char \<Rightarrow> bool" where
  "IsPathSeparator c \<longleftrightarrow> c = CHR ''/''"

definition strip_trailing_slashes :: "string \<Rightarrow> fault + string" where
  "strip_trailing_slashes dir = and_then (strlen dir 0) (\<lambda>n. strip_end IsPathSeparator n dir)"

text \<open>Leading space is removed by moving the rest of the string.\<close>

definition strip_leading_space :: "string \<Rightarrow> fault + string" where
  "strip_leading_space str =
     and_then (skip_space str) (\<lambda>rest.
       and_then (strlen rest 0) (\<lambda>n. if length rest = length str then Inr str else Inr (take (n + 1) rest @ drop (n + 1) str)))"

text \<open>
  The comparison of \<open>fstrsch\<close>: \<open>a\<close> is a prefix of \<open>b\<close> up to case. The first loop compares with bit \<open>0x20\<close> set in both characters, the second one folds the case of letters.
\<close>

definition or_0x20 :: "char \<Rightarrow> nat" where
  "or_0x20 c = (of_char c :: nat) OR 32"

definition fold_case :: "char \<Rightarrow> char" where
  "fold_case c = (let n = of_char c :: nat in if 65 \<le> n \<and> n \<le> 90 then char_of (n + 32) else c)"

fun fstrsch_fast :: "string \<Rightarrow> string \<Rightarrow> fault + bool" where
  "fstrsch_fast [] b = Inl Beyond"
| "fstrsch_fast (c # a) b =
     (if c = NUL then Inr True
      else and_then (deref b) (\<lambda>d. if or_0x20 c \<noteq> or_0x20 d then Inr False else fstrsch_fast a (tl b)))"

fun fstrsch_slow :: "string \<Rightarrow> string \<Rightarrow> fault + bool" where
  "fstrsch_slow [] b = Inl Beyond"
| "fstrsch_slow (c # a) b =
     (if c = NUL then Inr True
      else and_then (deref b) (\<lambda>d. if fold_case c \<noteq> fold_case d then Inr False else fstrsch_slow a (tl b)))"

definition fstrsch :: "string \<Rightarrow> string \<Rightarrow> fault + bool" where
  "fstrsch a b = and_then (fstrsch_fast a b) (\<lambda>r. if r then fstrsch_slow a b else Inr False)"

text \<open>A blank and the zero at the end of \<open>b\<close> are the same to the first loop, which then reads on behind the zero.\<close>

lemma fstrsch_overruns: "fstrsch (''run job'' @ [NUL]) (''run'' @ [NUL]) = Inl Beyond"
  by code_simp

section \<open>Arguments\<close>

function skip_blanks :: "string \<Rightarrow> nat \<Rightarrow> fault + nat" where
  "skip_blanks buf p = (if p < length buf then if buf ! p \<noteq> NUL \<and> B_ISSPACE (buf ! p) then skip_blanks buf (p + 1) else Inr p else Inl Beyond)"
  by pat_completeness auto
termination by (relation "measure (\<lambda>(buf, p). length buf - p)") auto

text \<open>The loop of \<open>next_arg\<close> and \<open>next_name\<close>: \<open>sep\<close> ends the argument outside of quotes.\<close>

function arg_loop :: "(char \<Rightarrow> bool) \<Rightarrow> string \<Rightarrow> nat \<Rightarrow> nat \<Rightarrow> bool \<Rightarrow> fault + string \<times> nat \<times> nat" where
  "arg_loop sep buf p q in_quote =
     (if \<not> p < length buf then Inl Beyond
      else
        (let c = buf ! p
         in if c = NUL then Inr (buf, p, q)
            else if c = CHR 0x5C then
              (if \<not> p + 1 < length buf \<or> \<not> q < length buf then Inl Beyond
               else if buf ! (p + 1) \<noteq> NUL then arg_loop sep (buf[q := buf ! (p + 1)]) (p + 2) (q + 1) in_quote
               else arg_loop sep (buf[q := buf ! (p + 1)]) (p + 1) (q + 1) in_quote)
            else if c = CHR 0x22 then arg_loop sep buf (p + 1) q (\<not> in_quote)
            else if \<not> in_quote \<and> sep c then Inr (buf, p + 1, q)
            else if \<not> q < length buf then Inl Beyond
            else arg_loop sep (buf[q := c]) (p + 1) (q + 1) in_quote))"
  by pat_completeness auto
termination by (relation "measure (\<lambda>(_, buf, p, _). length buf - p)") auto

declare skip_blanks.simps [simp del] arg_loop.simps [simp del]

text \<open>Both return the buffer, the new value of the pointer passed to them, and where the argument begins.\<close>

definition next_arg :: "string \<Rightarrow> nat \<Rightarrow> fault + string \<times> nat \<times> nat" where
  "next_arg buf s =
     and_then (skip_blanks buf s) (\<lambda>p.
       and_then (arg_loop B_ISSPACE buf p p False) (\<lambda>(buf, p', q). and_then (poke buf q NUL) (\<lambda>buf. Inr (buf, p', p))))"

definition next_name :: "string \<Rightarrow> nat \<Rightarrow> fault + (string \<times> nat \<times> nat) option" where
  "next_name buf s =
     and_then (at buf s) (\<lambda>c.
       if c = NUL then Inr None
       else and_then (arg_loop (\<lambda>c. c = CHR '','') buf s s False) (\<lambda>(buf, p, q). and_then (poke buf q NUL) (\<lambda>buf. Inr (Some (buf, p, s)))))"

fun args_loop :: "nat \<Rightarrow> string \<Rightarrow> nat \<Rightarrow> fault + string \<times> nat list" where
  "args_loop 0 buf p = Inr (buf, [])"
| "args_loop (Suc n) buf p =
     and_then (next_arg buf p) (\<lambda>(buf, p, arg).
       and_then (at buf arg) (\<lambda>c.
         if c \<noteq> NUL then and_then (args_loop n buf p) (\<lambda>(buf, argk). Inr (buf, arg # argk)) else Inr (buf, [])))"

text \<open>The copy of the command and the beginnings of the arguments in it.\<close>

definition parse_args_only :: "string \<Rightarrow> nat \<Rightarrow> fault + string \<times> nat list" where
  "parse_args_only cmd max_args =
     and_then (strlen cmd 0) (\<lambda>n. and_then (strip_trailing_junk (take (n + 1) cmd)) (\<lambda>args. args_loop max_args args 0))"

fun split_values :: "string \<Rightarrow> nat list \<Rightarrow> string \<times> nat option list" where
  "split_values buf [] = (buf, [])"
| "split_values buf (k # ks) =
     (let kw = takeWhile (\<lambda>c. c \<noteq> CHR ''='') (c_string buf k)
      in if kw = c_string buf k then (case split_values buf ks of (buf, vs) \<Rightarrow> (buf, None # vs))
         else (case split_values (buf[k + length kw := NUL]) ks of (buf, vs) \<Rightarrow> (buf, Some (k + length kw + 1) # vs)))"

definition parse_args :: "string \<Rightarrow> nat \<Rightarrow> fault + string \<times> (nat \<times> nat option) list" where
  "parse_args cmd max_args =
     and_then (parse_args_only cmd max_args) (\<lambda>(buf, argk). case split_values buf argk of (buf, argv) \<Rightarrow> Inr (buf, zip argk argv))"

section \<open>File names\<close>

text \<open>
  The two loops that walk back over the name; \<open>f\<close> is the offset of the last of \<open>slen\<close> characters, which is \<open>-1\<close> for an empty name.
\<close>

fun back_over :: "(char \<Rightarrow> bool) \<Rightarrow> nat \<Rightarrow> nat \<Rightarrow> string \<Rightarrow> nat" where
  "back_over P least 0 buf = 0"
| "back_over P least (Suc slen) buf = (if least < Suc slen \<and> P (buf ! slen) then back_over P least slen buf else Suc slen)"

definition split_path_and_filename :: "string \<Rightarrow> fault + string \<times> string" where
  "split_path_and_filename fname =
     and_then (strlen fname 0) (\<lambda>len.
       let slen = back_over IsPathSeparator 1 len fname;
           slen = back_over (\<lambda>c. \<not> IsPathSeparator c) 0 slen fname
       in if slen = 0 then Inl Beyond
          else
            (let f = (if IsPathSeparator (fname ! (slen - 1)) then slen else 0)
             in Inr (take f fname, take (len - f) (drop f fname))))"

section \<open>What an argument is\<close>

text \<open>The first argument of a text and the rest, without the buffer: a backslash quotes a character, double quotes quote separators.\<close>

fun take_arg :: "(char \<Rightarrow> bool) \<Rightarrow> bool \<Rightarrow> string \<Rightarrow> string \<times> string" where
  "take_arg sep in_quote [] = ([], [])"
| "take_arg sep in_quote (c # cs) =
     (if c = CHR 0x5C then
        (case cs of [] \<Rightarrow> ([], []) | d # ds \<Rightarrow> (case take_arg sep in_quote ds of (a, r) \<Rightarrow> (d # a, r)))
      else if c = CHR 0x22 then take_arg sep (\<not> in_quote) cs
      else if \<not> in_quote \<and> sep c then ([], cs)
      else (case take_arg sep in_quote cs of (a, r) \<Rightarrow> (c # a, r)))"

lemma take_arg_no_NUL: "take_arg sep iq t = (a, r) \<Longrightarrow> NUL \<notin> set t \<Longrightarrow> NUL \<notin> set a \<and> NUL \<notin> set r \<and> length r \<le> length t"
proof (induction sep iq t arbitrary: a r rule: take_arg.induct)
  case (2 sep iq c cs)
  then show ?case by (auto split: if_splits list.splits prod.splits) (force+)?
qed simp

lemma drop_Cons_nth: "drop p buf = c # cs \<Longrightarrow> p < length buf \<and> buf ! p = c \<and> drop (p + 1) buf = cs"
proof -
  assume a: "drop p buf = c # cs"
  then have "p < length buf" by (cases "p < length buf") simp_all
  then show ?thesis using a by (simp add: Cons_nth_drop_Suc [symmetric])
qed

text \<open>
  The argument \<open>a\<close> has been stored from \<open>q\<close> to \<open>q'\<close>, maybe with a zero, and behind \<open>p'\<close> is the rest \<open>r\<close> of the text, undisturbed.
\<close>

definition took :: "string \<Rightarrow> nat \<Rightarrow> nat \<Rightarrow> string \<Rightarrow> string \<Rightarrow> string \<Rightarrow> string \<times> nat \<times> nat \<Rightarrow> bool" where
  "took buf p q a r junk res \<longleftrightarrow>
     (case res of (buf', p', q') \<Rightarrow> length buf' = length buf \<and> take q buf' = take q buf \<and> q' \<le> p' \<and> p \<le> p' \<and> q' < length buf \<and>
        drop p' buf' = r @ NUL # junk \<and> (p' = q' \<longrightarrow> r = []) \<and>
        (q' = q + length a \<and> take (length a) (drop q buf') = a \<or> q' = Suc (q + length a) \<and> take (Suc (length a)) (drop q buf') = a @ [NUL]))"

lemma took_Cons:
  assumes t: "took (buf[q := c]) p1 (q + 1) a r junk res" and q: "q < length buf" and p: "p \<le> p1"
  shows "took buf p q (c # a) r junk res"
proof -
  obtain buf' p' q' where res: "res = (buf', p', q')" by (metis surj_pair)
  have l: "length buf' = length buf" "take (q + 1) buf' = take (q + 1) (buf[q := c])" using t by (simp_all add: took_def res)
  have "drop q buf' = c # drop (q + 1) buf'"
    using l q by (metis Cons_nth_drop_Suc Suc_eq_plus1 lessI nth_list_update_eq nth_take)
  then have q0: "take (Suc m) (drop q buf') = c # take m (drop (q + 1) buf')" for m by simp
  have "take q (take (q + 1) buf') = take q (take (q + 1) (buf[q := c]))" using l(2) by simp
  then have "take q buf' = take q buf" by (simp add: min_def)
  then show ?thesis using t q0 p by (auto simp: took_def res)
qed

lemma took_later: "took buf p1 q a r junk res \<Longrightarrow> p \<le> p1 \<Longrightarrow> took buf p q a r junk res"
  by (auto simp: took_def)

lemma arg_loop_takes:
  assumes "drop p buf = t @ NUL # junk" and "NUL \<notin> set t" and "q \<le> p" and "take_arg sep iq t = (a, r)"
  shows "\<exists>res. arg_loop sep buf p q iq = Inr res \<and> took buf p q a r junk res"
  using assms
proof (induction sep iq t arbitrary: buf p q a r rule: take_arg.induct)
  case (1 sep iq)
  have p: "p < length buf" "buf ! p = NUL" using drop_Cons_nth [of p buf NUL junk] 1 by simp_all
  then have "arg_loop sep buf p q iq = Inr (buf, p, q)" by (subst arg_loop.simps) simp
  then show ?case using 1 p by (intro exI [of _ "(buf, p, q)"]) (simp add: took_def)
next
  case (2 sep iq c cs)
  note p = drop_Cons_nth [OF 2(4) [unfolded append_Cons]]
  have c: "c \<noteq> NUL" "NUL \<notin> set cs" using 2(5) by auto
  have ql: "q < length buf" using p 2(6) by simp
  consider (esc) "c = CHR 0x5C" | (quote) "c = CHR 0x22" | (sep) "c \<noteq> CHR 0x5C" "c \<noteq> CHR 0x22" "\<not> iq \<and> sep c"
    | (plain) "c \<noteq> CHR 0x5C" "c \<noteq> CHR 0x22" "\<not> (\<not> iq \<and> sep c)" by blast
  then show ?case
  proof cases
    case sep
    then have ar: "a = []" "r = cs" using 2(7) by auto
    have "arg_loop sep buf p q iq = Inr (buf, p + 1, q)" using sep c p by (subst arg_loop.simps) simp
    then show ?thesis using ar p 2(6) ql by (intro exI [of _ "(buf, p + 1, q)"]) (simp add: took_def)
  next
    case quote
    have l: "arg_loop sep buf p q iq = arg_loop sep buf (p + 1) q (\<not> iq)" using quote c p by (subst arg_loop.simps) simp
    have "take_arg sep (\<not> iq) cs = (a, r)" using 2(7) quote by simp
    then have "\<exists>res. arg_loop sep buf (p + 1) q (\<not> iq) = Inr res \<and> took buf (p + 1) q a r junk res"
      using quote p c 2(6) by (intro "2.IH"(2)) simp_all
    then show ?thesis using l took_later [of buf "p + 1" q a r junk _ p] by auto
  next
    case plain
    obtain a1 where a1: "take_arg sep iq cs = (a1, r)" "a = c # a1" using 2(7) plain by (auto split: prod.splits)
    have l: "arg_loop sep buf p q iq = arg_loop sep (buf[q := c]) (p + 1) (q + 1) iq" using plain c p ql by (subst arg_loop.simps) auto
    have "\<exists>res. arg_loop sep (buf[q := c]) (p + 1) (q + 1) iq = Inr res \<and> took (buf[q := c]) (p + 1) (q + 1) a1 r junk res"
      using plain p c 2(6) a1(1) by (intro "2.IH"(3)) simp_all
    then show ?thesis using l took_Cons [OF _ ql, of c "p + 1" a1 r junk _ p] a1(2) by auto
  next
    case esc
    show ?thesis
    proof (cases cs)
      case Nil
      have n: "p + 1 < length buf" "buf ! (p + 1) = NUL" using drop_Cons_nth [of "p + 1" buf NUL junk] p Nil by simp_all
      let ?b = "buf[q := NUL]"
      have ar: "a = []" "r = []" using 2(7) esc Nil by simp_all
      have "arg_loop sep buf p q iq = arg_loop sep ?b (p + 1) (q + 1) iq" using esc p n ql by (subst arg_loop.simps) simp
      also have "\<dots> = Inr (?b, p + 1, q + 1)" using n 2(6) by (subst arg_loop.simps) simp
      finally show ?thesis using ar p n 2(6) Nil by (intro exI [of _ "(?b, p + 1, q + 1)"]) (auto simp: took_def take_Suc_conv_app_nth hd_drop_conv_nth)
    next
      case (Cons d ds)
      have n: "p + 1 < length buf" "buf ! (p + 1) = d" "drop (p + 2) buf = ds @ NUL # junk"
        using drop_Cons_nth [of "p + 1" buf d "ds @ NUL # junk"] p Cons by simp_all
      obtain a1 where a1: "take_arg sep iq ds = (a1, r)" "a = d # a1" using 2(7) esc Cons by (auto split: prod.splits)
      have d: "d \<noteq> NUL" "NUL \<notin> set ds" using c(2) Cons by auto
      have l: "arg_loop sep buf p q iq = arg_loop sep (buf[q := d]) (p + 2) (q + 1) iq" using esc p n ql d by (subst arg_loop.simps) simp
      have "\<exists>res. arg_loop sep (buf[q := d]) (p + 2) (q + 1) iq = Inr res \<and> took (buf[q := d]) (p + 2) (q + 1) a1 r junk res"
        using esc Cons n d 2(6) a1(1) by (intro "2.IH"(1)) simp_all
      then show ?thesis using l took_Cons [OF _ ql, of d "p + 2" a1 r junk _ p] a1(2) by auto
    qed
  qed
qed

section \<open>All arguments\<close>

fun args_of :: "nat \<Rightarrow> string \<Rightarrow> string list" where
  "args_of 0 t = []"
| "args_of (Suc n) t = (case take_arg B_ISSPACE False (dropWhile B_ISSPACE t) of (a, r) \<Rightarrow> if a = [] then [] else a # args_of n r)"

lemma not_space_NUL [simp]: "\<not> B_ISSPACE NUL"
  by (simp add: B_ISSPACE_def)

lemma skip_blanks_drops:
  assumes "drop p buf = t @ NUL # junk" and "NUL \<notin> set t"
  shows "\<exists>p'. skip_blanks buf p = Inr p' \<and> p \<le> p' \<and> drop p' buf = dropWhile B_ISSPACE t @ NUL # junk"
  using assms
proof (induction t arbitrary: p)
  case Nil
  then show ?case using drop_Cons_nth [of p buf NUL junk] by (subst skip_blanks.simps) auto
next
  case (Cons c t)
  note p = drop_Cons_nth [OF Cons.prems(1) [unfolded append_Cons]]
  show ?case
  proof (cases "B_ISSPACE c")
    case True
    then have "skip_blanks buf p = skip_blanks buf (p + 1)" using p Cons.prems(2) by (subst skip_blanks.simps) auto
    moreover obtain p' where "skip_blanks buf (p + 1) = Inr p'" "p + 1 \<le> p'" "drop p' buf = dropWhile B_ISSPACE t @ NUL # junk"
      using Cons.IH [of "p + 1"] p Cons.prems(2) by auto
    ultimately show ?thesis using True by auto
  next
    case False
    then show ?thesis using p Cons.prems(1) by (subst skip_blanks.simps) auto
  qed
qed

lemma take_shorter: "take p xs = take p ys \<Longrightarrow> s \<le> p \<Longrightarrow> take s xs = take s ys"
  by (metis min.absorb1 take_take)

lemma c_stringI: "drop p buf = a @ NUL # rest \<Longrightarrow> NUL \<notin> set a \<Longrightarrow> c_string buf p = a"
  by (simp add: c_string_def takeWhile_append)

text \<open>The string at \<open>p\<close> and its zero lie in front of \<open>e\<close>, or the zero at \<open>e\<close>.\<close>

lemma next_arg_takes:
  assumes t: "drop s buf = t @ NUL # junk" "NUL \<notin> set t" and a: "take_arg B_ISSPACE False (dropWhile B_ISSPACE t) = (a, r)"
  shows "\<exists>buf' p' arg. next_arg buf s = Inr (buf', p', arg) \<and> length buf' = length buf \<and> take s buf' = take s buf \<and> s \<le> p' \<and> s \<le> arg \<and>
     drop p' buf' = r @ NUL # junk \<and> arg + length a \<le> p' \<and> drop arg buf' = a @ NUL # drop (Suc (arg + length a)) buf' \<and>
     (arg + length a = p' \<longrightarrow> r = [])"
proof -
  obtain p where p: "skip_blanks buf s = Inr p" "s \<le> p" "drop p buf = dropWhile B_ISSPACE t @ NUL # junk" using skip_blanks_drops [OF t] by blast
  have n: "NUL \<notin> set (dropWhile B_ISSPACE t)" using t(2) set_dropWhileD by metis
  obtain buf1 p' q' where l: "arg_loop B_ISSPACE buf p p False = Inr (buf1, p', q')" "took buf p p a r junk (buf1, p', q')"
    using arg_loop_takes [OF p(3) n order_refl a] by auto
  note k = l(2) [unfolded took_def prod.case]
  let ?b = "buf1[q' := NUL]"
  have "next_arg buf s = Inr (?b, p', p)" using p(1) l(1) k by (simp add: next_arg_def poke_def)
  moreover have "length ?b = length buf" using k by simp
  moreover have "take s ?b = take s buf"
  proof -
    have "s \<le> q'" using p(2) k by auto
    then have "take s ?b = take s buf1" by simp
    also have "\<dots> = take s buf" using k take_shorter [OF _ p(2), of buf1 buf] by simp
    finally show ?thesis .
  qed
  moreover have "drop p' ?b = r @ NUL # junk"
  proof (cases "q' = p'")
    case True
    then have "drop p' buf1 = NUL # junk" using k by simp
    then have "buf1 ! p' = NUL" using drop_Cons_nth [of p' buf1 NUL junk] by simp
    then have "?b = buf1" using True list_update_id [of buf1 p'] by simp
    then show ?thesis using k by simp
  qed (use k in simp)
  moreover have "drop p ?b = a @ NUL # drop (Suc (p + length a)) ?b \<and> (p + length a = p' \<longrightarrow> r = [])"
  proof -
    consider "q' = p + length a" "take (length a) (drop p buf1) = a" | "q' = Suc (p + length a)" "take (Suc (length a)) (drop p buf1) = a @ [NUL]"
      using k by auto
    then show ?thesis
    proof cases
      case 1
      then have "take (length a) (drop p ?b) = a" by (simp add: drop_update_swap)
      moreover have "drop (p + length a) ?b = NUL # drop (Suc (p + length a)) ?b" using 1 k by (simp add: Cons_nth_drop_Suc [symmetric])
      ultimately have "drop p ?b = a @ NUL # drop (Suc (p + length a)) ?b"
        using append_take_drop_id [of "length a" "drop p ?b"] by (simp add: add.commute)
      then show ?thesis using k 1 by auto
    next
      case 2
      then have "take (Suc (length a)) (drop p ?b) = a @ [NUL]" by (simp add: drop_update_swap)
      then have "drop p ?b = (a @ [NUL]) @ drop (Suc (p + length a)) ?b" using append_take_drop_id [of "Suc (length a)" "drop p ?b"] by (simp add: add.commute)
      then show ?thesis using k 2 by auto
    qed
  qed
  moreover have "p + length a \<le> p'" using k by auto
  moreover have "s \<le> p'" using p(2) k by auto
  ultimately show ?thesis using p(2) by blast
qed

lemma args_loop_takes:
  assumes "drop p buf = t @ NUL # junk" and "NUL \<notin> set t"
  shows "\<exists>buf' argk. args_loop n buf p = Inr (buf', argk) \<and> length buf' = length buf \<and> take p buf' = take p buf \<and> (t = [] \<longrightarrow> buf' = buf) \<and>
     map (c_string buf') argk = args_of n t"
  using assms
proof (induction n arbitrary: buf p t)
  case 0
  then show ?case by simp
next
  case (Suc n)
  obtain a r where ar: "take_arg B_ISSPACE False (dropWhile B_ISSPACE t) = (a, r)" by (metis surj_pair)
  obtain buf1 p1 arg where x: "next_arg buf p = Inr (buf1, p1, arg)" "length buf1 = length buf" "take p buf1 = take p buf" "p \<le> p1" "p \<le> arg"
      "drop p1 buf1 = r @ NUL # junk" "arg + length a \<le> p1" "drop arg buf1 = a @ NUL # drop (Suc (arg + length a)) buf1"
      "arg + length a = p1 \<longrightarrow> r = []"
    using next_arg_takes [OF Suc.prems ar] by blast
  have nd: "NUL \<notin> set (dropWhile B_ISSPACE t)" using Suc.prems(2) set_dropWhileD by metis
  have na: "NUL \<notin> set a" "NUL \<notin> set r" using take_arg_no_NUL [OF ar nd] by simp_all
  have c: "arg < length buf1" "buf1 ! arg = (if a = [] then NUL else hd a)" using drop_Cons_nth [of arg buf1] x(8) by (cases a; auto)+
  have same: "buf1 = buf" if "t = []"
  proof (rule nth_equalityI [OF x(2)])
    fix i assume i: "i < length buf1"
    have d: "drop p buf = NUL # junk" "r = []" using that Suc.prems(1) ar by simp_all
    show "buf1 ! i = buf ! i"
    proof (cases "i < p")
      case True
      then show ?thesis using x(3) by (metis nth_take)
    next
      case False
      have "drop p1 buf1 = drop p buf" using x(6) d by simp
      moreover have "p1 = p"
      proof -
        have "p < length buf" "p1 < length buf1" using drop_Cons_nth [of p buf] drop_Cons_nth [of p1 buf1] d x(6) by auto
        moreover have "length (drop p1 buf1) = length (drop p buf)" using \<open>drop p1 buf1 = drop p buf\<close> by simp
        ultimately show ?thesis using x(2) by simp
      qed
      ultimately have "drop p buf1 ! (i - p) = drop p buf ! (i - p)" by simp
      then show ?thesis using False i x(2) by simp
    qed
  qed
  show ?case
  proof (cases "a = []")
    case True
    then have "args_loop (Suc n) buf p = Inr (buf1, [])" using x(1) c by (simp add: at_def)
    then show ?thesis using x(2,3) same ar True by auto
  next
    case False
    obtain buf2 argk where y: "args_loop n buf1 p1 = Inr (buf2, argk)" "length buf2 = length buf1" "take p1 buf2 = take p1 buf1" "r = [] \<longrightarrow> buf2 = buf1"
        "map (c_string buf2) argk = args_of n r"
      using Suc.IH [OF x(6) na(2)] by blast
    have "hd a \<noteq> NUL" using False na(1) by (cases a) auto
    then have "args_loop (Suc n) buf p = Inr (buf2, arg # argk)" using x(1) c y(1) False by (simp add: at_def)
    moreover have "c_string buf2 arg = a"
    proof (cases "r = []")
      case True
      then show ?thesis using y(4) c_stringI [OF x(8) na(1)] by simp
    next
      case False
      then have lt: "Suc (arg + length a) \<le> p1" using x(7,9) by auto
      have "take (Suc (length a)) (drop arg buf2) = take (Suc (length a)) (drop arg buf1)"
        using y(3) lt by (metis (no_types, lifting) add.commute add_Suc drop_take min.absorb1 take_drop take_take)
      also have "\<dots> = a @ [NUL]" using x(8) by (metis append_Cons append_Nil append_assoc append_eq_conv_conj length_append_singleton)
      finally have "drop arg buf2 = a @ NUL # drop (Suc (length a)) (drop arg buf2)" by (metis append_Cons append_Nil append_assoc append_take_drop_id)
      then show ?thesis by (rule c_stringI [OF _ na(1)])
    qed
    moreover have "take p buf2 = take p buf" using x(3) take_shorter [OF y(3) x(4)] by simp
    moreover have "t \<noteq> []" using False ar by auto
    ultimately show ?thesis using y(2,5) x(2) ar False by auto
  qed
qed

text \<open>A command made of quoted arguments.\<close>

definition quote_char :: "char \<Rightarrow> string" where
  "quote_char c = (if c = CHR 0x22 \<or> c = CHR 0x5C then [CHR 0x5C, c] else [c])"

definition quoted :: "string \<Rightarrow> string" where
  "quoted a = CHR 0x22 # concat (map quote_char a) @ [CHR 0x22]"

fun command :: "string list \<Rightarrow> string" where
  "command [] = []"
| "command [a] = quoted a"
| "command (a # as) = quoted a @ CHR '' '' # command as"

lemma take_arg_quoted:
  "take_arg sep True (concat (map quote_char a) @ CHR 0x22 # t) = (case take_arg sep False t of (b, r) \<Rightarrow> (a @ b, r))"
  by (induction a) (auto simp: quote_char_def split: prod.split)

lemma take_arg_first:
  "take_arg B_ISSPACE False (quoted a) = (a, [])" "take_arg B_ISSPACE False (quoted a @ CHR '' '' # t) = (a, t)"
  by (simp_all add: quoted_def take_arg_quoted B_ISSPACE_def)

lemma command_not_blank: "dropWhile B_ISSPACE (command as) = command as"
  by (cases as rule: command.cases) (simp_all add: quoted_def B_ISSPACE_def)

lemma args_of_command: "args_of n (command as) = take n (takeWhile (\<lambda>a. a \<noteq> []) as)"
proof (induction as arbitrary: n rule: command.induct)
  case 1
  then show ?case by (cases n) simp_all
next
  case (2 a)
  then show ?case using command_not_blank [of "[a]"] by (cases n; cases "n - 1") (simp_all add: take_arg_first)
next
  case (3 a b as)
  then show ?case using command_not_blank [of "a # b # as"] by (cases n) (simp_all add: take_arg_first)
qed

lemma command_chars: "\<forall>a \<in> set as. NUL \<notin> set a \<Longrightarrow> NUL \<notin> set (command as)"
  by (induction as rule: command.induct) (auto simp: quoted_def quote_char_def split: if_splits)

lemma command_last: "as \<noteq> [] \<Longrightarrow> last (command as) = CHR 0x22 \<and> command as \<noteq> []"
  by (induction as rule: command.induct) (simp_all add: quoted_def)

lemma strip_nothing:
  assumes "NUL \<notin> set t" and "t = [] \<or> \<not> B_ISSPACE (last t) \<and> last t \<noteq> CHR 0x0A \<and> last t \<noteq> CHR 0x0D"
  shows "strip_trailing_junk (t @ [NUL]) = Inr (t @ [NUL])"
proof -
  have n: "strlen (t @ [NUL]) 0 = Inr (length t)" using c_stringI [of 0 "t @ [NUL]" t "[]"] assms(1) by (simp add: strlen_def)
  show ?thesis
  proof (cases t rule: rev_cases)
    case (snoc xs x)
    then show ?thesis using n assms(2) by (simp add: strip_trailing_junk_def at_def)
  qed (use n in \<open>simp add: strip_trailing_junk_def\<close>)
qed

text \<open>
  C12: Arguments come back from a command line. For a command in which every argument is enclosed in double quotes, with a backslash in front of each double quote and each backslash in it,
  \<open>parse_args_only\<close> stays within its copy of the command, returns, and its arguments are the ones the command was made of, whatever characters they have, up to
  \<open>max_args\<close> and up to the first empty one: an empty argument, which is taken for the end of the command, hides all those behind it.
\<close>

theorem arguments_come_back:
  assumes "\<forall>a \<in> set as. NUL \<notin> set a"
  shows "\<exists>buf argk. parse_args_only (command as @ [NUL]) max_args = Inr (buf, argk) \<and>
     map (c_string buf) argk = take max_args (takeWhile (\<lambda>a. a \<noteq> []) as)"
proof -
  let ?t = "command as"
  have nul: "NUL \<notin> set ?t" by (rule command_chars [OF assms])
  have n: "strlen (?t @ [NUL]) 0 = Inr (length ?t)" using c_stringI [of 0 "?t @ [NUL]" ?t "[]"] nul by (simp add: strlen_def)
  have "?t = [] \<or> \<not> B_ISSPACE (last ?t) \<and> last ?t \<noteq> CHR 0x0A \<and> last ?t \<noteq> CHR 0x0D"
    using command_last [of as] by (cases "as = []") (simp_all add: B_ISSPACE_def)
  then have "strip_trailing_junk (?t @ [NUL]) = Inr (?t @ [NUL])" by (rule strip_nothing [OF nul])
  then have "parse_args_only (?t @ [NUL]) max_args = args_loop max_args (?t @ [NUL]) 0" using n by (simp add: parse_args_only_def)
  then show ?thesis using args_loop_takes [of 0 "?t @ [NUL]" ?t "[]" max_args] nul args_of_command by auto
qed

theorem arguments_come_back_witness:
  "\<exists>buf argk. parse_args_only (command [''run'', ''a b\"c'', [], ''yes''] @ [NUL]) 10 = Inr (buf, argk) \<and> map (c_string buf) argk = [''run'', ''a b\"c'']"
  using arguments_come_back [of "[''run'', ''a b\"c'', [], ''yes'']" 10] by simp

section \<open>Paths\<close>

lemma back_over_skips: "\<forall>c \<in> set y. P c \<Longrightarrow> l \<le> length x \<Longrightarrow> back_over P l (length x + length y) (x @ y @ z) = back_over P l (length x) (x @ y @ z)"
proof (induction y arbitrary: z rule: rev_induct)
  case (snoc c y)
  then show ?case using snoc.IH [of "c # z"] by (simp add: nth_append)
qed simp

lemma back_over_stops: "x \<noteq> [] \<Longrightarrow> \<not> P (last x) \<Longrightarrow> back_over P l (length x) (x @ z) = length x"
  by (cases x rule: rev_cases) (simp_all add: nth_append)

lemma back_to_base:
  assumes "b \<noteq> []" and "CHR ''/'' \<notin> set b"
  shows "back_over IsPathSeparator 1 (length (p @ b @ replicate k CHR ''/'')) ((p @ b @ replicate k CHR ''/'') @ [NUL]) = length (p @ b)"
proof -
  have l: "1 \<le> length (p @ b)" using assms(1) by (cases b) simp_all
  have e: "last b \<noteq> CHR ''/''" using assms by (metis last_in_set)
  have "back_over IsPathSeparator 1 (length (p @ b) + length (replicate k CHR ''/'')) ((p @ b) @ replicate k CHR ''/'' @ [NUL])
      = back_over IsPathSeparator 1 (length (p @ b)) ((p @ b) @ replicate k CHR ''/'' @ [NUL])"
    using l by (intro back_over_skips) (simp_all add: IsPathSeparator_def)
  also have "\<dots> = length (p @ b)" using assms(1) e by (intro back_over_stops) (simp_all add: IsPathSeparator_def)
  finally show ?thesis by (simp add: add.assoc)
qed

text \<open>
  A file name is cut behind the last slash that is not at its end: path and name together are the file name again. For a name without such a slash, as \<^verbatim>\<open>c:\<close> or
  \<^verbatim>\<open>dir/\<close>, the code looks at the character in front of the name to find this out, which is outside of the string.
\<close>

lemma split_path_cuts_name:
  assumes "b \<noteq> []" and "CHR ''/'' \<notin> set b" and "NUL \<notin> set (p @ b)"
  shows "split_path_and_filename ((p @ ''/'') @ b @ replicate k CHR ''/'' @ [NUL]) = Inr (p @ ''/'', b @ replicate k CHR ''/'') \<and>
     split_path_and_filename (b @ replicate k CHR ''/'' @ [NUL]) = Inl Beyond"
proof -
  have len: "strlen (t @ [NUL]) 0 = Inr (length t)" if "NUL \<notin> set t" for t using c_stringI [of 0 "t @ [NUL]" t "[]"] that by (simp add: strlen_def)
  let ?sep = "\<lambda>c. \<not> IsPathSeparator c" and ?s = "replicate k CHR ''/''"
  have nb: "\<forall>c \<in> set b. ?sep c" using assms(2) by (auto simp: IsPathSeparator_def)
  have "split_path_and_filename ((p @ ''/'') @ b @ ?s @ [NUL]) = Inr (p @ ''/'', b @ ?s)"
  proof -
    let ?p = "p @ ''/''"
    have 1: "back_over IsPathSeparator 1 (length (?p @ b @ ?s)) ((?p @ b @ ?s) @ [NUL]) = length (?p @ b)" by (rule back_to_base [OF assms(1,2)])
    have "back_over ?sep 0 (length ?p + length b) (?p @ b @ ?s @ [NUL]) = back_over ?sep 0 (length ?p) (?p @ b @ ?s @ [NUL])"
      by (rule back_over_skips [OF nb]) simp
    also have "\<dots> = length ?p" by (rule back_over_stops) (simp_all add: IsPathSeparator_def)
    finally have 2: "back_over ?sep 0 (length (?p @ b)) ((?p @ b @ ?s) @ [NUL]) = length ?p" by simp
    have n: "NUL \<notin> set (?p @ b @ ?s)" using assms(3) by auto
    have "split_path_and_filename ((?p @ b @ ?s) @ [NUL]) = Inr (?p, b @ ?s)"
      unfolding split_path_and_filename_def len [OF n] and_then_simps Let_def 1 2 by (simp add: nth_append IsPathSeparator_def)
    then show ?thesis by simp
  qed
  moreover have "split_path_and_filename (b @ ?s @ [NUL]) = Inl Beyond"
  proof -
    have 1: "back_over IsPathSeparator 1 (length (b @ ?s)) ((b @ ?s) @ [NUL]) = length b" using back_to_base [OF assms(1,2), of "[]" k] by simp
    have 2: "back_over ?sep 0 (length b) ((b @ ?s) @ [NUL]) = 0" using back_over_skips [OF nb, of 0 "[]" "?s @ [NUL]"] by simp
    have n: "NUL \<notin> set (b @ ?s)" using assms(3) by auto
    have "split_path_and_filename ((b @ ?s) @ [NUL]) = Inl Beyond"
      unfolding split_path_and_filename_def len [OF n] and_then_simps Let_def 1 2 by simp
    then show ?thesis by simp
  qed
  ultimately show ?thesis ..
qed

lemma split_path_example:
  "split_path_and_filename (''/home/dir/'' @ [NUL]) = Inr (''/home/'', ''dir/'') \<and> split_path_and_filename (''dir/'' @ [NUL]) = Inl Beyond"
  using split_path_cuts_name [of "''dir''" "''/home''" 1] by simp

end
