(* ===== verification/RwLock.thy ===== *)
theory RwLock
  imports Prelude "HOL-Library.Multiset"
begin

text \<open>
  The read/write locks of \<^verbatim>\<open>lib/rwlock.c\<close>. The mutex makes every call atomic up to \<open>pthread_cond_wait\<close>, so that a call is
  a function on the lock that either returns or waits, and a second function takes up a call behind the wait. Threads that take
  turns are a step relation. The calls of the lock manager (\<open>lmgr_\<close>), which only record locks for the debugger, are left out.
\<close>

section \<open>The lock and its operations\<close>

type_synonym thread = nat

record brwlock_t =
  writer_id :: thread
  priority :: int
  valid :: int
  r_active :: int
  w_active :: int
  r_wait :: int
  w_wait :: int

definition RWLOCK_VALID :: int where "RWLOCK_VALID = 0xfacade"

text \<open>The codes of \<^verbatim>\<open>errno.h\<close> on Linux; only that they are not zero matters.\<close>

definition EINVAL :: int where "EINVAL = 22"
definition EBUSY :: int where "EBUSY = 16"

text \<open>The results of the thread library in one call.\<close>

record pthread_results =
  pt_lock :: int
  pt_unlock :: int
  pt_wait :: int
  pt_broadcast :: int

datatype call = Returned int | Waiting

text \<open>The condition variable that a call broadcasts to.\<close>

datatype wake = Nobody | Readers | Writers

definition rwl_init :: "int \<Rightarrow> int \<Rightarrow> int \<Rightarrow> int \<Rightarrow> brwlock_t \<Rightarrow> int \<times> brwlock_t" where
  "rwl_init mutex_init read_init write_init prio rwl =
     (let rwl = rwl\<lparr>r_active := 0, w_active := 0, r_wait := 0, w_wait := 0, priority := prio\<rparr>
      in if mutex_init \<noteq> 0 then (mutex_init, rwl)
         else if read_init \<noteq> 0 then (read_init, rwl)
         else if write_init \<noteq> 0 then (write_init, rwl)
         else (0, rwl\<lparr>valid := RWLOCK_VALID\<rparr>))"

definition rwl_destroy :: "pthread_results \<Rightarrow> int \<Rightarrow> int \<Rightarrow> int \<Rightarrow> brwlock_t \<Rightarrow> int \<times> brwlock_t" where
  "rwl_destroy p mutex_destroy read_destroy write_destroy rwl =
     (if valid rwl \<noteq> RWLOCK_VALID then (EINVAL, rwl)
      else if pt_lock p \<noteq> 0 then (pt_lock p, rwl)
      else if r_active rwl > 0 \<or> w_active rwl \<noteq> 0 then (EBUSY, rwl)
      else if r_wait rwl > 0 \<or> w_wait rwl > 0 then (EBUSY, rwl)
      else
        (let rwl = rwl\<lparr>valid := 0\<rparr>
         in if pt_unlock p \<noteq> 0 then (pt_unlock p, rwl)
            else (if mutex_destroy \<noteq> 0 then mutex_destroy else if read_destroy \<noteq> 0 then read_destroy else write_destroy, rwl)))"

text \<open>The handlers that run when a thread is cancelled in its wait.\<close>

definition rwl_read_release :: "brwlock_t \<Rightarrow> brwlock_t" where
  "rwl_read_release rwl = rwl\<lparr>r_wait := r_wait rwl - 1\<rparr>"

definition rwl_write_release :: "brwlock_t \<Rightarrow> brwlock_t" where
  "rwl_write_release rwl = rwl\<lparr>w_wait := w_wait rwl - 1\<rparr>"

definition rwl_readlock :: "pthread_results \<Rightarrow> brwlock_t \<Rightarrow> call \<times> brwlock_t" where
  "rwl_readlock p rwl =
     (if valid rwl \<noteq> RWLOCK_VALID then (Returned EINVAL, rwl)
      else if pt_lock p \<noteq> 0 then (Returned (pt_lock p), rwl)
      else if w_active rwl \<noteq> 0 then (Waiting, rwl\<lparr>r_wait := r_wait rwl + 1\<rparr>)
      else (Returned 0, rwl\<lparr>r_active := r_active rwl + 1\<rparr>))"

text \<open>Behind \<open>pthread_cond_wait\<close>: the loop is left on an error or when no writer is active, or the thread waits again.\<close>

definition readlock_resume :: "pthread_results \<Rightarrow> brwlock_t \<Rightarrow> call \<times> brwlock_t" where
  "readlock_resume p rwl =
     (if pt_wait p \<noteq> 0 then (Returned (pt_wait p), rwl\<lparr>r_wait := r_wait rwl - 1\<rparr>)
      else if w_active rwl \<noteq> 0 then (Waiting, rwl)
      else (Returned 0, rwl\<lparr>r_wait := r_wait rwl - 1, r_active := r_active rwl + 1\<rparr>))"

definition rwl_readtrylock :: "pthread_results \<Rightarrow> brwlock_t \<Rightarrow> int \<times> brwlock_t" where
  "rwl_readtrylock p rwl =
     (if valid rwl \<noteq> RWLOCK_VALID then (EINVAL, rwl)
      else if pt_lock p \<noteq> 0 then (pt_lock p, rwl)
      else if w_active rwl \<noteq> 0 then (EBUSY, rwl)
      else (pt_unlock p, rwl\<lparr>r_active := r_active rwl + 1\<rparr>))"

definition rwl_readunlock :: "pthread_results \<Rightarrow> brwlock_t \<Rightarrow> int \<times> wake \<times> brwlock_t" where
  "rwl_readunlock p rwl =
     (if valid rwl \<noteq> RWLOCK_VALID then (EINVAL, Nobody, rwl)
      else if pt_lock p \<noteq> 0 then (pt_lock p, Nobody, rwl)
      else
        (let rwl = rwl\<lparr>r_active := r_active rwl - 1\<rparr>
         in if r_active rwl = 0 \<and> w_wait rwl > 0 then
              (if pt_broadcast p = 0 then pt_unlock p else pt_broadcast p, if pt_broadcast p = 0 then Writers else Nobody, rwl)
            else (pt_unlock p, Nobody, rwl)))"

definition rwl_writelock_p :: "pthread_results \<Rightarrow> thread \<Rightarrow> brwlock_t \<Rightarrow> call \<times> brwlock_t" where
  "rwl_writelock_p p self rwl =
     (if valid rwl \<noteq> RWLOCK_VALID then (Returned EINVAL, rwl)
      else if pt_lock p \<noteq> 0 then (Returned (pt_lock p), rwl)
      else if w_active rwl \<noteq> 0 \<and> writer_id rwl = self then (Returned 0, rwl\<lparr>w_active := w_active rwl + 1\<rparr>)
      else if w_active rwl \<noteq> 0 \<or> r_active rwl > 0 then (Waiting, rwl\<lparr>w_wait := w_wait rwl + 1\<rparr>)
      else (Returned 0, rwl\<lparr>w_active := w_active rwl + 1, writer_id := self\<rparr>))"

definition writelock_resume :: "pthread_results \<Rightarrow> thread \<Rightarrow> brwlock_t \<Rightarrow> call \<times> brwlock_t" where
  "writelock_resume p self rwl =
     (if pt_wait p \<noteq> 0 then (Returned (pt_wait p), rwl\<lparr>w_wait := w_wait rwl - 1\<rparr>)
      else if w_active rwl \<noteq> 0 \<or> r_active rwl > 0 then (Waiting, rwl)
      else (Returned 0, rwl\<lparr>w_wait := w_wait rwl - 1, w_active := w_active rwl + 1, writer_id := self\<rparr>))"

definition rwl_writetrylock :: "pthread_results \<Rightarrow> thread \<Rightarrow> brwlock_t \<Rightarrow> int \<times> brwlock_t" where
  "rwl_writetrylock p self rwl =
     (if valid rwl \<noteq> RWLOCK_VALID then (EINVAL, rwl)
      else if pt_lock p \<noteq> 0 then (pt_lock p, rwl)
      else if w_active rwl \<noteq> 0 \<and> writer_id rwl = self then (0, rwl\<lparr>w_active := w_active rwl + 1\<rparr>)
      else if w_active rwl \<noteq> 0 \<or> r_active rwl > 0 then (EBUSY, rwl)
      else (pt_unlock p, rwl\<lparr>w_active := 1, writer_id := self\<rparr>))"

text \<open>Unlocking too often, or by another thread than the writer, ends the program.\<close>

definition rwl_writeunlock :: "pthread_results \<Rightarrow> thread \<Rightarrow> brwlock_t \<Rightarrow> (int \<times> wake \<times> brwlock_t) outcome" where
  "rwl_writeunlock p self rwl =
     (if valid rwl \<noteq> RWLOCK_VALID then Ret (EINVAL, Nobody, rwl)
      else if pt_lock p \<noteq> 0 then Ret (pt_lock p, Nobody, rwl)
      else if w_active rwl \<le> 0 then Dies Assert_failed
      else
        (let rwl = rwl\<lparr>w_active := w_active rwl - 1\<rparr>;
             stat = (if pt_broadcast p = 0 then pt_unlock p else pt_broadcast p);
             sent = (\<lambda>w. if pt_broadcast p = 0 then w else Nobody)
         in if self \<noteq> writer_id rwl then Dies Assert_failed
            else if w_active rwl > 0 then Ret (pt_unlock p, Nobody, rwl)
            else if r_wait rwl > 0 then Ret (stat, sent Readers, rwl)
            else if w_wait rwl > 0 then Ret (stat, sent Writers, rwl)
            else Ret (pt_unlock p, Nobody, rwl)))"

definition is_rwl_valid :: "brwlock_t \<Rightarrow> bool" where
  "is_rwl_valid rwl \<longleftrightarrow> valid rwl = RWLOCK_VALID"

text \<open>\<open>RWL_INIIALIZER\<close>: its values, in the order of the fields behind the mutex and the condition variables.\<close>

definition RWL_INIIALIZER :: brwlock_t where
  "RWL_INIIALIZER = \<lparr>writer_id = nat RWLOCK_VALID, priority = 0, valid = 0, r_active = 0, w_active = 0, r_wait = 0, w_wait = 0\<rparr>"

section \<open>Threads\<close>

text \<open>
  A lock with the threads that use it: one entry in \<open>readers\<close> and \<open>writers\<close> for each lock that a thread holds, and the
  threads inside \<open>pthread_cond_wait\<close>, asleep or already woken.
\<close>

record rw_system =
  sys_lock :: brwlock_t
  readers :: "thread multiset"
  writers :: "thread multiset"
  r_asleep :: "thread multiset"
  r_awake :: "thread multiset"
  w_asleep :: "thread multiset"
  w_awake :: "thread multiset"

definition in_call :: "rw_system \<Rightarrow> thread \<Rightarrow> bool" where
  "in_call s t \<longleftrightarrow> t \<in># r_asleep s + r_awake s + w_asleep s + w_awake s"

fun deliver :: "wake \<Rightarrow> rw_system \<Rightarrow> rw_system" where
  "deliver Nobody s = s"
| "deliver Readers s = s\<lparr>r_awake := r_awake s + r_asleep s, r_asleep := {#}\<rparr>"
| "deliver Writers s = s\<lparr>w_awake := w_awake s + w_asleep s, w_asleep := {#}\<rparr>"

text \<open>What the result of a call means for the thread.\<close>

fun reader_gets :: "thread \<Rightarrow> call \<times> brwlock_t \<Rightarrow> rw_system \<Rightarrow> rw_system" where
  "reader_gets t (Waiting, l) s = s\<lparr>sys_lock := l, r_asleep := add_mset t (r_asleep s)\<rparr>"
| "reader_gets t (Returned e, l) s = s\<lparr>sys_lock := l, readers := (if e = 0 then add_mset t (readers s) else readers s)\<rparr>"

fun writer_gets :: "thread \<Rightarrow> call \<times> brwlock_t \<Rightarrow> rw_system \<Rightarrow> rw_system" where
  "writer_gets t (Waiting, l) s = s\<lparr>sys_lock := l, w_asleep := add_mset t (w_asleep s)\<rparr>"
| "writer_gets t (Returned e, l) s = s\<lparr>sys_lock := l, writers := (if e = 0 then add_mset t (writers s) else writers s)\<rparr>"

text \<open>An unlock that got hold of the mutex gave the lock back.\<close>

definition entered :: "pthread_results \<Rightarrow> rw_system \<Rightarrow> bool" where
  "entered p s \<longleftrightarrow> is_rwl_valid (sys_lock s) \<and> pt_lock p = 0"

text \<open>
  The thread library: the owner of a mutex can unlock it; other calls may fail and threads may be cancelled only where \<open>faults\<close> says so.
\<close>

definition usual :: "bool \<Rightarrow> pthread_results \<Rightarrow> bool" where
  "usual faults p \<longleftrightarrow> pt_unlock p = 0 \<and> (\<not> faults \<longrightarrow> pt_lock p = 0 \<and> pt_wait p = 0 \<and> pt_broadcast p = 0)"

text \<open>
  A step of a thread. A thread inside a call does not begin another, and gives back only read locks that it holds;
  a thread may wake up without a broadcast.
\<close>

inductive rw_step :: "bool \<Rightarrow> rw_system \<Rightarrow> rw_system \<Rightarrow> bool" for faults where
  readlock: "usual faults p \<Longrightarrow> \<not> in_call s t \<Longrightarrow> rw_step faults s (reader_gets t (rwl_readlock p (sys_lock s)) s)"
| readtrylock: "usual faults p \<Longrightarrow> \<not> in_call s t \<Longrightarrow> rwl_readtrylock p (sys_lock s) = (e, l) \<Longrightarrow> rw_step faults s (reader_gets t (Returned e, l) s)"
| readunlock: "usual faults p \<Longrightarrow> \<not> in_call s t \<Longrightarrow> t \<in># readers s \<Longrightarrow> rwl_readunlock p (sys_lock s) = (e, w, l) \<Longrightarrow>
    rw_step faults s (deliver w (s\<lparr>sys_lock := l, readers := (if entered p s then readers s - {#t#} else readers s)\<rparr>))"
| writelock: "usual faults p \<Longrightarrow> \<not> in_call s t \<Longrightarrow> rw_step faults s (writer_gets t (rwl_writelock_p p t (sys_lock s)) s)"
| writetrylock: "usual faults p \<Longrightarrow> \<not> in_call s t \<Longrightarrow> rwl_writetrylock p t (sys_lock s) = (e, l) \<Longrightarrow> rw_step faults s (writer_gets t (Returned e, l) s)"
| writeunlock: "usual faults p \<Longrightarrow> \<not> in_call s t \<Longrightarrow> rwl_writeunlock p t (sys_lock s) = Ret (e, w, l) \<Longrightarrow>
    rw_step faults s (deliver w (s\<lparr>sys_lock := l, writers := (if entered p s then writers s - {#t#} else writers s)\<rparr>))"
| reader_resumes: "usual faults p \<Longrightarrow> t \<in># r_awake s \<Longrightarrow>
    rw_step faults s (reader_gets t (readlock_resume p (sys_lock s)) (s\<lparr>r_awake := r_awake s - {#t#}\<rparr>))"
| writer_resumes: "usual faults p \<Longrightarrow> t \<in># w_awake s \<Longrightarrow>
    rw_step faults s (writer_gets t (writelock_resume p t (sys_lock s)) (s\<lparr>w_awake := w_awake s - {#t#}\<rparr>))"
| reader_wakes: "t \<in># r_asleep s \<Longrightarrow> rw_step faults s (s\<lparr>r_asleep := r_asleep s - {#t#}, r_awake := add_mset t (r_awake s)\<rparr>)"
| writer_wakes: "t \<in># w_asleep s \<Longrightarrow> rw_step faults s (s\<lparr>w_asleep := w_asleep s - {#t#}, w_awake := add_mset t (w_awake s)\<rparr>)"
| reader_cancelled: "faults \<Longrightarrow> t \<in># r_awake s \<Longrightarrow> rw_step faults s (s\<lparr>sys_lock := rwl_read_release (sys_lock s), r_awake := r_awake s - {#t#}\<rparr>)"
| writer_cancelled: "faults \<Longrightarrow> t \<in># w_awake s \<Longrightarrow> rw_step faults s (s\<lparr>sys_lock := rwl_write_release (sys_lock s), w_awake := w_awake s - {#t#}\<rparr>)"
| destroy: "usual faults p \<Longrightarrow> \<not> in_call s t \<Longrightarrow> rwl_destroy p d1 d2 d3 (sys_lock s) = (e, l) \<Longrightarrow> rw_step faults s (s\<lparr>sys_lock := l\<rparr>)"

definition unused :: "brwlock_t \<Rightarrow> rw_system" where
  "unused l = \<lparr>sys_lock = l, readers = {#}, writers = {#}, r_asleep = {#}, r_awake = {#}, w_asleep = {#}, w_awake = {#}\<rparr>"

inductive rw_reachable :: "bool \<Rightarrow> rw_system \<Rightarrow> bool" for faults where
  created: "rwl_init 0 0 0 prio junk = (e, l) \<Longrightarrow> rw_reachable faults (unused l)"
| stepped: "rw_reachable faults s \<Longrightarrow> rw_step faults s s' \<Longrightarrow> rw_reachable faults s'"

section \<open>Invariants\<close>

text \<open>The counters are exact, and no one reads while someone writes.\<close>

definition rw_inv :: "rw_system \<Rightarrow> bool" where
  "rw_inv s \<longleftrightarrow>
     r_active (sys_lock s) = int (size (readers s)) \<and> w_active (sys_lock s) = int (size (writers s)) \<and>
     r_wait (sys_lock s) = int (size (r_asleep s) + size (r_awake s)) \<and> w_wait (sys_lock s) = int (size (w_asleep s) + size (w_awake s)) \<and>
     set_mset (writers s) \<subseteq> {writer_id (sys_lock s)} \<and> (readers s = {#} \<or> writers s = {#})"

text \<open>Who sleeps has a reason to: the lock is taken, or someone who was woken will take it or pass the turn on.\<close>

definition wake_inv :: "rw_system \<Rightarrow> bool" where
  "wake_inv s \<longleftrightarrow> (r_asleep s \<noteq> {#} \<longrightarrow> writers s \<noteq> {#}) \<and>
     (w_asleep s \<noteq> {#} \<longrightarrow> writers s \<noteq> {#} \<or> readers s \<noteq> {#} \<or> r_awake s \<noteq> {#} \<or> w_awake s \<noteq> {#})"

lemmas rwl_defs = rwl_readlock_def readlock_resume_def rwl_readtrylock_def rwl_readunlock_def rwl_writelock_p_def writelock_resume_def
  rwl_writetrylock_def rwl_writeunlock_def rwl_destroy_def rwl_read_release_def rwl_write_release_def

lemma error_codes [simp]: "EINVAL \<noteq> 0" "EBUSY \<noteq> 0"
  by (simp_all add: EINVAL_def EBUSY_def)

lemma size_removed [simp]: "t \<in># M \<Longrightarrow> int (size (M - {#t#})) = int (size M) - 1"
  by (auto dest!: multi_member_split)

lemma waiters_iff [simp]:
  "int (size A) + int (size B) \<le> 0 \<longleftrightarrow> A = {#} \<and> B = {#}" "0 < int (size A) + int (size B) \<longleftrightarrow> A \<noteq> {#} \<or> B \<noteq> {#}"
proof -
  show "int (size A) + int (size B) \<le> 0 \<longleftrightarrow> A = {#} \<and> B = {#}" by (metis add_eq_0_iff_both_eq_0 of_nat_0 of_nat_add of_nat_le_0_iff size_eq_0_iff_empty)
  then show "0 < int (size A) + int (size B) \<longleftrightarrow> A \<noteq> {#} \<or> B \<noteq> {#}" by (metis not_less)
qed

lemma removed_iff: "t \<in># M \<Longrightarrow> M - {#t#} = {#} \<longleftrightarrow> size M = 1"
  by (auto dest!: multi_member_split)

lemma rw_inv_call:
  assumes "rw_inv s" and "usual faults p"
  shows "rw_inv (reader_gets t (rwl_readlock p (sys_lock s)) s)" "rw_inv (writer_gets t (rwl_writelock_p p t (sys_lock s)) s)"
    "rwl_readtrylock p (sys_lock s) = (e, l) \<Longrightarrow> rw_inv (reader_gets t (Returned e, l) s)"
    "rwl_writetrylock p t (sys_lock s) = (e, l) \<Longrightarrow> rw_inv (writer_gets t (Returned e, l) s)"
  using assms by (auto simp: rwl_defs rw_inv_def usual_def split: if_splits)

lemma rw_inv_resume:
  assumes "rw_inv s"
  shows "t \<in># r_awake s \<Longrightarrow> rw_inv (reader_gets t (readlock_resume p (sys_lock s)) (s\<lparr>r_awake := r_awake s - {#t#}\<rparr>))"
    "t \<in># w_awake s \<Longrightarrow> rw_inv (writer_gets t (writelock_resume p t (sys_lock s)) (s\<lparr>w_awake := w_awake s - {#t#}\<rparr>))"
  using assms by (auto simp: rwl_defs rw_inv_def)

lemma rw_inv_deliver [simp]: "rw_inv (deliver w s) = rw_inv s"
  by (cases w) (auto simp: rw_inv_def)

lemma rw_inv_readunlock:
  assumes "rw_inv s" and "t \<in># readers s" and "rwl_readunlock p (sys_lock s) = (e, w, l)"
  shows "rw_inv (s\<lparr>sys_lock := l, readers := (if entered p s then readers s - {#t#} else readers s)\<rparr>)"
  using assms by (auto simp: rwl_readunlock_def rw_inv_def Let_def entered_def is_rwl_valid_def split: if_splits)

lemma owner_writes:
  assumes "rw_inv s" and "w_active (sys_lock s) > 0"
  shows "writer_id (sys_lock s) \<in># writers s"
proof -
  have "writers s \<noteq> {#}" using assms by (auto simp: rw_inv_def)
  then show ?thesis using assms(1) by (auto simp: rw_inv_def)
qed

lemma rw_inv_writeunlock:
  assumes "rw_inv s" and "rwl_writeunlock p t (sys_lock s) = Ret (e, w, l)"
  shows "rw_inv (s\<lparr>sys_lock := l, writers := (if entered p s then writers s - {#t#} else writers s)\<rparr>)"
proof (cases "entered p s")
  case True
  then have t: "w_active (sys_lock s) > 0" "t = writer_id (sys_lock s)" "l = (sys_lock s)\<lparr>w_active := w_active (sys_lock s) - 1\<rparr>"
    using assms(2) by (auto simp: rwl_writeunlock_def entered_def is_rwl_valid_def Let_def split: if_splits)
  then have "t \<in># writers s" using owner_writes [OF assms(1)] by simp
  then show ?thesis using True t assms(1) by (auto simp: rw_inv_def dest: in_diffD)
next
  case False
  then show ?thesis using assms by (auto simp: rwl_writeunlock_def entered_def is_rwl_valid_def rw_inv_def split: if_splits)
qed

lemma rw_inv_step:
  assumes "rw_step faults s s'" and "rw_inv s"
  shows "rw_inv s'"
  using assms
proof (induction rule: rw_step.induct)
  case (destroy p s t d1 d2 d3 e l)
  then show ?case by (auto simp: rwl_destroy_def rw_inv_def Let_def split: if_splits)
next
  case (readtrylock p s t e l)
  then show ?case using rw_inv_call(3) by blast
next
  case (writetrylock p s t e l)
  then show ?case using rw_inv_call(4) by blast
qed (simp_all add: rw_inv_call rw_inv_resume rw_inv_readunlock rw_inv_writeunlock, simp_all add: rw_inv_def rwl_defs)

lemma rw_inv_unused: "rwl_init 0 0 0 prio junk = (e, l) \<Longrightarrow> rw_inv (unused l)"
  by (auto simp: rwl_init_def rw_inv_def unused_def)

lemma rw_inv_reachable: "rw_reachable faults s \<Longrightarrow> rw_inv s"
  by (induction rule: rw_reachable.induct) (blast intro: rw_inv_unused rw_inv_step)+

text \<open>Without failures and cancellations the second invariant holds too.\<close>

lemma wake_inv_call:
  assumes "rw_inv s" and "wake_inv s" and "usual False p"
  shows "wake_inv (reader_gets t (rwl_readlock p (sys_lock s)) s)" "wake_inv (writer_gets t (rwl_writelock_p p t (sys_lock s)) s)"
    "rwl_readtrylock p (sys_lock s) = (e, l) \<Longrightarrow> wake_inv (reader_gets t (Returned e, l) s)"
    "rwl_writetrylock p t (sys_lock s) = (e, l) \<Longrightarrow> wake_inv (writer_gets t (Returned e, l) s)"
  using assms by (auto simp: rwl_defs rw_inv_def wake_inv_def usual_def split: if_splits)

lemma wake_inv_resume:
  assumes "rw_inv s" and "wake_inv s" and "usual False p"
  shows "t \<in># r_awake s \<Longrightarrow> wake_inv (reader_gets t (readlock_resume p (sys_lock s)) (s\<lparr>r_awake := r_awake s - {#t#}\<rparr>))"
    "t \<in># w_awake s \<Longrightarrow> wake_inv (writer_gets t (writelock_resume p t (sys_lock s)) (s\<lparr>w_awake := w_awake s - {#t#}\<rparr>))"
  using assms by (auto simp: rwl_defs rw_inv_def wake_inv_def usual_def)

lemma wake_inv_readunlock:
  assumes "rw_inv s" and "wake_inv s" and "usual False p" and "t \<in># readers s" and "rwl_readunlock p (sys_lock s) = (e, w, l)"
  shows "wake_inv (deliver w (s\<lparr>sys_lock := l, readers := (if entered p s then readers s - {#t#} else readers s)\<rparr>))"
  using assms
  by (auto simp: rwl_readunlock_def rw_inv_def wake_inv_def Let_def entered_def is_rwl_valid_def usual_def removed_iff split: if_splits)

lemma wake_inv_writeunlock:
  assumes "rw_inv s" and "wake_inv s" and "usual False p" and "rwl_writeunlock p t (sys_lock s) = Ret (e, w, l)"
  shows "wake_inv (deliver w (s\<lparr>sys_lock := l, writers := (if entered p s then writers s - {#t#} else writers s)\<rparr>))"
proof (cases "entered p s")
  case True
  then have t: "w_active (sys_lock s) > 0" "t = writer_id (sys_lock s)"
    using assms(4) by (auto simp: rwl_writeunlock_def entered_def is_rwl_valid_def Let_def split: if_splits)
  then have "t \<in># writers s" using owner_writes [OF assms(1)] by simp
  then show ?thesis using True t assms
    by (auto simp: rwl_writeunlock_def rw_inv_def wake_inv_def Let_def entered_def is_rwl_valid_def usual_def removed_iff split: if_splits)
next
  case False
  then show ?thesis using assms by (auto simp: rwl_writeunlock_def entered_def is_rwl_valid_def wake_inv_def split: if_splits)
qed

lemma wake_inv_step:
  assumes "rw_step False s s'" and "rw_inv s" and "wake_inv s"
  shows "wake_inv s'"
  using assms
proof (induction rule: rw_step.induct)
  case (reader_wakes t s)
  then show ?case by (auto simp: wake_inv_def)
next
  case (writer_wakes t s)
  then show ?case by (auto simp: wake_inv_def)
next
  case (readtrylock p s t e l)
  then show ?case using wake_inv_call(3) by blast
next
  case (writetrylock p s t e l)
  then show ?case using wake_inv_call(4) by blast
qed (simp_all add: wake_inv_call wake_inv_resume wake_inv_readunlock wake_inv_writeunlock, simp_all add: wake_inv_def)

lemma wake_inv_reachable: "rw_reachable False s \<Longrightarrow> wake_inv s"
proof (induction rule: rw_reachable.induct)
  case (created prio junk e l)
  then show ?case by (simp add: wake_inv_def unused_def)
next
  case (stepped s s')
  then show ?case using wake_inv_step rw_inv_reachable by blast
qed

lemma destroy_idle:
  assumes "rw_inv s" and "rwl_destroy p d1 d2 d3 (sys_lock s) = (0, l)"
  shows "readers s + writers s + r_asleep s + r_awake s + w_asleep s + w_awake s = {#}"
proof -
  have "r_active (sys_lock s) \<le> 0" "w_active (sys_lock s) = 0" "r_wait (sys_lock s) \<le> 0" "w_wait (sys_lock s) \<le> 0"
    using assms(2) by (auto simp: rwl_destroy_def split: if_splits)
  then have "size (readers s + writers s + r_asleep s + r_awake s + w_asleep s + w_awake s) = 0" using assms(1) by (simp add: rw_inv_def)
  then show ?thesis by (simp only: size_eq_0_iff_empty)
qed

section \<open>Properties\<close>

text \<open>
  C19: Read/write locks exclude. However threads take turns, and whatever calls of the thread library fail and whichever threads are cancelled while
  they wait: while a thread holds a write lock no thread holds a read lock and no other a write lock, the counters of the
  lock are the numbers of locks held and of threads waiting, and a lock that is destroyed is neither held nor waited for.
\<close>

theorem rwlock_exclusive:
  assumes "rw_reachable faults s"
  shows "(\<forall>t. t \<in># writers s \<longrightarrow> readers s = {#} \<and> set_mset (writers s) = {t} \<and> writer_id (sys_lock s) = t) \<and>
     r_active (sys_lock s) = int (size (readers s)) \<and> w_active (sys_lock s) = int (size (writers s)) \<and>
     r_wait (sys_lock s) = int (size (r_asleep s + r_awake s)) \<and> w_wait (sys_lock s) = int (size (w_asleep s + w_awake s)) \<and>
     (\<forall>p d1 d2 d3 l. rwl_destroy p d1 d2 d3 (sys_lock s) = (0, l) \<longrightarrow> readers s + writers s + r_asleep s + r_awake s + w_asleep s + w_awake s = {#})"
proof -
  have i: "rw_inv s" by (rule rw_inv_reachable [OF assms])
  have "set_mset (writers s) = {t} \<and> writer_id (sys_lock s) = t" if "t \<in># writers s" for t
    using i that by (auto simp: rw_inv_def)
  moreover have "readers s = {#}" if "t \<in># writers s" for t using i that by (auto simp: rw_inv_def)
  ultimately show ?thesis using i destroy_idle [OF i] by (simp add: rw_inv_def)
qed

text \<open>
  C20: No thread waits for a lock that is free. When calls of the thread library succeed and no lock is held, but threads wait, one of
  them has been woken, and each thread that has been woken gets the lock when it runs.
\<close>

theorem rwlock_waiter_proceeds:
  assumes "rw_reachable False s" and "readers s = {#}" and "writers s = {#}" and "r_asleep s + r_awake s + w_asleep s + w_awake s \<noteq> {#}"
    and "usual False p"
  shows "r_awake s + w_awake s \<noteq> {#} \<and>
     (\<forall>t \<in># r_awake s. \<exists>l. readlock_resume p (sys_lock s) = (Returned 0, l) \<and> r_active l = 1) \<and>
     (\<forall>t \<in># w_awake s. \<exists>l. writelock_resume p t (sys_lock s) = (Returned 0, l) \<and> w_active l = 1 \<and> writer_id l = t)"
proof -
  have "rw_inv s" "wake_inv s" using rw_inv_reachable [OF assms(1)] wake_inv_reachable [OF assms(1)] by blast+
  then show ?thesis using assms(2-5) by (auto simp: rw_inv_def wake_inv_def rwl_defs usual_def)
qed

text \<open>
  A lock that is initialised with \<open>RWL_INIIALIZER\<close> cannot be used. The initializer has one value too few, so the mark of a valid lock ends up in
  \<open>writer_id\<close>, and every call refuses the lock as invalid.
\<close>

lemma initializer_invalid:
  "\<not> is_rwl_valid RWL_INIIALIZER \<and> rwl_readlock p RWL_INIIALIZER = (Returned EINVAL, RWL_INIIALIZER) \<and>
   rwl_writelock_p p t RWL_INIIALIZER = (Returned EINVAL, RWL_INIIALIZER) \<and> rwl_readtrylock p RWL_INIIALIZER = (EINVAL, RWL_INIIALIZER) \<and>
   rwl_writetrylock p t RWL_INIIALIZER = (EINVAL, RWL_INIIALIZER) \<and> rwl_destroy p d1 d2 d3 RWL_INIIALIZER = (EINVAL, RWL_INIIALIZER)"
  by (simp add: RWL_INIIALIZER_def is_rwl_valid_def rwl_defs RWLOCK_VALID_def)

text \<open>Thread 1 writes, threads 2 and 3 wait to read and to write, and thread 1 gives the lock back: the reader is woken.\<close>

definition good_calls :: pthread_results where
  "good_calls = \<lparr>pt_lock = 0, pt_unlock = 0, pt_wait = 0, pt_broadcast = 0\<rparr>"

definition free_lock :: brwlock_t where
  "free_lock = snd (rwl_init 0 0 0 5 RWL_INIIALIZER)"

definition held_system :: rw_system where
  "held_system = (unused (free_lock\<lparr>w_active := 1, writer_id := 1, r_wait := 1, w_wait := 1\<rparr>))\<lparr>writers := {#1#}, r_asleep := {#2#}, w_asleep := {#3#}\<rparr>"

definition woken_system :: rw_system where
  "woken_system = (unused (free_lock\<lparr>writer_id := 1, r_wait := 1, w_wait := 1\<rparr>))\<lparr>r_awake := {#2#}, w_asleep := {#3#}\<rparr>"

lemma held_reachable: "rw_reachable faults held_system"
proof -
  note defs = unused_def rwl_defs free_lock_def rwl_init_def RWL_INIIALIZER_def good_calls_def in_call_def
  have u: "usual faults good_calls" by (simp add: usual_def good_calls_def)
  let ?s0 = "unused free_lock"
  let ?s1 = "writer_gets 1 (rwl_writelock_p good_calls 1 (sys_lock ?s0)) ?s0"
  let ?s2 = "reader_gets 2 (rwl_readlock good_calls (sys_lock ?s1)) ?s1"
  let ?s3 = "writer_gets 3 (rwl_writelock_p good_calls 3 (sys_lock ?s2)) ?s2"
  have 0: "rw_reachable faults ?s0" by (rule rw_reachable.created [of 5 RWL_INIIALIZER 0]) (simp add: free_lock_def rwl_init_def)
  have 1: "rw_reachable faults ?s1" by (rule rw_reachable.stepped [OF 0 rw_step.writelock [OF u]]) (simp add: defs)
  have 2: "rw_reachable faults ?s2" by (rule rw_reachable.stepped [OF 1 rw_step.readlock [OF u]]) (simp add: defs)
  have 3: "rw_reachable faults ?s3" by (rule rw_reachable.stepped [OF 2 rw_step.writelock [OF u]]) (simp add: defs)
  moreover have "?s3 = held_system" by (simp add: defs held_system_def)
  ultimately show ?thesis by simp
qed

lemma woken_reachable: "rw_reachable faults woken_system"
proof -
  note defs = unused_def rwl_defs free_lock_def rwl_init_def RWL_INIIALIZER_def good_calls_def in_call_def held_system_def woken_system_def
  have u: "usual faults good_calls" by (simp add: usual_def good_calls_def)
  have "rwl_writeunlock good_calls 1 (sys_lock held_system) = Ret (0, Readers, sys_lock woken_system)" by (simp add: defs Let_def)
  then have "rw_step faults held_system (deliver Readers (held_system\<lparr>sys_lock := sys_lock woken_system,
      writers := (if entered good_calls held_system then writers held_system - {#1#} else writers held_system)\<rparr>))"
    by (rule rw_step.writeunlock [OF u, rotated]) (simp add: defs)
  moreover have "deliver Readers (held_system\<lparr>sys_lock := sys_lock woken_system,
      writers := (if entered good_calls held_system then writers held_system - {#1#} else writers held_system)\<rparr>) = woken_system"
    by (simp add: defs entered_def is_rwl_valid_def)
  ultimately show ?thesis using rw_reachable.stepped [OF held_reachable] by metis
qed

theorem rwlock_exclusive_witness:
  "1 \<in># writers held_system \<and> readers held_system = {#} \<and> set_mset (writers held_system) = {1} \<and> r_wait (sys_lock held_system) = 1"
proof -
  have "1 \<in># writers held_system" by (simp add: held_system_def)
  moreover have "size (r_asleep held_system + r_awake held_system) = 1" by (simp add: held_system_def unused_def)
  ultimately show ?thesis using rwlock_exclusive [OF held_reachable] by simp
qed

theorem rwlock_waiter_proceeds_witness:
  "\<exists>l. readlock_resume good_calls (sys_lock woken_system) = (Returned 0, l) \<and> r_active l = 1"
proof -
  have "readers woken_system = {#}" "writers woken_system = {#}" "2 \<in># r_awake woken_system" "r_awake woken_system \<noteq> {#}" "usual False good_calls"
    by (simp_all add: woken_system_def unused_def usual_def good_calls_def)
  then show ?thesis using rwlock_waiter_proceeds [OF woken_reachable, of good_calls] by auto
qed

end
