(* ===== verification/Device.thy ===== *)
theory Device
  imports Prelude
begin

text \<open>
  The device state of the storage daemon (\<^verbatim>\<open>stored/dev.h\<close>, \<^verbatim>\<open>stored/dev.c\<close>): the capability and state
  masks with their queries and updates, the catalog counters of the mounted volume, the volume
  address arithmetic, and the invariant on the mode of a device that every update keeps.
\<close>

section \<open>Constants\<close>

datatype errno = ENONE | EIO | ENOSPC | EBUSY | EINTR | EBADF | EOTHER nat

datatype dev_type_t = B_FILE_DEV | B_TAPE_DEV | B_DVD_DEV | B_FIFO_DEV | B_VTAPE_DEV | B_FTP_DEV
  | B_VTL_DEV | B_ADATA_DEV | B_ALIGNED_DEV | B_DEDUP_OLD_DEV | B_NULL_DEV | B_VALIGNED_DEV
  | B_VDEDUP_DEV | B_CLOUD_DEV | B_DEDUP_DEV

definition CAP_BSR :: uint32_t where "CAP_BSR = push_bit 1 1"
definition CAP_REM :: uint32_t where "CAP_REM = push_bit 6 1"
definition CAP_TWOEOF :: uint32_t where "CAP_TWOEOF = push_bit 17 1"
definition CAP_BLOCKCHECKSUM :: uint32_t where "CAP_BLOCKCHECKSUM = push_bit 23 1"

definition ST_LABEL :: uint32_t where "ST_LABEL = push_bit 6 1"
definition ST_APPEND :: uint32_t where "ST_APPEND = push_bit 8 1"
definition ST_READ :: uint32_t where "ST_READ = push_bit 9 1"
definition ST_EOT :: uint32_t where "ST_EOT = push_bit 10 1"
definition ST_WEOT :: uint32_t where "ST_WEOT = push_bit 11 1"
definition ST_EOF :: uint32_t where "ST_EOF = push_bit 12 1"
definition ST_SHORT :: uint32_t where "ST_SHORT = push_bit 14 1"
definition ST_FREESPACE_OK :: uint32_t where "ST_FREESPACE_OK = push_bit 19 1"
definition ST_NOSPACE :: uint32_t where "ST_NOSPACE = push_bit 20 1"

lemmas cap_defs = CAP_BSR_def CAP_REM_def CAP_TWOEOF_def CAP_BLOCKCHECKSUM_def
lemmas st_defs = ST_LABEL_def ST_APPEND_def ST_READ_def ST_EOT_def ST_WEOT_def ST_EOF_def
  ST_SHORT_def ST_FREESPACE_OK_def ST_NOSPACE_def

section \<open>State\<close>

text \<open>The fields of \<open>VOLUME_CAT_INFO\<close> that the block routines keep.\<close>

record VOLUME_CAT_INFO =
  VolCatBytes :: uint64_t
  VolCatAmetaBytes :: uint64_t
  VolCatAdataBytes :: uint64_t
  VolCatPadding :: uint64_t
  VolCatAmetaPadding :: uint64_t
  VolCatBlocks :: uint32_t
  VolCatAmetaBlocks :: uint32_t
  VolCatAdataBlocks :: uint32_t
  VolCatWrites :: uint32_t
  VolCatAmetaWrites :: uint32_t
  VolCatReads :: uint32_t
  VolCatAmetaReads :: uint32_t
  VolCatRBytes :: uint64_t
  VolCatAmetaRBytes :: uint64_t
  VolCatErrors :: uint32_t
  VolCatMaxBytes :: uint64_t
  BytesWritten :: int64_t
  VolMediaId :: int64_t
  LabelType :: int32_t
  is_valid :: bool
  VolCatHoleBytes :: uint64_t
  VolCatHoles :: uint32_t
  VolCatAdataPadding :: uint64_t
  VolLastPartBytes :: uint64_t
  VolCatJobs :: uint32_t
  VolCatFiles :: uint32_t
  VolCatParts :: uint32_t
  VolCatMounts :: uint32_t
  VolCatRecycles :: uint32_t
  Slot :: int32_t
  VolEnabled :: bool
  VolRecycle :: bool
  VolCatStatus :: string
  VolCatName :: string

record DEVICE =
  m_fd :: int
  capabilities :: uint32_t
  state :: uint32_t
  dev_errno :: errno
  dev_type :: dev_type_t
  enabled :: bool
  dev_adata :: bool
  label_type :: int32_t
  block_num :: uint32_t
  LastBlock :: uint32_t
  dev_file :: uint32_t
  file_addr :: uint64_t
  file_size :: uint64_t
  dev_EndAddr :: uint64_t
  min_block_size :: uint32_t
  max_block_size :: uint32_t
  max_volume_size :: uint64_t
  max_file_size :: uint64_t
  padding_size :: uint32_t
  part_size :: uint64_t
  part :: uint32_t
  usage :: uint64_t
  adata_addr :: uint64_t
  free_space :: uint64_t
  min_free_space :: uint64_t
  is_worm :: bool
  VolCatInfo :: VOLUME_CAT_INFO

section \<open>Queries\<close>

definition has_cap :: "DEVICE \<Rightarrow> uint32_t \<Rightarrow> bool" where
  "has_cap dev cap \<longleftrightarrow> capabilities dev AND cap \<noteq> 0"

definition do_checksum :: "DEVICE \<Rightarrow> bool" where
  "do_checksum dev \<longleftrightarrow> capabilities dev AND CAP_BLOCKCHECKSUM \<noteq> 0"

definition is_tape :: "DEVICE \<Rightarrow> bool" where
  "is_tape dev \<longleftrightarrow> dev_type dev = B_TAPE_DEV \<or> dev_type dev = B_VTAPE_DEV"

definition is_file :: "DEVICE \<Rightarrow> bool" where
  "is_file dev \<longleftrightarrow> dev_type dev = B_FILE_DEV \<or> dev_type dev = B_ALIGNED_DEV \<or>
     dev_type dev = B_DEDUP_DEV \<or> dev_type dev = B_CLOUD_DEV"

definition is_aligned :: "DEVICE \<Rightarrow> bool" where
  "is_aligned dev \<longleftrightarrow> dev_type dev = B_ALIGNED_DEV"

definition is_open :: "DEVICE \<Rightarrow> bool" where
  "is_open dev \<longleftrightarrow> 0 \<le> m_fd dev"

definition is_labeled :: "DEVICE \<Rightarrow> bool" where
  "is_labeled dev \<longleftrightarrow> state dev AND ST_LABEL \<noteq> 0"

definition at_eof :: "DEVICE \<Rightarrow> bool" where
  "at_eof dev \<longleftrightarrow> state dev AND ST_EOF \<noteq> 0"

definition at_eot :: "DEVICE \<Rightarrow> bool" where
  "at_eot dev \<longleftrightarrow> state dev AND ST_EOT \<noteq> 0"

definition at_weot :: "DEVICE \<Rightarrow> bool" where
  "at_weot dev \<longleftrightarrow> state dev AND ST_WEOT \<noteq> 0"

definition is_ateot :: "DEVICE \<Rightarrow> bool" where
  "is_ateot dev \<longleftrightarrow> state dev AND ST_EOF \<noteq> 0 \<and> state dev AND ST_EOT \<noteq> 0 \<and> state dev AND ST_WEOT \<noteq> 0"

definition is_short_block :: "DEVICE \<Rightarrow> bool" where
  "is_short_block dev \<longleftrightarrow> state dev AND ST_SHORT \<noteq> 0"

definition is_freespace_ok :: "DEVICE \<Rightarrow> bool" where
  "is_freespace_ok dev \<longleftrightarrow> state dev AND ST_FREESPACE_OK \<noteq> 0"

definition can_append :: "DEVICE \<Rightarrow> bool" where
  "can_append dev \<longleftrightarrow> state dev AND ST_APPEND \<noteq> 0"

definition can_read :: "DEVICE \<Rightarrow> bool" where
  "can_read dev \<longleftrightarrow> state dev AND ST_READ \<noteq> 0"

definition can_write :: "DEVICE \<Rightarrow> bool" where
  "can_write dev \<longleftrightarrow> is_open dev \<and> can_append dev \<and> is_labeled dev \<and> \<not> at_weot dev"

section \<open>Updates of the state mask\<close>

definition set_eof :: "DEVICE \<Rightarrow> DEVICE" where
  "set_eof dev = dev\<lparr>state := state dev OR ST_EOF\<rparr>"

definition set_eot :: "DEVICE \<Rightarrow> DEVICE" where
  "set_eot dev = dev\<lparr>state := state dev OR ST_EOT\<rparr>"

definition set_labeled :: "DEVICE \<Rightarrow> DEVICE" where
  "set_labeled dev = dev\<lparr>state := state dev OR ST_LABEL\<rparr>"

definition set_short_block :: "DEVICE \<Rightarrow> DEVICE" where
  "set_short_block dev = dev\<lparr>state := state dev OR ST_SHORT\<rparr>"

definition clear_labeled :: "DEVICE \<Rightarrow> DEVICE" where
  "clear_labeled dev = dev\<lparr>state := state dev AND NOT ST_LABEL\<rparr>"

definition clear_eof :: "DEVICE \<Rightarrow> DEVICE" where
  "clear_eof dev = dev\<lparr>state := state dev AND NOT ST_EOF\<rparr>"

definition clear_eot :: "DEVICE \<Rightarrow> DEVICE" where
  "clear_eot dev = dev\<lparr>state := state dev AND NOT ST_EOT\<rparr>"

definition clear_short_block :: "DEVICE \<Rightarrow> DEVICE" where
  "clear_short_block dev = dev\<lparr>state := state dev AND NOT ST_SHORT\<rparr>"

definition set_nospace :: "DEVICE \<Rightarrow> DEVICE" where
  "set_nospace dev = dev\<lparr>state := state dev OR ST_NOSPACE\<rparr>"

definition clear_nospace :: "DEVICE \<Rightarrow> DEVICE" where
  "clear_nospace dev = dev\<lparr>state := state dev AND NOT ST_NOSPACE\<rparr>"

definition set_freespace :: "uint64_t \<Rightarrow> bool \<Rightarrow> DEVICE \<Rightarrow> DEVICE" where
  "set_freespace freeval valid dev =
     dev\<lparr>free_space := freeval,
         state := (if valid then state dev OR ST_FREESPACE_OK else state dev AND NOT ST_FREESPACE_OK)\<rparr>"

definition set_append :: "DEVICE \<Rightarrow> DEVICE" where
  "set_append dev =
     (let dev = dev\<lparr>state := state dev AND NOT (ST_NOSPACE OR ST_READ OR ST_EOT OR ST_EOF OR ST_WEOT)\<rparr>
      in dev\<lparr>state := state dev OR ST_APPEND\<rparr>)"

definition clear_append :: "DEVICE \<Rightarrow> DEVICE" where
  "clear_append dev = dev\<lparr>state := state dev AND NOT ST_APPEND\<rparr>"

definition set_read :: "DEVICE \<Rightarrow> DEVICE" where
  "set_read dev =
     (let dev = dev\<lparr>state := state dev AND NOT (ST_APPEND OR ST_EOT OR ST_EOF OR ST_WEOT)\<rparr>
      in dev\<lparr>state := state dev OR ST_READ\<rparr>)"

definition clear_read :: "DEVICE \<Rightarrow> DEVICE" where
  "clear_read dev = dev\<lparr>state := state dev AND NOT ST_READ\<rparr>"

text \<open>\<open>set_ateof\<close> of the base class, and of a tape, which counts the file mark once.\<close>

definition DEVICE_set_ateof :: "DEVICE \<Rightarrow> DEVICE" where
  "DEVICE_set_ateof dev = (set_eof dev)\<lparr>file_addr := 0, file_size := 0, block_num := 0\<rparr>"

definition tape_dev_set_ateof :: "DEVICE \<Rightarrow> DEVICE" where
  "tape_dev_set_ateof dev =
     (if at_eof dev then dev
      else (let dev = DEVICE_set_ateof dev in dev\<lparr>dev_file := dev_file dev + 1\<rparr>))"

definition set_ateof :: "DEVICE \<Rightarrow> DEVICE" where
  "set_ateof dev = (if is_tape dev then tape_dev_set_ateof dev else DEVICE_set_ateof dev)"

definition set_ateot :: "DEVICE \<Rightarrow> DEVICE" where
  "set_ateot dev = clear_append (dev\<lparr>state := state dev OR (ST_EOF OR ST_EOT OR ST_WEOT)\<rparr>)"

text \<open>
  \<open>DEVICE::rewind\<close> and \<open>DEVICE::eod\<close> of a disk; \<open>seek\<close> is the error of the \<open>lseek\<close> to the start, if
  it fails.
\<close>

definition DEVICE_rewind :: "errno option \<Rightarrow> DEVICE \<Rightarrow> bool \<times> DEVICE" where
  "DEVICE_rewind seek dev =
     (let dev = dev\<lparr>state := state dev AND NOT (ST_EOT OR ST_EOF OR ST_WEOT), block_num := 0,
                    dev_file := 0, file_size := 0, file_addr := 0\<rparr>
      in if m_fd dev < 0 then (False, dev)
         else if is_file dev then
           (case seek of Some e \<Rightarrow> (False, dev\<lparr>dev_errno := e\<rparr>) | None \<Rightarrow> (True, dev))
         else (True, dev))"

definition DEVICE_eod :: "DEVICE \<Rightarrow> bool \<times> DEVICE" where
  "DEVICE_eod dev =
     (if m_fd dev < 0 then (False, dev\<lparr>dev_errno := EBADF\<rparr>)
      else if at_eot dev then (True, dev)
      else (True, (clear_eof dev)\<lparr>block_num := 0, dev_file := 0, file_size := 0, file_addr := 0\<rparr>))"

text \<open>\<open>DEVICE::weof\<close>: no end-of-file mark exists on a disk, only the file size restarts.\<close>

definition DEVICE_weof :: "DEVICE \<Rightarrow> bool \<times> DEVICE" where
  "DEVICE_weof dev =
     (if \<not> is_open dev then (False, dev\<lparr>dev_errno := EBADF\<rparr>)
      else if \<not> can_append dev then (False, dev)
      else (True, dev\<lparr>file_size := 0\<rparr>))"

section \<open>Catalog counters\<close>

definition setVolCatInfo :: "bool \<Rightarrow> DEVICE \<Rightarrow> DEVICE" where
  "setVolCatInfo valid dev = dev\<lparr>VolCatInfo := (VolCatInfo dev)\<lparr>is_valid := valid\<rparr>\<rparr>"

definition updateVolCatBytes :: "uint64_t \<Rightarrow> DEVICE \<Rightarrow> DEVICE" where
  "updateVolCatBytes bytes dev =
     (let v = VolCatInfo dev
      in setVolCatInfo False (dev\<lparr>VolCatInfo := v\<lparr>VolCatAmetaBytes := VolCatAmetaBytes v + bytes,
           VolCatBytes := VolCatBytes v + bytes, BytesWritten := BytesWritten v + bytes\<rparr>\<rparr>))"

definition updateVolCatPadding :: "uint64_t \<Rightarrow> DEVICE \<Rightarrow> DEVICE" where
  "updateVolCatPadding padding dev =
     (let v = VolCatInfo dev
      in setVolCatInfo False (dev\<lparr>VolCatInfo := v\<lparr>VolCatAmetaPadding := VolCatAmetaPadding v + padding,
           VolCatPadding := VolCatPadding v + padding\<rparr>\<rparr>))"

definition updateVolCatBlocks :: "uint32_t \<Rightarrow> DEVICE \<Rightarrow> DEVICE" where
  "updateVolCatBlocks blocks dev =
     (let v = VolCatInfo dev
      in setVolCatInfo False (dev\<lparr>VolCatInfo := v\<lparr>VolCatAmetaBlocks := VolCatAmetaBlocks v + blocks,
           VolCatBlocks := VolCatBlocks v + blocks\<rparr>\<rparr>))"

definition updateVolCatWrites :: "uint32_t \<Rightarrow> DEVICE \<Rightarrow> DEVICE" where
  "updateVolCatWrites writes dev =
     (let v = VolCatInfo dev
      in setVolCatInfo False (dev\<lparr>VolCatInfo := v\<lparr>VolCatAmetaWrites := VolCatAmetaWrites v + writes,
           VolCatWrites := VolCatWrites v + writes\<rparr>\<rparr>))"

definition updateVolCatReads :: "uint32_t \<Rightarrow> DEVICE \<Rightarrow> DEVICE" where
  "updateVolCatReads reads dev =
     (let v = VolCatInfo dev
      in setVolCatInfo False (dev\<lparr>VolCatInfo := v\<lparr>VolCatAmetaReads := VolCatAmetaReads v + reads,
           VolCatReads := VolCatReads v + reads\<rparr>\<rparr>))"

definition updateVolCatReadBytes :: "uint64_t \<Rightarrow> DEVICE \<Rightarrow> DEVICE" where
  "updateVolCatReadBytes bytes dev =
     (let v = VolCatInfo dev
      in setVolCatInfo False (dev\<lparr>VolCatInfo := v\<lparr>VolCatAmetaRBytes := VolCatAmetaRBytes v + bytes,
           VolCatRBytes := VolCatRBytes v + bytes\<rparr>\<rparr>))"

lemmas volcat_defs = setVolCatInfo_def updateVolCatBytes_def updateVolCatPadding_def
  updateVolCatBlocks_def updateVolCatWrites_def updateVolCatReads_def updateVolCatReadBytes_def Let_def

section \<open>Addresses\<close>

text \<open>
  A volume address packs two 32-bit halves: file and block number on a tape, the halves of the byte
  offset on a disk.
\<close>

definition full_addr :: "uint32_t \<Rightarrow> uint32_t \<Rightarrow> uint64_t" where
  "full_addr hi low = push_bit 32 (ucast hi) OR ucast low"

definition DEVICE_get_hi_addr :: "uint64_t \<Rightarrow> uint32_t" where
  "DEVICE_get_hi_addr addr = ucast (drop_bit 32 addr)"

definition DEVICE_get_low_addr :: "uint64_t \<Rightarrow> uint32_t" where
  "DEVICE_get_low_addr addr = ucast addr"

definition get_full_addr :: "DEVICE \<Rightarrow> uint64_t" where
  "get_full_addr dev =
     (if is_tape dev then push_bit 32 (ucast (dev_file dev)) OR ucast (block_num dev) else file_addr dev)"

definition get_file :: "DEVICE \<Rightarrow> uint32_t" where
  "get_file dev =
     (if is_tape dev then dev_file dev
      else (let bytes = VolCatAdataBytes (VolCatInfo dev) + VolCatAmetaBytes (VolCatInfo dev)
            in ucast (drop_bit 32 bytes)))"

definition get_block_num :: "DEVICE \<Rightarrow> uint32_t" where
  "get_block_num dev =
     (if is_tape dev then block_num dev
      else VolCatAdataBlocks (VolCatInfo dev) + VolCatAmetaBlocks (VolCatInfo dev))"

section \<open>Masks as sets of bits\<close>

lemma mask_test: "x AND push_bit n 1 = 0 \<longleftrightarrow> \<not> bit x n" for x :: uint32_t
  by (simp add: and_exp_eq_0_iff_not_bit push_bit_of_1)

lemma flag_bits:
  "is_labeled d \<longleftrightarrow> bit (state d) 6" "can_append d \<longleftrightarrow> bit (state d) 8"
  "can_read d \<longleftrightarrow> bit (state d) 9" "at_eot d \<longleftrightarrow> bit (state d) 10" "at_weot d \<longleftrightarrow> bit (state d) 11"
  "at_eof d \<longleftrightarrow> bit (state d) 12"
  "is_ateot d \<longleftrightarrow> bit (state d) 12 \<and> bit (state d) 10 \<and> bit (state d) 11"
  "do_checksum d \<longleftrightarrow> bit (capabilities d) 23"
  "is_short_block d \<longleftrightarrow> bit (state d) 14" "is_freespace_ok d \<longleftrightarrow> bit (state d) 19"
  by (simp_all only: is_short_block_def is_freespace_ok_def is_labeled_def at_eof_def at_eot_def at_weot_def can_append_def can_read_def
      is_ateot_def do_checksum_def st_defs cap_defs mask_test not_not)

lemma bit_push_one: "bit (push_bit m 1 :: uint32_t) n \<longleftrightarrow> n = m \<and> m < 32"
  by (auto simp: bit_simps)

lemma st_bits:
  "bit ST_LABEL n \<longleftrightarrow> n = 6" "bit ST_APPEND n \<longleftrightarrow> n = 8" "bit ST_READ n \<longleftrightarrow> n = 9"
  "bit ST_EOT n \<longleftrightarrow> n = 10" "bit ST_WEOT n \<longleftrightarrow> n = 11" "bit ST_EOF n \<longleftrightarrow> n = 12"
  "bit ST_SHORT n \<longleftrightarrow> n = 14" "bit ST_FREESPACE_OK n \<longleftrightarrow> n = 19" "bit ST_NOSPACE n \<longleftrightarrow> n = 20"
  unfolding st_defs bit_push_one by auto

lemmas flag_simps = flag_bits st_bits bit_or_iff bit_and_iff bit_not_iff

lemmas flag_updates = set_eof_def set_eot_def set_labeled_def set_short_block_def clear_labeled_def
  clear_eof_def clear_eot_def clear_short_block_def set_nospace_def clear_nospace_def set_freespace_def set_append_def
  clear_append_def set_read_def clear_read_def DEVICE_set_ateof_def tape_dev_set_ateof_def
  set_ateof_def set_ateot_def DEVICE_rewind_def DEVICE_eod_def DEVICE_weof_def

section \<open>The mode of a device\<close>

text \<open>The steps that change the state mask, in any order.\<close>

inductive dev_step :: "DEVICE \<Rightarrow> DEVICE \<Rightarrow> bool" where
  step_set_eof: "dev_step d (set_eof d)"
| step_set_eot: "dev_step d (set_eot d)"
| step_set_labeled: "dev_step d (set_labeled d)"
| step_set_short: "dev_step d (set_short_block d)"
| step_clear_labeled: "dev_step d (clear_labeled d)"
| step_clear_eof: "dev_step d (clear_eof d)"
| step_clear_eot: "dev_step d (clear_eot d)"
| step_clear_short: "dev_step d (clear_short_block d)"
| step_set_nospace: "dev_step d (set_nospace d)"
| step_clear_nospace: "dev_step d (clear_nospace d)"
| step_set_freespace: "dev_step d (set_freespace f v d)"
| step_set_append: "dev_step d (set_append d)"
| step_clear_append: "dev_step d (clear_append d)"
| step_set_read: "dev_step d (set_read d)"
| step_clear_read: "dev_step d (clear_read d)"
| step_set_ateof: "dev_step d (set_ateof d)"
| step_set_ateot: "dev_step d (set_ateot d)"
| step_rewind: "DEVICE_rewind e d = (r, d') \<Longrightarrow> dev_step d d'"
| step_eod: "DEVICE_eod d = (r, d') \<Longrightarrow> dev_step d d'"
| step_weof: "DEVICE_weof d = (r, d') \<Longrightarrow> dev_step d d'"

inductive dev_steps :: "DEVICE \<Rightarrow> DEVICE \<Rightarrow> bool" where
  dev_steps_refl: "dev_steps d d"
| dev_steps_step: "dev_steps d d' \<Longrightarrow> dev_step d' d'' \<Longrightarrow> dev_steps d d''"

definition mode_ok :: "DEVICE \<Rightarrow> bool" where
  "mode_ok d \<longleftrightarrow> \<not> (can_append d \<and> can_read d) \<and> \<not> (can_append d \<and> at_weot d)"

lemma dev_step_mode_ok: "dev_step d d' \<Longrightarrow> mode_ok d \<Longrightarrow> mode_ok d'"
  by (induction rule: dev_step.induct)
    (auto simp: mode_ok_def flag_simps flag_updates Let_def
      split: if_splits option.splits)


text \<open>The device structure as allocated: all zero.\<close>

definition zero_volcat :: VOLUME_CAT_INFO where
  "zero_volcat = \<lparr>VolCatBytes = 0, VolCatAmetaBytes = 0, VolCatAdataBytes = 0, VolCatPadding = 0,
     VolCatAmetaPadding = 0, VolCatBlocks = 0, VolCatAmetaBlocks = 0, VolCatAdataBlocks = 0,
     VolCatWrites = 0, VolCatAmetaWrites = 0, VolCatReads = 0, VolCatAmetaReads = 0, VolCatRBytes = 0,
     VolCatAmetaRBytes = 0, VolCatErrors = 0, VolCatMaxBytes = 0, BytesWritten = 0, VolMediaId = 0,
     LabelType = 0, is_valid = False, VolCatHoleBytes = 0, VolCatHoles = 0, VolCatAdataPadding = 0,
     VolLastPartBytes = 0, VolCatJobs = 0, VolCatFiles = 0, VolCatParts = 0, VolCatMounts = 0,
     VolCatRecycles = 0, Slot = 0, VolEnabled = False, VolRecycle = False, VolCatStatus = [], VolCatName = []\<rparr>"

definition zero_device :: DEVICE where
  "zero_device = \<lparr>m_fd = 0, capabilities = 0, state = 0, dev_errno = ENONE, dev_type = B_FILE_DEV,
     enabled = True, dev_adata = False, label_type = 0, block_num = 0, LastBlock = 0, dev_file = 0,
     file_addr = 0, file_size = 0, dev_EndAddr = 0, min_block_size = 0, max_block_size = 0,
     max_volume_size = 0, max_file_size = 0, padding_size = 0, part_size = 0, part = 0, usage = 0,
     adata_addr = 0, free_space = 0, min_free_space = 0, is_worm = False, VolCatInfo = zero_volcat\<rparr>"


text \<open>A device at the end of its volume stays closed to writes until it is rewound or reset.\<close>

lemma set_ateot_effect: "is_ateot (set_ateot d) \<and> \<not> can_append (set_ateot d) \<and> \<not> can_write (set_ateot d)"
  by (simp add: flag_simps flag_updates can_write_def)

text \<open>
  The two halves of a volume address are recovered from it, every address is of that form, and
  addresses are ordered first by file and then by block.
\<close>

lemma full_addr_roundtrip:
  "DEVICE_get_hi_addr (full_addr hi low) = hi \<and> DEVICE_get_low_addr (full_addr hi low) = low \<and>
   full_addr (DEVICE_get_hi_addr a) (DEVICE_get_low_addr a) = a \<and>
   (full_addr hi low < full_addr hi' low' \<longleftrightarrow> hi < hi' \<or> (hi = hi' \<and> low < low'))"
proof (intro conjI)
  show "DEVICE_get_hi_addr (full_addr hi low) = hi"
    unfolding DEVICE_get_hi_addr_def full_addr_def
    by (rule bit_eqI) (auto simp: bit_simps dest: bit_imp_le_length)
  show "DEVICE_get_low_addr (full_addr hi low) = low"
    unfolding DEVICE_get_low_addr_def full_addr_def
    by (rule bit_eqI) (auto simp: bit_simps dest: bit_imp_le_length)
  show "full_addr (DEVICE_get_hi_addr a) (DEVICE_get_low_addr a) = a"
    unfolding DEVICE_get_low_addr_def DEVICE_get_hi_addr_def full_addr_def
    by (rule bit_eqI) (auto simp: bit_simps dest: bit_imp_le_length)
  have val: "unat (full_addr h l) = unat h * 2 ^ 32 + unat l" for h l
  proof -
    have "push_bit 32 (ucast h :: uint64_t) AND ucast l = 0"
      by (rule bit_eqI) (auto simp: bit_simps dest: bit_imp_le_length)
    then have "full_addr h l = push_bit 32 (ucast h) + ucast l"
      unfolding full_addr_def by (simp add: disjunctive_add_eq_or)
    moreover have "unat h < 2 ^ 32" "unat l < 2 ^ 32"
      using unsigned_less [of h] unsigned_less [of l] by simp_all
    ultimately show ?thesis
      by (simp add: push_bit_eq_mult unat_word_ariths unsigned_ucast_eq take_bit_nat_eq_self)
  qed
  have "unat low < 2 ^ 32" "unat low' < 2 ^ 32"
    using unsigned_less [of low] unsigned_less [of low'] by simp_all
  then show "full_addr hi low < full_addr hi' low' \<longleftrightarrow> hi < hi' \<or> (hi = hi' \<and> low < low')"
    unfolding word_less_nat_alt val word_unat_eq_iff by (auto simp: word_unat_eq_iff)
qed

end
