(* ===== verification/Block.thy ===== *)
theory Block
  imports Crc32 Device
begin

text \<open>
  The block buffer of \<^verbatim>\<open>stored/block.h\<close> and the block utilities of \<^verbatim>\<open>stored/block_util.c\<close>: creation and
  emptying of a block, the serialised block header with its checksum, the checks on a block that is
  read, and the padding of a block that is written. A block pointer \<open>bufp\<close> is an offset into \<open>buf\<close>.
\<close>

section \<open>Constants\<close>

definition MAX_BLOCK_LENGTH :: uint32_t where "MAX_BLOCK_LENGTH = 20000000"
definition DEFAULT_BLOCK_SIZE :: uint32_t where "DEFAULT_BLOCK_SIZE = 512 * 126"
definition BLKHDR_ID_LENGTH :: nat where "BLKHDR_ID_LENGTH = 4"
definition BLKHDR_CS_LENGTH :: nat where "BLKHDR_CS_LENGTH = 4"
definition BLKHDR1_LENGTH :: nat where "BLKHDR1_LENGTH = 16"
definition BLKHDR2_LENGTH :: nat where "BLKHDR2_LENGTH = 24"
definition BLOCK_VER :: nat where "BLOCK_VER = 2"
definition TAPE_BSIZE :: uint32_t where "TAPE_BSIZE = 1024"

text \<open>\<open>"BB01"\<close> and \<open>"BB02"\<close>.\<close>

definition BLKHDR1_ID :: "byte list" where "BLKHDR1_ID = [0x42, 0x42, 0x30, 0x31]"
definition BLKHDR2_ID :: "byte list" where "BLKHDR2_ID = [0x42, 0x42, 0x30, 0x32]"

lemmas block_consts = MAX_BLOCK_LENGTH_def BLKHDR_ID_LENGTH_def BLKHDR_CS_LENGTH_def
  BLKHDR1_LENGTH_def BLKHDR2_LENGTH_def BLOCK_VER_def TAPE_BSIZE_def BLKHDR1_ID_def BLKHDR2_ID_def

section \<open>The block\<close>

record FILEMEDIA_ITEM =
  fm_RecordNo :: uint32_t
  fm_FileIndex :: uint32_t
  fm_BlockAddr :: uint64_t
  fm_FileOffset :: uint64_t
  fm_VolMediaId :: int64_t

record DEV_BLOCK =
  BlockAddr :: uint64_t
  binbuf :: uint32_t
  block_len :: uint32_t
  buf_len :: uint32_t
  reclen :: uint32_t
  BlockNumber :: uint32_t
  read_len :: uint32_t
  VolSessionId :: uint32_t
  VolSessionTime :: uint32_t
  read_errors :: uint32_t
  CheckSum :: uint32_t
  RecNum :: uint32_t
  extra_bytes :: uint32_t
  BlockVer :: nat
  write_failed :: bool
  block_read :: bool
  needs_write :: bool
  adata :: bool
  no_header :: bool
  FirstIndex :: int32_t
  LastIndex :: int32_t
  rechdr_items :: int32_t
  bufp :: nat
  buf :: "byte list"
  filemedia :: "FILEMEDIA_ITEM list"

definition is_block_empty :: "DEV_BLOCK \<Rightarrow> bool" where
  "is_block_empty block =
     (if adata block then binbuf block \<le> 0 else binbuf block \<le> of_nat BLKHDR2_LENGTH)"

definition block_is_empty :: "DEV_BLOCK \<Rightarrow> bool" where
  "block_is_empty block \<longleftrightarrow> read_len block = 0"

definition empty_block :: "DEV_BLOCK \<Rightarrow> DEV_BLOCK" where
  "empty_block block =
     (let block = (if adata block then block\<lparr>binbuf := 0\<rparr>
                   else block\<lparr>binbuf := of_nat BLKHDR2_LENGTH\<rparr>)
      in block\<lparr>bufp := unat (binbuf block), read_len := 0, write_failed := False, block_read := False,
           needs_write := False, FirstIndex := 0, LastIndex := 0, RecNum := 0, BlockAddr := 0,
           filemedia := [], extra_bytes := 0\<rparr>)"

text \<open>
  \<open>new_block\<close> for a device with the given maximum block size; \<open>special\<close> overrides it when it is not
  zero. \<open>get_memory\<close> returns a buffer of that length with contents \<open>mem\<close>.
\<close>

definition new_block :: "uint32_t \<Rightarrow> uint32_t \<Rightarrow> (nat \<Rightarrow> byte list) \<Rightarrow> DEV_BLOCK" where
  "new_block max_size special mem =
     (let len = (if max_size = 0 then DEFAULT_BLOCK_SIZE else max_size);
          len = (if special \<noteq> 0 then special else len);
          block = \<lparr>BlockAddr = 0, binbuf = 0, block_len = 0, buf_len = len, reclen = 0, BlockNumber = 0,
            read_len = 0, VolSessionId = 0, VolSessionTime = 0, read_errors = 0, CheckSum = 0,
            RecNum = 0, extra_bytes = 0, BlockVer = 0, write_failed = False, block_read = False,
            needs_write = False, adata = False, no_header = False, FirstIndex = 0, LastIndex = 0,
            rechdr_items = 0, bufp = 0, buf = mem (unat len), filemedia = []\<rparr>
      in (empty_block block)\<lparr>BlockVer := BLOCK_VER\<rparr>)"

text \<open>
  \<open>dup_block\<close>: a copy with buffers of its own. A block pointer outside the buffer (one may point
  just behind it) becomes the null pointer, the value \<open>None\<close> beside the copy.
\<close>

definition dup_block :: "DEV_BLOCK \<Rightarrow> DEV_BLOCK \<times> nat option" where
  "dup_block eblock = (eblock, if bufp eblock < length (buf eblock) then Some (bufp eblock) else None)"

section \<open>The block header\<close>

text \<open>
  \<open>bcrc32(buf + off, len)\<close>. The length is an \<open>int\<close> that the routine converts to \<open>size_t\<close>, so a
  negative one is sign-extended and reads far behind the buffer.
\<close>

definition bcrc32_at :: "byte list \<Rightarrow> nat \<Rightarrow> int32_t \<Rightarrow> uint32_t outcome" where
  "bcrc32_at b off len =
     from_option Out_of_bounds (map_option bcrc32 (mem_read b off (unat (scast len :: uint64_t))))"

definition ser_block_header :: "bool \<Rightarrow> DEV_BLOCK \<Rightarrow> (uint32_t \<times> DEV_BLOCK) outcome" where
  "ser_block_header do_cs block =
     (let blen = binbuf block;
          block = block\<lparr>CheckSum := 0\<rparr>
      in if adata block then
           (if do_cs then
              bind_outcome (bcrc32_at (buf block) 0 blen) (\<lambda>cs. Ret (cs, block\<lparr>CheckSum := cs\<rparr>))
            else Ret (CheckSum block, block))
         else
           bind_outcome (from_option Out_of_bounds (do {
               c \<leftarrow> ser_uint32 (CheckSum block) (buf block, 0);
               c \<leftarrow> ser_uint32 blen c;
               c \<leftarrow> ser_uint32 (BlockNumber block) c;
               c \<leftarrow> ser_bytes BLKHDR2_ID c;
               (if 2 \<le> BLOCK_VER then do {
                  c \<leftarrow> ser_uint32 (VolSessionId block) c;
                  ser_uint32 (VolSessionTime block) c
                } else Some c)
             })) (\<lambda>(b, p).
           (let block = block\<lparr>buf := b\<rparr>
            in bind_outcome
                 (if do_cs then bcrc32_at (buf block) BLKHDR_CS_LENGTH (blen - of_nat BLKHDR_CS_LENGTH)
                  else Ret (CheckSum block)) (\<lambda>cs.
               (let block = block\<lparr>CheckSum := cs\<rparr>
                in bind_outcome (from_option Out_of_bounds (ser_uint32 (CheckSum block) (buf block, 0)))
                     (\<lambda>(b, p). Ret (cs, block\<lparr>buf := b\<rparr>)))))))"

text \<open>
  \<open>unser_block_header\<close>: returns whether the block is good. The first part reads the header fields
  up to the identifier; each rejection sets \<open>dev_errno\<close> and counts in \<open>read_errors\<close>.
\<close>

definition reject_block :: "DEVICE \<Rightarrow> DEV_BLOCK \<Rightarrow> DEVICE \<times> DEV_BLOCK" where
  "reject_block dev block = (dev\<lparr>dev_errno := EIO\<rparr>, block\<lparr>read_errors := read_errors block + 1\<rparr>)"

definition unser_adata_block :: "bool \<Rightarrow> DEVICE \<Rightarrow> DEV_BLOCK \<Rightarrow> (bool \<times> DEVICE \<times> DEV_BLOCK) outcome" where
  "unser_adata_block forge_on dev block =
     (if block_len block \<le> read_len block \<and> do_checksum dev then
        bind_outcome (bcrc32_at (buf block) 0 (block_len block)) (\<lambda>cs.
          if cs \<noteq> CheckSum block then Ret (forge_on, reject_block dev block)
          else Ret (True, dev, block))
      else Ret (True, dev, block))"

definition check_block :: "bool \<Rightarrow> nat \<Rightarrow> uint32_t \<Rightarrow> uint32_t \<Rightarrow> DEVICE \<Rightarrow> DEV_BLOCK
    \<Rightarrow> (bool \<times> DEVICE \<times> DEV_BLOCK) outcome" where
  "check_block forge_on bhl blen bnum dev block =
     (if MAX_BLOCK_LENGTH < blen then Ret (False, reject_block dev block)
      else
        (let block_end = (if read_len block < blen then read_len block else blen);
             block = block\<lparr>binbuf := block_end - of_nat bhl, block_len := blen, BlockNumber := bnum\<rparr>
         in if blen \<le> read_len block \<and> do_checksum dev then
              bind_outcome (bcrc32_at (buf block) BLKHDR_CS_LENGTH (blen - of_nat BLKHDR_CS_LENGTH)) (\<lambda>cs.
                if cs \<noteq> CheckSum block then Ret (forge_on, reject_block dev block)
                else Ret (True, dev, block))
            else Ret (True, dev, block)))"

definition unser_block_header :: "bool \<Rightarrow> DEVICE \<Rightarrow> DEV_BLOCK
    \<Rightarrow> (bool \<times> DEVICE \<times> DEV_BLOCK) outcome" where
  "unser_block_header forge_on dev block =
     (if adata block then unser_adata_block forge_on dev block
      else if no_header block then Ret (True, dev, block)
      else
        bind_outcome (from_option Out_of_bounds (do {
            (cs, c) \<leftarrow> unser_uint32 (buf block, 0);
            (blen, c) \<leftarrow> unser_uint32 c;
            (bnum, c) \<leftarrow> unser_uint32 c;
            (Id, c) \<leftarrow> unser_bytes BLKHDR_ID_LENGTH c;
            Some (cs, blen, bnum, Id, c)
          })) (\<lambda>(cs, blen, bnum, Id, c).
        (let block = block\<lparr>CheckSum := cs\<rparr>;
             sessions = from_option Out_of_bounds (do {
               (sid, c) \<leftarrow> unser_uint32 c;
               (stime, c) \<leftarrow> unser_uint32 c;
               Some (sid, stime)
             })
         in if snd c \<noteq> BLKHDR1_LENGTH then Dies Assert_failed
            else if Id ! 3 = 0x31 then
              (let block = block\<lparr>BlockVer := 1, bufp := BLKHDR1_LENGTH\<rparr>
               in if Id \<noteq> BLKHDR1_ID then Ret (False, reject_block dev block)
                  else check_block forge_on BLKHDR1_LENGTH blen bnum dev block)
            else if Id ! 3 = 0x32 then
              bind_outcome sessions (\<lambda>(sid, stime).
                (let block = block\<lparr>VolSessionId := sid, VolSessionTime := stime, BlockVer := 2,
                                   bufp := BLKHDR2_LENGTH\<rparr>
                 in if Id \<noteq> BLKHDR2_ID then Ret (False, reject_block dev block)
                    else check_block forge_on BLKHDR2_LENGTH blen bnum dev block))
            else
              bind_outcome sessions (\<lambda>(sid, stime).
                (case reject_block dev block of (dev, block) \<Rightarrow>
                   Ret (False, dev, block\<lparr>VolSessionId := sid, VolSessionTime := stime\<rparr>))))))"

section \<open>Padding\<close>

definition round_up :: "uint32_t \<Rightarrow> uint32_t \<Rightarrow> uint32_t" where
  "round_up n bs = (n + bs - 1) div bs * bs"

text \<open>\<open>get_len_and_clear_block\<close>: the bytes to write, the padding among them, and the cleared block.\<close>

definition get_len_and_clear_block :: "DEVICE \<Rightarrow> DEV_BLOCK \<Rightarrow> (uint32_t \<times> uint32_t \<times> DEV_BLOCK) outcome" where
  "get_len_and_clear_block dev block =
     (let wlen = binbuf block
      in if wlen \<noteq> buf_len block then
           (let wlen = (if is_tape dev \<or> adata block then
                          (if min_block_size dev = max_block_size dev then buf_len block
                           else if wlen < min_block_size dev then round_up (min_block_size dev) TAPE_BSIZE
                           else round_up wlen TAPE_BSIZE)
                        else wlen);
                wlen = (if adata block \<and> 0 < padding_size dev then round_up wlen (padding_size dev) else wlen)
            in if \<not> wlen \<le> buf_len block then Dies Assert_failed
               else
                 bind_outcome
                   (if 0 < wlen - binbuf block then
                      from_option Out_of_bounds
                        (mem_write (buf block) (bufp block) (replicate (unat (wlen - binbuf block)) 0))
                    else Ret (buf block)) (\<lambda>b.
                 Ret (wlen, wlen - binbuf block, block\<lparr>buf := b\<rparr>)))
         else Ret (wlen, 0, block))"

section \<open>Size limits\<close>

text \<open>
  \<open>is_user_volume_size_reached\<close>: the volume with the current block would reach the limit of the
  device or of the volume, or the limit of the pool, which this edition does not have.
\<close>

definition is_pool_size_reached :: "DEVICE \<Rightarrow> bool" where
  "is_pool_size_reached dev = False"

definition is_user_volume_size_reached :: "DEVICE \<Rightarrow> DEV_BLOCK \<Rightarrow> DEV_BLOCK \<Rightarrow> bool" where
  "is_user_volume_size_reached dev ameta_block adata_block =
     (let vol = VolCatInfo dev;
          size = (if is_aligned dev
                  then VolCatBytes vol + ucast (buf_len ameta_block) + ucast (buf_len adata_block)
                  else VolCatBytes vol + ucast (binbuf ameta_block));
          hit_max1 = (0 < max_volume_size dev \<and> max_volume_size dev \<le> size);
          hit_max2 = (0 < VolCatMaxBytes vol \<and> VolCatMaxBytes vol \<le> size)
      in hit_max1 \<or> hit_max2 \<or> is_pool_size_reached dev)"

section \<open>Blocks being written\<close>

text \<open>
  The invariant of a block that is filled for writing: the buffer has the length \<open>buf_len\<close>, \<open>binbuf\<close>
  and \<open>bufp\<close> agree, and the space of the header is reserved.
\<close>

definition block_wf :: "DEV_BLOCK \<Rightarrow> bool" where
  "block_wf b \<longleftrightarrow> \<not> adata b \<and> length (buf b) = unat (buf_len b) \<and> buf_len b \<le> MAX_BLOCK_LENGTH \<and>
     bufp b = unat (binbuf b) \<and> binbuf b \<le> buf_len b \<and> of_nat BLKHDR2_LENGTH \<le> binbuf b"

lemma block_wfD:
  assumes "block_wf b"
  shows "\<not> adata b" "length (buf b) = unat (buf_len b)" "bufp b = unat (binbuf b)"
    "unat (binbuf b) \<le> unat (buf_len b)" "24 \<le> unat (binbuf b)" "unat (buf_len b) \<le> 20000000"
  using assms by (simp_all add: block_wf_def block_consts word_le_nat_alt)

lemma new_block_wf:
  assumes "\<And>n. length (mem n) = n"
    and "24 \<le> (if special \<noteq> 0 then special else if max_size = 0 then DEFAULT_BLOCK_SIZE else max_size)"
    and "(if special \<noteq> 0 then special else if max_size = 0 then DEFAULT_BLOCK_SIZE else max_size)
           \<le> MAX_BLOCK_LENGTH"
  shows "block_wf (new_block max_size special mem) \<and> is_block_empty (new_block max_size special mem)"
  using assms
  by (simp add: new_block_def empty_block_def block_wf_def is_block_empty_def Let_def block_consts)

lemma empty_block_wf:
  assumes "block_wf b"
  shows "block_wf (empty_block b)" "is_block_empty (empty_block b)"
proof -
  have "of_nat BLKHDR2_LENGTH \<le> buf_len b" using assms unfolding block_wf_def by (meson order_trans)
  then show "block_wf (empty_block b)" "is_block_empty (empty_block b)"
    using assms by (simp_all add: empty_block_def block_wf_def is_block_empty_def Let_def block_consts)
qed

section \<open>The image of a block\<close>

text \<open>The serialised header, and the bytes of the block on the volume.\<close>

definition header_bytes :: "uint32_t \<Rightarrow> uint32_t \<Rightarrow> uint32_t \<Rightarrow> uint32_t \<Rightarrow> uint32_t \<Rightarrow> byte list" where
  "header_bytes cs blen bnum sid stime =
     be_bytes 4 cs @ be_bytes 4 blen @ be_bytes 4 bnum @ BLKHDR2_ID @ be_bytes 4 sid @ be_bytes 4 stime"

lemma length_header_bytes [simp]: "length (header_bytes cs blen bnum sid stime) = 24"
  by (simp add: header_bytes_def BLKHDR2_ID_def)

definition payload :: "DEV_BLOCK \<Rightarrow> byte list" where
  "payload b = drop 24 (take (unat (binbuf b)) (buf b))"

lemma bcrc32_at_Ret:
  assumes "unat len < 2 ^ 31" and "off + unat len \<le> length b"
  shows "bcrc32_at b off len = Ret (bcrc32 (take (unat len) (drop off b)))"
  using assms by (simp add: bcrc32_at_def mem_read_def unat_scast_64)

lemma bcrc32_at_negative:
  assumes "2 ^ 31 \<le> unat len" and "length b < 2 ^ 63"
  shows "bcrc32_at b off len = Dies Out_of_bounds"
  using assms by (simp add: bcrc32_at_def mem_read_def unat_scast_64)

lemma ser_block_header_image:
  assumes "block_wf b"
  defines "tail \<equiv> drop 4 (header_bytes 0 (binbuf b) (BlockNumber b) (VolSessionId b) (VolSessionTime b)) @ payload b"
  shows "ser_block_header do_cs b =
     (let cs = (if do_cs then bcrc32 tail else 0)
      in Ret (cs, b\<lparr>CheckSum := cs,
           buf := header_bytes cs (binbuf b) (BlockNumber b) (VolSessionId b) (VolSessionTime b)
                  @ drop 24 (buf b)\<rparr>))"
proof -
  note wf = block_wfD [OF assms(1)]
  let ?h = "\<lambda>cs. header_bytes cs (binbuf b) (BlockNumber b) (VolSessionId b) (VolSessionTime b)"
  have put: "put_bytes (?h 0) (buf b, 0) = Some (?h 0 @ drop 24 (buf b), 24)"
    using wf by (subst put_bytes_at) simp_all
  have len: "unat (binbuf b - 4) = unat (binbuf b) - 4"
    using wf unat_sub_no_wrap [of 4 "binbuf b"] by (simp add: word_le_nat_alt)
  have "bcrc32_at (?h 0 @ drop 24 (buf b)) 4 (binbuf b - 4) =
      Ret (bcrc32 (take (unat (binbuf b) - 4) (drop 4 (?h 0 @ drop 24 (buf b)))))"
    using wf len by (subst bcrc32_at_Ret) simp_all
  also have "take (unat (binbuf b) - 4) (drop 4 (?h 0 @ drop 24 (buf b))) = tail"
    using wf by (simp add: tail_def payload_def take_drop)
  finally have crc: "bcrc32_at (?h 0 @ drop 24 (buf b)) 4 (binbuf b - 4) = Ret (bcrc32 tail)" .
  have put2: "put_bytes (be_bytes 4 cs) (?h 0 @ drop 24 (buf b), 0) = Some (?h cs @ drop 24 (buf b), 4)" for cs
    by (subst put_bytes_at) (simp_all add: header_bytes_def BLKHDR2_ID_def)
  show ?thesis
    using put wf(1)
    by (simp add: ser_block_header_def Let_def codec_simps put_bytes_bind put_bytes_append
        header_bytes_def [symmetric] BLOCK_VER_def BLKHDR_CS_LENGTH_def crc put2)
qed

section \<open>Reading a block header\<close>

lemma eight_bytes:
  assumes "8 \<le> length rest"
  obtains sid stime :: uint32_t and more
  where "rest = be_bytes 4 sid @ be_bytes 4 stime @ more"
proof -
  have inv: "be_bytes 4 (of_le_bytes (rev bs) :: uint32_t) = bs" if "length bs = 4" for bs
    using that le_bytes_of_le_bytes [of "rev bs", where 'a = 32] by (simp add: be_bytes_def)
  have "rest = take 4 rest @ take 4 (drop 4 rest) @ drop 8 rest"
    by (metis append_take_drop_id drop_drop numeral_Bit0)
  with assms show thesis
    using that [of "of_le_bytes (rev (take 4 rest))" "of_le_bytes (rev (take 4 (drop 4 rest)))" "drop 8 rest"]
    by (simp add: inv)
qed

lemma unser_header_fields:
  assumes "buf b = be_bytes 4 cs @ be_bytes 4 blen @ be_bytes 4 bnum @ BLKHDR2_ID @
      be_bytes 4 sid @ be_bytes 4 stime @ rest"
    and "\<not> adata b" and "\<not> no_header b"
  shows "unser_block_header forge_on dev b = check_block forge_on 24 blen bnum dev
     (b\<lparr>CheckSum := cs, VolSessionId := sid, VolSessionTime := stime, BlockVer := 2, bufp := 24\<rparr>)"
proof -
  have "get_be 4 (buf b, 0) = Some (cs, buf b, 4)" "get_be 4 (buf b, 4) = Some (blen, buf b, 8)"
    "get_be 4 (buf b, 8) = Some (bnum, buf b, 12)" "get_bytes 4 (buf b, 12) = Some (BLKHDR2_ID, buf b, 16)"
    "get_be 4 (buf b, 16) = Some (sid, buf b, 20)" "get_be 4 (buf b, 20) = Some (stime, buf b, 24)"
    using assms(1) get_be_at [of 4 0 "buf b" cs] get_be_at [of 4 4 "buf b" blen]
      get_be_at [of 4 8 "buf b" bnum] get_bytes_at [of 4 12 "buf b" BLKHDR2_ID]
      get_be_at [of 4 16 "buf b" sid] get_be_at [of 4 20 "buf b" stime]
    by (simp_all add: BLKHDR2_ID_def)
  then show ?thesis
    using assms(2,3)
    by (simp add: unser_block_header_def codec_simps BLKHDR_ID_LENGTH_def BLKHDR1_LENGTH_def
        BLKHDR2_LENGTH_def BLKHDR2_ID_def Let_def)
qed

lemma check_block_accepts:
  assumes "blen \<le> read_len b" and "blen \<le> MAX_BLOCK_LENGTH" and "4 \<le> blen"
    and "unat blen \<le> length (buf b)"
    and "do_checksum dev \<Longrightarrow> CheckSum b = bcrc32 (drop 4 (take (unat blen) (buf b)))"
  shows "check_block forge_on bhl blen bnum dev b =
     Ret (True, dev, b\<lparr>binbuf := blen - of_nat bhl, block_len := blen, BlockNumber := bnum\<rparr>)"
proof -
  have "unat (blen - 4) = unat blen - 4" "unat blen \<le> 20000000" "4 \<le> unat blen"
    using assms(2,3) unat_sub_no_wrap [of 4 blen] by (simp_all add: word_le_nat_alt MAX_BLOCK_LENGTH_def)
  then have "bcrc32_at (buf b) 4 (blen - 4) = Ret (bcrc32 (drop 4 (take (unat blen) (buf b))))"
    using assms(4) by (subst bcrc32_at_Ret) (simp_all add: drop_take)
  then show ?thesis
    using assms by (auto simp: check_block_def Let_def BLKHDR_CS_LENGTH_def)
qed

lemma check_block_rejects:
  assumes "blen \<le> read_len b" and "blen \<le> MAX_BLOCK_LENGTH" and "4 \<le> blen"
    and "unat blen \<le> length (buf b)" and "do_checksum dev"
    and "CheckSum b \<noteq> bcrc32 (drop 4 (take (unat blen) (buf b)))"
  shows "check_block forge_on bhl blen bnum dev b =
     Ret (forge_on, dev\<lparr>dev_errno := EIO\<rparr>, b\<lparr>binbuf := blen - of_nat bhl, block_len := blen,
       BlockNumber := bnum, read_errors := read_errors b + 1\<rparr>)"
proof -
  have "unat (blen - 4) = unat blen - 4" "unat blen \<le> 20000000" "4 \<le> unat blen"
    using assms(2,3) unat_sub_no_wrap [of 4 blen] by (simp_all add: word_le_nat_alt MAX_BLOCK_LENGTH_def)
  then have "bcrc32_at (buf b) 4 (blen - 4) = Ret (bcrc32 (drop 4 (take (unat blen) (buf b))))"
    using assms(4) by (subst bcrc32_at_Ret) (simp_all add: drop_take)
  then show ?thesis
    using assms by (auto simp: check_block_def Let_def BLKHDR_CS_LENGTH_def reject_block_def)
qed

section \<open>Properties of the header\<close>

text \<open>What the reader finds in the image that \<open>ser_block_header\<close> made.\<close>

lemma header_roundtrip:
  assumes wf: "block_wf b" and ser: "ser_block_header do_cs b = Ret (cs, b')"
    and rb: "\<not> adata rb" "\<not> no_header rb" "binbuf b \<le> read_len rb"
    and img: "take (unat (binbuf b)) (buf rb) = take (unat (binbuf b)) (buf b')"
    and cs: "do_checksum dev \<Longrightarrow> do_cs"
  shows "unser_block_header forge_on dev rb = Ret (True, dev,
     rb\<lparr>CheckSum := cs, VolSessionId := VolSessionId b, VolSessionTime := VolSessionTime b, BlockVer := 2,
       bufp := 24, binbuf := binbuf b - 24, block_len := binbuf b, BlockNumber := BlockNumber b\<rparr>)"
proof -
  note wfs = block_wfD [OF wf]
  let ?h = "header_bytes cs (binbuf b) (BlockNumber b) (VolSessionId b) (VolSessionTime b)"
  define n where "n = unat (binbuf b)"
  have n: "24 \<le> n" "n \<le> length (buf b)" "binbuf b \<le> MAX_BLOCK_LENGTH" "4 \<le> binbuf b"
    using wfs by (simp_all add: n_def word_le_nat_alt MAX_BLOCK_LENGTH_def)
  have b': "buf b' = ?h @ drop 24 (buf b)"
    and cs_eq: "cs = (if do_cs then bcrc32 (drop 4 ?h @ payload b) else 0)"
    using ser ser_block_header_image [OF wf, of do_cs]
    by (auto simp: Let_def header_bytes_def split: if_splits)
  have image: "take n (buf b') = ?h @ payload b"
    using n by (simp add: b' payload_def n_def take_drop)
  have len: "n \<le> length (buf rb)"
  proof -
    have "length (take n (buf rb)) = n" using img image n by (simp add: n_def payload_def)
    then show ?thesis by simp
  qed
  have split: "buf rb = be_bytes 4 cs @ be_bytes 4 (binbuf b) @ be_bytes 4 (BlockNumber b) @ BLKHDR2_ID @
      be_bytes 4 (VolSessionId b) @ be_bytes 4 (VolSessionTime b) @ (payload b @ drop n (buf rb))"
    using append_take_drop_id [of n "buf rb"] img image by (simp add: n_def header_bytes_def)
  have "do_checksum dev \<Longrightarrow> cs = bcrc32 (drop 4 (take n (buf rb)))"
    using cs cs_eq img image by (simp add: n_def)
  then show ?thesis
    using rb n len
    by (simp add: unser_header_fields [OF split rb(1,2)] check_block_accepts n_def [symmetric])
qed

text \<open>
  C23: The block header round trip: the image of a block that is being written, found at the start of
  a read buffer, is accepted; the reader finds the block number, the session and the length that were
  written, stands at the first record, and has exactly the records of the writer before it. It does
  so whether or not the volume carries checksums.
\<close>

theorem block_header_roundtrip:
  assumes "block_wf b" and "ser_block_header do_cs b = Ret (cs, b')"
    and "\<not> adata rb" and "\<not> no_header rb" and "binbuf b \<le> read_len rb"
    and "take (unat (binbuf b)) (buf rb) = take (unat (binbuf b)) (buf b')"
    and "do_checksum dev \<longrightarrow> do_cs"
  shows "\<exists>rb'. unser_block_header forge_on dev rb = Ret (True, dev, rb') \<and>
     block_len rb' = binbuf b \<and> BlockNumber rb' = BlockNumber b \<and> BlockVer rb' = 2 \<and>
     VolSessionId rb' = VolSessionId b \<and> VolSessionTime rb' = VolSessionTime b \<and>
     read_errors rb' = read_errors rb \<and>
     take (unat (binbuf rb')) (drop (bufp rb') (buf rb')) = payload b"
proof -
  note wf = block_wfD [OF assms(1)]
  have "unat (binbuf b - 24) = unat (binbuf b) - 24"
    using wf unat_sub_no_wrap [of 24 "binbuf b"] by (simp add: word_le_nat_alt)
  moreover have "take (unat (binbuf b) - 24) (drop 24 (buf rb)) = payload b"
  proof -
    have "take (unat (binbuf b) - 24) (drop 24 (buf rb)) = drop 24 (take (unat (binbuf b)) (buf b'))"
      using assms(6) by (metis drop_take)
    also have "buf b' = header_bytes cs (binbuf b) (BlockNumber b) (VolSessionId b) (VolSessionTime b)
        @ drop 24 (buf b)"
      using assms(2) ser_block_header_image [OF assms(1), of do_cs] by (auto simp: Let_def split: if_splits)
    finally show ?thesis using wf by (simp add: payload_def take_drop)
  qed
  ultimately show ?thesis
    using header_roundtrip [OF assms(1-6)] assms(7) by simp
qed

text \<open>
  C24: A damaged block is not accepted: when the image on the volume differs from what was written
  within some four consecutive bytes behind the identifier (session, records), a reader that checks
  checksums returns false, sets \<open>EIO\<close> and counts the error; with \<open>forge_on\<close> it accepts the block but
  still counts the error.
\<close>

theorem damaged_block_rejected:
  assumes wf: "block_wf b" and ser: "ser_block_header True b = Ret (cs, b')"
    and rb: "\<not> adata rb" "\<not> no_header rb" "binbuf b \<le> read_len rb"
    and img: "take (unat (binbuf b)) (buf b') = pre @ d @ post"
    and dam: "take (unat (binbuf b)) (buf rb) = pre @ d' @ post"
    and win: "16 \<le> length pre" "length d' = length d" "length d \<le> 4" "d' \<noteq> d" and chk: "do_checksum dev"
  shows "\<exists>rb'. unser_block_header forge_on dev rb = Ret (forge_on, dev\<lparr>dev_errno := EIO\<rparr>, rb') \<and>
     read_errors rb' = read_errors rb + 1"
proof -
  note wfs = block_wfD [OF wf]
  define n where "n = unat (binbuf b)"
  have n: "24 \<le> n" "n \<le> length (buf b)" "binbuf b \<le> MAX_BLOCK_LENGTH" "4 \<le> binbuf b"
    using wfs by (simp_all add: n_def word_le_nat_alt MAX_BLOCK_LENGTH_def)
  let ?h = "header_bytes cs (binbuf b) (BlockNumber b) (VolSessionId b) (VolSessionTime b)"
  have b': "buf b' = ?h @ drop 24 (buf b)" and cs_eq: "cs = bcrc32 (drop 4 ?h @ payload b)"
    using ser ser_block_header_image [OF wf, of True]
    by (auto simp: Let_def header_bytes_def split: if_splits)
  have image: "pre @ d @ post = ?h @ payload b"
    using n img by (simp add: b' payload_def n_def take_drop)
  have "length (pre @ d @ post) = n" using n by (simp add: image payload_def n_def)
  then have len: "length (pre @ d' @ post) = n" using win(2) by simp
  then have len_rb: "n \<le> length (buf rb)" using dam by (metis n_def length_take min.cobounded1)
  have pre: "take 16 pre = be_bytes 4 cs @ be_bytes 4 (binbuf b) @ be_bytes 4 (BlockNumber b) @ BLKHDR2_ID"
    using arg_cong [OF image, of "take 16"] win(1) by (simp add: header_bytes_def BLKHDR2_ID_def)
  obtain sid stime :: uint32_t and more
    where more: "drop 16 pre @ d' @ post @ drop n (buf rb) = be_bytes 4 sid @ be_bytes 4 stime @ more"
  proof (rule eight_bytes)
    show "8 \<le> length (drop 16 pre @ d' @ post @ drop n (buf rb))" using len n(1) win(1) by simp
  qed (rule that)
  have "buf rb = (take 16 pre @ drop 16 pre) @ d' @ post @ drop n (buf rb)"
    unfolding append_take_drop_id using append_take_drop_id [of n "buf rb"] dam by (simp add: n_def)
  then have split: "buf rb = be_bytes 4 cs @ be_bytes 4 (binbuf b) @ be_bytes 4 (BlockNumber b) @ BLKHDR2_ID @
      be_bytes 4 sid @ be_bytes 4 stime @ more"
    by (simp only: pre more append_assoc)
  have "bcrc32 (drop 4 pre @ d' @ post) \<noteq> bcrc32 (drop 4 pre @ d @ post)"
    using win by (intro bcrc32_burst) simp_all
  moreover have eq: "drop 4 ?h @ payload b = drop 4 pre @ d @ post"
    using arg_cong [OF image, of "drop 4"] win(1) by simp
  have "cs = bcrc32 (drop 4 pre @ d @ post)"
    using cs_eq unfolding eq .
  moreover have "drop 4 (take n (buf rb)) = drop 4 pre @ d' @ post"
    using dam win(1) by (simp add: n_def)
  ultimately have "cs \<noteq> bcrc32 (drop 4 (take n (buf rb)))" by simp
  then show ?thesis
    using rb n len_rb chk
    by (simp add: unser_header_fields [OF split rb(1,2)] check_block_rejects n_def [symmetric])
qed

text \<open>
  C29: A block length below the size of the checksum field passes every check of the header, and the
  length handed to the checksum routine is negative: the routine reads outside the buffer.
\<close>

theorem short_block_len_overruns:
  assumes "buf b = header_bytes cs blen bnum sid stime @ rest" and "blen < 4" and "\<not> adata b"
    and "\<not> no_header b" and "blen \<le> read_len b" and "do_checksum dev" and "length (buf b) < 2 ^ 63"
  shows "unser_block_header forge_on dev b = Dies Out_of_bounds"
proof -
  have "2 ^ 31 \<le> unat (blen - 4)"
    using assms(2) by (simp add: word_less_nat_alt unat_sub_if')
  then have "bcrc32_at (buf b) 4 (blen - 4) = Dies Out_of_bounds"
    using assms(7) by (intro bcrc32_at_negative)
  moreover have "\<not> MAX_BLOCK_LENGTH < blen"
    using assms(2) by (simp add: MAX_BLOCK_LENGTH_def word_less_nat_alt)
  ultimately show ?thesis
    using assms unser_header_fields [of b cs blen bnum sid stime rest forge_on dev]
    by (simp add: header_bytes_def check_block_def Let_def BLKHDR_CS_LENGTH_def)
qed

section \<open>Properties of the padding\<close>

lemma round_up_nat:
  fixes m k :: nat
  assumes "m \<le> 1024 * k"
  shows "(m + 1023) div 1024 * 1024 \<le> 1024 * k" and "m \<le> (m + 1023) div 1024 * 1024"
proof -
  have "(m + 1023) div 1024 < Suc k" using assms by (intro less_mult_imp_div_less) simp
  then show "(m + 1023) div 1024 * 1024 \<le> 1024 * k" by simp
  show "m \<le> (m + 1023) div 1024 * 1024"
    using div_mult_mod_eq [of "m + 1023" 1024] mod_less_divisor [of 1024 "m + 1023"] by linarith
qed

lemma unat_round_up:
  assumes "unat n + 1023 < 2 ^ 32"
  shows "unat (round_up n TAPE_BSIZE) = (unat n + 1023) div 1024 * 1024"
proof -
  have "n + TAPE_BSIZE - 1 = n + 1023" by (simp add: TAPE_BSIZE_def algebra_simps)
  from this have "unat (n + TAPE_BSIZE - 1) = unat n + 1023"
    using assms unat_add_no_wrap [of n 1023] by (simp only:) simp
  then have "unat ((n + TAPE_BSIZE - 1) div TAPE_BSIZE) = (unat n + 1023) div 1024"
    by (simp add: unat_div TAPE_BSIZE_def)
  then show ?thesis
    using assms by (simp add: round_up_def unat_word_ariths TAPE_BSIZE_def)
qed


section \<open>The properties at a concrete block\<close>

definition sample_block :: DEV_BLOCK where
  "sample_block = (new_block 64 0 (\<lambda>n. replicate n 7))\<lparr>BlockNumber := 5, VolSessionId := 3,
     VolSessionTime := 0x5F000000, binbuf := 40, bufp := 40\<rparr>"

definition sample_dev :: DEVICE where
  "sample_dev = zero_device\<lparr>capabilities := CAP_BLOCKCHECKSUM, dev_type := B_TAPE_DEV, min_block_size := 1,
     max_block_size := 0\<rparr>"

lemma sample_block_fields:
  "\<not> adata sample_block" "\<not> no_header sample_block" "binbuf sample_block = 40" "buf_len sample_block = 64"
  "buf sample_block = replicate 64 7" "bufp sample_block = 40" "read_errors sample_block = 0"
  by (simp_all add: sample_block_def new_block_def empty_block_def Let_def)

lemma sample_block_wf: "block_wf sample_block"
  by (simp add: block_wf_def sample_block_fields block_consts)

lemma sample_dev_checks: "do_checksum sample_dev"
  by (simp add: sample_dev_def flag_bits CAP_BLOCKCHECKSUM_def bit_push_one del: push_bit_numeral)

lemma sample_image:
  obtains cs b' where "ser_block_header True sample_block = Ret (cs, b')"
    "\<not> adata b'" "\<not> no_header b'" "length (buf b') = 64" "read_errors b' = 0"
  using ser_block_header_image [OF sample_block_wf, of True] sample_block_fields
  by (auto simp: Let_def)

theorem block_header_roundtrip_witness:
  "\<exists>cs b' rb'. ser_block_header True sample_block = Ret (cs, b') \<and>
     unser_block_header False sample_dev (b'\<lparr>read_len := 64\<rparr>) = Ret (True, sample_dev, rb') \<and>
     block_len rb' = 40 \<and> read_errors rb' = 0"
proof (rule sample_image)
  fix cs b' assume b': "ser_block_header True sample_block = Ret (cs, b')"
    "\<not> adata b'" "\<not> no_header b'" "length (buf b') = 64" "read_errors b' = 0"
  then show ?thesis
    using block_header_roundtrip [OF sample_block_wf b'(1), of "b'\<lparr>read_len := 64\<rparr>" sample_dev False]
    by (auto simp: sample_block_fields)
qed

theorem damaged_block_rejected_witness:
  "\<exists>cs b' rb'. ser_block_header True sample_block = Ret (cs, b') \<and>
     unser_block_header False sample_dev (b'\<lparr>read_len := 64, buf := take 30 (buf b') @ [buf b' ! 30 + 1] @ drop 31 (buf b')\<rparr>) =
       Ret (False, sample_dev\<lparr>dev_errno := EIO\<rparr>, rb') \<and> read_errors rb' = 1"
proof (rule sample_image)
  fix cs b' assume b': "ser_block_header True sample_block = Ret (cs, b')"
    "\<not> adata b'" "\<not> no_header b'" "length (buf b') = 64" "read_errors b' = 0"
  have "take 40 (buf b') = take 30 (buf b') @ [buf b' ! 30] @ take 9 (drop 31 (buf b'))"
    using b'(4) id_take_nth_drop [of 30 "take 40 (buf b')"] by (simp add: take_drop min_def)
  then show ?thesis
    using b' sample_dev_checks
      damaged_block_rejected [OF sample_block_wf b'(1), of "b'\<lparr>read_len := 64, buf := take 30 (buf b') @ [buf b' ! 30 + 1] @ drop 31 (buf b')\<rparr>"
        "take 30 (buf b')" "[buf b' ! 30]" "take 9 (drop 31 (buf b'))" "[buf b' ! 30 + 1]" sample_dev False]
    by (auto simp: sample_block_fields)
qed

theorem short_block_len_overruns_witness:
  "unser_block_header False sample_dev (sample_block\<lparr>buf := header_bytes 1 2 3 4 5 @ [], read_len := 24\<rparr>)
     = Dies Out_of_bounds"
  by (rule short_block_len_overruns [where cs = 1 and blen = 2 and bnum = 3 and sid = 4 and stime = 5
        and rest = "[]"]) (simp_all add: sample_block_fields sample_dev_checks)


end
