(* ===== verification/VolRecord.thy ===== *)
theory VolRecord
  imports Block
begin

text \<open>
  The records of a volume (\<^verbatim>\<open>stored/record.h\<close>, \<^verbatim>\<open>stored/record_util.c\<close>): the record packet, its creation
  and emptying, the test whether it fits a block, and the printable names of file indexes and
  streams. Fields of the packet that share a name with a field of the block carry the prefix
  \<open>rec_\<close>.
\<close>

section \<open>Constants\<close>

datatype rec_state = st_none | st_header | st_cont_header | st_data | st_adata_blkhdr
  | st_adata_rechdr | st_cont_adata_rechdr | st_adata | st_cont_adata | st_adata_label

definition REC_NO_HEADER :: uint32_t where "REC_NO_HEADER = push_bit 0 1"
definition REC_PARTIAL_RECORD :: uint32_t where "REC_PARTIAL_RECORD = push_bit 1 1"
definition REC_BLOCK_EMPTY :: uint32_t where "REC_BLOCK_EMPTY = push_bit 2 1"
definition REC_NO_MATCH :: uint32_t where "REC_NO_MATCH = push_bit 3 1"
definition REC_CONTINUATION :: uint32_t where "REC_CONTINUATION = push_bit 4 1"
definition REC_ISTAPE :: uint32_t where "REC_ISTAPE = push_bit 5 1"
definition REC_ADATA_EMPTY :: uint32_t where "REC_ADATA_EMPTY = push_bit 6 1"
definition REC_NO_SPLIT :: uint32_t where "REC_NO_SPLIT = push_bit 7 1"

lemmas rec_bit_defs = REC_NO_HEADER_def REC_PARTIAL_RECORD_def REC_BLOCK_EMPTY_def REC_NO_MATCH_def
  REC_CONTINUATION_def REC_ISTAPE_def REC_ADATA_EMPTY_def REC_NO_SPLIT_def

definition RECHDR1_LENGTH :: nat where "RECHDR1_LENGTH = 20"
definition WRITE_RECHDR_LENGTH :: nat where "WRITE_RECHDR_LENGTH = 12"

text \<open>The file indexes of label records.\<close>

definition PRE_LABEL :: int32_t where "PRE_LABEL = - 1"
definition VOL_LABEL :: int32_t where "VOL_LABEL = - 2"
definition EOM_LABEL :: int32_t where "EOM_LABEL = - 3"
definition SOS_LABEL :: int32_t where "SOS_LABEL = - 4"
definition EOS_LABEL :: int32_t where "EOS_LABEL = - 5"
definition EOT_LABEL :: int32_t where "EOT_LABEL = - 6"
definition SOB_LABEL :: int32_t where "SOB_LABEL = - 7"
definition EOB_LABEL :: int32_t where "EOB_LABEL = - 8"

definition STREAMMASK_TYPE :: int32_t where "STREAMMASK_TYPE = mask 11"
definition STREAM_BIT_DEDUPLICATION_DATA :: int32_t where "STREAM_BIT_DEDUPLICATION_DATA = push_bit 24 1"
definition STREAM_BIT_NO_DEDUPLICATION :: int32_t where "STREAM_BIT_NO_DEDUPLICATION = push_bit 23 1"

section \<open>The record packet\<close>

record DEV_RECORD =
  FileOffset :: uint64_t
  StartAddr :: uint64_t
  Addr :: uint64_t
  rec_VolSessionId :: uint32_t
  rec_VolSessionTime :: uint32_t
  FileIndex :: int32_t
  Stream :: int32_t
  maskedStream :: int32_t
  data_len :: uint32_t
  remainder :: uint32_t
  remlen :: uint32_t
  data_bytes :: uint32_t
  rec_extra_bytes :: uint32_t
  state_bits :: uint32_t
  rec_RecNum :: uint32_t
  rec_BlockNumber :: uint32_t
  invalid :: bool
  wstate :: rec_state
  rstate :: rec_state
  rec_data :: "byte list"
  VolumeName :: "string option"

definition is_partial_record :: "DEV_RECORD \<Rightarrow> bool" where
  "is_partial_record r \<longleftrightarrow> state_bits r AND REC_PARTIAL_RECORD \<noteq> 0"

definition is_block_marked_empty :: "DEV_RECORD \<Rightarrow> bool" where
  "is_block_marked_empty r \<longleftrightarrow> state_bits r AND (REC_BLOCK_EMPTY OR REC_ADATA_EMPTY) \<noteq> 0"

definition new_record :: "DEV_RECORD" where
  "new_record = \<lparr>FileOffset = 0, StartAddr = 0, Addr = 0, rec_VolSessionId = 0, rec_VolSessionTime = 0,
     FileIndex = 0, Stream = 0, maskedStream = 0, data_len = 0, remainder = 0, remlen = 0, data_bytes = 0,
     rec_extra_bytes = 0, state_bits = 0, rec_RecNum = 0, rec_BlockNumber = 0, invalid = False,
     wstate = st_none, rstate = st_none, rec_data = [], VolumeName = None\<rparr>"

definition empty_record :: "DEV_RECORD \<Rightarrow> DEV_RECORD" where
  "empty_record rec = rec\<lparr>rec_RecNum := 0, StartAddr := 0, Addr := 0, rec_VolSessionId := 0,
     rec_VolSessionTime := 0, FileIndex := 0, Stream := 0, data_len := 0, remainder := 0,
     state_bits := state_bits rec AND NOT (REC_PARTIAL_RECORD OR REC_ADATA_EMPTY OR REC_BLOCK_EMPTY OR
       REC_NO_MATCH OR REC_CONTINUATION),
     FileOffset := 0, wstate := st_none, rstate := st_none, VolumeName := None\<rparr>"

text \<open>\<open>can_write_record_to_block\<close> stores the length to write in \<open>remainder\<close> before it compares.\<close>

definition can_write_record_to_block :: "DEV_BLOCK \<Rightarrow> DEV_RECORD \<Rightarrow> bool \<times> DEV_RECORD" where
  "can_write_record_to_block block rec =
     (let rem = buf_len block - binbuf block
      in if remainder rec = 0 then
           (if of_nat WRITE_RECHDR_LENGTH \<le> rem then
              (let rem = rem - of_nat WRITE_RECHDR_LENGTH;
                   rec = rec\<lparr>remainder := data_len rec\<rparr>
               in (\<not> (0 < remainder rec \<and> rem < remainder rec), rec))
            else (False, rec))
         else (False, rec))"

definition get_record_address :: "DEV_RECORD \<Rightarrow> uint64_t" where
  "get_record_address rec = Addr rec"

definition get_record_start_address :: "DEV_RECORD \<Rightarrow> uint64_t" where
  "get_record_start_address rec = StartAddr rec"

section \<open>Printable names\<close>

text \<open>\<open>sprintf "%d"\<close>.\<close>

fun show_nat :: "nat \<Rightarrow> string" where
  "show_nat n = (if n < 10 then [char_of (48 + n)] else show_nat (n div 10) @ [char_of (48 + n mod 10)])"

declare show_nat.simps [simp del]

definition show_int32 :: "int32_t \<Rightarrow> string" where
  "show_int32 i = (if sint i < 0 then CHR ''-'' # show_nat (nat (- sint i)) else show_nat (nat (sint i)))"

definition FI_to_ascii :: "int32_t \<Rightarrow> string" where
  "FI_to_ascii fi =
     (if 0 \<le>s fi then show_int32 fi
      else if fi = PRE_LABEL then ''PRE_LABEL''
      else if fi = VOL_LABEL then ''VOL_LABEL''
      else if fi = EOM_LABEL then ''EOM_LABEL''
      else if fi = SOS_LABEL then ''SOS_LABEL''
      else if fi = EOS_LABEL then ''EOS_LABEL''
      else if fi = EOT_LABEL then ''EOT_LABEL''
      else if fi = SOB_LABEL then ''SOB_LABEL''
      else if fi = EOB_LABEL then ''EOB_LABEL''
      else ''unknown: '' @ show_int32 fi)"

text \<open>The two switch statements of \<open>stream_to_ascii\<close>, by stream number.\<close>

definition cont_stream_names :: "(int32_t \<times> string) list" where
  "cont_stream_names =
    [(1, ''contUATTR''), (2, ''contDATA''), (11, ''contWIN32-DATA''), (12, ''contWIN32-GZIP''),
      (31, ''contWIN32-COMPRESSED''), (3, ''contMD5''), (10, ''contSHA1''), (4, ''contGZIP''),
      (29, ''contCOMPRESSED''), (5, ''contUNIX-ATTR-EX''), (28, ''contRESTORE-OBJECT''),
      (6, ''contSPARSE-DATA''), (7, ''contSPARSE-GZIP''), (30, ''contSPARSE-COMPRESSED''),
      (8, ''contPROG-NAMES''), (9, ''contPROG-DATA''), (13, ''contMACOS-RSRC''),
      (14, ''contHFSPLUS-ATTR''), (17, ''contSHA256''), (18, ''contSHA512''),
      (19, ''contSIGNED-DIGEST''), (22, ''contENCRYPTED-SESSION-DATA''),
      (20, ''contENCRYPTED-FILE''), (23, ''contENCRYPTED-GZIP''),
      (32, ''contENCRYPTED-COMPRESSED''), (21, ''contENCRYPTED-WIN32-DATA''),
      (24, ''contENCRYPTED-WIN32-GZIP''), (33, ''contENCRYPTED-WIN32-COMPRESSED''),
      (25, ''contENCRYPTED-MACOS-RSRC''), (26, ''contPLUGIN-NAME''),
      (200, ''contADATA-BLOCK-HEADER''), (201, ''contADATA-RECORD-HEADER'')]"

definition stream_names :: "(int32_t \<times> string) list" where
  "stream_names =
    [(1, ''UATTR''), (2, ''DATA''), (11, ''WIN32-DATA''), (12, ''WIN32-GZIP''),
      (31, ''WIN32-COMPRESSED''), (3, ''MD5''), (10, ''SHA1''), (4, ''GZIP''),
      (29, ''COMPRESSED''), (5, ''UNIX-ATTR-EX''), (28, ''RESTORE-OBJECT''),
      (6, ''SPARSE-DATA''), (7, ''SPARSE-GZIP''), (30, ''SPARSE-COMPRESSED''),
      (8, ''PROG-NAMES''), (9, ''PROG-DATA''), (26, ''PLUGIN-NAME''), (13, ''MACOS-RSRC''),
      (14, ''HFSPLUS-ATTR''), (17, ''SHA256''), (18, ''SHA512''), (19, ''SIGNED-DIGEST''),
      (22, ''ENCRYPTED-SESSION-DATA''), (20, ''ENCRYPTED-FILE''), (23, ''ENCRYPTED-GZIP''),
      (32, ''ENCRYPTED-COMPRESSED''), (21, ''ENCRYPTED-WIN32-DATA''),
      (24, ''ENCRYPTED-WIN32-GZIP''), (33, ''ENCRYPTED-WIN32-COMPRESSED''),
      (25, ''ENCRYPTED-MACOS-RSRC''), (200, ''ADATA-BLOCK-HEADER''),
      (201, ''ADATA-RECORD-HEADER'')]"

definition stream_to_ascii :: "int32_t \<Rightarrow> int32_t \<Rightarrow> string" where
  "stream_to_ascii stream fi =
     (if fi <s 0 then show_int32 stream
      else if stream <s 0 then
        (let stream = - stream; stream = stream AND STREAMMASK_TYPE
         in case map_of cont_stream_names stream of Some s \<Rightarrow> s | None \<Rightarrow> show_int32 (- stream))
      else
        (case map_of stream_names (stream AND STREAMMASK_TYPE) of Some s \<Rightarrow> s | None \<Rightarrow> show_int32 stream))"

definition stream_to_ascii_ex :: "int32_t \<Rightarrow> int32_t \<Rightarrow> string" where
  "stream_to_ascii_ex stream fi =
     (if fi <s 0 then stream_to_ascii stream fi
      else
        (let ustream = (if 0 \<le>s stream then stream else - stream);
             p = stream_to_ascii stream fi
         in if ustream AND (STREAM_BIT_DEDUPLICATION_DATA OR STREAM_BIT_NO_DEDUPLICATION) \<noteq> 0 then
              p @ ''-'' @ (if ustream AND STREAM_BIT_DEDUPLICATION_DATA \<noteq> 0 then ''D'' else [])
                @ (if ustream AND STREAM_BIT_NO_DEDUPLICATION \<noteq> 0 then ''d'' else [])
            else p))"

section \<open>Record bits\<close>

lemma rec_bits:
  "bit REC_NO_HEADER n \<longleftrightarrow> n = 0" "bit REC_PARTIAL_RECORD n \<longleftrightarrow> n = 1" "bit REC_BLOCK_EMPTY n \<longleftrightarrow> n = 2"
  "bit REC_NO_MATCH n \<longleftrightarrow> n = 3" "bit REC_CONTINUATION n \<longleftrightarrow> n = 4" "bit REC_ISTAPE n \<longleftrightarrow> n = 5"
  "bit REC_ADATA_EMPTY n \<longleftrightarrow> n = 6" "bit REC_NO_SPLIT n \<longleftrightarrow> n = 7"
  unfolding rec_bit_defs bit_push_one by auto

lemma is_partial_record_bit: "is_partial_record r \<longleftrightarrow> bit (state_bits r) 1"
  unfolding is_partial_record_def REC_PARTIAL_RECORD_def mask_test by simp

lemma no_split_bit: "state_bits r AND REC_NO_SPLIT \<noteq> 0 \<longleftrightarrow> bit (state_bits r) 7"
  unfolding REC_NO_SPLIT_def mask_test by simp

lemma is_block_marked_empty_bits:
  "is_block_marked_empty r \<longleftrightarrow> bit (state_bits r) 2 \<or> bit (state_bits r) 6"
proof -
  have "state_bits r AND (REC_BLOCK_EMPTY OR REC_ADATA_EMPTY) = 0 \<longleftrightarrow>
      \<not> bit (state_bits r) 2 \<and> \<not> bit (state_bits r) 6"
    unfolding bit_eq_iff by (auto simp: bit_and_iff bit_or_iff rec_bits dest: spec [of _ 2] spec [of _ 6])
  then show ?thesis by (simp add: is_block_marked_empty_def)
qed

section \<open>Names are unambiguous\<close>

text \<open>
  A continuation is printed as \<open>cont\<close> before the name of the stream it continues, and no two streams
  share a name.
\<close>

lemma stream_names_cont:
  "(\<forall>(s, n) \<in> set stream_names. map_of cont_stream_names s = Some (''cont'' @ n)) \<and>
   distinct (map snd stream_names) \<and> distinct (map fst stream_names)"
  by code_simp

end
