(* ===== verification/Dcr.thy ===== *)
theory Dcr
  imports VolRecord
begin

text \<open>
  The device control record of a job (\<^verbatim>\<open>stored/dev.h\<close>), the job status rules of \<^verbatim>\<open>lib/jcr.c\<close>, and the
  calls through which the storage daemon reaches a volume: reads, writes and seeks on the volume
  file, and the answers of the Director and of the operating system, which are data of the state or
  fields of an environment record.
\<close>

section \<open>Job status\<close>

datatype job_status = JS_Canceled | JS_Blocked | JS_Created | JS_Differences | JS_ErrorTerminated
  | JS_WaitFD | JS_Incomplete | JS_DataCommitting | JS_WaitMount | JS_Running | JS_WaitSD
  | JS_Terminated | JS_Warnings | JS_AttrDespooling | JS_WaitClientRes | JS_WaitMaxJobs | JS_Error
  | JS_FatalError | JS_AttrInserting | JS_WaitJobRes | JS_DataDespooling | JS_WaitMedia
  | JS_WaitPriority | JS_WaitDevice | JS_WaitStoreRes | JS_WaitStartTime | JS_CloudUpload
  | JS_CloudDownload

definition get_status_priority :: "job_status \<Rightarrow> nat" where
  "get_status_priority s =
     (case s of
        JS_Incomplete \<Rightarrow> 10
      | JS_ErrorTerminated \<Rightarrow> 9
      | JS_FatalError \<Rightarrow> 9
      | JS_Canceled \<Rightarrow> 9
      | JS_Error \<Rightarrow> 8
      | JS_Differences \<Rightarrow> 7
      | _ \<Rightarrow> 0)"

definition setJobStatus :: "job_status \<Rightarrow> job_status \<Rightarrow> job_status" where
  "setJobStatus newJobStatus JobStatus =
     (let priority = get_status_priority newJobStatus;
          old_priority = get_status_priority JobStatus
      in if old_priority < priority \<or> (priority = 0 \<and> old_priority = 0) then newJobStatus else JobStatus)"

definition job_canceled_status :: "job_status \<Rightarrow> bool" where
  "job_canceled_status s \<longleftrightarrow> s = JS_Canceled \<or> s = JS_ErrorTerminated \<or> s = JS_FatalError"

text \<open>Requests to change the status, one after the other.\<close>

definition set_statuses :: "job_status list \<Rightarrow> job_status \<Rightarrow> job_status" where
  "set_statuses reqs s = fold setJobStatus reqs s"


section \<open>The device control record\<close>

record JOBMEDIA_ITEM =
  jm_VolMediaId :: int64_t
  jm_StartAddr :: uint64_t
  jm_EndAddr :: uint64_t
  jm_VolFirstIndex :: uint32_t
  jm_VolLastIndex :: uint32_t
  jm_StartFile :: uint32_t
  jm_EndFile :: uint32_t
  jm_StartBlock :: uint32_t
  jm_EndBlock :: uint32_t

text \<open>
  What a system call on the volume will do: \<open>write\<close> stores everything, a part, or fails, \<open>read\<close>
  returns what is there, at most so many bytes, or fails.
\<close>

datatype write_result = Write_all | Write_part nat | Write_error errno
datatype read_result = Read_all | Read_part nat | Read_error errno

text \<open>
  The device control record with the job fields the block routines use. \<open>volume\<close> and \<open>fpos\<close> are the
  contents and the offset of the open volume file, \<open>write_script\<close> and \<open>read_script\<close> the results of the
  coming system calls (all succeed behind their ends), \<open>jobmedia_sent\<close> the job media records that the
  Director has accepted.
\<close>

record DCR =
  dev :: DEVICE
  volume :: "byte list"
  fpos :: nat
  write_script :: "write_result list"
  read_script :: "read_result list"
  JobStatus :: job_status
  JobId :: uint32_t
  system_job :: bool
  lastFileIndex :: uint32_t
  NumWriteVolumes :: nat
  jobmedia_queue :: "JOBMEDIA_ITEM list"
  jobmedia_sent :: "JOBMEDIA_ITEM list"
  spooling :: bool
  NewVol :: bool
  NewFile :: bool
  WroteVol :: bool
  reading_label :: bool
  discard_invalid_records :: bool
  force_update_volume_info :: bool
  VolFirstIndex :: uint32_t
  VolLastIndex :: uint32_t
  dcr_StartAddr :: uint64_t
  dcr_EndAddr :: uint64_t
  dcr_VolMediaId :: int64_t
  dcr_VolumeName :: string
  dcr_VolCatInfo :: VOLUME_CAT_INFO

definition on_dev :: "(DEVICE \<Rightarrow> DEVICE) \<Rightarrow> DCR \<Rightarrow> DCR" where
  "on_dev f dcr = dcr\<lparr>dev := f (dev dcr)\<rparr>"

definition job_canceled :: "DCR \<Rightarrow> bool" where
  "job_canceled dcr = job_canceled_status (JobStatus dcr)"

text \<open>The effect of a message of type \<open>M_FATAL\<close> on the job.\<close>

definition Jmsg_fatal :: "DCR \<Rightarrow> DCR" where
  "Jmsg_fatal dcr = dcr\<lparr>JobStatus := setJobStatus JS_FatalError (JobStatus dcr)\<rparr>"

definition set_errno :: "errno \<Rightarrow> DCR \<Rightarrow> DCR" where
  "set_errno e = on_dev (\<lambda>d. d\<lparr>dev_errno := e\<rparr>)"

text \<open>
  What the storage daemon asks of its surroundings: the operating system for free space and memory,
  the tape drive for its motions, the Director for the catalog, the operator and the autochanger for
  the next volume, and the data spool. \<open>env_mount\<close> is \<open>mount_next_write_volume\<close>: the new state of
  the device and the block with the label to write, empty for a volume that has one.
\<close>

record sd_env =
  env_freespace :: "DEVICE \<Rightarrow> uint64_t option"
  env_memory :: "nat \<Rightarrow> byte list"
  env_bsf :: "DCR \<Rightarrow> bool \<times> DCR"
  env_bsr :: "DCR \<Rightarrow> bool \<times> DCR"
  env_tape_weof :: "DCR \<Rightarrow> bool \<times> DCR"
  env_eov_labels :: "DCR \<Rightarrow> bool \<times> DCR"
  env_jobmedia :: "JOBMEDIA_ITEM list \<Rightarrow> bool"
  env_volinfo :: "VOLUME_CAT_INFO \<Rightarrow> VOLUME_CAT_INFO option"
  env_wait_volume :: "DCR \<Rightarrow> DCR"
  env_mount :: "DCR \<Rightarrow> bool \<times> DCR \<times> DEV_BLOCK"
  env_spool :: "DCR \<Rightarrow> DEV_BLOCK \<Rightarrow> bool \<times> DCR \<times> DEV_BLOCK"

section \<open>System calls on the volume\<close>

text \<open>Storing bytes at an offset of a file; a gap behind the end reads as zeros.\<close>

definition file_put :: "byte list \<Rightarrow> nat \<Rightarrow> byte list \<Rightarrow> byte list" where
  "file_put f off bs = take off f @ replicate (off - length f) 0 @ bs @ drop (off + length bs) f"

definition d_write :: "byte list \<Rightarrow> DCR \<Rightarrow> int \<times> errno \<times> DCR" where
  "d_write bs dcr =
     (let next = (case write_script dcr of [] \<Rightarrow> Write_all | r # rs \<Rightarrow> r);
          dcr = dcr\<lparr>write_script := tl (write_script dcr)\<rparr>;
          put = (\<lambda>bs. dcr\<lparr>volume := file_put (volume dcr) (fpos dcr) bs, fpos := fpos dcr + length bs\<rparr>)
      in case next of
           Write_all \<Rightarrow> (int (length bs), ENONE, put bs)
         | Write_part n \<Rightarrow> (int (min n (length bs)), ENONE, put (take n bs))
         | Write_error e \<Rightarrow> (- 1, e, dcr))"

definition d_read :: "nat \<Rightarrow> DCR \<Rightarrow> int \<times> errno \<times> byte list \<times> DCR" where
  "d_read n dcr =
     (let next = (case read_script dcr of [] \<Rightarrow> Read_all | r # rs \<Rightarrow> r);
          dcr = dcr\<lparr>read_script := tl (read_script dcr)\<rparr>;
          there = take n (drop (fpos dcr) (volume dcr));
          got = (\<lambda>bs. (int (length bs), ENONE, bs, dcr\<lparr>fpos := fpos dcr + length bs\<rparr>))
      in case next of
           Read_all \<Rightarrow> got there
         | Read_part k \<Rightarrow> got (take k there)
         | Read_error e \<Rightarrow> (- 1, e, [], dcr))"

definition dev_lseek :: "nat \<Rightarrow> DCR \<Rightarrow> DCR" where
  "dev_lseek pos dcr = dcr\<lparr>fpos := pos\<rparr>"

text \<open>
  \<open>clrerror\<close>: with the argument \<open>-1\<close>, which is all the block routines use, a tape adds only requests
  to the drive that clear its error status.
\<close>

definition clrerror :: "errno \<Rightarrow> DEVICE \<Rightarrow> DEVICE" where
  "clrerror errno d =
     (let d = d\<lparr>dev_errno := errno\<rparr>
      in if errno = EIO then d\<lparr>VolCatInfo := (VolCatInfo d)\<lparr>VolCatErrors := VolCatErrors (VolCatInfo d) + 1\<rparr>\<rparr>
         else d)"

definition update_freespace :: "sd_env \<Rightarrow> DEVICE \<Rightarrow> DEVICE" where
  "update_freespace env d =
     (if \<not> is_file d then d
      else case env_freespace env d of
             Some free \<Rightarrow> set_freespace free True d
           | None \<Rightarrow> set_freespace 0 False d)"

lemma file_put_end: "off = length f \<Longrightarrow> file_put f off bs = f @ bs"
  by (simp add: file_put_def)

lemma d_write_all: "write_script dcr = [] \<Longrightarrow>
    d_write bs dcr = (int (length bs), ENONE,
      dcr\<lparr>volume := file_put (volume dcr) (fpos dcr) bs, fpos := fpos dcr + length bs\<rparr>)"
  by (simp add: d_write_def Let_def)

lemma d_read_all: "read_script dcr = [] \<Longrightarrow>
    d_read n dcr = (int (length (take n (drop (fpos dcr) (volume dcr)))), ENONE,
      take n (drop (fpos dcr) (volume dcr)),
      dcr\<lparr>fpos := fpos dcr + length (take n (drop (fpos dcr) (volume dcr)))\<rparr>)"
  by (simp add: d_read_def Let_def)

lemma on_dev_simps [simp]:
  "dev (on_dev f dcr) = f (dev dcr)" "volume (on_dev f dcr) = volume dcr" "fpos (on_dev f dcr) = fpos dcr"
  "write_script (on_dev f dcr) = write_script dcr" "read_script (on_dev f dcr) = read_script dcr"
  "JobStatus (on_dev f dcr) = JobStatus dcr" "NewVol (on_dev f dcr) = NewVol dcr"
  "NewFile (on_dev f dcr) = NewFile dcr" "spooling (on_dev f dcr) = spooling dcr"
  "job_canceled (on_dev f dcr) = job_canceled dcr" "system_job (on_dev f dcr) = system_job dcr" "JobId (on_dev f dcr) = JobId dcr"
  by (simp_all add: on_dev_def job_canceled_def)

section \<open>An example state\<close>

text \<open>An idle storage daemon with a disk volume of three bytes, for examples.\<close>

definition sample_env :: sd_env where
  "sample_env = \<lparr>env_freespace = (\<lambda>_. None), env_memory = (\<lambda>n. replicate n 0), env_bsf = (\<lambda>c. (True, c)),
     env_bsr = (\<lambda>c. (True, c)), env_tape_weof = (\<lambda>c. (True, c)), env_eov_labels = (\<lambda>c. (True, c)),
     env_jobmedia = (\<lambda>_. True), env_volinfo = (\<lambda>v. Some (v\<lparr>VolCatMaxBytes := 0\<rparr>)), env_wait_volume = (\<lambda>c. c),
     env_mount = (\<lambda>c. (False, c, new_block 64 0 (\<lambda>n. replicate n 0))),
     env_spool = (\<lambda>c b. (False, c, b))\<rparr>"

definition sample_dcr :: DCR where
  "sample_dcr = \<lparr>dev = zero_device\<lparr>state := ST_APPEND, capabilities := CAP_BLOCKCHECKSUM,
       VolCatInfo := zero_volcat\<lparr>VolCatName := ''Vol''\<rparr>\<rparr>,
     volume = [1, 2, 3], fpos = 3, write_script = [], read_script = [], JobStatus = JS_Running, JobId = 1,
     system_job = False, lastFileIndex = 0, NumWriteVolumes = 0, jobmedia_queue = [], jobmedia_sent = [],
     spooling = False, NewVol = False, NewFile = False, WroteVol = False, reading_label = False,
     discard_invalid_records = False, force_update_volume_info = False, VolFirstIndex = 0, VolLastIndex = 0,
     dcr_StartAddr = 0, dcr_EndAddr = 0, dcr_VolMediaId = 0, dcr_VolumeName = ''Vol'', dcr_VolCatInfo = zero_volcat\<rparr>"


end
