(* ===== verification/BlockRead.thy ===== *)
theory BlockRead
  imports Dcr
begin

text \<open>
  Reading a block from a volume (\<^verbatim>\<open>stored/block.c\<close>): \<open>read_block_from_dev\<close> with its retries, the end of
  file, short blocks, blocks larger than the buffer, and the seek back to the next block on disk.
  \<open>forge_on\<close> is the global option that accepts damaged blocks. The device is a tape, a fifo or a
  volume file in one part: \<open>open_next_part\<close> of the base class does nothing and succeeds.
\<close>

section \<open>Reading\<close>

definition set_block_position :: "DCR \<Rightarrow> DEV_BLOCK \<Rightarrow> DEV_BLOCK" where
  "set_block_position dcr block =
     (let block = (if is_tape (dev dcr) then block\<lparr>BlockAddr := get_full_addr (dev dcr)\<rparr>
                   else if \<not> dev_adata (dev dcr) then block\<lparr>BlockAddr := get_full_addr (dev dcr)\<rparr>
                   else block)
      in block\<lparr>RecNum := 0\<rparr>)"

text \<open>One system call, repeated at most three times while it is busy, interrupted or fails.\<close>

fun read_tries :: "nat \<Rightarrow> nat \<Rightarrow> DCR \<Rightarrow> int \<times> errno \<times> byte list \<times> DCR" where
  "read_tries left n dcr =
     (case d_read n dcr of
        (stat, err, bs, dcr) \<Rightarrow>
          (case left of
             Suc left' \<Rightarrow>
               if stat = - 1 \<and> (err = EBUSY \<or> err = EINTR \<or> err = EIO) then
                 read_tries left' n (if err = EBUSY then on_dev (clrerror err) dcr else dcr)
               else (stat, err, bs, dcr)
           | 0 \<Rightarrow> (stat, err, bs, dcr)))"

declare read_tries.simps [simp del]

lemma shrinks: "length (bs @ got) < n \<Longrightarrow> got \<noteq> [] \<Longrightarrow> n - length (bs @ got) < n - length bs"
proof -
  assume "length (bs @ got) < n" "got \<noteq> []"
  moreover from this(2) have "0 < length got" by blast
  ultimately show ?thesis unfolding length_append by (rule_tac diff_less_mono2) simp_all
qed

text \<open>A fifo is read until the buffer is full; \<open>bs\<close> is what has been read so far. A positive count comes
  with bytes.\<close>

function read_fill :: "nat \<Rightarrow> byte list \<Rightarrow> DCR \<Rightarrow> int \<times> errno \<times> byte list \<times> DCR" where
  "read_fill space bs dcr =
     (case read_tries 3 (space - length bs) dcr of
        (stat, err, got, dcr) \<Rightarrow>
          (let bs = bs @ got
           in if length bs < space \<and> 0 < stat \<and> got \<noteq> [] \<and> dev_type (dev dcr) = B_FIFO_DEV
              then read_fill space bs dcr
              else (stat, err, bs, dcr)))"
  by pat_completeness auto

termination
  by (relation "measure (\<lambda>(n, bs, _). n - length bs)") (simp_all only: in_measure wf_measure prod.case, elim conjE, rule shrinks)

declare read_fill.simps [simp del]

section \<open>The checks on what was read\<close>

datatype read_step = Leave bool | Reread | Go_on

definition end_of_file :: "DCR \<Rightarrow> DCR" where
  "end_of_file dcr =
     (let pos = of_nat (fpos dcr);
          dcr = (if at_eof (dev dcr) then on_dev set_eot dcr else dcr);
          dcr = on_dev set_ateof dcr;
          dcr = on_dev (\<lambda>d. d\<lparr>file_addr := 0, dev_EndAddr := pos\<rparr>) dcr
      in if dcr_EndAddr dcr < dev_EndAddr (dev dcr) then dcr\<lparr>dcr_EndAddr := dev_EndAddr (dev dcr)\<rparr> else dcr)"

definition discard_short :: "DCR \<Rightarrow> DEV_BLOCK \<Rightarrow> DCR \<times> DEV_BLOCK" where
  "discard_short dcr block =
     (on_dev set_short_block (set_errno EIO dcr), block\<lparr>read_len := 0, binbuf := 0\<rparr>)"

text \<open>
  \<open>unser_block_header\<close> reports an identifier that is neither of version 1 nor of version 2 as a fatal
  error of the job, other damage only as an error, and it reports only the first error of a block
  buffer (more with \<open>verbose\<close> above one).
\<close>

definition unknown_block_id :: "DEV_BLOCK \<Rightarrow> bool" where
  "unknown_block_id block \<longleftrightarrow> \<not> adata block \<and> \<not> no_header block \<and>
     (case mem_read (buf block) 15 1 of Some [c] \<Rightarrow> c \<noteq> 0x31 \<and> c \<noteq> 0x32 | _ \<Rightarrow> False)"

text \<open>
  The header of a block that was read. A block of 80 bytes on a volume that may carry ANSI labels is
  skipped; \<open>labels\<close> says whether the volume and the device use Bacula labels only. With \<open>forge_on\<close> a
  fatal error of the header is taken back and the search goes on one byte further.
\<close>

definition check_read_block :: "bool \<Rightarrow> bool \<Rightarrow> DCR \<Rightarrow> DEV_BLOCK \<Rightarrow> (read_step \<times> DCR \<times> DEV_BLOCK) outcome" where
  "check_read_block forge_on labels dcr block =
     (if adata block then Ret (Go_on, dcr, block\<lparr>binbuf := read_len block, block_len := read_len block\<rparr>)
      else if read_len block = 80 \<and> \<not> labels then Ret (Reread, on_dev clear_eof dcr, block)
      else if read_len block < of_nat BLKHDR2_LENGTH then
        (case discard_short dcr block of (dcr, block) \<Rightarrow> Ret (Leave False, dcr, block))
      else
        bind_outcome (unser_block_header forge_on (dev dcr) block) (\<lambda>(ok, d, block).
          (let dcr = dcr\<lparr>dev := d\<rparr>
           in if ok then Ret (Go_on, dcr, block)
              else if forge_on then
                (let dcr = on_dev (\<lambda>d. d\<lparr>file_addr := file_addr d + 1, file_size := file_size d + 1\<rparr>) dcr;
                     block = set_block_position dcr block
                 in Ret (Reread, dev_lseek (unat (BlockAddr block)) dcr, block))
              else Ret (Leave False, if unknown_block_id block \<and> read_errors block = 1 then Jmsg_fatal dcr else dcr, block))))"

text \<open>A block larger than the buffer: back to its start, with a buffer of its size.\<close>

definition grow_buffer :: "sd_env \<Rightarrow> DCR \<Rightarrow> DEV_BLOCK \<Rightarrow> read_step \<times> DCR \<times> DEV_BLOCK" where
  "grow_buffer env dcr block =
     (let dcr = set_errno EIO dcr;
          (ok, dcr) = (if is_tape (dev dcr) then env_bsr env dcr
                       else (let pos = fpos dcr - unat (read_len block)
                             in (True, on_dev (\<lambda>d. d\<lparr>file_addr := of_nat pos\<rparr>) (dev_lseek pos dcr))))
      in if \<not> ok then (Leave False, dcr, block\<lparr>read_len := 0\<rparr>)
         else
           (let dcr = on_dev (\<lambda>d. d\<lparr>max_block_size := block_len block\<rparr>) dcr;
                block = block\<lparr>buf_len := block_len block, buf := env_memory env (unat (block_len block))\<rparr>
            in (Reread, dcr, empty_block block)))"

text \<open>
  The bookkeeping of a good block: counters, the address of the last byte, and on disk the seek back
  over what was read behind the block.
\<close>

definition note_read :: "DCR \<Rightarrow> DEV_BLOCK \<Rightarrow> DCR \<times> DEV_BLOCK" where
  "note_read dcr block =
     (let dcr = on_dev (updateVolCatReadBytes (ucast (read_len block)) \<circ> updateVolCatReads 1 \<circ> clear_eof \<circ> clear_short_block) dcr;
          dcr = (if is_tape (dev dcr) then
                   (let dcr = on_dev (\<lambda>d. d\<lparr>dev_EndAddr := get_full_addr d\<rparr>) dcr;
                        dcr = (if dcr_EndAddr dcr < dev_EndAddr (dev dcr)
                               then dcr\<lparr>dcr_EndAddr := dev_EndAddr (dev dcr)\<rparr> else dcr)
                    in on_dev (\<lambda>d. d\<lparr>block_num := block_num d + 1\<rparr>) dcr)
                 else
                   (let len = min (read_len block) (block_len block);
                        addr = get_full_addr (dev dcr) + ucast len - 1;
                        dcr = (if dcr_EndAddr dcr < addr then dcr\<lparr>dcr_EndAddr := addr\<rparr> else dcr)
                    in on_dev (\<lambda>d. d\<lparr>dev_EndAddr := addr\<rparr>) dcr));
          dcr = dcr\<lparr>dcr_VolMediaId := VolMediaId (VolCatInfo (dev dcr))\<rparr>;
          dcr = on_dev (\<lambda>d. d\<lparr>file_addr := file_addr d + ucast (read_len block),
                  file_size := file_size d + ucast (read_len block), usage := usage d + ucast (read_len block)\<rparr>) dcr;
          dcr = (if block_len block < read_len block \<and> \<not> is_tape (dev dcr) then
                   (let pos = fpos dcr - (unat (read_len block) - unat (block_len block))
                    in on_dev (\<lambda>d. d\<lparr>file_addr := of_nat pos, file_size := of_nat pos\<rparr>) (dev_lseek pos dcr))
                 else dcr)
      in (dcr, block\<lparr>block_read := True\<rparr>))"

section \<open>\<open>read_block_from_dev\<close>\<close>

text \<open>
  From the label \<open>reread\<close>: one attempt to read and check. \<open>looping\<close> counts the blocks that did not
  fit the buffer.
\<close>

definition read_attempt :: "sd_env \<Rightarrow> bool \<Rightarrow> bool \<Rightarrow> nat \<Rightarrow> DCR \<Rightarrow> DEV_BLOCK
    \<Rightarrow> (read_step \<times> nat \<times> DCR \<times> DEV_BLOCK) outcome" where
  "read_attempt env forge_on labels looping dcr block =
     (if 1 < looping then Ret (Leave False, looping, set_errno EIO dcr, block\<lparr>read_len := 0\<rparr>)
      else
        (let dcr = (if dev_adata (dev dcr) then dev_lseek (unat (BlockAddr block)) dcr else dcr)
         in case read_fill (unat (buf_len block)) [] dcr of
           (stat, err, bs, dcr) \<Rightarrow>
             bind_outcome (from_option Out_of_bounds (mem_write (buf block) 0 bs)) (\<lambda>b.
             (let block = block\<lparr>buf := b\<rparr>
              in if stat < 0 then
                   (let dcr = on_dev (clrerror err) dcr;
                        dcr = (if at_eof (dev dcr) then on_dev set_eot dcr else dcr)
                    in Ret (Leave False, looping, dcr, block\<lparr>read_len := 0\<rparr>))
                 else if bs = [] then
                   Ret (Leave False, looping, end_of_file dcr, block\<lparr>read_len := 0\<rparr>)
                 else
                   bind_outcome (check_read_block forge_on labels dcr (block\<lparr>read_len := of_nat (length bs)\<rparr>))
                     (\<lambda>(step, dcr, block).
                       if step \<noteq> Go_on then Ret (step, looping, dcr, block)
                       else if buf_len block < block_len block then
                         (case grow_buffer env dcr block of (step, dcr, block) \<Rightarrow>
                            Ret (step, if step = Reread then looping + 1 else looping, dcr, block))
                       else if read_len block < block_len block then
                         (case discard_short dcr block of (dcr, block) \<Rightarrow> Ret (Leave False, looping, dcr, block))
                       else
                         (case note_read dcr block of (dcr, block) \<Rightarrow> Ret (Leave True, looping, dcr, block)))))))"

partial_function (option) read_attempts :: "sd_env \<Rightarrow> bool \<Rightarrow> bool \<Rightarrow> nat \<Rightarrow> DCR \<Rightarrow> DEV_BLOCK
    \<Rightarrow> (bool \<times> DCR \<times> DEV_BLOCK) outcome option" where
  "read_attempts env forge_on labels looping dcr block =
     (case read_attempt env forge_on labels looping dcr block of
        Dies e \<Rightarrow> Some (Dies e)
      | Ret (Leave ok, looping, dcr, block) \<Rightarrow> Some (Ret (ok, dcr, block))
      | Ret (_, looping, dcr, block) \<Rightarrow> read_attempts env forge_on labels looping dcr block)"

definition B_BACULA_LABEL :: int32_t where "B_BACULA_LABEL = 0"

definition read_block_from_dev :: "sd_env \<Rightarrow> bool \<Rightarrow> DCR \<Rightarrow> DEV_BLOCK
    \<Rightarrow> (bool \<times> DCR \<times> DEV_BLOCK) outcome option" where
  "read_block_from_dev env forge_on dcr block =
     (if job_canceled dcr then Some (Ret (False, dcr, block\<lparr>read_len := 0\<rparr>))
      else if \<not> enabled (dev dcr) then Some (Ret (False, Jmsg_fatal dcr, block))
      else if at_eot (dev dcr) then Some (Ret (False, dcr, block\<lparr>read_len := 0\<rparr>))
      else if \<not> is_open (dev dcr) then Some (Ret (False, Jmsg_fatal dcr, block\<lparr>read_len := 0\<rparr>))
      else
        (let labels = (LabelType (dcr_VolCatInfo dcr) = B_BACULA_LABEL \<and> label_type (dev dcr) = B_BACULA_LABEL)
         in read_attempts env forge_on labels 0 dcr (set_block_position dcr block)))"

section \<open>Reading ends\<close>

text \<open>What a read may change: it moves forward over bytes that are there, on the same device.\<close>

definition moves :: "nat \<Rightarrow> DCR \<Rightarrow> DCR \<Rightarrow> bool" where
  "moves n c c' \<longleftrightarrow> volume c' = volume c \<and> fpos c' = fpos c + n \<and> (0 < n \<longrightarrow> fpos c' \<le> length (volume c)) \<and>
     dev_adata (dev c') = dev_adata (dev c) \<and> dev_type (dev c') = dev_type (dev c)"

lemma moves_trans: "moves m c c' \<Longrightarrow> moves n c' c'' \<Longrightarrow> moves (m + n) c c''"
  by (auto simp: moves_def)

lemma moves_dev:
  "moves n c c' \<Longrightarrow> dev_adata (f (dev c')) = dev_adata (dev c') \<Longrightarrow> dev_type (f (dev c')) = dev_type (dev c') \<Longrightarrow>
     moves n c (on_dev f c')"
  by (auto simp: moves_def)

lemma d_read_moves: "d_read n c = (stat, err, bs, c') \<Longrightarrow> moves (length bs) c c'"
  by (auto simp: d_read_def Let_def moves_def split: list.splits read_result.splits)

lemma read_tries_moves: "read_tries left n c = (stat, err, bs, c') \<Longrightarrow> moves (length bs) c c'"
proof (induction left arbitrary: c)
  case 0
  then show ?case by (subst (asm) read_tries.simps) (auto split: prod.splits dest: d_read_moves)
next
  case (Suc left)
  obtain st er b1 c1 where r: "d_read n c = (st, er, b1, c1)" by (metis prod_cases4)
  have m: "moves (length b1) c c1" by (rule d_read_moves [OF r])
  show ?case
  proof (cases "st = - 1 \<and> (er = EBUSY \<or> er = EINTR \<or> er = EIO)")
    case True
    then have "b1 = []" using r by (auto simp: d_read_def Let_def split: list.splits read_result.splits)
    let ?c = "if er = EBUSY then on_dev (clrerror er) c1 else c1"
    have "read_tries left n ?c = (stat, err, bs, c')"
      using Suc.prems True r by (subst (asm) read_tries.simps) simp
    then have "moves (length bs) ?c c'" by (rule Suc.IH)
    moreover have "moves 0 c ?c" using m \<open>b1 = []\<close> by (simp add: moves_def clrerror_def Let_def)
    ultimately show ?thesis using moves_trans by fastforce
  next
    case False
    then show ?thesis using Suc.prems m r by (subst (asm) read_tries.simps) auto
  qed
qed

lemma read_fill_moves: "read_fill n acc c = (stat, err, bs, c') \<Longrightarrow> \<exists>k. length bs = length acc + k \<and> moves k c c'"
proof (induction n acc c rule: read_fill.induct)
  case (1 n acc c)
  obtain st er b1 c1 where r: "read_tries 3 (n - length acc) c = (st, er, b1, c1)" by (metis prod_cases4)
  have m: "moves (length b1) c c1" by (rule read_tries_moves [OF r])
  show ?case
  proof (cases "length (acc @ b1) < n \<and> 0 < st \<and> b1 \<noteq> [] \<and> dev_type (dev c1) = B_FIFO_DEV")
    case True
    then have "read_fill n (acc @ b1) c1 = (stat, err, bs, c')"
      using "1.prems" r by (subst (asm) read_fill.simps) (simp add: Let_def)
    then obtain k where "length bs = length (acc @ b1) + k" "moves k c1 c'"
      using "1.IH" [OF r [symmetric] refl refl refl True] by blast
    then show ?thesis using moves_trans [OF m] by (intro exI [of _ "length b1 + k"]) simp
  next
    case False
    then show ?thesis
      using "1.prems" r m by (subst (asm) read_fill.simps) (auto simp: Let_def split: if_splits)
  qed
qed

text \<open>
  An attempt that is repeated has grown the buffer, or has moved forward over an 80-byte label.
\<close>

lemma check_reread:
  assumes "check_read_block False labels c b = Ret (step, c', b')"
  shows "step \<noteq> Go_on \<longrightarrow> step = Reread \<longrightarrow> c' = on_dev clear_eof c" and "moves n c0 c \<Longrightarrow> moves n c0 c'"
proof -
  have dev: "unser_block_header False d b = Ret (ok, d', b') \<Longrightarrow> dev_adata d' = dev_adata d \<and> dev_type d' = dev_type d"
    for d ok d' b b'
    by (auto simp: unser_block_header_def unser_adata_block_def check_block_def reject_block_def Let_def
        bind_outcome_Ret_iff split: if_splits prod.splits)
  show "step \<noteq> Go_on \<longrightarrow> step = Reread \<longrightarrow> c' = on_dev clear_eof c"
    using assms by (auto simp: check_read_block_def Let_def discard_short_def bind_outcome_Ret_iff split: if_splits)
  show "moves n c0 c \<Longrightarrow> moves n c0 c'"
    using assms
    by (auto simp: check_read_block_def Let_def discard_short_def bind_outcome_Ret_iff set_errno_def Jmsg_fatal_def
        clear_eof_def set_short_block_def moves_def dest!: dev split: if_splits)
qed

lemma grow_reread:
  assumes "grow_buffer env c b = (step, c', b')" and "\<not> is_tape (dev c)"
  shows "dev_adata (dev c') = dev_adata (dev c)" and "dev_type (dev c') = dev_type (dev c)"
    and "step = Reread \<or> step = Leave False"
  using assms by (auto simp: grow_buffer_def Let_def set_errno_def is_tape_def dev_lseek_def split: if_splits)

lemma attempt_progress:
  assumes att: "read_attempt env False labels looping c b = Ret (step, l', c', b')" and rep: "\<forall>ok. step \<noteq> Leave ok"
    and dev: "\<not> dev_adata (dev c)" "\<not> is_tape (dev c)"
  shows "\<not> dev_adata (dev c') \<and> \<not> is_tape (dev c') \<and> (l' = Suc looping \<and> looping \<le> 1 \<or>
     l' = looping \<and> volume c' = volume c \<and> fpos c < fpos c' \<and> fpos c' \<le> length (volume c'))"
proof -
  obtain stat err bs c1 where fill: "read_fill (unat (buf_len b)) [] c = (stat, err, bs, c1)" by (metis prod_cases4)
  have mv: "moves (length bs) c c1" using read_fill_moves [OF fill] by auto
  have one: "\<not> 1 < looping" using att rep by (auto simp: read_attempt_def)
  obtain nb where put: "mem_write (buf b) 0 bs = Some nb"
    using att one dev(1) fill
    by (cases "mem_write (buf b) 0 bs") (simp_all add: read_attempt_def Let_def)
  have more: "\<not> stat < 0" "bs \<noteq> []"
    using att rep one dev(1) fill put by (auto simp: read_attempt_def Let_def split: if_splits)
  let ?b = "b\<lparr>buf := nb, read_len := of_nat (length bs)\<rparr>"
  obtain step2 c2 b2 where chk: "check_read_block False labels c1 ?b = Ret (step2, c2, b2)"
    using att one dev(1) fill put more
    by (cases "check_read_block False labels c1 ?b") (auto simp: read_attempt_def Let_def)
  have mv2: "moves (length bs) c c2" by (rule check_reread(2) [OF chk mv])
  then have dev2: "\<not> dev_adata (dev c2)" "\<not> is_tape (dev c2)" using dev by (auto simp: moves_def is_tape_def)
  show ?thesis
  proof (cases "step2 = Go_on")
    case False
    then have "l' = looping" "c' = c2"
      using att one dev(1) fill put more chk by (simp_all add: read_attempt_def Let_def)
    then show ?thesis using mv2 dev2 more(2) by (auto simp: moves_def)
  next
    case True
    obtain step3 c3 b3 where g: "grow_buffer env c2 b2 = (step3, c3, b3)" by (metis prod_cases3)
    have "c' = c3 \<and> l' = Suc looping"
      using att one dev(1) fill put more chk True g rep grow_reread(3) [OF g dev2(2)]
      by (auto simp: read_attempt_def Let_def discard_short_def note_read_def split: if_splits prod.splits)
    then show ?thesis using grow_reread [OF g dev2(2)] dev2 one by (auto simp: is_tape_def)
  qed
qed

lemma read_attempts_return:
  assumes "\<not> dev_adata (dev c)" and "\<not> is_tape (dev c)"
  shows "\<exists>r. read_attempts env False labels looping c b = Some r"
  using assms
proof (induction "(2 - looping, length (volume c) - fpos c)" arbitrary: looping c b
    rule: wf_induct_rule [OF wf_lex_prod [OF wf_less_than wf_less_than]])
  case 1
  show ?case
  proof (cases "read_attempt env False labels looping c b")
    case (Dies e)
    then show ?thesis by (subst read_attempts.simps) simp
  next
    case (Ret x)
    then obtain step l' c' b' where att: "read_attempt env False labels looping c b = Ret (step, l', c', b')"
      by (cases x) auto
    show ?thesis
    proof (cases "\<exists>ok. step = Leave ok")
      case True
      then show ?thesis using att by (subst read_attempts.simps) auto
    next
      case False
      then have p: "\<not> dev_adata (dev c')" "\<not> is_tape (dev c')" "l' = Suc looping \<and> looping \<le> 1 \<or>
          l' = looping \<and> volume c' = volume c \<and> fpos c < fpos c' \<and> fpos c' \<le> length (volume c')"
        using attempt_progress [OF att _ "1.prems"] by auto
      then have "((2 - l', length (volume c') - fpos c'), (2 - looping, length (volume c) - fpos c))
          \<in> less_than <*lex*> less_than" by auto
      then have "\<exists>r. read_attempts env False labels l' c' b' = Some r" using "1.hyps" p(1,2) by blast
      moreover have "read_attempts env False labels looping c b = read_attempts env False labels l' c' b'"
        using att False by (subst read_attempts.simps) (cases step; auto)
      ultimately show ?thesis by simp
    qed
  qed
qed



end
