(* ===== verification/BlockWrite.thy ===== *)
theory BlockWrite
  imports BlockRead
begin

text \<open>
  Writing a block to a volume: the job media index (\<^verbatim>\<open>stored/askdir.c\<close>), the bookkeeping at the end of a
  file or a volume (\<^verbatim>\<open>stored/block_util.c\<close>, \<^verbatim>\<open>stored/dev.c\<close>, \<^verbatim>\<open>stored/device.c\<close>), and
  \<open>write_block_to_dev\<close> and \<open>write_block_to_device\<close> of \<^verbatim>\<open>stored/block.c\<close>. Locks are left out, and so are
  the other jobs attached to the device. The answers of the Director are fields of \<open>sd_env\<close>.
\<close>

section \<open>The job media index\<close>

text \<open>
  \<open>flush_jobmedia_queue\<close>: the records go to the Director, those of an incomplete job cut back to the
  files that were saved completely. The queue is emptied whatever the answer is.
\<close>

definition flush_filemedia_queue :: bool where
  "flush_filemedia_queue = True"

definition trim_item :: "DCR \<Rightarrow> JOBMEDIA_ITEM \<Rightarrow> JOBMEDIA_ITEM option" where
  "trim_item dcr item =
     (if JobStatus dcr = JS_Incomplete then
        (if lastFileIndex dcr \<le> jm_VolFirstIndex item then None
         else if lastFileIndex dcr \<le> jm_VolLastIndex item
         then Some (item\<lparr>jm_VolLastIndex := lastFileIndex dcr - 1\<rparr>) else Some item)
      else Some item)"

definition flush_jobmedia_queue :: "sd_env \<Rightarrow> DCR \<Rightarrow> bool \<times> DCR" where
  "flush_jobmedia_queue env dcr =
     (if \<not> flush_filemedia_queue then (False, dcr)
      else if jobmedia_queue dcr = [] then (True, dcr)
      else
        (let items = List.map_filter (trim_item dcr) (jobmedia_queue dcr);
             dcr = dcr\<lparr>jobmedia_queue := []\<rparr>
         in if env_jobmedia env items then (True, dcr\<lparr>jobmedia_sent := jobmedia_sent dcr @ items\<rparr>)
            else (False, Jmsg_fatal dcr)))"

definition jobmedia_item :: "DCR \<Rightarrow> bool \<Rightarrow> JOBMEDIA_ITEM" where
  "jobmedia_item dcr zero =
     (if zero then
        \<lparr>jm_VolMediaId = dcr_VolMediaId dcr, jm_StartAddr = 0, jm_EndAddr = 0, jm_VolFirstIndex = 0,
         jm_VolLastIndex = 0, jm_StartFile = 0, jm_EndFile = 0, jm_StartBlock = 0, jm_EndBlock = 0\<rparr>
      else
        \<lparr>jm_VolMediaId = dcr_VolMediaId dcr, jm_StartAddr = dcr_StartAddr dcr, jm_EndAddr = dcr_EndAddr dcr,
         jm_VolFirstIndex = VolFirstIndex dcr, jm_VolLastIndex = VolLastIndex dcr,
         jm_StartFile = ucast (drop_bit 32 (dcr_StartAddr dcr)), jm_EndFile = ucast (drop_bit 32 (dcr_EndAddr dcr)),
         jm_StartBlock = ucast (dcr_StartAddr dcr), jm_EndBlock = ucast (dcr_EndAddr dcr)\<rparr>)"

definition clear_index :: "DCR \<Rightarrow> DCR" where
  "clear_index dcr = dcr\<lparr>VolFirstIndex := 0, VolLastIndex := 0, dcr_StartAddr := 0, dcr_EndAddr := 0,
     dcr_VolMediaId := 0, WroteVol := False\<rparr>"

definition dir_create_jobmedia_record :: "sd_env \<Rightarrow> bool \<Rightarrow> DCR \<Rightarrow> bool \<times> DCR" where
  "dir_create_jobmedia_record env zero dcr =
     (if \<not> zero \<and> \<not> WroteVol dcr then (True, dcr)
      else if \<not> zero \<and> VolLastIndex dcr = 0 then (True, dcr)
      else if \<not> zero \<and> dcr_EndAddr dcr < dcr_StartAddr dcr then (True, dcr)
      else if system_job dcr then (True, dcr)
      else if \<not> zero \<and> VolFirstIndex dcr = 0 \<and> (dcr_StartAddr dcr \<noteq> 0 \<or> dcr_EndAddr dcr \<noteq> 0) then (True, dcr)
      else
        (let dcr = (if JobStatus dcr = JS_Incomplete then dcr\<lparr>VolLastIndex := lastFileIndex dcr\<rparr> else dcr);
             dcr = dcr\<lparr>jobmedia_queue := jobmedia_queue dcr @ [jobmedia_item dcr zero]\<rparr>;
             (ok, dcr) = (if zero \<or> 1000 \<le> length (jobmedia_queue dcr) then flush_jobmedia_queue env dcr
                          else (True, dcr))
         in (ok, clear_index dcr)))"

section \<open>The catalog record of the volume\<close>

text \<open>
  \<open>dir_update_volume_info\<close>: the Director gets the counters and answers with the record of the
  catalog, from which the device takes the fields listed. It is called with \<open>label\<close> false and
  without \<open>use_dcr_only\<close> here. \<open>sent_volinfo\<close> is what the Director gets; the time and the type of
  the device, which it gets as well, are not in the record.
\<close>

definition take_volinfo :: "VOLUME_CAT_INFO \<Rightarrow> VOLUME_CAT_INFO \<Rightarrow> VOLUME_CAT_INFO" where
  "take_volinfo v d = d\<lparr>Slot := Slot v, VolCatStatus := VolCatStatus v, VolCatAdataBytes := VolCatAdataBytes v,
     VolCatAmetaBytes := VolCatAmetaBytes v, VolCatHoleBytes := VolCatHoleBytes v, VolCatHoles := VolCatHoles v,
     VolCatPadding := VolCatPadding v, VolCatAmetaPadding := VolCatAmetaPadding v,
     VolCatAdataPadding := VolCatAdataPadding v, VolCatFiles := VolCatFiles v, VolCatBytes := VolCatBytes v,
     VolCatMounts := VolCatMounts v, VolCatJobs := VolCatJobs v, VolCatRecycles := VolCatRecycles v,
     VolCatWrites := VolCatWrites v, VolCatReads := VolCatReads v, VolEnabled := VolEnabled v,
     VolCatMaxBytes := VolCatMaxBytes v, VolRecycle := VolRecycle v, BytesWritten := 0\<rparr>"

definition sent_volinfo :: "DEVICE \<Rightarrow> VOLUME_CAT_INFO \<Rightarrow> VOLUME_CAT_INFO" where
  "sent_volinfo d vol =
     (let vol = (if is_worm d \<and> VolRecycle vol then vol\<lparr>VolRecycle := False\<rparr> else vol)
      in if 2 ^ 61 < VolCatHoleBytes vol then vol\<lparr>VolCatHoleBytes := 0\<rparr> else vol)"

definition dir_update_volume_info :: "sd_env \<Rightarrow> DCR \<Rightarrow> bool \<times> DCR" where
  "dir_update_volume_info env dcr =
     (if system_job dcr \<and> \<not> force_update_volume_info dcr then (True, dcr)
      else
        (let vol = VolCatInfo (dev dcr);
             dcr = on_dev (\<lambda>d. d\<lparr>VolCatInfo := (VolCatInfo d)\<lparr>BytesWritten := 0\<rparr>\<rparr>) dcr
         in if VolCatName vol = [] then (False, dcr)
            else if job_canceled dcr then (False, dcr)
            else case env_volinfo env (sent_volinfo (dev dcr) vol) of
                   None \<Rightarrow> (False, Jmsg_fatal (dcr\<lparr>dcr_VolCatInfo := (dcr_VolCatInfo dcr)\<lparr>is_valid := False\<rparr>\<rparr>))
                 | Some v \<Rightarrow>
                     (let v = v\<lparr>is_valid := True, VolCatBytes := VolCatAmetaBytes v + VolCatAdataBytes v\<rparr>;
                          dcr = dcr\<lparr>dcr_VolumeName := VolCatName v, dcr_VolCatInfo := v\<rparr>
                      in (True, on_dev (\<lambda>d. d\<lparr>VolCatInfo := take_volinfo v (VolCatInfo d)\<rparr>) dcr))))"

section \<open>New files and volumes\<close>

definition set_start_vol_position :: "DCR \<Rightarrow> DCR" where
  "set_start_vol_position dcr =
     dcr\<lparr>dcr_StartAddr := get_full_addr (dev dcr), dcr_EndAddr := get_full_addr (dev dcr)\<rparr>"

definition set_new_file_parameters :: "DCR \<Rightarrow> DCR" where
  "set_new_file_parameters dcr =
     (set_start_vol_position dcr)\<lparr>VolFirstIndex := 0, VolLastIndex := 0, NewFile := False, WroteVol := False\<rparr>"

text \<open>\<open>env_wait_volume\<close> waits for a volume name if there is none yet and asks for the volume's record.\<close>

definition set_new_volume_parameters :: "sd_env \<Rightarrow> DCR \<Rightarrow> DCR" where
  "set_new_volume_parameters env dcr =
     (let dcr = (if NewVol dcr then env_wait_volume env dcr else dcr);
          dcr = set_new_file_parameters dcr
      in dcr\<lparr>NumWriteVolumes := NumWriteVolumes dcr + 1, NewVol := False\<rparr>)"

definition notify_newvol_in_attached_dcrs :: "DCR \<Rightarrow> DCR" where
  "notify_newvol_in_attached_dcrs dcr =
     (if JobId dcr = 0 then dcr else dcr\<lparr>NewVol := True, NewFile := True\<rparr>)"

definition notify_newfile_in_attached_dcrs :: "DCR \<Rightarrow> DCR" where
  "notify_newfile_in_attached_dcrs dcr = (if JobId dcr = 0 then dcr else dcr\<lparr>NewFile := True\<rparr>)"

definition weof :: "sd_env \<Rightarrow> DCR \<Rightarrow> bool \<times> DCR" where
  "weof env dcr =
     (if is_tape (dev dcr) then env_tape_weof env dcr
      else (case DEVICE_weof (dev dcr) of (ok, d) \<Rightarrow> (ok, dcr\<lparr>dev := d\<rparr>)))"

definition end_of_volume :: "sd_env \<Rightarrow> DCR \<Rightarrow> bool \<times> DCR" where
  "end_of_volume env dcr = (if is_tape (dev dcr) then env_eov_labels env dcr else (True, dcr))"

text \<open>The three counters taken from the device before the catalog is updated.\<close>

definition note_files :: "DEVICE \<Rightarrow> DEVICE" where
  "note_files d = d\<lparr>VolCatInfo := (VolCatInfo d)\<lparr>VolCatFiles := get_file d, VolLastPartBytes := part_size d,
     VolCatParts := part d\<rparr>\<rparr>"

definition count_error :: "DEVICE \<Rightarrow> DEVICE" where
  "count_error d = d\<lparr>VolCatInfo := (VolCatInfo d)\<lparr>VolCatErrors := VolCatErrors (VolCatInfo d) + 1\<rparr>\<rparr>"

definition mark_full :: "DEVICE \<Rightarrow> DEVICE" where
  "mark_full d =
     (if VolCatStatus (VolCatInfo d) = ''Append''
      then d\<lparr>VolCatInfo := (VolCatInfo d)\<lparr>VolCatStatus := ''Full''\<rparr>\<rparr> else d)"

text \<open>
  \<open>terminate_writing_volume\<close> of a device without an aligned part: the last index record, an end of
  file, the final state of the volume in the catalog, and no more writing.
\<close>

definition terminate_writing_volume :: "sd_env \<Rightarrow> DCR \<Rightarrow> DEV_BLOCK \<Rightarrow> bool \<times> DCR \<times> DEV_BLOCK" where
  "terminate_writing_volume env dcr block =
     (if is_ateot (dev dcr) then (True, dcr, block)
      else
        (let dcr = on_dev note_files dcr;
             (created, dcr) = dir_create_jobmedia_record env False dcr;
             dcr = (if created then dcr else Jmsg_fatal (set_errno EIO dcr));
             ok = created;
             (_, dcr) = flush_jobmedia_queue env dcr;
             block = block\<lparr>write_failed := True\<rparr>;
             (eof, dcr) = (if can_append (dev dcr) then weof env dcr else (True, dcr));
             dcr = (if eof then dcr else on_dev count_error dcr);
             ok = (ok \<and> eof);
             (ok, dcr) = (if ok then end_of_volume env dcr else (ok, dcr));
             dcr = on_dev mark_full dcr;
             (updated, dcr) = dir_update_volume_info env dcr;
             ok = (ok \<and> updated);
             dcr = set_new_file_parameters (notify_newvol_in_attached_dcrs dcr);
             dcr = (if ok \<and> has_cap (dev dcr) CAP_TWOEOF \<and> can_append (dev dcr) then
                      (case weof env dcr of (eof, dcr) \<Rightarrow> if eof then dcr else on_dev count_error dcr)
                    else dcr)
         in (ok, on_dev set_ateot dcr, block)))"

definition check_for_newvol_or_newfile :: "sd_env \<Rightarrow> DCR \<Rightarrow> bool \<times> DCR" where
  "check_for_newvol_or_newfile env dcr =
     (if NewVol dcr \<or> NewFile dcr then
        (if job_canceled dcr then (False, dcr)
         else
           (let (created, dcr) = (if VolFirstIndex dcr \<noteq> 0 then dir_create_jobmedia_record env False dcr
                                  else (True, dcr))
            in if \<not> created then
                 (False, set_new_volume_parameters env (Jmsg_fatal (set_errno EIO dcr)))
               else if NewVol dcr then
                 (True, set_new_volume_parameters env (snd (flush_jobmedia_queue env dcr)))
               else (True, set_new_file_parameters dcr)))
      else (True, dcr))"

definition do_new_file_bookkeeping :: "sd_env \<Rightarrow> DCR \<Rightarrow> DEV_BLOCK \<Rightarrow> bool \<times> DCR \<times> DEV_BLOCK" where
  "do_new_file_bookkeeping env dcr block =
     (let (created, dcr) = dir_create_jobmedia_record env False dcr
      in if \<not> created then
           (case terminate_writing_volume env (Jmsg_fatal (set_errno EIO dcr)) block of
              (_, dcr, block) \<Rightarrow> (False, set_errno EIO dcr, block))
         else
           (let dcr = on_dev note_files dcr;
                (updated, dcr) = dir_update_volume_info env dcr
            in if \<not> updated then
                 (case terminate_writing_volume env dcr block of
                    (_, dcr, block) \<Rightarrow> (False, set_errno EIO dcr, block))
               else (True, set_new_file_parameters (notify_newfile_in_attached_dcrs dcr), block)))"

text \<open>
  \<open>reread_last_block\<close>, on a tape that can back up: over the end-of-file marks and the last block,
  which is read again into a buffer of its own and its number compared with the last one written.
  The comparison shows only in messages, a fatal one when the numbers differ by more than one.
\<close>

definition reread_last_block :: "sd_env \<Rightarrow> bool \<Rightarrow> DCR \<Rightarrow> DCR outcome option" where
  "reread_last_block env forge_on dcr =
     (if is_tape (dev dcr) \<and> has_cap (dev dcr) CAP_BSR then
        (let (ok, dcr) = env_bsf env dcr;
             (ok, dcr) = (if ok \<and> has_cap (dev dcr) CAP_TWOEOF then env_bsf env dcr else (ok, dcr));
             (ok, dcr) = (if ok then env_bsr env dcr else (ok, dcr))
         in if \<not> ok then Some (Ret dcr)
            else
              (case read_block_from_dev env forge_on dcr
                      (new_block (max_block_size (dev dcr)) 0 (env_memory env)) of
                 None \<Rightarrow> None
               | Some (Dies e) \<Rightarrow> Some (Dies e)
               | Some (Ret (ok, dcr, block)) \<Rightarrow>
                   if ok \<and> BlockNumber block \<noteq> LastBlock (dev dcr) \<and> BlockNumber block + 1 < LastBlock (dev dcr)
                   then Some (Ret (Jmsg_fatal dcr)) else Some (Ret dcr)))
      else Some (Ret dcr))"

text \<open>\<open>do_size_checks\<close>: the limits of the volume, then the limit of a file on the volume.\<close>

definition do_size_checks :: "sd_env \<Rightarrow> bool \<Rightarrow> DCR \<Rightarrow> DEV_BLOCK
    \<Rightarrow> (bool \<times> DCR \<times> DEV_BLOCK) outcome option" where
  "do_size_checks env forge_on dcr block =
     (if is_user_volume_size_reached (dev dcr) block block then
        (case terminate_writing_volume env dcr block of
           (_, dcr, block) \<Rightarrow>
             (case reread_last_block env forge_on dcr of
                None \<Rightarrow> None
              | Some (Dies e) \<Rightarrow> Some (Dies e)
              | Some (Ret dcr) \<Rightarrow> Some (Ret (False, set_errno ENOSPC dcr, block))))
      else if 0 < max_file_size (dev dcr) \<and>
              max_file_size (dev dcr) \<le> file_size (dev dcr) + ucast (binbuf block) then
        (let dcr = on_dev (\<lambda>d. d\<lparr>file_size := 0\<rparr>) dcr;
             (eof, dcr) = weof env dcr
         in if \<not> eof then
              (case terminate_writing_volume env (Jmsg_fatal dcr) block of
                 (_, dcr, block) \<Rightarrow> Some (Ret (False, set_errno ENOSPC dcr, block)))
            else Some (Ret (do_new_file_bookkeeping env dcr block)))
      else Some (Ret (True, dcr, block)))"

section \<open>Writing the block\<close>

text \<open>One system call, repeated at most three times while it is busy or fails.\<close>

fun write_tries :: "nat \<Rightarrow> byte list \<Rightarrow> DCR \<Rightarrow> int \<times> errno \<times> DCR" where
  "write_tries left bs dcr =
     (case d_write bs dcr of
        (stat, err, dcr) \<Rightarrow>
          (case left of
             Suc left' \<Rightarrow>
               if stat = - 1 \<and> (err = EBUSY \<or> err = EIO) then
                 write_tries left' bs (if err = EBUSY then on_dev (clrerror err) dcr else dcr)
               else (stat, err, dcr)
           | 0 \<Rightarrow> (stat, err, dcr)))"

declare write_tries.simps [simp del]

text \<open>
  The error path: an error of the system call is counted, everything but an error means that the
  volume is full, and the volume is not written any more.
\<close>

definition check_nospace :: "sd_env \<Rightarrow> DEVICE \<Rightarrow> DEVICE" where
  "check_nospace env d =
     (let d = update_freespace env d
      in if is_freespace_ok d \<and> free_space d < min_free_space d then set_nospace d else clear_nospace d)"

definition write_failure :: "sd_env \<Rightarrow> bool \<Rightarrow> int \<Rightarrow> errno \<Rightarrow> DCR \<Rightarrow> DEV_BLOCK
    \<Rightarrow> (bool \<times> DCR \<times> DEV_BLOCK) outcome option" where
  "write_failure env forge_on stat err dcr block =
     (let dcr = (if stat = - 1 then
                   (let dcr = on_dev (clrerror err) dcr;
                        dcr = (if dev_errno (dev dcr) = ENONE then set_errno ENOSPC dcr else dcr)
                    in if dev_errno (dev dcr) \<noteq> ENOSPC then
                         on_dev count_error (if adata block then Jmsg_fatal dcr else dcr)
                       else dcr)
                 else set_errno ENOSPC dcr);
          dcr = (if dev_errno (dev dcr) = ENOSPC then on_dev (check_nospace env) dcr else dcr)
      in case terminate_writing_volume env dcr block of
           (ok, dcr, block) \<Rightarrow>
             if ok then
               (case reread_last_block env forge_on dcr of
                  None \<Rightarrow> None
                | Some (Dies e) \<Rightarrow> Some (Dies e)
                | Some (Ret dcr) \<Rightarrow> Some (Ret (False, dcr, block)))
             else Some (Ret (False, dcr, block)))"

text \<open>
  The housekeeping after a block was written: counters of the catalog, addresses, and the range of
  files and addresses that the next index record covers.
\<close>

definition note_written :: "uint32_t \<Rightarrow> DCR \<Rightarrow> DEV_BLOCK \<Rightarrow> DCR \<times> DEV_BLOCK" where
  "note_written wlen dcr block =
     (let dcr = on_dev (updateVolCatBlocks 1 \<circ> updateVolCatBytes (ucast wlen)) dcr;
          dcr = on_dev (\<lambda>d. d\<lparr>LastBlock := BlockNumber block\<rparr>) dcr;
          block = block\<lparr>BlockNumber := BlockNumber block + 1\<rparr>;
          (dcr, block) =
            (if is_tape (dev dcr) then
               (let dcr = on_dev (\<lambda>d. d\<lparr>dev_EndAddr := get_full_addr d\<rparr>) dcr;
                    dcr = (if dcr_EndAddr dcr < dev_EndAddr (dev dcr)
                           then dcr\<lparr>dcr_EndAddr := dev_EndAddr (dev dcr)\<rparr> else dcr)
                in (on_dev (\<lambda>d. d\<lparr>block_num := block_num d + 1\<rparr>) dcr, block))
             else
               (let addr = file_addr (dev dcr) + ucast wlen - 1;
                    dcr = dcr\<lparr>dcr_EndAddr := addr\<rparr>
                in if dev_adata (dev dcr) then
                     (let block = block\<lparr>BlockAddr := BlockAddr block + ucast wlen\<rparr>
                      in (on_dev (\<lambda>d. d\<lparr>adata_addr := BlockAddr block\<rparr>) dcr, block))
                   else (dcr, block\<lparr>BlockAddr := get_full_addr (dev dcr) + ucast wlen\<rparr>)));
          dcr = dcr\<lparr>dcr_VolMediaId := VolMediaId (VolCatInfo (dev dcr))\<rparr>;
          dcr = (if VolFirstIndex dcr = 0 \<and> 0 <s FirstIndex block
                 then dcr\<lparr>VolFirstIndex := FirstIndex block\<rparr> else dcr);
          dcr = (if VolLastIndex dcr <s LastIndex block then dcr\<lparr>VolLastIndex := LastIndex block\<rparr> else dcr);
          dcr = dcr\<lparr>WroteVol := True\<rparr>;
          dcr = on_dev (\<lambda>d. d\<lparr>file_addr := file_addr d + ucast wlen, file_size := file_size d + ucast wlen,
                  usage := usage d + ucast wlen,
                  part_size := (if 0 < part d then part_size d + ucast wlen else part_size d)\<rparr>) dcr;
          dcr = on_dev (setVolCatInfo False) dcr
      in (dcr, empty_block block))"

text \<open>An aligned data block is written at its own address; holes are not counted by the base class.\<close>

definition write_to_volume :: "sd_env \<Rightarrow> bool \<Rightarrow> uint32_t \<Rightarrow> DCR \<Rightarrow> DEV_BLOCK
    \<Rightarrow> (bool \<times> DCR \<times> DEV_BLOCK) outcome option" where
  "write_to_volume env forge_on wlen dcr block =
     (let dcr = on_dev (updateVolCatWrites 1) dcr;
          dcr = (if adata block \<and> BlockAddr block \<noteq> of_nat (fpos dcr) then
                   (let dcr' = dev_lseek (unat (BlockAddr block)) dcr
                    in if BlockAddr block < of_nat (fpos dcr) then Jmsg_fatal dcr' else dcr')
                 else dcr)
      in case mem_read (buf block) 0 (unat wlen) of
           None \<Rightarrow> Some (Dies Out_of_bounds)
         | Some bs \<Rightarrow>
             (case write_tries 3 bs dcr of
                (stat, err, dcr) \<Rightarrow>
                  if stat \<noteq> int (unat wlen) then write_failure env forge_on stat err dcr block
                  else (case note_written wlen dcr block of (dcr, block) \<Rightarrow> Some (Ret (True, dcr, block)))))"

definition write_block_to_dev :: "sd_env \<Rightarrow> bool \<Rightarrow> DCR \<Rightarrow> DEV_BLOCK
    \<Rightarrow> (bool \<times> DCR \<times> DEV_BLOCK) outcome option" where
  "write_block_to_dev env forge_on dcr block =
     (if job_canceled dcr then Some (Ret (False, dcr, block))
      else if \<not> enabled (dev dcr) then Some (Ret (False, Jmsg_fatal dcr, block))
      else if adata block \<noteq> dev_adata (dev dcr) then Some (Dies Assert_failed)
      else if binbuf block \<noteq> of_nat (bufp block) then Some (Dies Assert_failed)
      else if is_block_empty block then Some (Ret (True, dcr, block))
      else if at_weot (dev dcr) then Some (Ret (False, Jmsg_fatal (set_errno ENOSPC dcr), block))
      else if \<not> can_append (dev dcr) then Some (Ret (False, Jmsg_fatal (set_errno EIO dcr), block))
      else if \<not> is_open (dev dcr) then Some (Ret (False, Jmsg_fatal dcr, block))
      else case get_len_and_clear_block (dev dcr) block of
        Dies e \<Rightarrow> Some (Dies e)
      | Ret (wlen, pad, block) \<Rightarrow>
          (let block = block\<lparr>block_len := wlen\<rparr>;
               dcr = on_dev (updateVolCatPadding (ucast pad)) dcr
           in case ser_block_header (do_checksum (dev dcr)) block of
                Dies e \<Rightarrow> Some (Dies e)
              | Ret (checksum, block) \<Rightarrow>
                  (case do_size_checks env forge_on dcr block of
                     None \<Rightarrow> None
                   | Some (Dies e) \<Rightarrow> Some (Dies e)
                   | Some (Ret (ok, dcr, block)) \<Rightarrow>
                       if \<not> ok then Some (Ret (False, dcr, block))
                       else write_to_volume env forge_on wlen dcr block)))"

section \<open>A new volume\<close>

text \<open>
  \<open>fixup_device_block_write_error\<close>: a new volume is mounted, its label and the block that could not
  be written go to it; when that fails as well, the next volume is tried, up to \<open>retries\<close> times.
  When the Director refuses the update of the new volume the routine leaves with the label block in
  place of the block it was called with.
\<close>

fun fixup_device_block_write_error :: "sd_env \<Rightarrow> bool \<Rightarrow> nat \<Rightarrow> DCR \<Rightarrow> DEV_BLOCK
    \<Rightarrow> (bool \<times> DCR \<times> DEV_BLOCK) outcome option" where
  "fixup_device_block_write_error env forge_on retries dcr block =
     (case env_mount env (clear_index dcr) of
        (mounted, dcr, label_blk) \<Rightarrow>
          if \<not> mounted then Some (Ret (False, dcr, block))
          else
            (let dcr = notify_newvol_in_attached_dcrs dcr;
                 dcr = on_dev (\<lambda>d. d\<lparr>VolCatInfo := (VolCatInfo d)\<lparr>VolCatJobs := VolCatJobs (VolCatInfo d) + 1\<rparr>\<rparr>) dcr
             in case dir_update_volume_info env dcr of
                  (updated, dcr) \<Rightarrow>
                    if \<not> updated then Some (Ret (False, dcr, label_blk))
                    else
                      (case write_block_to_dev env forge_on dcr label_blk of
                         None \<Rightarrow> None
                       | Some (Dies e) \<Rightarrow> Some (Dies e)
                       | Some (Ret (labeled, dcr, label_blk)) \<Rightarrow>
                           if \<not> labeled then Some (Ret (False, dcr, block))
                           else
                             (let dcr = set_new_volume_parameters env (dcr\<lparr>NewVol := False\<rparr>)
                              in case write_block_to_dev env forge_on dcr block of
                                   None \<Rightarrow> None
                                 | Some (Dies e) \<Rightarrow> Some (Dies e)
                                 | Some (Ret (written, dcr, block)) \<Rightarrow>
                                     if written then Some (Ret (True, dcr, block))
                                     else
                                       (case retries of
                                          0 \<Rightarrow> Some (Ret (False, Jmsg_fatal dcr, block))
                                        | Suc retries' \<Rightarrow>
                                            (case fixup_device_block_write_error env forge_on retries' dcr block of
                                               None \<Rightarrow> None
                                             | Some (Dies e) \<Rightarrow> Some (Dies e)
                                             | Some (Ret (ok, dcr, block)) \<Rightarrow>
                                                 Some (Ret (ok, if ok then dcr else Jmsg_fatal dcr, block))))))))"

declare fixup_device_block_write_error.simps [simp del]

definition final_jobmedia :: "sd_env \<Rightarrow> bool \<Rightarrow> DCR \<Rightarrow> DCR" where
  "final_jobmedia env final dcr =
     (if final then (case dir_create_jobmedia_record env False dcr of (created, dcr) \<Rightarrow>
                       if created then dcr else Jmsg_fatal dcr)
      else dcr)"

definition write_block_to_device :: "sd_env \<Rightarrow> bool \<Rightarrow> bool \<Rightarrow> DCR \<Rightarrow> DEV_BLOCK
    \<Rightarrow> (bool \<times> DCR \<times> DEV_BLOCK) outcome option" where
  "write_block_to_device env forge_on final dcr block =
     (if spooling dcr then Some (Ret (env_spool env dcr block))
      else
        (case check_for_newvol_or_newfile env dcr of
           (go_on, dcr) \<Rightarrow>
             if \<not> go_on then Some (Ret (False, dcr, block))
             else
               (case write_block_to_dev env forge_on dcr block of
                  None \<Rightarrow> None
                | Some (Dies e) \<Rightarrow> Some (Dies e)
                | Some (Ret (written, dcr, block)) \<Rightarrow>
                    if written then Some (Ret (True, final_jobmedia env final dcr, block))
                    else if job_canceled dcr \<or> system_job dcr then Some (Ret (False, dcr, block))
                    else
                      (case dir_create_jobmedia_record env False dcr of
                         (created, dcr) \<Rightarrow>
                           if \<not> created then Some (Ret (False, Jmsg_fatal dcr, block))
                           else
                             (case fixup_device_block_write_error env forge_on 4 dcr block of
                                None \<Rightarrow> None
                              | Some (Dies e) \<Rightarrow> Some (Dies e)
                              | Some (Ret (ok, dcr, block)) \<Rightarrow>
                                  Some (Ret (ok, if ok then final_jobmedia env final dcr else dcr, block)))))))"

end
