(* ===== verification/RecordWrite.thy ===== *)
theory RecordWrite
  imports VolRecord
begin

text \<open>
  Writing records into blocks (\<^verbatim>\<open>stored/record_write.c\<close>): the record header, the continuation header of
  a record that did not fit the previous block, the data, the state machine \<open>write_record_to_block\<close>
  that strings them together, and \<open>write_record\<close>, which writes full blocks to the device as it goes.
\<close>

section \<open>Headers and data\<close>

text \<open>\<open>create_filemedia\<close> does nothing in this edition.\<close>

definition create_filemedia :: "DEV_BLOCK \<Rightarrow> DEV_RECORD \<Rightarrow> DEV_BLOCK" where
  "create_filemedia block rec = block"

text \<open>\<open>FirstIndex\<close> and \<open>LastIndex\<close>: the files with data in the block.\<close>

definition note_index :: "DEV_RECORD \<Rightarrow> DEV_BLOCK \<Rightarrow> DEV_BLOCK" where
  "note_index rec block =
     (if 0 <s FileIndex rec then
        (let block = (if FirstIndex block = 0 then block\<lparr>FirstIndex := FileIndex rec\<rparr> else block)
         in block\<lparr>LastIndex := FileIndex rec\<rparr>)
      else block)"

text \<open>The session of a record goes into its header in format 1, into the block header in format 2.\<close>

definition ser_session :: "DEV_RECORD \<Rightarrow> DEV_BLOCK \<Rightarrow> (cursor \<times> DEV_BLOCK) option" where
  "ser_session rec block =
     (if BLOCK_VER = 1 then do {
        c \<leftarrow> ser_uint32 (rec_VolSessionId rec) (buf block, bufp block);
        c \<leftarrow> ser_uint32 (rec_VolSessionTime rec) c;
        Some (c, block)
      } else
        Some ((buf block, bufp block),
          block\<lparr>VolSessionId := rec_VolSessionId rec, VolSessionTime := rec_VolSessionTime rec\<rparr>))"

definition write_header_to_block :: "DEV_BLOCK \<Rightarrow> DEV_RECORD \<Rightarrow> (bool \<times> DEV_BLOCK \<times> DEV_RECORD) outcome" where
  "write_header_to_block block rec =
     (if adata block then Dies Assert_failed
      else
        (let rec = rec\<lparr>remlen := buf_len block - binbuf block\<rparr>
         in if remlen rec < of_nat WRITE_RECHDR_LENGTH then
              Ret (False, block, rec\<lparr>remainder := data_len rec + of_nat WRITE_RECHDR_LENGTH\<rparr>)
            else
              bind_outcome (from_option Out_of_bounds (do {
                  (c, block) \<leftarrow> ser_session rec block;
                  c \<leftarrow> ser_int32 (FileIndex rec) c;
                  c \<leftarrow> ser_int32 (Stream rec) c;
                  (b, p) \<leftarrow> ser_uint32 (data_len rec) c;
                  Some (block\<lparr>buf := b\<rparr>)
                })) (\<lambda>block.
              (let block = block\<lparr>bufp := bufp block + WRITE_RECHDR_LENGTH,
                                 binbuf := binbuf block + of_nat WRITE_RECHDR_LENGTH\<rparr>;
                   block = create_filemedia block rec;
                   block = block\<lparr>RecNum := RecNum block + 1\<rparr>;
                   rec = rec\<lparr>remlen := remlen rec - of_nat WRITE_RECHDR_LENGTH, remainder := data_len rec\<rparr>;
                   block = note_index rec block;
                   block = block\<lparr>extra_bytes := extra_bytes block + rec_extra_bytes rec\<rparr>
               in Ret (True, block, rec)))))"

definition write_continue_header_to_block :: "DEV_BLOCK \<Rightarrow> DEV_RECORD \<Rightarrow> (DEV_BLOCK \<times> DEV_RECORD) outcome" where
  "write_continue_header_to_block block rec =
     (if adata block then Dies Assert_failed
      else
        (let rec = rec\<lparr>remlen := buf_len block - binbuf block\<rparr>
         in if remlen rec = 0 then Ret (block, rec)
            else
              (let (strm, len, rec') =
                     (if data_len rec < remainder rec
                      then (Stream rec, data_len rec, rec\<lparr>remainder := data_len rec\<rparr>)
                      else (- Stream rec, remainder rec, rec))
               in bind_outcome (from_option Out_of_bounds (do {
                  (c, block) \<leftarrow> ser_session rec block;
                  c \<leftarrow> ser_int32 (FileIndex rec) c;
                  c \<leftarrow> ser_int32 strm c;
                  (b, p) \<leftarrow> ser_uint32 len c;
                  Some (block\<lparr>buf := b\<rparr>)
                })) (\<lambda>block.
              (let rec = rec' in
              if \<not> of_nat WRITE_RECHDR_LENGTH \<le> remlen rec then Dies Assert_failed
              else
                (let block = block\<lparr>bufp := bufp block + WRITE_RECHDR_LENGTH,
                                   binbuf := binbuf block + of_nat WRITE_RECHDR_LENGTH\<rparr>;
                     rec = rec\<lparr>remlen := remlen rec - of_nat WRITE_RECHDR_LENGTH\<rparr>;
                     block = note_index rec block;
                     block = block\<lparr>RecNum := RecNum block + 1,
                                   extra_bytes := extra_bytes block + rec_extra_bytes rec\<rparr>
                 in Ret (block, rec)))))))"

text \<open>
  \<open>memcpy(block->bufp, rec->data+rec->data_len-rec->remainder, n)\<close>: the next \<open>n\<close> bytes of the
  record that are still to be written.
\<close>

definition copy_data :: "DEV_BLOCK \<Rightarrow> DEV_RECORD \<Rightarrow> uint32_t \<Rightarrow> DEV_BLOCK outcome" where
  "copy_data block rec n = from_option Out_of_bounds (do {
     off \<leftarrow> (if remainder rec \<le> data_len rec then Some (unat (data_len rec) - unat (remainder rec)) else None);
     bs \<leftarrow> mem_read (rec_data rec) off (unat n);
     b \<leftarrow> mem_write (buf block) (bufp block) bs;
     Some (block\<lparr>buf := b, bufp := bufp block + unat n, binbuf := binbuf block + n\<rparr>)
   })"

definition write_data_to_block :: "DEV_BLOCK \<Rightarrow> DEV_RECORD \<Rightarrow> (bool \<times> DEV_BLOCK \<times> DEV_RECORD) outcome" where
  "write_data_to_block block rec =
     (if adata block then Dies Assert_failed
      else
        (let rec = rec\<lparr>remlen := buf_len block - binbuf block\<rparr>
         in if remainder rec \<le> remlen rec then
              bind_outcome (copy_data block rec (remainder rec)) (\<lambda>block.
                Ret (True, block, rec\<lparr>remainder := 0\<rparr>))
            else if state_bits rec AND REC_NO_SPLIT \<noteq> 0 then Ret (False, block, rec)
            else
              bind_outcome (copy_data block rec (remlen rec)) (\<lambda>block.
                Ret (False, block, rec\<lparr>remainder := remainder rec - remlen rec\<rparr>))))"

section \<open>The state machine\<close>

text \<open>
  The device methods for aligned volumes, as \<open>DEVICE\<close> defines them; this edition overrides none.
\<close>

definition do_pre_write_checks :: "DEV_RECORD \<Rightarrow> bool" where
  "do_pre_write_checks rec = True"

definition select_data_stream :: "DEV_RECORD \<Rightarrow> DEV_RECORD" where
  "select_data_stream rec = rec"

definition write_adata_label :: "DEV_RECORD \<Rightarrow> bool" where
  "write_adata_label rec = False"

definition write_adata :: "DEV_RECORD \<Rightarrow> DEV_RECORD" where
  "write_adata rec = rec"

definition write_cont_adata :: "DEV_RECORD \<Rightarrow> DEV_RECORD" where
  "write_cont_adata rec = rec"

definition write_adata_rechdr :: "DEV_RECORD \<Rightarrow> int" where
  "write_adata_rechdr rec = - 1"

text \<open>
  One pass of the loop of \<open>write_record_to_block\<close>: it leaves with a result, or goes on. The two
  assertions at the top of the loop come first. With no aligned device \<open>set_ameta\<close> keeps the block.
\<close>

datatype step_result = Done bool DEV_BLOCK DEV_RECORD | Again DEV_BLOCK DEV_RECORD

definition write_step :: "bool \<Rightarrow> DEV_BLOCK \<Rightarrow> DEV_RECORD \<Rightarrow> step_result outcome" where
  "write_step adata_label block rec =
     (if \<not> (binbuf block = of_nat (bufp block)) then Dies Assert_failed
      else if \<not> (binbuf block \<le> buf_len block) then Dies Assert_failed
      else case wstate rec of
        st_none \<Rightarrow>
          (let rec = rec\<lparr>wstate := st_header\<rparr>
           in if adata_label then Ret (Again block (rec\<lparr>wstate := st_adata_label\<rparr>))
              else if FileIndex rec <s 0 then Ret (Again block (rec\<lparr>wstate := st_header\<rparr>))
              else Ret (Again block (select_data_stream rec)))
      | st_header \<Rightarrow>
          bind_outcome (write_header_to_block block rec) (\<lambda>(ok, block, rec).
            if \<not> ok then Ret (Done False block (rec\<lparr>wstate := st_cont_header\<rparr>))
            else Ret (Again block (rec\<lparr>wstate := st_data\<rparr>)))
      | st_cont_header \<Rightarrow>
          bind_outcome (write_continue_header_to_block block rec) (\<lambda>(block, rec).
            (let rec = rec\<lparr>wstate := st_data\<rparr>
             in if remlen rec = 0 then Ret (Done False block rec) else Ret (Again block rec)))
      | st_data \<Rightarrow>
          bind_outcome
            (if 0 < remainder rec then write_data_to_block block rec else Ret (True, block, rec))
            (\<lambda>(ok, block, rec).
            if \<not> ok then
              (if state_bits rec AND REC_NO_SPLIT \<noteq> 0
               then Ret (Done False block (rec\<lparr>wstate := st_header\<rparr>))
               else Ret (Done False block (rec\<lparr>wstate := st_cont_header\<rparr>)))
            else Ret (Done True block (rec\<lparr>state_bits := state_bits rec AND NOT REC_NO_SPLIT,
                   remainder := 0, wstate := st_none\<rparr>)))
      | st_adata_label \<Rightarrow>
          (if \<not> write_adata_label rec then Ret (Done False block rec) else Ret (Done True block rec))
      | st_adata \<Rightarrow> Ret (Again block (write_adata rec))
      | st_cont_adata \<Rightarrow> Ret (Again block (write_cont_adata rec))
      | st_cont_adata_rechdr \<Rightarrow>
          (if write_adata_rechdr rec = - 1 then Ret (Done False block rec)
           else if write_adata_rechdr rec = 1 then Ret (Done True block rec)
           else Ret (Again block rec))
      | st_adata_rechdr \<Rightarrow>
          (if write_adata_rechdr rec = - 1 then Ret (Done False block rec)
           else if write_adata_rechdr rec = 1 then Ret (Done True block rec)
           else Ret (Again block rec))
      | st_adata_blkhdr \<Rightarrow> Ret (Done True block (rec\<lparr>wstate := st_none\<rparr>)))"

partial_function (option) write_loop :: "bool \<Rightarrow> DEV_BLOCK \<Rightarrow> DEV_RECORD
    \<Rightarrow> (bool \<times> DEV_BLOCK \<times> DEV_RECORD) outcome option" where
  "write_loop adata_label block rec =
     (case write_step adata_label block rec of
        Dies e \<Rightarrow> Some (Dies e)
      | Ret (Done ok block rec) \<Rightarrow> Some (Ret (ok, block, rec))
      | Ret (Again block rec) \<Rightarrow> write_loop adata_label block rec)"

definition write_record_to_block :: "bool \<Rightarrow> DEV_BLOCK \<Rightarrow> DEV_RECORD
    \<Rightarrow> (bool \<times> DEV_BLOCK \<times> DEV_RECORD) outcome option" where
  "write_record_to_block adata_label block rec =
     (if \<not> do_pre_write_checks rec then Some (Ret (False, block, rec))
      else write_loop adata_label block rec)"

text \<open>
  \<open>DCR::write_record\<close>. The device side, \<open>write_block_to_device\<close>, is an argument: it acts on a state
  of its own and on the block, and says whether it succeeded; \<open>canceled\<close> is \<open>jcr->is_canceled()\<close>.
\<close>

type_synonym 'd block_writer = "'d \<Rightarrow> DEV_BLOCK \<Rightarrow> (bool \<times> 'd \<times> DEV_BLOCK) outcome option"

partial_function (option) write_record :: "'d block_writer \<Rightarrow> ('d \<Rightarrow> bool) \<Rightarrow> bool \<Rightarrow> 'd \<Rightarrow> DEV_BLOCK
    \<Rightarrow> DEV_RECORD \<Rightarrow> (bool \<times> 'd \<times> DEV_BLOCK \<times> DEV_RECORD) outcome option" where
  "write_record write_block_to_device canceled adata_label d block rec =
     (case write_record_to_block adata_label block rec of
        None \<Rightarrow> None
      | Some (Dies e) \<Rightarrow> Some (Dies e)
      | Some (Ret (ok, block, rec)) \<Rightarrow>
          if ok then Some (Ret (True, d, block, rec))
          else if canceled d then Some (Ret (False, d, block, rec))
          else (case write_block_to_device d block of
                  None \<Rightarrow> None
                | Some (Dies e) \<Rightarrow> Some (Dies e)
                | Some (Ret (written, d, block)) \<Rightarrow>
                    if \<not> written then Some (Ret (False, d, block, rec))
                    else write_record write_block_to_device canceled adata_label d block rec))"

section \<open>Appending to a block\<close>

text \<open>The bytes left in a block, and the effect of storing \<open>bs\<close> at its pointer.\<close>

definition room :: "DEV_BLOCK \<Rightarrow> nat" where
  "room b = unat (buf_len b) - unat (binbuf b)"

definition append_block :: "DEV_BLOCK \<Rightarrow> byte list \<Rightarrow> DEV_BLOCK" where
  "append_block b bs = b\<lparr>buf := take (bufp b) (buf b) @ bs @ drop (bufp b + length bs) (buf b),
     bufp := bufp b + length bs, binbuf := binbuf b + of_nat (length bs)\<rparr>"

lemma unat_room: "block_wf b \<Longrightarrow> unat (buf_len b - binbuf b) = room b"
  by (simp add: room_def unat_sub_no_wrap block_wf_def)

lemma append_block_binbuf:
  assumes "block_wf b" and "length bs \<le> room b"
  shows "unat (binbuf (append_block b bs)) = unat (binbuf b) + length bs"
proof -
  note wf = block_wfD [OF assms(1)]
  have "length bs < 2 ^ 32" using assms(2) wf by (simp add: room_def)
  then have "unat (of_nat (length bs) :: uint32_t) = length bs"
    by (intro unat_of_nat_small) simp
  then show ?thesis
    using assms(2) wf unat_add_no_wrap [of "binbuf b" "of_nat (length bs)"]
    by (simp add: append_block_def room_def)
qed

lemma append_block_wf:
  assumes "block_wf b" and "length bs \<le> room b"
  shows "block_wf (append_block b bs)"
proof -
  note wf = block_wfD [OF assms(1)]
  have "binbuf (append_block b bs) \<le> buf_len b" "24 \<le> binbuf (append_block b bs)"
    using append_block_binbuf [OF assms] assms(2) wf by (simp_all add: word_le_nat_alt room_def)
  then show ?thesis
    using assms wf append_block_binbuf [OF assms]
    unfolding block_wf_def
    by (simp add: append_block_def room_def BLKHDR2_LENGTH_def)
qed

lemma append_block_payload:
  assumes "block_wf b" and "length bs \<le> room b"
  shows "payload (append_block b bs) = payload b @ bs"
proof -
  note wf = block_wfD [OF assms(1)]
  have "take (unat (binbuf (append_block b bs))) (buf (append_block b bs)) = take (unat (binbuf b)) (buf b) @ bs"
    unfolding append_block_binbuf [OF assms] using wf assms(2) by (simp add: append_block_def room_def)
  then show ?thesis using wf by (simp add: payload_def)
qed

lemma append_block_room:
  assumes "block_wf b" and "length bs \<le> room b"
  shows "room (append_block b bs) = room b - length bs"
  using append_block_binbuf [OF assms] by (simp add: room_def append_block_def)

lemma append_block_append:
  assumes "block_wf b" and "length (xs @ ys) \<le> room b"
  shows "append_block (append_block b xs) ys = append_block b (xs @ ys)"
  using assms block_wfD [OF assms(1)]
  by (simp add: append_block_def room_def ac_simps)

lemma append_block_same [simp]:
  "buf_len (append_block b bs) = buf_len b" "BlockNumber (append_block b bs) = BlockNumber b"
  "adata (append_block b bs) = adata b" "no_header (append_block b bs) = no_header b"
  "VolSessionId (append_block b bs) = VolSessionId b" "VolSessionTime (append_block b bs) = VolSessionTime b"
  "FirstIndex (append_block b bs) = FirstIndex b" "LastIndex (append_block b bs) = LastIndex b"
  "filemedia (append_block b bs) = filemedia b"
  by (simp_all add: append_block_def)

text \<open>Fields outside the buffer do not matter to the invariant.\<close>

lemma block_wf_indices [simp]:
  "block_wf (b\<lparr>VolSessionId := i\<rparr>) = block_wf b" "block_wf (b\<lparr>VolSessionTime := i\<rparr>) = block_wf b"
  "block_wf (b\<lparr>RecNum := i\<rparr>) = block_wf b" "block_wf (b\<lparr>extra_bytes := i\<rparr>) = block_wf b"
  "block_wf (b\<lparr>FirstIndex := j\<rparr>) = block_wf b" "block_wf (b\<lparr>LastIndex := j\<rparr>) = block_wf b"
  "block_wf (b\<lparr>BlockNumber := i\<rparr>) = block_wf b"
  by (simp_all add: block_wf_def)

lemma payload_indices [simp]:
  "payload (b\<lparr>VolSessionId := i\<rparr>) = payload b" "payload (b\<lparr>VolSessionTime := i\<rparr>) = payload b"
  "payload (b\<lparr>RecNum := i\<rparr>) = payload b" "payload (b\<lparr>extra_bytes := i\<rparr>) = payload b"
  "payload (b\<lparr>FirstIndex := j\<rparr>) = payload b" "payload (b\<lparr>LastIndex := j\<rparr>) = payload b"
  "payload (b\<lparr>BlockNumber := i\<rparr>) = payload b"
  by (simp_all add: payload_def)

lemma room_indices [simp]:
  "room (b\<lparr>VolSessionId := i\<rparr>) = room b" "room (b\<lparr>VolSessionTime := i\<rparr>) = room b"
  "room (b\<lparr>RecNum := i\<rparr>) = room b" "room (b\<lparr>extra_bytes := i\<rparr>) = room b"
  "room (b\<lparr>FirstIndex := j\<rparr>) = room b" "room (b\<lparr>LastIndex := j\<rparr>) = room b"
  "room (b\<lparr>BlockNumber := i\<rparr>) = room b"
  by (simp_all add: room_def)

lemma note_index_same [simp]:
  "block_wf (note_index r b) = block_wf b" "payload (note_index r b) = payload b"
  "room (note_index r b) = room b" "buf_len (note_index r b) = buf_len b"
  "BlockNumber (note_index r b) = BlockNumber b" "no_header (note_index r b) = no_header b"
  "VolSessionId (note_index r b) = VolSessionId b" "VolSessionTime (note_index r b) = VolSessionTime b"
  "RecNum (note_index r b) = RecNum b" "extra_bytes (note_index r b) = extra_bytes b" "filemedia (note_index r b) = filemedia b"
  by (simp_all add: note_index_def Let_def)

section \<open>What each piece writes\<close>

text \<open>The bytes of a record header.\<close>

definition rechdr_bytes :: "int32_t \<Rightarrow> int32_t \<Rightarrow> uint32_t \<Rightarrow> byte list" where
  "rechdr_bytes fi strm len = be_bytes 4 fi @ be_bytes 4 strm @ be_bytes 4 len"

lemma length_rechdr_bytes [simp]: "length (rechdr_bytes fi strm len) = 12"
  by (simp add: rechdr_bytes_def)

text \<open>The block with a header put into it.\<close>

definition put_header :: "DEV_RECORD \<Rightarrow> int32_t \<Rightarrow> uint32_t \<Rightarrow> DEV_BLOCK \<Rightarrow> DEV_BLOCK" where
  "put_header rec strm len b =
     (let b = append_block (b\<lparr>VolSessionId := rec_VolSessionId rec, VolSessionTime := rec_VolSessionTime rec\<rparr>)
                (rechdr_bytes (FileIndex rec) strm len);
          b = note_index rec (b\<lparr>RecNum := RecNum b + 1\<rparr>)
      in b\<lparr>extra_bytes := extra_bytes b + rec_extra_bytes rec\<rparr>)"

lemma put_header_effect:
  assumes "block_wf b" and "12 \<le> room b"
  shows "block_wf (put_header rec strm len b)"
    and "payload (put_header rec strm len b) = payload b @ rechdr_bytes (FileIndex rec) strm len"
    and "room (put_header rec strm len b) = room b - 12"
    and "VolSessionId (put_header rec strm len b) = rec_VolSessionId rec"
    and "VolSessionTime (put_header rec strm len b) = rec_VolSessionTime rec"
    and "buf_len (put_header rec strm len b) = buf_len b"
    and "BlockNumber (put_header rec strm len b) = BlockNumber b"
    and "no_header (put_header rec strm len b) = no_header b"
    and "filemedia (put_header rec strm len b) = filemedia b"
  using assms
  by (simp_all add: put_header_def Let_def append_block_wf append_block_payload append_block_room)

text \<open>A record whose packet is consistent: \<open>data_len\<close> bytes of data, below the sanity limit.\<close>

definition rec_ok :: "DEV_RECORD \<Rightarrow> bool" where
  "rec_ok rec \<longleftrightarrow> unat (data_len rec) = length (rec_data rec) \<and> data_len rec < MAX_BLOCK_LENGTH"

lemma rec_okD:
  assumes "rec_ok rec"
  shows "unat (data_len rec) = length (rec_data rec)" "length (rec_data rec) < 20000000"
  using assms by (simp_all add: rec_ok_def MAX_BLOCK_LENGTH_def word_less_nat_alt)

text \<open>The three words of a header, written at the pointer.\<close>

lemma ser_header:
  assumes "block_wf b" and "12 \<le> room b"
  shows "Option.bind (ser_session rec b) (\<lambda>(c, b). Option.bind (ser_int32 fi c) (\<lambda>c.
       Option.bind (ser_int32 strm c) (\<lambda>c. Option.bind (ser_uint32 len c) (\<lambda>(b', p). f (b\<lparr>buf := b'\<rparr>))))) =
     f (b\<lparr>VolSessionId := rec_VolSessionId rec, VolSessionTime := rec_VolSessionTime rec,
         buf := take (bufp b) (buf b) @ rechdr_bytes fi strm len @ drop (bufp b + 12) (buf b)\<rparr>)"
proof -
  have "put_bytes (rechdr_bytes fi strm len) (buf b, bufp b) =
      Some (take (bufp b) (buf b) @ rechdr_bytes fi strm len @ drop (bufp b + 12) (buf b), bufp b + 12)"
    using assms block_wfD [OF assms(1)] by (subst put_bytes_at) (simp_all add: room_def)
  then show ?thesis
    by (simp add: ser_session_def BLOCK_VER_def codec_simps put_bytes_bind rechdr_bytes_def)
qed

lemma write_header_fits:
  assumes "block_wf b" and "12 \<le> room b"
  shows "write_header_to_block b rec = Ret (True, put_header rec (Stream rec) (data_len rec) b,
     rec\<lparr>remlen := buf_len b - binbuf b - 12, remainder := data_len rec\<rparr>)"
proof -
  have "\<not> buf_len b - binbuf b < 12"
    using assms unat_room [OF assms(1)] by (simp add: word_less_nat_alt)
  then show ?thesis
    using block_wfD [OF assms(1)]
    by (simp add: write_header_to_block_def Let_def WRITE_RECHDR_LENGTH_def ser_header [OF assms]
        put_header_def append_block_def create_filemedia_def note_index_def)
qed

lemma write_header_no_room:
  assumes "block_wf b" and "room b < 12"
  shows "write_header_to_block b rec = Ret (False, b,
     rec\<lparr>remlen := buf_len b - binbuf b, remainder := data_len rec + 12\<rparr>)"
proof -
  have "buf_len b - binbuf b < 12"
    using assms unat_room [OF assms(1)] by (simp add: word_less_nat_alt)
  then show ?thesis
    using block_wfD [OF assms(1)]
    by (simp add: write_header_to_block_def Let_def WRITE_RECHDR_LENGTH_def)
qed

lemma write_continue_header_fits:
  assumes "block_wf b" and "12 \<le> room b"
  shows "write_continue_header_to_block b rec =
     (if data_len rec < remainder rec
      then Ret (put_header rec (Stream rec) (data_len rec) b,
             rec\<lparr>remlen := buf_len b - binbuf b - 12, remainder := data_len rec\<rparr>)
      else Ret (put_header rec (- Stream rec) (remainder rec) b, rec\<lparr>remlen := buf_len b - binbuf b - 12\<rparr>))"
proof -
  have "\<not> buf_len b - binbuf b < 12" "buf_len b - binbuf b \<noteq> 0"
    using assms unat_room [OF assms(1)] by (auto simp: word_less_nat_alt)
  then show ?thesis
    using block_wfD [OF assms(1)]
    by (cases "data_len rec < remainder rec")
      (simp_all add: write_continue_header_to_block_def Let_def WRITE_RECHDR_LENGTH_def ser_header [OF assms]
        put_header_def append_block_def note_index_def not_less not_le)
qed

lemma copy_data_append:
  assumes "block_wf b" and "rec_ok rec" and "remainder rec \<le> data_len rec"
    and "unat n \<le> room b" and "n \<le> remainder rec"
  shows "copy_data b rec n =
     Ret (append_block b (take (unat n) (drop (unat (data_len rec) - unat (remainder rec)) (rec_data rec))))"
proof -
  note wf = block_wfD [OF assms(1)] and ok = rec_okD [OF assms(2)]
  have le: "unat n \<le> unat (remainder rec)" "unat (remainder rec) \<le> length (rec_data rec)"
    using assms(3,5) ok by (simp_all add: word_le_nat_alt)
  then have "mem_read (rec_data rec) (unat (data_len rec) - unat (remainder rec)) (unat n) =
      Some (take (unat n) (drop (unat (data_len rec) - unat (remainder rec)) (rec_data rec)))"
    using ok by (simp add: mem_read_def)
  moreover have "length (take (unat n) (drop (unat (data_len rec) - unat (remainder rec)) (rec_data rec))) = unat n"
    using le ok by simp
  ultimately show ?thesis
    using assms wf by (simp add: copy_data_def mem_write_def append_block_def room_def)
qed

section \<open>One call of the state machine\<close>

text \<open>The block \<open>b'\<close> is \<open>b\<close> with \<open>bs\<close> written into it.\<close>

definition wrote :: "DEV_BLOCK \<Rightarrow> byte list \<Rightarrow> DEV_BLOCK \<Rightarrow> bool" where
  "wrote b bs b' \<longleftrightarrow> block_wf b' \<and> payload b' = payload b @ bs \<and> room b' + length bs = room b \<and>
     buf_len b' = buf_len b \<and> BlockNumber b' = BlockNumber b \<and> no_header b' = no_header b \<and> filemedia b' = filemedia b"

lemma wrote_append:
  assumes "block_wf b" and "length bs \<le> room b"
  shows "wrote b bs (append_block b bs)"
  using assms by (simp add: wrote_def append_block_wf append_block_payload append_block_room)

lemma wrote_header:
  assumes "block_wf b" and "12 \<le> room b"
  shows "wrote b (rechdr_bytes (FileIndex rec) strm len) (put_header rec strm len b)"
  using assms put_header_effect [OF assms] by (simp add: wrote_def)

lemma wrote_trans: "wrote b xs b' \<Longrightarrow> wrote b' ys b'' \<Longrightarrow> wrote b (xs @ ys) b''"
  by (simp add: wrote_def)

lemma wrote_Nil: "block_wf b \<Longrightarrow> wrote b [] b"
  by (simp add: wrote_def)

text \<open>What a call may not change of a record.\<close>

definition same_rec :: "DEV_RECORD \<Rightarrow> DEV_RECORD \<Rightarrow> bool" where
  "same_rec r r' \<longleftrightarrow> FileIndex r' = FileIndex r \<and> Stream r' = Stream r \<and> maskedStream r' = maskedStream r \<and> data_len r' = data_len r \<and>
     rec_data r' = rec_data r \<and> rec_VolSessionId r' = rec_VolSessionId r \<and>
     rec_VolSessionTime r' = rec_VolSessionTime r \<and>
     (bit (state_bits r') 7 \<longrightarrow> bit (state_bits r) 7)"

lemma same_rec_ok: "same_rec r r' \<Longrightarrow> rec_ok r \<Longrightarrow> rec_ok r'"
  by (simp add: same_rec_def rec_ok_def)

lemma same_rec_trans: "same_rec r r' \<Longrightarrow> same_rec r' r'' \<Longrightarrow> same_rec r r''"
  by (simp add: same_rec_def)

lemma write_loop_Again:
  "write_step al b r = Ret (Again b' r') \<Longrightarrow> write_loop al b r = write_loop al b' r'"
  by (subst write_loop.simps) simp

lemma write_loop_Done:
  "write_step al b r = Ret (Done ok b' r') \<Longrightarrow> write_loop al b r = Some (Ret (ok, b', r'))"
  by (subst write_loop.simps) simp

lemma write_step_asserts:
  assumes "block_wf b"
  shows "binbuf b = of_nat (bufp b)" and "binbuf b \<le> buf_len b"
  using assms by (simp_all add: block_wf_def)

text \<open>The session a block belongs to.\<close>

definition in_session :: "DEV_RECORD \<Rightarrow> DEV_BLOCK \<Rightarrow> bool" where
  "in_session r b \<longleftrightarrow> VolSessionId b = rec_VolSessionId r \<and> VolSessionTime b = rec_VolSessionTime r"

text \<open>Where the next call takes a record up.\<close>

definition to_do :: "DEV_RECORD \<Rightarrow> byte list" where
  "to_do r = drop (length (rec_data r) - unat (remainder r)) (rec_data r)"

definition call_result :: "DEV_BLOCK \<Rightarrow> DEV_RECORD \<Rightarrow> byte list \<Rightarrow> nat
    \<Rightarrow> (bool \<times> DEV_BLOCK \<times> DEV_RECORD) outcome option \<Rightarrow> bool" where
  "call_result b r d n res \<longleftrightarrow>
     (\<exists>b' r'. res = Some (Ret (length d \<le> n, b', r')) \<and> wrote b (take n d) b' \<and>
        same_rec r r' \<and> (in_session r b \<longrightarrow> in_session r' b') \<and>
        (if length d \<le> n then wstate r' = st_none \<and> remainder r' = 0
         else wstate r' = st_cont_header \<and> unat (remainder r') = length d - n))"

lemma data_phase:
  assumes wf: "block_wf b" and ok: "rec_ok r" and st: "wstate r = st_data"
    and rem: "remainder r \<le> data_len r" and split: "\<not> bit (state_bits r) 7"
  shows "call_result b r (to_do r) (room b) (write_loop al b r)"
proof -
  note wfs = block_wfD [OF wf] and oks = rec_okD [OF ok]
  let ?n = "unat (remainder r)"
  have len: "length (to_do r) = ?n" using rem oks by (simp add: to_do_def word_le_nat_alt)
  have nosplit: "state_bits r AND REC_NO_SPLIT = 0" using split no_split_bit [of r] by blast
  have rl: "unat (buf_len b - binbuf b) = room b" by (rule unat_room [OF wf])
  consider "?n = 0" | "0 < ?n" "?n \<le> room b" | "room b < ?n" by linarith
  then show ?thesis
  proof cases
    case 1
    then have "remainder r = 0" by (simp add: unat_eq_0)
    then have "write_step al b r = Ret (Done True b (r\<lparr>state_bits := state_bits r AND NOT REC_NO_SPLIT,
        remainder := 0, wstate := st_none\<rparr>))"
      using st write_step_asserts [OF wf] by (simp add: write_step_def)
    then show ?thesis
      using wf len 1 by (auto simp: call_result_def wrote_Nil same_rec_def in_session_def
          bit_and_iff dest!: write_loop_Done)
  next
    case 2
    then have "copy_data b (r\<lparr>remlen := buf_len b - binbuf b\<rparr>) (remainder r) = Ret (append_block b (to_do r))"
      using copy_data_append [OF wf, of "r\<lparr>remlen := buf_len b - binbuf b\<rparr>" "remainder r"] ok rem len oks
      by (simp add: rec_ok_def to_do_def)
    then have "write_data_to_block b r = Ret (True, append_block b (to_do r),
        r\<lparr>remlen := buf_len b - binbuf b, remainder := 0\<rparr>)"
      using wfs(1) 2 rl by (simp add: write_data_to_block_def Let_def word_le_nat_alt)
    then have "write_step al b r = Ret (Done True (append_block b (to_do r))
        (r\<lparr>remlen := buf_len b - binbuf b, state_bits := state_bits r AND NOT REC_NO_SPLIT,
           remainder := 0, wstate := st_none\<rparr>))"
      using st write_step_asserts [OF wf] 2 by (simp add: write_step_def word_less_nat_alt)
    then show ?thesis
      using 2 len wrote_append [OF wf, of "to_do r"]
      by (auto simp: call_result_def same_rec_def in_session_def bit_and_iff dest!: write_loop_Done)
  next
    case 3
    let ?w = "buf_len b - binbuf b"
    have le: "?w \<le> remainder r" "\<not> remainder r \<le> ?w" using 3 rl by (simp_all add: word_le_nat_alt)
    have cd: "copy_data b (r\<lparr>remlen := ?w\<rparr>) ?w = Ret (append_block b (take (room b) (to_do r)))"
      using copy_data_append [OF wf, of "r\<lparr>remlen := ?w\<rparr>" ?w] ok rem oks rl le(1)
      by (simp add: rec_ok_def to_do_def)
    have "write_data_to_block b r = Ret (False, append_block b (take (room b) (to_do r)),
        r\<lparr>remlen := ?w, remainder := remainder r - ?w\<rparr>)"
      using wfs(1) le(2) nosplit cd by (simp add: write_data_to_block_def Let_def)
    moreover have "0 < remainder r" using 3 by (simp add: word_less_nat_alt)
    ultimately have "write_step al b r = Ret (Done False (append_block b (take (room b) (to_do r)))
        (r\<lparr>remlen := ?w, remainder := remainder r - ?w, wstate := st_cont_header\<rparr>))"
      using st write_step_asserts [OF wf] nosplit by (simp add: write_step_def)
    then show ?thesis
      using 3 len wrote_append [OF wf, of "take (room b) (to_do r)"] unat_sub_no_wrap [OF le(1)] rl
      by (auto simp: call_result_def same_rec_def in_session_def dest!: write_loop_Done)
  qed
qed

text \<open>A call that begins with a header, for the data \<open>d\<close>.\<close>

definition header_result :: "DEV_BLOCK \<Rightarrow> DEV_RECORD \<Rightarrow> int32_t \<Rightarrow> uint32_t \<Rightarrow> byte list
    \<Rightarrow> (bool \<times> DEV_BLOCK \<times> DEV_RECORD) outcome option \<Rightarrow> bool" where
  "header_result b r strm len d res \<longleftrightarrow>
     (\<exists>b' r'. res = Some (Ret (12 + length d \<le> room b, b', r')) \<and>
        wrote b (rechdr_bytes (FileIndex r) strm len @ take (room b - 12) d) b' \<and>
        same_rec r r' \<and> in_session r' b' \<and>
        (if 12 + length d \<le> room b then wstate r' = st_none \<and> remainder r' = 0
         else wstate r' = st_cont_header \<and> unat (remainder r') = length d - (room b - 12)))"

lemma header_then_data:
  assumes wf: "block_wf b" and room: "12 \<le> room b" and ok: "rec_ok r" and split: "\<not> bit (state_bits r) 7"
    and r1: "same_rec r r1" "wstate r1 = st_data" "remainder r1 \<le> data_len r1"
    and res: "res = write_loop al (put_header r strm len b) r1"
  shows "header_result b r strm len (to_do r1) res"
proof -
  let ?b = "put_header r strm len b"
  note eff = put_header_effect [OF wf room, of r strm len]
  have "call_result ?b r1 (to_do r1) (room ?b) res"
    unfolding res using r1 ok split eff(1) same_rec_ok [OF r1(1) ok]
    by (intro data_phase) (auto simp: same_rec_def)
  then obtain b' r' where c: "res = Some (Ret (length (to_do r1) \<le> room b - 12, b', r'))"
    "wrote ?b (take (room b - 12) (to_do r1)) b'" "same_rec r1 r'" "in_session r1 ?b \<longrightarrow> in_session r' b'"
    "if length (to_do r1) \<le> room b - 12 then wstate r' = st_none \<and> remainder r' = 0
     else wstate r' = st_cont_header \<and> unat (remainder r') = length (to_do r1) - (room b - 12)"
    by (auto simp: call_result_def eff(3))
  have "in_session r1 ?b" using r1(1) eff(4,5) by (simp add: in_session_def same_rec_def)
  moreover have "length (to_do r1) \<le> room b - 12 \<longleftrightarrow> 12 + length (to_do r1) \<le> room b"
    using room by linarith
  ultimately show ?thesis
    using c wrote_trans [OF wrote_header [OF wf room, of r strm len] c(2)] same_rec_trans [OF r1(1) c(3)]
    by (auto simp: header_result_def)
qed

lemma write_record_to_block_loop: "write_record_to_block al b r = write_loop al b r"
  by (simp add: write_record_to_block_def do_pre_write_checks_def)

lemma write_none_to_header:
  assumes "block_wf b" and "wstate r = st_none"
  shows "write_loop False b r = write_loop False b (r\<lparr>wstate := st_header\<rparr>)"
  using assms write_step_asserts [OF assms(1)]
  by (intro write_loop_Again) (simp add: write_step_def select_data_stream_def Let_def)

lemma header_call:
  assumes wf: "block_wf b" and room: "12 \<le> room b" and ok: "rec_ok r" and split: "\<not> bit (state_bits r) 7"
    and st: "wstate r = st_header"
  shows "header_result b r (Stream r) (data_len r) (rec_data r) (write_loop False b r)"
proof -
  let ?r = "r\<lparr>remlen := buf_len b - binbuf b - 12, remainder := data_len r, wstate := st_data\<rparr>"
  have "write_loop False b r = write_loop False (put_header r (Stream r) (data_len r) b) ?r"
    using st write_step_asserts [OF wf]
    by (intro write_loop_Again) (simp add: write_step_def write_header_fits [OF wf room])
  moreover have "to_do ?r = rec_data r" using rec_okD [OF ok] by (simp add: to_do_def)
  ultimately show ?thesis
    using header_then_data [OF wf room ok split, of ?r "write_loop False b r"] by (simp add: same_rec_def)
qed

lemma fresh_call:
  assumes wf: "block_wf b" and room: "12 \<le> room b" and ok: "rec_ok r" and split: "\<not> bit (state_bits r) 7"
    and st: "wstate r = st_none \<or> wstate r = st_header"
  shows "header_result b r (Stream r) (data_len r) (rec_data r) (write_record_to_block False b r)"
  unfolding write_record_to_block_loop
proof (cases "wstate r = st_none")
  case True
  have "header_result b (r\<lparr>wstate := st_header\<rparr>) (Stream r) (data_len r) (rec_data r) (write_loop False b r)"
    using header_call [OF wf room, of "r\<lparr>wstate := st_header\<rparr>"] ok split
    by (simp add: write_none_to_header [OF wf True] rec_ok_def)
  then show "header_result b r (Stream r) (data_len r) (rec_data r) (write_loop False b r)"
    by (auto simp: header_result_def same_rec_def)
next
  case False
  then show "header_result b r (Stream r) (data_len r) (rec_data r) (write_loop False b r)"
    using st header_call [OF wf room ok split] by blast
qed

lemma fresh_call_no_room:
  assumes wf: "block_wf b" and room: "room b < 12" and st: "wstate r = st_none \<or> wstate r = st_header"
  shows "\<exists>r'. write_record_to_block False b r = Some (Ret (False, b, r')) \<and> same_rec r r' \<and>
     wstate r' = st_cont_header \<and> remainder r' = data_len r + 12"
proof -
  have "write_loop False b (r\<lparr>wstate := st_header\<rparr>) = Some (Ret (False, b,
      r\<lparr>remlen := buf_len b - binbuf b, remainder := data_len r + 12, wstate := st_cont_header\<rparr>))"
    using write_step_asserts [OF wf]
    by (intro write_loop_Done) (simp add: write_step_def write_header_no_room [OF wf room])
  moreover have "write_loop False b r = write_loop False b (r\<lparr>wstate := st_header\<rparr>)"
    using st write_none_to_header [OF wf, of r] by (cases r) auto
  ultimately show ?thesis by (simp add: write_record_to_block_loop same_rec_def)
qed

text \<open>
  A call that continues a record. With exactly 12 bytes of room the continuation header fills the
  block and \<open>remlen\<close> becomes zero, which the code takes for a header that was not written; every
  block of a sensible size has more.
\<close>

lemma cont_call:
  assumes wf: "block_wf b" and room: "12 < room b" and ok: "rec_ok r" and split: "\<not> bit (state_bits r) 7"
    and st: "wstate r = st_cont_header"
  shows "if data_len r < remainder r
     then header_result b r (Stream r) (data_len r) (rec_data r) (write_record_to_block False b r)
     else header_result b r (- Stream r) (remainder r) (to_do r) (write_record_to_block False b r)"
proof -
  have room': "12 \<le> room b" using room by simp
  have nz: "buf_len b - binbuf b - 12 \<noteq> 0"
    using room unat_room [OF wf] unat_sub_no_wrap [of 12 "buf_len b - binbuf b"]
    by (auto simp: word_le_nat_alt)
  note step = write_step_def write_continue_header_fits [OF wf room']
  show ?thesis
  proof (cases "data_len r < remainder r")
    case True
    let ?r = "r\<lparr>remlen := buf_len b - binbuf b - 12, remainder := data_len r, wstate := st_data\<rparr>"
    have "write_loop False b r = write_loop False (put_header r (Stream r) (data_len r) b) ?r"
      using st True nz write_step_asserts [OF wf] by (intro write_loop_Again) (simp add: step)
    moreover have "to_do ?r = rec_data r" using rec_okD [OF ok] by (simp add: to_do_def)
    ultimately show ?thesis
      using True header_then_data [OF wf room' ok split, of ?r "write_loop False b r"]
      by (simp add: same_rec_def write_record_to_block_loop)
  next
    case False
    let ?r = "r\<lparr>remlen := buf_len b - binbuf b - 12, wstate := st_data\<rparr>"
    have "write_loop False b r = write_loop False (put_header r (- Stream r) (remainder r) b) ?r"
      using st False nz write_step_asserts [OF wf] by (intro write_loop_Again) (simp add: step)
    moreover have "to_do ?r = to_do r" by (simp add: to_do_def)
    ultimately show ?thesis
      using False header_then_data [OF wf room' ok split, of ?r "write_loop False b r"]
      by (auto simp: same_rec_def write_record_to_block_loop)
  qed
qed

end
