(* ===== verification/RecordStream.thy ===== *)
theory RecordStream
  imports RecordWrite
begin

text \<open>
  What a sequence of records looks like on a volume. A block holds chunks, each a record header and
  the bytes that follow it; a record that does not fit is continued by chunks with a negative stream
  in the following blocks. \<open>decode\<close> is the meaning of a sequence of chunks, and the theory shows that
  \<open>write_record\<close>, over any device that keeps the contract \<open>block_sink\<close>, stores a sequence of chunks that
  means the records written, and returns.
\<close>

section \<open>Chunks\<close>

text \<open>File index, stream, length in the header, and the bytes behind the header.\<close>

type_synonym chunk = "int32_t \<times> int32_t \<times> uint32_t \<times> byte list"

text \<open>A record as the application sees it: file index, stream and data.\<close>

type_synonym app_record = "int32_t \<times> int32_t \<times> byte list"

fun enc_chunk :: "chunk \<Rightarrow> byte list" where
  "enc_chunk (fi, strm, len, d) = rechdr_bytes fi strm len @ d"

fun complete :: "chunk \<Rightarrow> bool" where
  "complete (fi, strm, len, d) \<longleftrightarrow> length d = unat len"

fun within :: "chunk \<Rightarrow> bool" where
  "within (fi, strm, len, d) \<longleftrightarrow> length d \<le> unat len"

lemma complete_within: "complete c \<Longrightarrow> within c"
  by (cases c) simp

text \<open>
  The meaning of a chunk for a reader that holds the pending record \<open>p\<close>: a chunk with a negative
  stream continues the pending record of that file and stream, any other chunk starts a record when none is pending; when the chunk
  is complete the record is delivered. Records above the sanity limit of the reader have no meaning.
\<close>

fun decode_chunk :: "app_record option \<Rightarrow> chunk \<Rightarrow> (app_record list \<times> app_record option) option" where
  "decode_chunk p (fi, strm, len, d) =
     (if strm <s 0 then
        (case p of
           None \<Rightarrow> None
         | Some (fi0, strm0, d0) \<Rightarrow>
             if fi0 = fi \<and> strm0 = - strm \<and> length d0 + unat len < unat MAX_BLOCK_LENGTH then
               (if length d = unat len then Some ([(fi, - strm, d0 @ d)], None)
                else Some ([], Some (fi, - strm, d0 @ d)))
             else None)
      else if p = None \<and> unat len < unat MAX_BLOCK_LENGTH then
        (if length d = unat len then Some ([(fi, strm, d)], None)
         else Some ([], Some (fi, strm, d)))
      else None)"

fun decode :: "app_record option \<Rightarrow> chunk list \<Rightarrow> (app_record list \<times> app_record option) option" where
  "decode p [] = Some ([], p)"
| "decode p (c # cs) = do {
     (out, p) \<leftarrow> decode_chunk p c;
     (out', p) \<leftarrow> decode p cs;
     Some (out @ out', p)
   }"

lemma decode_append:
  "decode p (cs @ ds) = do {
     (out, p) \<leftarrow> decode p cs;
     (out', p) \<leftarrow> decode p ds;
     Some (out @ out', p)
   }"
  by (induction cs arbitrary: p) (auto split: bind_splits)

lemma decode_snoc:
  assumes "decode q cs = Some (out, p)" and "decode_chunk p c = Some (out', p')"
  shows "decode q (cs @ [c]) = Some (out @ out', p')"
  using assms by (simp add: decode_append)

text \<open>Every chunk belongs to a record that is delivered or pending.\<close>

definition fis :: "app_record list \<times> app_record option \<Rightarrow> int32_t set" where
  "fis x = fst ` (set (fst x) \<union> set_option (snd x))"

lemma decode_chunk_fis:
  assumes "decode_chunk p c = Some x"
  shows "fst c \<in> fis x" and "fst ` set_option p \<subseteq> fis x"
  using assms by (cases c; auto simp: fis_def split: option.splits if_splits)+

lemma decode_fis:
  assumes "decode p cs = Some x"
  shows "fst ` set cs \<union> fst ` set_option p \<subseteq> fis x"
  using assms
proof (induction cs arbitrary: p x)
  case Nil
  then show ?case by (auto simp: fis_def)
next
  case (Cons c cs)
  obtain o1 p1 o2 p' where dec: "decode_chunk p c = Some (o1, p1)" "decode p1 cs = Some (o2, p')" "x = (o1 @ o2, p')"
    using Cons.prems by (auto split: bind_splits)
  have "fis (o1, p1) \<subseteq> fis x" "fis (o2, p') \<subseteq> fis x"
    using Cons.IH [OF dec(2)] dec(3) by (auto simp: fis_def)
  then show ?case using decode_chunk_fis [OF dec(1)] Cons.IH [OF dec(2)] by auto
qed

section \<open>Blocks of chunks\<close>

text \<open>The payload of a written block: only its last chunk may be cut short.\<close>

definition block_chunks :: "byte list \<Rightarrow> chunk list \<Rightarrow> bool" where
  "block_chunks p cs \<longleftrightarrow> p = concat (map enc_chunk cs) \<and> list_all within cs \<and> list_all complete (butlast cs)"

text \<open>Labels, which have negative file indexes, are not cut.\<close>

definition unsplit :: "chunk \<Rightarrow> bool" where
  "unsplit c \<longleftrightarrow> (fst c <s 0 \<longrightarrow> complete c)"

text \<open>The payloads of the written blocks and of the open one, as one sequence of chunks.\<close>

definition stored :: "byte list list \<Rightarrow> byte list \<Rightarrow> chunk list \<Rightarrow> bool" where
  "stored ps p cs \<longleftrightarrow> (\<exists>css cs'. list_all2 block_chunks ps css \<and> p = concat (map enc_chunk cs') \<and>
     list_all complete cs' \<and> cs = concat css @ cs' \<and> list_all unsplit cs)"

lemma stored_Nil: "stored [] [] []"
  unfolding stored_def by (intro exI [of _ "[]"]) simp

lemma stored_append:
  assumes "stored ps p cs" and "complete c"
  shows "stored ps (p @ enc_chunk c) (cs @ [c])"
proof -
  obtain css cs' where "list_all2 block_chunks ps css" "p = concat (map enc_chunk cs')"
    "list_all complete cs'" "cs = concat css @ cs'" "list_all unsplit cs"
    using assms(1) unfolding stored_def by blast
  then show ?thesis
    using assms(2) unfolding stored_def by (intro exI [of _ css] exI [of _ "cs' @ [c]"]) (simp add: unsplit_def)
qed

lemma list_all_within: "list_all complete cs \<Longrightarrow> list_all within cs"
  by (auto simp: list_all_iff complete_within)

lemma stored_cut:
  assumes "stored ps p cs" and "within c" and "unsplit c"
  shows "stored (ps @ [p @ enc_chunk c]) [] (cs @ [c])"
proof -
  obtain css cs' where *: "list_all2 block_chunks ps css" "p = concat (map enc_chunk cs')"
    "list_all complete cs'" "cs = concat css @ cs'" "list_all unsplit cs"
    using assms(1) unfolding stored_def by blast
  then have "block_chunks (p @ enc_chunk c) (cs' @ [c])"
    using assms(2) by (simp add: block_chunks_def list_all_within)
  then show ?thesis
    using * assms(3) unfolding stored_def
    by (intro exI [of _ "css @ [cs' @ [c]]"] exI [of _ "[]"]) (simp add: list_all2_appendI)
qed

lemma list_all_butlast: "list_all P xs \<Longrightarrow> list_all P (butlast xs)"
  by (induction xs) auto

lemma stored_flush:
  assumes "stored ps p cs"
  shows "stored (ps @ [p]) [] cs"
proof -
  obtain css cs' where *: "list_all2 block_chunks ps css" "p = concat (map enc_chunk cs')"
    "list_all complete cs'" "cs = concat css @ cs'" "list_all unsplit cs"
    using assms unfolding stored_def by blast
  then have "block_chunks p cs'" by (simp add: block_chunks_def list_all_butlast list_all_within)
  then show ?thesis
    using * unfolding stored_def
    by (intro exI [of _ "css @ [cs']"] exI [of _ "[]"]) (simp add: list_all2_appendI)
qed

section \<open>The contract of the device side\<close>

text \<open>
  \<open>emptied b b'\<close>: the block is empty again and as large as before.
\<close>

definition emptied :: "DEV_BLOCK \<Rightarrow> DEV_BLOCK \<Rightarrow> bool" where
  "emptied b b' \<longleftrightarrow> block_wf b' \<and> payload b' = [] \<and> buf_len b' = buf_len b \<and> binbuf b' = 24 \<and> filemedia b' = []"

text \<open>An image on the volume: the session and the payload of a block.\<close>

type_synonym image = "(uint32_t \<times> uint32_t) \<times> byte list"

definition image_of :: "DEV_BLOCK \<Rightarrow> image" where
  "image_of b = ((VolSessionId b, VolSessionTime b), payload b)"

text \<open>The images that blocks of the size of \<open>b\<close> leave: some data, within the buffer.\<close>

definition fits :: "DEV_BLOCK \<Rightarrow> image \<Rightarrow> bool" where
  "fits b i \<longleftrightarrow> snd i \<noteq> [] \<and> 24 + length (snd i) \<le> unat (buf_len b)"

lemma image_fits:
  assumes "block_wf b" and "payload b \<noteq> []" and "buf_len b' = buf_len b"
  shows "fits b' (image_of b)"
  using block_wfD [OF assms(1)] assms(2,3) by (simp add: fits_def image_of_def payload_def)

lemma payload_not_empty:
  assumes "block_wf b" and "payload b \<noteq> []"
  shows "\<not> is_block_empty b"
proof
  assume "is_block_empty b"
  then have "unat (binbuf b) \<le> 24"
    using block_wfD(1) [OF assms(1)] by (simp add: is_block_empty_def BLKHDR2_LENGTH_def word_le_nat_alt)
  then have "payload b = []" by (simp add: payload_def)
  with assms(2) show False by contradiction
qed

text \<open>
  A block sink: while the device is \<open>ready\<close>, a block with data is written, that is, its image is
  appended to the volume and the block comes back empty, and the device stays ready. It may rely on the session, the
  file media records and the size of the block, which \<open>accepts\<close> describes.
\<close>

locale block_sink =
  fixes wbd :: "'d block_writer" and canceled :: "'d \<Rightarrow> bool" and ready :: "'d \<Rightarrow> bool"
    and vol :: "'d \<Rightarrow> image list" and accepts :: "uint32_t \<times> uint32_t \<Rightarrow> FILEMEDIA_ITEM list \<Rightarrow> uint32_t \<Rightarrow> bool"
  assumes ready_not_canceled: "ready d \<Longrightarrow> \<not> canceled d"
    and accepts_empty: "accepts s fm n \<Longrightarrow> accepts s [] n"
    and wbd_writes: "ready d \<Longrightarrow> block_wf b \<Longrightarrow> accepts (VolSessionId b, VolSessionTime b) (filemedia b) (buf_len b) \<Longrightarrow> \<not> is_block_empty b \<Longrightarrow>
          \<exists>d' b'. wbd d b = Some (Ret (True, d', b')) \<and> ready d' \<and> vol d' = vol d @ [image_of b] \<and> emptied b b'"
begin

text \<open>
  The state between two calls: everything stored means the records delivered so far and the pending
  one, every image and every block with data belongs to the session \<open>s\<close>, and the images fit the buffer.
\<close>

definition holds :: "uint32_t \<times> uint32_t \<Rightarrow> 'd \<Rightarrow> DEV_BLOCK \<Rightarrow> app_record list \<Rightarrow> app_record option \<Rightarrow> bool" where
  "holds s d b out p \<longleftrightarrow> ready d \<and> block_wf b \<and> accepts s (filemedia b) (buf_len b) \<and>
     (\<exists>cs. stored (map snd (vol d)) (payload b) cs \<and> decode None cs = Some (out, p)) \<and>
     (\<forall>i \<in> set (vol d). fst i = s \<and> fits b i) \<and>
     (payload b \<noteq> [] \<longrightarrow> (VolSessionId b, VolSessionTime b) = s)"

text \<open>A block that does not fit anything more is written and comes back empty.\<close>

lemma flush_holds:
  assumes "holds s d b out p" and "payload b \<noteq> []"
  shows "\<exists>d' b'. wbd d b = Some (Ret (True, d', b')) \<and> holds s d' b' out p \<and> payload b' = [] \<and>
     buf_len b' = buf_len b \<and> room b' = unat (buf_len b) - 24"
proof -
  have wf: "block_wf b" and rdy: "ready d" using assms(1) by (simp_all add: holds_def)
  obtain cs where cs: "stored (map snd (vol d)) (payload b) cs" "decode None cs = Some (out, p)"
    using assms(1) by (auto simp: holds_def)
  have acc: "accepts s (filemedia b) (buf_len b)" "(VolSessionId b, VolSessionTime b) = s" using assms by (simp_all add: holds_def)
  have "\<not> is_block_empty b" by (rule payload_not_empty [OF wf assms(2)])
  then obtain d' b' where w: "wbd d b = Some (Ret (True, d', b'))" "ready d'" "vol d' = vol d @ [image_of b]"
    "emptied b b'"
    using wbd_writes [OF rdy wf] acc by blast
  then have "stored (map snd (vol d')) (payload b') cs"
    using stored_flush [OF cs(1)] by (simp add: emptied_def image_of_def)
  then have "holds s d' b' out p"
    using assms w cs(2) image_fits [OF wf assms(2)] accepts_empty [OF acc(1)] by (auto simp: holds_def emptied_def image_of_def fits_def)
  then show ?thesis using w by (simp add: emptied_def room_def)
qed

lemma cut_holds:
  assumes "holds s d b out p" and "wrote b (enc_chunk c) b'" and "enc_chunk c \<noteq> []" and "within c"
    and "(VolSessionId b', VolSessionTime b') = s" and "decode_chunk p c = Some (out', p')" and "unsplit c"
  shows "\<exists>d2 b2. wbd d b' = Some (Ret (True, d2, b2)) \<and> holds s d2 b2 (out @ out') p' \<and> payload b2 = [] \<and>
     buf_len b2 = buf_len b \<and> room b2 = unat (buf_len b) - 24"
proof -
  obtain cs where cs: "stored (map snd (vol d)) (payload b) cs" "decode None cs = Some (out, p)"
    using assms(1) by (auto simp: holds_def)
  have w: "block_wf b'" "payload b' = payload b @ enc_chunk c" "buf_len b' = buf_len b" "filemedia b' = filemedia b"
    using assms(2) by (simp_all add: wrote_def)
  have acc: "accepts s (filemedia b') (buf_len b')" using assms(1) w(3,4) by (simp add: holds_def)
  have rdy: "ready d" using assms(1) by (simp add: holds_def)
  have ne: "payload b' \<noteq> []" using w(2) assms(3) by simp
  have "\<not> is_block_empty b'" by (rule payload_not_empty [OF w(1) ne])
  then obtain d2 b2 where f: "wbd d b' = Some (Ret (True, d2, b2))" "ready d2" "vol d2 = vol d @ [image_of b']"
    "emptied b' b2"
    using wbd_writes [OF rdy w(1)] acc assms(5) by blast
  then have "stored (map snd (vol d2)) (payload b2) (cs @ [c])"
    using stored_cut [OF cs(1) assms(4,7)] w(2) by (simp add: emptied_def image_of_def)
  then have "holds s d2 b2 (out @ out') p'"
    using assms f w decode_snoc [OF cs(2) assms(6)] image_fits [OF w(1) ne] accepts_empty [OF acc]
    by (auto simp: holds_def emptied_def image_of_def fits_def)
  then show ?thesis using f w by (simp add: emptied_def room_def)
qed

lemma complete_holds:
  assumes "holds s d b out p" and "wrote b (enc_chunk c) b'" and "complete c"
    and "(VolSessionId b', VolSessionTime b') = s" and "decode_chunk p c = Some (out', p')"
  shows "holds s d b' (out @ out') p'"
proof -
  obtain cs where cs: "stored (map snd (vol d)) (payload b) cs" "decode None cs = Some (out, p)"
    using assms(1) by (auto simp: holds_def)
  then have "stored (map snd (vol d)) (payload b') (cs @ [c])"
    using stored_append [OF cs(1) assms(3)] assms(2) by (simp add: wrote_def)
  then show ?thesis
    using assms decode_snoc [OF cs(2) assms(5)] by (auto simp: holds_def wrote_def fits_def)
qed

text \<open>
  One call of the state machine and, if the record does not fit, the write of the block. The chunk
  has the stream \<open>strm\<close>, the reader holds \<open>p\<close>, and \<open>acc\<close> is what the reader has of the record.
\<close>

lemma one_call:
  assumes h: "holds s d b out p" and res: "header_result b r strm len dat res" and len: "unat len = length dat"
    and sess: "(rec_VolSessionId r, rec_VolSessionTime r) = s"
    and dec: "\<And>d'. decode_chunk p (FileIndex r, strm, len, d') =
       (if length d' = unat len then Some ([(FileIndex r, strm0, acc @ d')], None)
        else Some ([], Some (FileIndex r, strm0, acc @ d')))"
    and whole: "FileIndex r <s 0 \<longrightarrow> 12 + length dat \<le> room b"
  shows "\<exists>b' r'. res = Some (Ret (12 + length dat \<le> room b, b', r')) \<and> same_rec r r' \<and>
     (if 12 + length dat \<le> room b
      then holds s d b' (out @ [(FileIndex r, strm0, acc @ dat)]) None \<and> wstate r' = st_none \<and>
        remainder r' = 0 \<and> buf_len b' = buf_len b
      else wstate r' = st_cont_header \<and> unat (remainder r') = length dat - (room b - 12) \<and>
        (\<exists>d2 b2. wbd d b' = Some (Ret (True, d2, b2)) \<and>
           holds s d2 b2 out (Some (FileIndex r, strm0, acc @ take (room b - 12) dat)) \<and>
           buf_len b2 = buf_len b \<and> room b2 = unat (buf_len b) - 24))"
proof -
  let ?d = "take (room b - 12) dat"
  let ?c = "(FileIndex r, strm, len, ?d)"
  obtain b' r' where c: "res = Some (Ret (12 + length dat \<le> room b, b', r'))"
    "wrote b (enc_chunk ?c) b'" "same_rec r r'" "in_session r' b'"
    "if 12 + length dat \<le> room b then wstate r' = st_none \<and> remainder r' = 0
     else wstate r' = st_cont_header \<and> unat (remainder r') = length dat - (room b - 12)"
    using res by (auto simp: header_result_def)
  have s': "(VolSessionId b', VolSessionTime b') = s"
    using c(3,4) sess by (auto simp: in_session_def same_rec_def)
  show ?thesis
  proof (cases "12 + length dat \<le> room b")
    case True
    then have "decode_chunk p ?c = Some ([(FileIndex r, strm0, acc @ dat)], None)" "complete ?c"
      using dec [of ?d] len by simp_all
    then have "holds s d b' (out @ [(FileIndex r, strm0, acc @ dat)]) None"
      using complete_holds [OF h c(2) _ s'] by blast
    then show ?thesis using True c by (auto simp: wrote_def)
  next
    case False
    have "room b' + length (enc_chunk ?c) = room b" using c(2) by (simp add: wrote_def)
    then have "12 \<le> room b" by simp
    then have "length ?d \<noteq> unat len" using False len by simp
    then have "decode_chunk p ?c = Some ([], Some (FileIndex r, strm0, acc @ ?d))"
      using dec [of ?d] by simp
    moreover have "enc_chunk ?c \<noteq> []" by (simp add: rechdr_bytes_def be_bytes_def le_bytes_def)
    moreover have "within ?c" using len by simp
    moreover have "unsplit ?c" using whole False by (simp add: unsplit_def)
    ultimately show ?thesis
      using cut_holds [OF h c(2) _ _ s'] False c by fastforce
  qed
qed

text \<open>The record is stored: everything means one record more, and the packet can be used again.\<close>

definition finishes :: "uint32_t \<times> uint32_t \<Rightarrow> DEV_BLOCK \<Rightarrow> DEV_RECORD \<Rightarrow> app_record list
    \<Rightarrow> (bool \<times> 'd \<times> DEV_BLOCK \<times> DEV_RECORD) outcome option \<Rightarrow> bool" where
  "finishes s b r out res \<longleftrightarrow>
     (\<exists>d' b' r'. res = Some (Ret (True, d', b', r')) \<and>
        holds s d' b' (out @ [(FileIndex r, Stream r, rec_data r)]) None \<and> buf_len b' = buf_len b \<and>
        same_rec r r' \<and> wstate r' = st_none \<and> remainder r' = 0)"

lemma finishes_same_rec:
  "finishes s b' r' out res \<Longrightarrow> same_rec r r' \<Longrightarrow> buf_len b' = buf_len b \<Longrightarrow> finishes s b r out res"
  by (fastforce simp: finishes_def same_rec_def)

lemma write_record_done:
  assumes "write_record_to_block False b r = Some (Ret (True, b', r'))"
  shows "write_record wbd canceled False d b r = Some (Ret (True, d, b', r'))"
  by (subst write_record.simps) (simp add: assms)

lemma write_record_flush:
  assumes "write_record_to_block False b r = Some (Ret (False, b', r'))" and "ready d"
    and "wbd d b' = Some (Ret (True, d2, b2))"
  shows "write_record wbd canceled False d b r = write_record wbd canceled False d2 b2 r'"
  by (subst write_record.simps) (simp add: assms ready_not_canceled)

text \<open>What every call of \<open>write_record\<close> may assume of a record.\<close>

definition writable :: "uint32_t \<times> uint32_t \<Rightarrow> DEV_RECORD \<Rightarrow> bool" where
  "writable s r \<longleftrightarrow> rec_ok r \<and> 0 <s Stream r \<and> \<not> bit (state_bits r) 7 \<and>
     (rec_VolSessionId r, rec_VolSessionTime r) = s"

lemma writable_same: "same_rec r r' \<Longrightarrow> writable s r \<Longrightarrow> writable s r'"
  using same_rec_ok by (auto simp: writable_def same_rec_def)

lemma neg_stream: "0 <s (x :: int32_t) \<Longrightarrow> - x <s 0 \<and> \<not> x <s 0"
proof -
  assume "0 <s x"
  then have pos: "0 < sint x" by (simp add: word_sless_alt)
  define n where "n = unat x"
  have s: "sint x = (if n < 2 ^ 31 then int n else int n - 2 ^ 32)"
    using sint_cases [of x] by (simp only: n_def)
  have n32: "n < 2 ^ 32" using unsigned_less [of x, where 'a = nat] by (simp add: n_def)
  have n: "0 < n" "n < 2 ^ 31" using pos s n32 by (auto split: if_splits)
  have "unat (- x) = 2 ^ 32 - n"
    using unat_sub_if' [of 0 x] n(1) by (simp add: n_def)
  then have "sint (- x) = - int n"
    using sint_cases [of "- x"] n by (simp add: of_nat_diff)
  then show ?thesis using n s by (simp add: word_sless_alt)
qed

lemma cont_finishes:
  assumes "writable s r" and "holds s d b out (Some (FileIndex r, Stream r, take (length (rec_data r) - unat (remainder r)) (rec_data r)))"
    and "12 < room b" and "36 < unat (buf_len b)" and "wstate r = st_cont_header"
    and "0 < unat (remainder r)" and "remainder r \<le> data_len r" and "\<not> FileIndex r <s 0"
  shows "finishes s b r out (write_record wbd canceled False d b r)"
  using assms
proof (induction "unat (remainder r)" arbitrary: d b r rule: less_induct)
  case less
  let ?D = "rec_data r" and ?n = "unat (remainder r)"
  have ok: "rec_ok r" "unat (data_len r) = length ?D" "?n \<le> length ?D"
    using less.prems(1,7) rec_okD by (auto simp: writable_def word_le_nat_alt)
  have wf: "block_wf b" using less.prems(2) by (simp add: holds_def)
  let ?acc = "take (length ?D - ?n) ?D"
  have todo: "?acc @ to_do r = ?D" "length (to_do r) = ?n" using ok(3) by (simp_all add: to_do_def)
  have call: "header_result b r (- Stream r) (remainder r) (to_do r) (write_record_to_block False b r)"
    using cont_call [OF wf less.prems(3) ok(1)] less.prems(1,5,7) by (auto simp: writable_def)
  have dec: "decode_chunk (Some (FileIndex r, Stream r, ?acc)) (FileIndex r, - Stream r, remainder r, d') =
       (if length d' = ?n then Some ([(FileIndex r, Stream r, ?acc @ d')], None)
        else Some ([], Some (FileIndex r, Stream r, ?acc @ d')))" for d'
    using less.prems(1) neg_stream [of "Stream r"] ok rec_okD [OF ok(1)]
    by (simp add: writable_def MAX_BLOCK_LENGTH_def)
  have sess: "(rec_VolSessionId r, rec_VolSessionTime r) = s" using less.prems(1) by (simp add: writable_def)
  have whole: "FileIndex r <s 0 \<longrightarrow> 12 + length (to_do r) \<le> room b" using less.prems(8) by simp
  obtain b' r' where one: "write_record_to_block False b r = Some (Ret (12 + ?n \<le> room b, b', r'))"
    "same_rec r r'"
    "if 12 + ?n \<le> room b
      then holds s d b' (out @ [(FileIndex r, Stream r, ?D)]) None \<and> wstate r' = st_none \<and>
        remainder r' = 0 \<and> buf_len b' = buf_len b
      else wstate r' = st_cont_header \<and> unat (remainder r') = ?n - (room b - 12) \<and>
        (\<exists>d2 b2. wbd d b' = Some (Ret (True, d2, b2)) \<and>
           holds s d2 b2 out (Some (FileIndex r, Stream r, ?acc @ take (room b - 12) (to_do r))) \<and>
           buf_len b2 = buf_len b \<and> room b2 = unat (buf_len b) - 24)"
    using one_call [OF less.prems(2) call todo(2) [symmetric] sess dec whole, unfolded todo]
    by (elim exE conjE) (rule that)
  show ?case
  proof (cases "12 + ?n \<le> room b")
    case True
    then show ?thesis
      using one write_record_done [of b r b' r' d] by (auto simp: finishes_def)
  next
    case False
    then obtain d2 b2 where f: "wbd d b' = Some (Ret (True, d2, b2))" "buf_len b2 = buf_len b"
      "holds s d2 b2 out (Some (FileIndex r, Stream r, ?acc @ take (room b - 12) (to_do r)))"
      "room b2 = unat (buf_len b) - 24"
      using one(3) by auto
    have n': "unat (remainder r') = ?n - (room b - 12)" "wstate r' = st_cont_header"
      using one(3) False by auto
    have same: "FileIndex r' = FileIndex r" "Stream r' = Stream r" "rec_data r' = ?D" "data_len r' = data_len r"
      using one(2) by (simp_all add: same_rec_def)
    have acc: "?acc @ take (room b - 12) (to_do r) = take (length ?D - unat (remainder r')) ?D"
    proof -
      have "length ?D - unat (remainder r') = (length ?D - ?n) + (room b - 12)"
        using n'(1) False ok(3) less.prems(3) by linarith
      then show ?thesis by (simp add: take_add to_do_def)
    qed
    have "finishes s b2 r' out (write_record wbd canceled False d2 b2 r')"
    proof (rule less.hyps)
      show "unat (remainder r') < ?n" using n'(1) less.prems(3,6) by linarith
      show "writable s r'" using writable_same [OF one(2) less.prems(1)] .
      show "holds s d2 b2 out (Some (FileIndex r', Stream r', take (length (rec_data r') - unat (remainder r')) (rec_data r')))"
        using f(3) acc same by simp
      show "12 < room b2" using f(4) less.prems(4) by linarith
      show "36 < unat (buf_len b2)" using f(2) less.prems(4) by simp
      show "0 < unat (remainder r')" using n'(1) False less.prems(3) by linarith
      show "remainder r' \<le> data_len r'" using n'(1) same ok by (simp add: word_le_nat_alt)
      show "\<not> FileIndex r' <s 0" using less.prems(8) same by simp
    qed (rule n'(2))
    moreover have "ready d" using less.prems(2) by (simp add: holds_def)
    ultimately show ?thesis
      using one(1,2) False f(1,2) write_record_flush [of b r b' r' d d2 b2] finishes_same_rec by auto
  qed
qed

text \<open>A call that starts with the header of the whole record.\<close>

lemma whole_finishes:
  assumes wr: "writable s r" and h: "holds s d b out None" and big: "36 < unat (buf_len b)"
    and call: "header_result b r (Stream r) (data_len r) (rec_data r) (write_record_to_block False b r)"
    and whole: "FileIndex r <s 0 \<longrightarrow> 12 + length (rec_data r) \<le> room b"
  shows "finishes s b r out (write_record wbd canceled False d b r)"
proof -
  let ?D = "rec_data r"
  have ok: "unat (data_len r) = length ?D" using wr rec_okD by (auto simp: writable_def)
  have sess: "(rec_VolSessionId r, rec_VolSessionTime r) = s" using wr by (simp add: writable_def)
  have dec: "decode_chunk None (FileIndex r, Stream r, data_len r, d') =
       (if length d' = unat (data_len r) then Some ([(FileIndex r, Stream r, [] @ d')], None)
        else Some ([], Some (FileIndex r, Stream r, [] @ d')))" for d'
    using wr neg_stream [of "Stream r"] ok rec_okD [of r] by (simp add: writable_def MAX_BLOCK_LENGTH_def)
  obtain b' r' where one: "write_record_to_block False b r = Some (Ret (12 + length ?D \<le> room b, b', r'))"
    "same_rec r r'"
    "if 12 + length ?D \<le> room b
      then holds s d b' (out @ [(FileIndex r, Stream r, ?D)]) None \<and> wstate r' = st_none \<and>
        remainder r' = 0 \<and> buf_len b' = buf_len b
      else wstate r' = st_cont_header \<and> unat (remainder r') = length ?D - (room b - 12) \<and>
        (\<exists>d2 b2. wbd d b' = Some (Ret (True, d2, b2)) \<and>
           holds s d2 b2 out (Some (FileIndex r, Stream r, take (room b - 12) ?D)) \<and>
           buf_len b2 = buf_len b \<and> room b2 = unat (buf_len b) - 24)"
    using one_call [OF h call ok sess dec whole, unfolded append_Nil] by (elim exE conjE) (rule that)
  show ?thesis
  proof (cases "12 + length ?D \<le> room b")
    case True
    then show ?thesis
      using one write_record_done [of b r b' r' d] by (auto simp: finishes_def)
  next
    case False
    then obtain d2 b2 where f: "wbd d b' = Some (Ret (True, d2, b2))" "buf_len b2 = buf_len b"
      "holds s d2 b2 out (Some (FileIndex r, Stream r, take (room b - 12) ?D))"
      "room b2 = unat (buf_len b) - 24"
      using one(3) by auto
    have r': "unat (remainder r') = length ?D - (room b - 12)" "wstate r' = st_cont_header"
      using one(3) False by auto
    have room: "12 \<le> room b" using call by (auto simp: header_result_def wrote_def)
    have same: "FileIndex r' = FileIndex r" "Stream r' = Stream r" "rec_data r' = ?D" "data_len r' = data_len r"
      using one(2) by (simp_all add: same_rec_def)
    have "length ?D - unat (remainder r') = room b - 12" using r'(1) False room by linarith
    then have "holds s d2 b2 out (Some (FileIndex r', Stream r', take (length (rec_data r') - unat (remainder r')) (rec_data r')))"
      using f(3) same by simp
    then have "finishes s b2 r' out (write_record wbd canceled False d2 b2 r')"
      using r' f(2,4) big False room ok same whole
      by (intro cont_finishes [OF writable_same [OF one(2) wr]]) (simp_all add: word_le_nat_alt)
    moreover have "ready d" using h by (simp add: holds_def)
    ultimately show ?thesis
      using one(1,2) False f(1,2) write_record_flush [of b r b' r' d d2 b2] finishes_same_rec by auto
  qed
qed

theorem write_record_finishes:
  assumes wr: "writable s r" and h: "holds s d b out None" and big: "36 < unat (buf_len b)"
    and st: "wstate r = st_none" and whole: "FileIndex r <s 0 \<longrightarrow> 12 + length (rec_data r) \<le> room b"
  shows "finishes s b r out (write_record wbd canceled False d b r)"
proof (cases "12 \<le> room b")
  case True
  have "block_wf b" using h by (simp add: holds_def)
  then show ?thesis
    using wr st by (intro whole_finishes [OF wr h big] fresh_call [OF _ True]) (auto simp: writable_def whole)
next
  case False
  have wf: "block_wf b" and rdy: "ready d" using h by (simp_all add: holds_def)
  have ok: "rec_ok r" "unat (data_len r) = length (rec_data r)" "length (rec_data r) < 20000000"
    using wr rec_okD by (auto simp: writable_def)
  obtain r' where r': "write_record_to_block False b r = Some (Ret (False, b, r'))" "same_rec r r'"
    "wstate r' = st_cont_header" "remainder r' = data_len r + 12"
    using fresh_call_no_room [OF wf, of r] False st by auto
  have "payload b \<noteq> []"
    using False big block_wfD [OF wf] by (auto simp: payload_def room_def)
  then obtain d2 b2 where f: "wbd d b = Some (Ret (True, d2, b2))" "holds s d2 b2 out None" "buf_len b2 = buf_len b"
    "room b2 = unat (buf_len b) - 24"
    using flush_holds [OF h] by blast
  have "unat (data_len r + 12) = unat (data_len r) + 12"
    using ok unat_add_no_wrap [of "data_len r" 12] by simp
  then have more: "data_len r' < remainder r'"
    using r'(2,4) by (simp add: same_rec_def word_less_nat_alt)
  have wr': "writable s r'" using writable_same [OF r'(2) wr] .
  have "header_result b2 r' (Stream r') (data_len r') (rec_data r') (write_record_to_block False b2 r')"
    using cont_call [of b2 r'] more wr' r'(3) f(2,4) big by (auto simp: holds_def writable_def)
  then have "finishes s b2 r' out (write_record wbd canceled False d2 b2 r')"
    using f(3) big whole False r'(2) by (intro whole_finishes [OF wr' f(2)]) (auto simp: same_rec_def)
  then show ?thesis
    using write_record_flush [OF r'(1) rdy f(1)] finishes_same_rec r'(2) f(3) by simp
qed

end

end
