(* ===== verification/RecordRead.thy ===== *)
theory RecordRead
  imports RecordStream
begin

text \<open>
  Reading records out of blocks (\<^verbatim>\<open>stored/record_read.c\<close>, and the loop over the records of a block in
  \<^verbatim>\<open>stored/read_records.c\<close>): the record header with its session, continuation and sanity checks, the
  data, and the assembly of a record that is spread over several blocks.
\<close>

section \<open>The record header\<close>

text \<open>
  \<open>check_pool_memory_size\<close>: a buffer shorter than the size, a signed 32-bit integer, is enlarged to
  it and keeps its contents; the bytes behind them are indeterminate, zeros stand for them.
\<close>

definition check_pool_memory_size :: "byte list \<Rightarrow> int32_t \<Rightarrow> byte list" where
  "check_pool_memory_size b sz =
     (if int (length b) < sint sz then b @ replicate (nat (sint sz) - length b) 0 else b)"

definition or_bits :: "uint32_t \<Rightarrow> DEV_RECORD \<Rightarrow> DEV_RECORD" where
  "or_bits m rec = rec\<lparr>state_bits := state_bits rec OR m\<rparr>"

text \<open>\<open>have_adata_header\<close> of \<open>DEVICE\<close>: no aligned volumes in this edition.\<close>

definition have_adata_header :: "DEV_RECORD \<Rightarrow> bool" where
  "have_adata_header rec = False"

text \<open>The header is accepted: the fields go into the record, and the length is checked.\<close>

definition accept_header :: "uint32_t \<Rightarrow> uint32_t \<Rightarrow> int32_t \<Rightarrow> int32_t \<Rightarrow> DEV_BLOCK \<Rightarrow> DEV_RECORD
    \<Rightarrow> bool \<times> DEV_BLOCK \<times> DEV_RECORD" where
  "accept_header sid stime fi strm block rec =
     (let rec = rec\<lparr>Stream := strm, maskedStream := strm AND STREAMMASK_TYPE, rec_VolSessionId := sid,
                    rec_VolSessionTime := stime, FileIndex := fi\<rparr>;
          block = note_index rec block
      in if MAX_BLOCK_LENGTH \<le> data_bytes rec then
           (False, empty_block block, or_bits (REC_NO_HEADER OR REC_BLOCK_EMPTY) rec)
         else
           (True, block, rec\<lparr>rec_data := check_pool_memory_size (rec_data rec) (data_len rec + data_bytes rec),
                             rstate := st_data\<rparr>))"

definition read_header :: "DEVICE \<Rightarrow> DEV_BLOCK \<Rightarrow> DEV_RECORD \<Rightarrow> (bool \<times> DEV_BLOCK \<times> DEV_RECORD) outcome" where
  "read_header dev block rec =
     (if adata block then Dies Assert_failed
      else
        (let rec = rec\<lparr>state_bits := (if is_tape dev then REC_ISTAPE else 0), Addr := dev_EndAddr dev\<rparr>;
             rhl = (if BlockVer block = 1 then RECHDR1_LENGTH else WRITE_RECHDR_LENGTH)
         in if of_nat rhl \<le> remlen rec then
              bind_outcome (from_option Out_of_bounds (do {
                  (sid, stime, c) \<leftarrow>
                    (if BlockVer block = 1 then do {
                       (sid, c) \<leftarrow> unser_uint32 (buf block, bufp block);
                       (stime, c) \<leftarrow> unser_uint32 c;
                       Some (sid, stime, c)
                     } else Some (VolSessionId block, VolSessionTime block, (buf block, bufp block)));
                  (fi, c) \<leftarrow> unser_int32 c;
                  (strm, c) \<leftarrow> unser_int32 c;
                  (len, c) \<leftarrow> unser_uint32 c;
                  Some (sid, stime, fi, strm, len)
                })) (\<lambda>(sid, stime, fi, strm, len).
              (let rec = rec\<lparr>data_bytes := len\<rparr>
               in if have_adata_header rec then Ret (True, block, rec)
                  else
                    (let block = block\<lparr>bufp := bufp block + rhl, binbuf := binbuf block - of_nat rhl\<rparr>;
                         rec = rec\<lparr>remlen := remlen rec - of_nat rhl\<rparr>
                     in if remainder rec \<noteq> 0 \<and> (rec_VolSessionId rec \<noteq> sid \<or> rec_VolSessionTime rec \<noteq> stime)
                        then Ret (False, block, or_bits REC_NO_MATCH rec)
                        else if strm <s 0 then
                          (let rec = or_bits REC_CONTINUATION rec
                           in if remainder rec = 0
                              then Ret (accept_header sid stime fi (- strm) block (rec\<lparr>data_len := 0\<rparr>))
                              else if Stream rec \<noteq> - strm
                              then Ret (False, block, or_bits REC_NO_MATCH rec)
                              else Ret (accept_header sid stime fi (- strm) block rec))
                        else Ret (accept_header sid stime fi strm block (rec\<lparr>data_len := 0\<rparr>)))))
            else Ret (False, empty_block block, or_bits (REC_NO_HEADER OR REC_BLOCK_EMPTY) rec)))"

section \<open>The record data\<close>

definition read_data :: "DEV_BLOCK \<Rightarrow> DEV_RECORD \<Rightarrow> (DEV_BLOCK \<times> DEV_RECORD) outcome" where
  "read_data block rec =
     (if adata block then Dies Assert_failed
      else
        (let n = (if data_bytes rec \<le> remlen rec then data_bytes rec else remlen rec)
         in bind_outcome (from_option Out_of_bounds (do {
                bs \<leftarrow> mem_read (buf block) (bufp block) (unat n);
                mem_write (rec_data rec) (unat (data_len rec)) bs
              })) (\<lambda>dat.
            (let block = block\<lparr>bufp := bufp block + unat n, binbuf := binbuf block - n\<rparr>;
                 rec = rec\<lparr>rec_data := dat, data_len := data_len rec + n\<rparr>
             in if data_bytes rec \<le> remlen rec then Ret (block, rec\<lparr>remainder := 0\<rparr>)
                else Ret (block, or_bits (REC_PARTIAL_RECORD OR REC_BLOCK_EMPTY) (rec\<lparr>remainder := 1\<rparr>))))))"

section \<open>The state machine\<close>

text \<open>
  \<open>read_record_from_block\<close> from the state \<open>st_data\<close>, from \<open>st_header\<close>, and as a whole. Only
  \<open>st_adata_blkhdr\<close> leads back to an earlier state, and only once. The methods for aligned volumes
  return failure in this edition.
\<close>

definition read_from_data :: "DEV_BLOCK \<Rightarrow> DEV_RECORD \<Rightarrow> (bool \<times> DEV_BLOCK \<times> DEV_RECORD) outcome" where
  "read_from_data block rec =
     bind_outcome (read_data block rec) (\<lambda>(block, rec). Ret (True, block, rec\<lparr>rstate := st_header\<rparr>))"

definition read_from_header :: "DEVICE \<Rightarrow> DEV_BLOCK \<Rightarrow> DEV_RECORD \<Rightarrow> (bool \<times> DEV_BLOCK \<times> DEV_RECORD) outcome" where
  "read_from_header dev block rec =
     (let rec = rec\<lparr>remlen := binbuf block\<rparr>
      in bind_outcome (read_header dev block rec) (\<lambda>(ok, block, rec).
           if ok then read_from_data block rec else Ret (False, block, rec\<lparr>rstate := st_none\<rparr>)))"

definition read_record_from_block :: "DEVICE \<Rightarrow> string \<Rightarrow> DEV_BLOCK \<Rightarrow> DEV_RECORD
    \<Rightarrow> (bool \<times> DEV_BLOCK \<times> DEV_RECORD) outcome" where
  "read_record_from_block dev CurrentVol block rec =
     (let rec = (if remainder rec = 0 then
                   rec\<lparr>rec_RecNum := RecNum block, VolumeName := Some CurrentVol,
                       StartAddr := BlockAddr block, Addr := BlockAddr block\<rparr>
                 else rec);
          block = block\<lparr>RecNum := RecNum block + 1\<rparr>
      in case rstate rec of
           st_none \<Rightarrow> read_from_header dev block rec
         | st_header \<Rightarrow> read_from_header dev block rec
         | st_data \<Rightarrow> read_from_data block rec
         | st_adata_blkhdr \<Rightarrow> read_from_header dev block (rec\<lparr>rstate := st_header\<rparr>)
         | _ \<Rightarrow> Ret (False, block, rec\<lparr>rstate := st_none\<rparr>))"

text \<open>
  The loop over the records of a block in \<open>read_records\<close>, for a restore without a bootstrap: labels
  and complete records go to the callback, a partial record waits for the next block. \<open>cb\<close> is
  \<open>record_cb\<close> with the state it works on.
\<close>

partial_function (option) read_block_records :: "DEVICE \<Rightarrow> string \<Rightarrow> ('s \<Rightarrow> DEV_RECORD \<Rightarrow> bool \<times> 's) \<Rightarrow> 's
    \<Rightarrow> DEV_BLOCK \<Rightarrow> DEV_RECORD \<Rightarrow> (bool \<times> 's \<times> DEV_BLOCK \<times> DEV_RECORD) outcome option" where
  "read_block_records dev CurrentVol cb s block rec =
     (if is_block_marked_empty rec then Some (Ret (True, s, block, rec))
      else
        case read_record_from_block dev CurrentVol block rec of
          Dies e \<Rightarrow> Some (Dies e)
        | Ret (got, block, rec) \<Rightarrow>
            if \<not> got then Some (Ret (True, s, block, rec))
            else if FileIndex rec = EOM_LABEL then Some (Ret (True, s, block, rec))
            else if \<not> FileIndex rec <s 0 \<and> is_partial_record rec then Some (Ret (True, s, block, rec))
            else
              (case cb s rec of (ok, s) \<Rightarrow>
                 if ok then read_block_records dev CurrentVol cb s block (rec\<lparr>invalid := False\<rparr>)
                 else Some (Ret (False, s, block, rec\<lparr>invalid := False\<rparr>))))"

section \<open>What is left to read\<close>

definition unread :: "DEV_BLOCK \<Rightarrow> byte list" where
  "unread b = take (unat (binbuf b)) (drop (bufp b) (buf b))"

definition readable :: "uint32_t \<times> uint32_t \<Rightarrow> DEV_BLOCK \<Rightarrow> bool" where
  "readable s b \<longleftrightarrow> \<not> adata b \<and> BlockVer b \<noteq> 1 \<and> bufp b + unat (binbuf b) \<le> length (buf b) \<and>
     (VolSessionId b, VolSessionTime b) = s"

lemma length_unread: "readable s b \<Longrightarrow> length (unread b) = unat (binbuf b)"
  by (auto simp: unread_def readable_def)

lemma unread_at:
  assumes "readable s b" and "k + n \<le> unat (binbuf b)"
  shows "take n (drop (bufp b + k) (buf b)) = take n (drop k (unread b))"
  using assms by (simp add: unread_def readable_def drop_take min_def add.commute)

lemma note_index_read [simp]:
  "unread (note_index r b) = unread b" "readable s (note_index r b) = readable s b"
  "binbuf (note_index r b) = binbuf b" "bufp (note_index r b) = bufp b" "buf (note_index r b) = buf b"
  "adata (note_index r b) = adata b"
  by (simp_all add: note_index_def Let_def unread_def readable_def)

lemma skip_unread:
  assumes "readable s b" and "unat n \<le> unat (binbuf b)"
  shows "unread (b\<lparr>bufp := bufp b + unat n, binbuf := binbuf b - n\<rparr>) = drop (unat n) (unread b)"
    and "readable s (b\<lparr>bufp := bufp b + unat n, binbuf := binbuf b - n\<rparr>)"
proof -
  have "unat (binbuf b - n) = unat (binbuf b) - unat n"
    using assms(2) by (intro unat_sub_no_wrap) (simp add: word_le_nat_alt)
  then show "unread (b\<lparr>bufp := bufp b + unat n, binbuf := binbuf b - n\<rparr>) = drop (unat n) (unread b)"
    "readable s (b\<lparr>bufp := bufp b + unat n, binbuf := binbuf b - n\<rparr>)"
    using assms by (auto simp: unread_def readable_def drop_take add.commute)
qed

text \<open>The pending record \<open>p\<close> of \<open>decode\<close> is in the packet \<open>r\<close>.\<close>

definition holds_pending :: "uint32_t \<times> uint32_t \<Rightarrow> app_record option \<Rightarrow> DEV_RECORD \<Rightarrow> bool" where
  "holds_pending s p r \<longleftrightarrow> (rstate r = st_none \<or> rstate r = st_header) \<and>
     (case p of
        None \<Rightarrow> remainder r = 0
      | Some (fi, strm, d) \<Rightarrow> remainder r \<noteq> 0 \<and> Stream r = strm \<and> unat (data_len r) = length d \<and>
          length d \<le> length (rec_data r) \<and> take (length d) (rec_data r) = d \<and>
          (rec_VolSessionId r, rec_VolSessionTime r) = s)"

text \<open>The record in the packet, as the callback sees it.\<close>

definition app_view :: "DEV_RECORD \<Rightarrow> app_record" where
  "app_view r = (FileIndex r, Stream r, take (unat (data_len r)) (rec_data r))"

lemma pool_size:
  assumes "m < 2 ^ 31" and "unat n = m"
  shows "m \<le> length (check_pool_memory_size b n)"
    and "k \<le> length b \<Longrightarrow> take k (check_pool_memory_size b n) = take k b"
proof -
  have "sint n = int m" using assms sint_cases [of n] by simp
  then show "m \<le> length (check_pool_memory_size b n)"
    "k \<le> length b \<Longrightarrow> take k (check_pool_memory_size b n) = take k b"
    by (simp_all add: check_pool_memory_size_def)
qed

text \<open>Reading a header that stands at the pointer.\<close>

lemma unser_header:
  assumes rd: "readable s b" and un: "unread b = rechdr_bytes fi strm len @ d"
  shows "Option.bind (unser_int32 (buf b, bufp b)) (\<lambda>(fi, c). Option.bind (unser_int32 c) (\<lambda>(strm, c).
      Option.bind (unser_uint32 c) (\<lambda>(len, c). f fi strm len))) = f fi strm len"
proof -
  have n: "12 \<le> unat (binbuf b)" using length_unread [OF rd] un by simp
  have "get_be 4 (buf b, bufp b) = Some (fi, buf b, bufp b + 4)"
    "get_be 4 (buf b, bufp b + 4) = Some (strm, buf b, bufp b + 8)"
    "get_be 4 (buf b, bufp b + 8) = Some (len, buf b, bufp b + 12)"
    using unread_at [OF rd, of 0 4] unread_at [OF rd, of 4 4] unread_at [OF rd, of 8 4] n
      get_be_at [of 4 "bufp b" "buf b" fi] get_be_at [of 4 "bufp b + 4" "buf b" strm]
      get_be_at [of 4 "bufp b + 8" "buf b" len]
    by (simp_all add: un rechdr_bytes_def)
  then show ?thesis by (simp add: codec_simps)
qed

text \<open>An accepted header: the block moves behind it and the packet is ready for the data.\<close>

lemma accept_header_ok:
  assumes "data_bytes r < MAX_BLOCK_LENGTH"
  shows "accept_header sid stime fi strm b r = (True,
     note_index (r\<lparr>FileIndex := fi\<rparr>) b,
     r\<lparr>Stream := strm, maskedStream := strm AND STREAMMASK_TYPE, rec_VolSessionId := sid,
       rec_VolSessionTime := stime, FileIndex := fi,
       rec_data := check_pool_memory_size (rec_data r) (data_len r + data_bytes r), rstate := st_data\<rparr>)"
  using assms by (simp add: accept_header_def Let_def note_index_def)

text \<open>
  \<open>acc\<close> is what the packet keeps of the pending record when it reads the chunk, \<open>strm0\<close> the stream of
  the record.
\<close>

definition keeps :: "app_record option \<Rightarrow> int32_t \<Rightarrow> byte list \<Rightarrow> int32_t \<Rightarrow> bool" where
  "keeps p strm acc strm0 \<longleftrightarrow>
     (if strm <s 0 then strm0 = - strm \<and> (\<exists>fi0. p = Some (fi0, strm0, acc)) else strm0 = strm \<and> acc = [])"

lemma decode_chunk_keeps:
  assumes "decode_chunk p (fi, strm, len, d) = Some (out, p')"
  obtains acc strm0 where "keeps p strm acc strm0" "length acc + unat len < 20000000"
    "if length d = unat len then out = [(fi, strm0, acc @ d)] \<and> p' = None
     else out = [] \<and> p' = Some (fi, strm0, acc @ d)"
proof (cases "strm <s 0")
  case True
  then obtain d0 where "p = Some (fi, - strm, d0)" "length d0 + unat len < 20000000"
    "if length d = unat len then out = [(fi, - strm, d0 @ d)] \<and> p' = None
     else out = [] \<and> p' = Some (fi, - strm, d0 @ d)"
    using assms by (auto simp: MAX_BLOCK_LENGTH_def split: option.splits if_splits)
  then show thesis using True that [of d0 "- strm"] by (auto simp: keeps_def)
next
  case False
  then show thesis
    using assms that [of "[]" strm] by (auto simp: keeps_def MAX_BLOCK_LENGTH_def split: if_splits)
qed

lemma read_header_chunk:
  assumes rd: "readable s b" and un: "unread b = rechdr_bytes fi strm len @ d" and pend: "holds_pending s p r"
    and k: "keeps p strm acc strm0" and bound: "length acc + unat len < 20000000"
  shows "\<exists>b' r'. read_header dev b (r\<lparr>remlen := binbuf b\<rparr>) = Ret (True, b', r') \<and>
     readable s b' \<and> unread b' = d \<and> remlen r' = binbuf b' \<and> data_bytes r' = len \<and> FileIndex r' = fi \<and>
     Stream r' = strm0 \<and> (rec_VolSessionId r', rec_VolSessionTime r') = s \<and>
     unat (data_len r') = length acc \<and> take (length acc) (rec_data r') = acc \<and>
     length acc + unat len \<le> length (rec_data r') \<and>
     \<not> bit (state_bits r') 1 \<and> \<not> bit (state_bits r') 2 \<and> \<not> bit (state_bits r') 6"
proof -
  let ?b = "b\<lparr>bufp := bufp b + 12, binbuf := binbuf b - 12\<rparr>"
  have n: "12 \<le> unat (binbuf b)" using length_unread [OF rd] un by simp
  then have le: "12 \<le> binbuf b" by (simp add: word_le_nat_alt)
  have skip: "unread ?b = d" "readable s ?b"
    using skip_unread [OF rd, of 12] n un by simp_all
  have hdr: "\<not> adata b" "BlockVer b \<noteq> 1" "(VolSessionId b, VolSessionTime b) = s"
    using rd by (simp_all add: readable_def)
  have len: "len < MAX_BLOCK_LENGTH" using bound by (simp add: MAX_BLOCK_LENGTH_def word_less_nat_alt)
  have sz: "unat (of_nat (length acc) + len) = length acc + unat len"
  proof -
    have "unat (of_nat (length acc) :: uint32_t) = length acc"
      using bound by (intro unat_of_nat_small) simp
    then show ?thesis using bound unat_add_no_wrap [of "of_nat (length acc)" len] by simp
  qed
  note read = read_header_def Let_def WRITE_RECHDR_LENGTH_def RECHDR1_LENGTH_def have_adata_header_def
    unser_header [OF rd un]
  show ?thesis
  proof (cases "strm <s 0")
    case True
    then obtain fi0 where p: "p = Some (fi0, strm0, acc)" "strm0 = - strm" using k by (auto simp: keeps_def)
    have r: "remainder r \<noteq> 0" "Stream r = - strm" "unat (data_len r) = length acc"
      "length acc \<le> length (rec_data r)" "take (length acc) (rec_data r) = acc"
      "(rec_VolSessionId r, rec_VolSessionTime r) = s"
      using pend p by (simp_all add: holds_pending_def)
    have dl: "data_len r = of_nat (length acc)" using arg_cong [OF r(3), of "of_nat :: nat \<Rightarrow> uint32_t"] by simp
    have "length acc + unat len < 2 ^ 31" using bound by simp
    note pool = pool_size(1) [OF this sz, where b = "rec_data r"] pool_size(2) [OF this sz, where b = "rec_data r" and k = "length acc"]
    have "\<not> (rec_VolSessionId r \<noteq> VolSessionId b \<or> rec_VolSessionTime r \<noteq> VolSessionTime b)"
      using r(6) hdr(3) by auto
    then show ?thesis
      using hdr le True skip pool r dl p len
      by (simp add: read accept_header_ok or_bits_def bit_or_iff rec_bits)
  next
    case False
    then have acc: "acc = []" "strm0 = strm" using k by (auto simp: keeps_def)
    have "remainder r = 0 \<or> (rec_VolSessionId r, rec_VolSessionTime r) = s"
      using pend by (auto simp: holds_pending_def split: option.splits)
    then have "\<not> (remainder r \<noteq> 0 \<and> (rec_VolSessionId r \<noteq> VolSessionId b \<or> rec_VolSessionTime r \<noteq> VolSessionTime b))"
      using hdr(3) by auto
    moreover have "unat len < 2 ^ 31" using bound by simp
    note pool_size(1) [OF this refl, where b = "rec_data r"]
    ultimately show ?thesis
      using hdr le False skip acc len
      by (simp add: read accept_header_ok or_bits_def bit_or_iff rec_bits)
  qed
qed

lemma read_data_chunk:
  assumes rd: "readable s b" and un: "unread b = d @ rest" and rl: "remlen r = binbuf b"
    and d: "length d \<le> unat (data_bytes r)" "length d = unat (data_bytes r) \<or> rest = []"
    and acc: "unat (data_len r) = length acc" "take (length acc) (rec_data r) = acc"
    and fits: "length acc + unat (data_bytes r) \<le> length (rec_data r)"
    and bound: "length acc + unat (data_bytes r) < 20000000"
    and bits: "\<not> bit (state_bits r) 1" "\<not> bit (state_bits r) 2" "\<not> bit (state_bits r) 6"
  shows "\<exists>b' r'. read_from_data b r = Ret (True, b', r') \<and> readable s b' \<and> unread b' = rest \<and>
     rstate r' = st_header \<and> FileIndex r' = FileIndex r \<and> Stream r' = Stream r \<and>
     rec_VolSessionId r' = rec_VolSessionId r \<and> rec_VolSessionTime r' = rec_VolSessionTime r \<and>
     unat (data_len r') = length (acc @ d) \<and> take (length (acc @ d)) (rec_data r') = acc @ d \<and>
     length (acc @ d) \<le> length (rec_data r') \<and>
     remainder r' = (if length d = unat (data_bytes r) then 0 else 1) \<and>
     (bit (state_bits r') 1 \<longleftrightarrow> length d \<noteq> unat (data_bytes r)) \<and>
     (bit (state_bits r') 2 \<longleftrightarrow> length d \<noteq> unat (data_bytes r)) \<and> \<not> bit (state_bits r') 6"
proof -
  define n where "n = (if data_bytes r \<le> remlen r then data_bytes r else remlen r)"
  have bb: "unat (binbuf b) = length d + length rest" using length_unread [OF rd] un by simp
  have full: "data_bytes r \<le> remlen r \<longleftrightarrow> length d = unat (data_bytes r)"
    using bb rl d by (auto simp: word_le_nat_alt)
  have n: "unat n = length d" using full d bb rl by (auto simp: n_def)
  have rd_bs: "mem_read (buf b) (bufp b) (unat n) = Some d"
    using unread_at [OF rd, of 0 "length d"] bb un rd by (simp add: mem_read_def n readable_def)
  define dat where "dat = take (length acc) (rec_data r) @ d @ drop (length acc + length d) (rec_data r)"
  have wr: "mem_write (rec_data r) (unat (data_len r)) d = Some dat"
    using acc(1) fits d(1) by (simp add: mem_write_def dat_def)
  have dat: "take (length (acc @ d)) dat = acc @ d" "length (acc @ d) \<le> length dat"
    using mem_write_take_upto [OF wr] mem_write_length [OF wr] acc fits d(1) by simp_all
  have len: "unat (data_len r + n) = length (acc @ d)"
    using acc(1) n bound d(1) unat_add_no_wrap [of "data_len r" n] by simp
  have skip: "unread (b\<lparr>bufp := bufp b + unat n, binbuf := binbuf b - n\<rparr>) = rest"
    "readable s (b\<lparr>bufp := bufp b + unat n, binbuf := binbuf b - n\<rparr>)"
    using skip_unread [OF rd, of n] bb n un by simp_all
  have ad: "\<not> adata b" using rd by (simp add: readable_def)
  have "read_data b r =
      (if data_bytes r \<le> remlen r
       then Ret (b\<lparr>bufp := bufp b + unat n, binbuf := binbuf b - n\<rparr>,
         r\<lparr>rec_data := dat, data_len := data_len r + n, remainder := 0\<rparr>)
       else Ret (b\<lparr>bufp := bufp b + unat n, binbuf := binbuf b - n\<rparr>,
         or_bits (REC_PARTIAL_RECORD OR REC_BLOCK_EMPTY)
           (r\<lparr>rec_data := dat, data_len := data_len r + n, remainder := 1\<rparr>)))"
    unfolding read_data_def Let_def n_def [symmetric] by (simp add: ad rd_bs wr)
  then show ?thesis
    using skip dat len bits full
    by (cases "length d = unat (data_bytes r)")
      (simp_all add: read_from_data_def or_bits_def bit_or_iff rec_bits)
qed

text \<open>One chunk, by \<open>read_record_from_block\<close>.\<close>

lemma read_chunk:
  assumes rd: "readable s b" and un: "unread b = enc_chunk c @ rest" and pend: "holds_pending s p r"
    and dec: "decode_chunk p c = Some (out, p')" and c: "within c" "complete c \<or> rest = []"
  shows "\<exists>b' r'. read_record_from_block dev v b r = Ret (True, b', r') \<and> readable s b' \<and> unread b' = rest \<and>
     holds_pending s p' r' \<and> (rec_VolSessionId r', rec_VolSessionTime r') = s \<and> FileIndex r' = fst c \<and> (is_partial_record r' \<longleftrightarrow> \<not> complete c) \<and>
     (is_block_marked_empty r' \<longleftrightarrow> \<not> complete c) \<and> (complete c \<longrightarrow> out = [app_view r']) \<and>
     (\<not> complete c \<longrightarrow> out = [])"
proof -
  obtain fi strm len d where cc: "c = (fi, strm, len, d)" by (cases c)
  obtain acc strm0 where k: "keeps p strm acc strm0" "length acc + unat len < 20000000"
    and o: "if length d = unat len then out = [(fi, strm0, acc @ d)] \<and> p' = None
     else out = [] \<and> p' = Some (fi, strm0, acc @ d)"
    using dec unfolding cc by (rule decode_chunk_keeps)
  let ?b = "b\<lparr>RecNum := RecNum b + 1\<rparr>"
  define r0 where "r0 = (if remainder r = 0 then r\<lparr>rec_RecNum := RecNum b, VolumeName := Some v,
      StartAddr := BlockAddr b, Addr := BlockAddr b\<rparr> else r)"
  have rd0: "readable s ?b" "unread ?b = rechdr_bytes fi strm len @ (d @ rest)" "binbuf ?b = binbuf b"
    using rd un by (simp_all add: readable_def unread_def cc)
  have pend0: "holds_pending s p r0" "rstate r0 = rstate r"
    using pend by (auto simp: r0_def holds_pending_def split: option.splits)
  obtain b1 r1 where h: "read_header dev ?b (r0\<lparr>remlen := binbuf ?b\<rparr>) = Ret (True, b1, r1)"
    "readable s b1" "unread b1 = d @ rest" "remlen r1 = binbuf b1" "data_bytes r1 = len" "FileIndex r1 = fi"
    "Stream r1 = strm0" "(rec_VolSessionId r1, rec_VolSessionTime r1) = s"
    "unat (data_len r1) = length acc" "take (length acc) (rec_data r1) = acc"
    "length acc + unat len \<le> length (rec_data r1)"
    "\<not> bit (state_bits r1) 1" "\<not> bit (state_bits r1) 2" "\<not> bit (state_bits r1) 6"
    using read_header_chunk [OF rd0(1,2) pend0(1) k] by blast
  have dl: "length d \<le> unat (data_bytes r1)" "length d = unat (data_bytes r1) \<or> rest = []"
    using c h(5) by (simp_all add: cc)
  obtain b2 r2 where e: "read_from_data b1 r1 = Ret (True, b2, r2)" "readable s b2" "unread b2 = rest"
    "rstate r2 = st_header" "FileIndex r2 = FileIndex r1" "Stream r2 = Stream r1"
    "rec_VolSessionId r2 = rec_VolSessionId r1" "rec_VolSessionTime r2 = rec_VolSessionTime r1"
    "unat (data_len r2) = length (acc @ d)" "take (length (acc @ d)) (rec_data r2) = acc @ d"
    "length (acc @ d) \<le> length (rec_data r2)"
    "remainder r2 = (if length d = unat len then 0 else 1)"
    "bit (state_bits r2) 1 \<longleftrightarrow> length d \<noteq> unat len" "bit (state_bits r2) 2 \<longleftrightarrow> length d \<noteq> unat len"
    "\<not> bit (state_bits r2) 6"
    using read_data_chunk [OF h(2-4) dl h(9,10) _ _ h(12-14)] h(5,11) k(2) by auto
  have "read_record_from_block dev v b r = Ret (True, b2, r2)"
    using h(1) e(1) pend0 pend
    by (auto simp: read_record_from_block_def Let_def r0_def [symmetric] read_from_header_def holds_pending_def)
  moreover have "holds_pending s p' r2"
    using e h(7,8) o by (auto simp: holds_pending_def split: if_splits)
  moreover have "length d = unat len \<Longrightarrow> out = [app_view r2]"
    using o e h by (simp add: app_view_def)
  ultimately show ?thesis
    using e h(6,8) o by (auto simp: cc is_partial_record_bit is_block_marked_empty_bits)
qed

section \<open>The records of a block\<close>

text \<open>
  What the loop requires of a chunk: a data record, or a label that is complete and not the end of
  the medium.
\<close>

fun deliverable :: "chunk \<Rightarrow> bool" where
  "deliverable (fi, strm, len, d) \<longleftrightarrow> fi \<noteq> EOM_LABEL \<and> (fi <s 0 \<longrightarrow> length d = unat len)"

text \<open>The callback that collects the records it is given.\<close>

definition collect :: "app_record list \<Rightarrow> DEV_RECORD \<Rightarrow> bool \<times> app_record list" where
  "collect out r = (True, out @ [app_view r])"

lemma holds_pending_invalid [simp]: "holds_pending s p (r\<lparr>invalid := x\<rparr>) = holds_pending s p r"
  by (cases p) (auto simp: holds_pending_def)

lemma EOM_LABEL_neg: "EOM_LABEL <s 0"
  by (simp add: EOM_LABEL_def word_sless_alt)

lemma read_empty_block:
  assumes rd: "readable s b" and un: "unread b = []" and st: "rstate r = st_none \<or> rstate r = st_header"
  shows "\<exists>b' r'. read_record_from_block dev v b r = Ret (False, b', r') \<and> rstate r' = st_none \<and>
     remainder r' = remainder r \<and> Stream r' = Stream r \<and> data_len r' = data_len r \<and> rec_data r' = rec_data r \<and>
     rec_VolSessionId r' = rec_VolSessionId r \<and> rec_VolSessionTime r' = rec_VolSessionTime r"
proof -
  have "binbuf b = 0" using length_unread [OF rd] un by (simp add: unat_eq_0)
  moreover have "\<not> adata b" using rd by (simp add: readable_def)
  ultimately show ?thesis
    using st
    by (elim disjE) (simp_all add: read_record_from_block_def read_from_header_def read_header_def Let_def
        RECHDR1_LENGTH_def WRITE_RECHDR_LENGTH_def or_bits_def)
qed

lemma read_block_chunks:
  assumes "readable s b" and "unread b = concat (map enc_chunk cs)" and "holds_pending s p r"
    and "decode p cs = Some (out, p')" and "list_all within cs" and "list_all complete (butlast cs)"
    and "list_all deliverable cs" and "\<not> is_block_marked_empty r"
  shows "\<exists>b' r'. read_block_records dev v collect acc b r = Some (Ret (True, acc @ out, b', r')) \<and>
     holds_pending s p' r' \<and>
     (cs \<noteq> [] \<or> (rec_VolSessionId r, rec_VolSessionTime r) = s \<longrightarrow> (rec_VolSessionId r', rec_VolSessionTime r') = s)"
  using assms
proof (induction cs arbitrary: b p r acc out)
  case Nil
  have st: "rstate r = st_none \<or> rstate r = st_header" using Nil.prems(3) by (simp add: holds_pending_def)
  obtain b' r' where "read_record_from_block dev v b r = Ret (False, b', r')" "rstate r' = st_none"
    "remainder r' = remainder r" "Stream r' = Stream r" "data_len r' = data_len r" "rec_data r' = rec_data r"
    "rec_VolSessionId r' = rec_VolSessionId r" "rec_VolSessionTime r' = rec_VolSessionTime r"
    using read_empty_block [OF Nil.prems(1) _ st, of dev v] Nil.prems(2) by auto
  then show ?case
    using Nil.prems by (subst read_block_records.simps) (auto simp: holds_pending_def split: option.splits)
next
  case (Cons c cs)
  obtain o1 p1 o2 where dec: "decode_chunk p c = Some (o1, p1)" "decode p1 cs = Some (o2, p')" "out = o1 @ o2"
    using Cons.prems(4) by (auto split: bind_splits)
  have comp: "complete c \<or> cs = []" using Cons.prems(6) by (auto split: if_splits)
  obtain b1 r1 where h: "read_record_from_block dev v b r = Ret (True, b1, r1)" "readable s b1"
    "unread b1 = concat (map enc_chunk cs)" "holds_pending s p1 r1" "FileIndex r1 = fst c"
    "is_partial_record r1 \<longleftrightarrow> \<not> complete c" "is_block_marked_empty r1 \<longleftrightarrow> \<not> complete c"
    "complete c \<longrightarrow> o1 = [app_view r1]" "\<not> complete c \<longrightarrow> o1 = []"
    "(rec_VolSessionId r1, rec_VolSessionTime r1) = s"
  proof -
    have "unread b = enc_chunk c @ concat (map enc_chunk cs)" "within c" "complete c \<or> concat (map enc_chunk cs) = []"
      using Cons.prems(2,5) comp by auto
    from read_chunk [OF Cons.prems(1) this(1) Cons.prems(3) dec(1) this(2,3), of dev v] that
    show thesis by blast
  qed
  have fi: "fst c \<noteq> EOM_LABEL" "fst c <s 0 \<longrightarrow> complete c" using Cons.prems(7) by (cases c; auto)+
  show ?case
  proof (cases "complete c")
    case True
    have "list_all complete (butlast cs)" using Cons.prems(6) by (cases cs) auto
    then obtain b' r' where "read_block_records dev v collect (acc @ [app_view r1]) b1 (r1\<lparr>invalid := False\<rparr>)
        = Some (Ret (True, (acc @ [app_view r1]) @ o2, b', r'))" "holds_pending s p' r'"
      "(rec_VolSessionId r', rec_VolSessionTime r') = s"
      using Cons.IH [OF h(2,3), of p1 "r1\<lparr>invalid := False\<rparr>" o2 "acc @ [app_view r1]"] h(4,7,10) True dec(2)
        Cons.prems(5,7) by (auto simp: is_block_marked_empty_bits)
    then show ?thesis
      using Cons.prems(8) h fi dec(3) True
      by (subst read_block_records.simps) (simp add: collect_def)
  next
    case False
    then have "cs = []" "o1 = []" using comp h(9) by auto
    then show ?thesis
      using Cons.prems(8) h fi dec False
      by (subst read_block_records.simps) auto
  qed
qed

section \<open>The buffer stays\<close>

definition same_buf :: "DEV_BLOCK \<Rightarrow> DEV_BLOCK \<Rightarrow> bool" where
  "same_buf b b' \<longleftrightarrow> buf b' = buf b \<and> buf_len b' = buf_len b \<and> adata b' = adata b \<and> no_header b' = no_header b"

lemma same_buf_steps:
  "same_buf b b" "same_buf b (empty_block b)" "same_buf b (note_index r b)"
  "same_buf b (b\<lparr>bufp := x, binbuf := y\<rparr>)" "same_buf b (b\<lparr>RecNum := z\<rparr>)"
  by (simp_all add: same_buf_def empty_block_def note_index_def Let_def)

lemma same_buf_trans: "same_buf b b' \<Longrightarrow> same_buf b' b'' \<Longrightarrow> same_buf b b''"
  by (simp add: same_buf_def)

lemma accept_header_buf: "accept_header sid stime fi strm b r = (ok, b', r') \<Longrightarrow> same_buf b b'"
  by (auto simp: accept_header_def Let_def same_buf_def empty_block_def note_index_def split: if_splits)

lemma read_header_buf: "read_header dev b r = Ret (ok, b', r') \<Longrightarrow> same_buf b b'"
  unfolding read_header_def Let_def
  by (auto simp: bind_outcome_Ret_iff same_buf_steps split: if_splits
      dest!: accept_header_buf intro: same_buf_trans [OF same_buf_steps(4)])

lemma read_data_buf: "read_data b r = Ret (b', r') \<Longrightarrow> same_buf b b'"
  unfolding read_data_def Let_def
  by (auto simp: bind_outcome_Ret_iff same_buf_steps split: if_splits)

lemma read_from_header_buf: "read_from_header dev b r = Ret (ok, b', r') \<Longrightarrow> same_buf b b'"
  unfolding read_from_header_def read_from_data_def Let_def
  by (auto simp: bind_outcome_Ret_iff split: if_splits dest!: read_header_buf read_data_buf intro: same_buf_trans)

lemma read_record_from_block_buf:
  assumes "read_record_from_block dev v b r = Ret (ok, b', r')"
  shows "same_buf b b'"
proof (rule same_buf_trans [OF same_buf_steps(5)])
  show "same_buf (b\<lparr>RecNum := RecNum b + 1\<rparr>) b'"
    using assms unfolding read_record_from_block_def Let_def
    by (auto simp: read_from_data_def bind_outcome_Ret_iff same_buf_steps split: rec_state.splits if_splits
        dest!: read_from_header_buf read_data_buf)
qed

lemma read_block_records_buf:
  assumes "read_block_records dev v cb s b r = Some (Ret (ok, s', b', r'))"
  shows "same_buf b b'"
proof -
  have "case y of Dies e \<Rightarrow> True | Ret (ok, s', b', r') \<Rightarrow> same_buf b b'"
    if "read_block_records dev v cb s b r = Some y" for y
  proof (rule read_block_records.raw_induct [OF _ that, where
        P = "\<lambda>dev v cb s b r y. case y of Dies e \<Rightarrow> True | Ret (ok, s', b', r') \<Rightarrow> same_buf b b'"], goal_cases)
    case (1 f dev v cb s b r y)
    then show ?case
      by (fastforce simp: same_buf_steps split: if_splits outcome.splits prod.splits
          dest: read_record_from_block_buf intro: same_buf_trans)
  qed
  from this [OF assms] show ?thesis by simp
qed

end
