(* ===== verification/VolumeFormat.thy ===== *)
theory VolumeFormat
  imports BlockWrite RecordRead
begin

text \<open>
  The format of a disk volume as a specification independent of the code: the volume file is a
  sequence of blocks, each with a header of 24 bytes, and \<open>parse_volume\<close> gives the session and the
  payload of each. The theory shows that \<open>write_block_to_dev\<close> and \<open>write_block_to_device\<close> append
  exactly one block in this sense, so that they are a \<open>block_sink\<close>, and that \<open>read_block_from_dev\<close>
  returns the blocks of the volume one after the other.
\<close>

section \<open>The format\<close>

definition word_at :: "byte list \<Rightarrow> nat \<Rightarrow> uint32_t" where
  "word_at bs p = of_le_bytes (rev (take 4 (drop p bs)))"

text \<open>The first block of \<open>bs\<close> and what follows it; \<open>chk\<close> tells whether blocks carry checksums.\<close>

definition first_block :: "bool \<Rightarrow> byte list \<Rightarrow> (image \<times> byte list) option" where
  "first_block chk bs =
     (let n = unat (word_at bs 4)
      in if 24 \<le> n \<and> n \<le> length bs \<and> n \<le> unat MAX_BLOCK_LENGTH \<and> take 4 (drop 12 bs) = BLKHDR2_ID \<and>
            (chk \<longrightarrow> word_at bs 0 = bcrc32 (drop 4 (take n bs)))
         then Some (((word_at bs 16, word_at bs 20), drop 24 (take n bs)), drop n bs) else None)"

lemma first_block_shorter: "first_block chk bs = Some (im, rest) \<Longrightarrow> length rest < length bs"
  by (auto simp: first_block_def Let_def split: if_splits)

function parse_volume :: "bool \<Rightarrow> byte list \<Rightarrow> image list option" where
  "parse_volume chk bs =
     (if bs = [] then Some []
      else case first_block chk bs of
             None \<Rightarrow> None
           | Some (im, rest) \<Rightarrow> map_option ((#) im) (parse_volume chk rest))"
  by pat_completeness auto
termination by (relation "measure (\<lambda>(_, bs). length bs)") (auto dest: first_block_shorter)

declare parse_volume.simps [simp del]

lemma parse_volume_Nil [simp]: "parse_volume chk [] = Some []"
  by (simp add: parse_volume.simps)

lemma parse_volume_block:
  assumes "first_block chk bs = Some (im, rest)"
  shows "parse_volume chk bs = map_option ((#) im) (parse_volume chk rest)"
proof -
  have "bs \<noteq> []" using first_block_shorter [OF assms] by auto
  then show ?thesis using assms by (subst parse_volume.simps) simp
qed

lemma parse_volume_SomeD:
  assumes "parse_volume chk bs = Some ims"
  shows "(ims = [] \<longrightarrow> bs = []) \<and> (\<forall>im ims'. ims = im # ims' \<longrightarrow>
     (\<exists>rest. first_block chk bs = Some (im, rest) \<and> parse_volume chk rest = Some ims'))"
  using assms by (subst (asm) parse_volume.simps) (auto split: if_splits option.splits)

lemma be_bytes_word_at: "p + 4 \<le> length bs \<Longrightarrow> be_bytes 4 (word_at bs p) = take 4 (drop p bs)"
  using le_bytes_of_le_bytes [of "rev (take 4 (drop p bs))", where 'a = 32]
  by (simp add: be_bytes_def word_at_def)

lemma word_at_be: "take 4 (drop p bs) = be_bytes 4 w \<Longrightarrow> word_at bs p = w"
  by (simp add: word_at_def be_bytes_def of_le_bytes_le_bytes)

lemma split_header:
  assumes "24 \<le> length bs"
  shows "take 24 bs = take 4 bs @ take 4 (drop 4 bs) @ take 4 (drop 8 bs) @ take 4 (drop 12 bs)
     @ take 4 (drop 16 bs) @ take 4 (drop 20 bs)"
proof -
  have "take (m + 4) bs = take m bs @ take 4 (drop m bs)" for m by (simp add: take_add)
  from this [of 20] this [of 16] this [of 12] this [of 8] this [of 4] show ?thesis by simp
qed

text \<open>What \<open>first_block\<close> accepts is a header and a payload, as the writer makes them.\<close>

lemma first_block_iff:
  "first_block chk bs = Some (((sid, stime), p), rest) \<longleftrightarrow>
     (\<exists>cs num. bs = header_bytes cs (of_nat (24 + length p)) num sid stime @ p @ rest \<and>
        24 + length p \<le> 20000000 \<and>
        (chk \<longrightarrow> cs = bcrc32 (drop 4 (header_bytes cs (of_nat (24 + length p)) num sid stime) @ p)))"
  (is "?L \<longleftrightarrow> (\<exists>cs num. ?R cs num)")
proof
  assume L: ?L
  let ?n = "unat (word_at bs 4)" and ?cs = "word_at bs 0" and ?num = "word_at bs 8"
  have n: "24 \<le> ?n" "?n \<le> length bs" "?n \<le> 20000000" "take 4 (drop 12 bs) = BLKHDR2_ID"
    "chk \<longrightarrow> ?cs = bcrc32 (drop 4 (take ?n bs))" "sid = word_at bs 16" "stime = word_at bs 20"
    "p = drop 24 (take ?n bs)" "rest = drop ?n bs"
    using L by (auto simp: first_block_def Let_def MAX_BLOCK_LENGTH_def split: if_splits)
  have len: "of_nat (24 + length p) = word_at bs 4" using n(1,2,8) by simp
  have h: "header_bytes ?cs (of_nat (24 + length p)) ?num sid stime = take 24 bs"
    using n be_bytes_word_at [of 0 bs] be_bytes_word_at [of 4 bs] be_bytes_word_at [of 8 bs]
      be_bytes_word_at [of 16 bs] be_bytes_word_at [of 20 bs] split_header [of bs]
    by (simp only: len header_bytes_def n(6,7)) simp
  have tk: "take 24 bs @ p = take ?n bs"
    using n(1,8) append_take_drop_id [of 24 "take ?n bs"] by (simp add: min_def)
  then have "take 24 bs @ p @ rest = bs" using n(9) append_take_drop_id [of ?n bs] by (metis append_assoc)
  moreover have "drop 4 (take 24 bs) @ p = drop 4 (take ?n bs)" using n(1,2) arg_cong [OF tk, of "drop 4"] by simp
  ultimately have "?R ?cs ?num" unfolding h using n by simp
  then show "\<exists>cs num. ?R cs num" by blast
next
  assume "\<exists>cs num. ?R cs num"
  then obtain cs num where R: "?R cs num" by blast
  let ?h = "header_bytes cs (of_nat (24 + length p)) num sid stime"
  have bs: "bs = ?h @ p @ rest" using R by simp
  have w: "word_at bs 4 = of_nat (24 + length p)" "word_at bs 0 = cs" "word_at bs 16 = sid" "word_at bs 20 = stime"
    "take 4 (drop 12 bs) = BLKHDR2_ID"
    by (intro word_at_be; simp add: bs header_bytes_def BLKHDR2_ID_def)+ (simp add: bs header_bytes_def BLKHDR2_ID_def)
  have n: "unat (word_at bs 4) = 24 + length p" using R w(1) by (simp only:) (rule unat_of_nat_small, simp)
  show ?L
    using R w n by (simp add: first_block_def MAX_BLOCK_LENGTH_def bs)
qed

lemma first_block_append:
  assumes "first_block chk bs = Some (im, rest)"
  shows "first_block chk (bs @ tail) = Some (im, rest @ tail)"
proof -
  obtain sid stime p where im: "im = ((sid, stime), p)" by (metis surj_pair)
  show ?thesis using assms unfolding im first_block_iff by auto
qed

lemma parse_volume_append:
  assumes "parse_volume chk bs = Some ims" and "first_block chk b = Some (im, [])"
  shows "parse_volume chk (bs @ b) = Some (ims @ [im])"
  using assms
proof (induction chk bs arbitrary: ims rule: parse_volume.induct)
  case (1 chk bs)
  show ?case
  proof (cases "bs = []")
    case True
    then show ?thesis using 1(2,3) by (simp add: parse_volume_block)
  next
    case False
    obtain im1 rest ims1 where f: "first_block chk bs = Some (im1, rest)" "parse_volume chk rest = Some ims1"
      "ims = im1 # ims1"
      using 1(2) False by (subst (asm) parse_volume.simps) (auto split: option.splits)
    then show ?thesis
      using 1(1) [OF False f(1) refl f(2) 1(3)] first_block_append [OF f(1), of b] by (simp add: parse_volume_block)
  qed
qed

section \<open>Writing\<close>

text \<open>
  A Director that accepts index records and sets no size limit on the volume.
\<close>

definition willing :: "sd_env \<Rightarrow> bool" where
  "willing env \<longleftrightarrow> (\<forall>items. env_jobmedia env items) \<and>
     (\<forall>v. \<exists>v'. env_volinfo env v = Some v' \<and> VolCatMaxBytes v' = 0)"

text \<open>
  A disk volume open for writing: no limit on its size, no error of the system calls to come, the
  file offset at the end, and behind the contents \<open>old\<close> a sequence of blocks in the file. The size of
  a file on the volume may be limited, and a new file may have begun.
\<close>

definition can_store :: "DEVICE \<Rightarrow> bool" where
  "can_store d \<longleftrightarrow> enabled d \<and> \<not> dev_adata d \<and> \<not> at_weot d \<and> can_append d \<and> is_open d \<and> \<not> is_tape d \<and>
     max_volume_size d = 0 \<and> VolCatMaxBytes (VolCatInfo d) = 0 \<and> VolCatName (VolCatInfo d) \<noteq> []"

definition able :: "DCR \<Rightarrow> bool" where
  "able dcr \<longleftrightarrow> \<not> job_canceled dcr \<and> can_store (dev dcr)"

definition vol_ready :: "byte list \<Rightarrow> DCR \<Rightarrow> bool" where
  "vol_ready old dcr \<longleftrightarrow> able dcr \<and> write_script dcr = [] \<and> fpos dcr = length (volume dcr) \<and>
     take (length old) (volume dcr) = old \<and>
     (\<exists>ims. parse_volume (do_checksum (dev dcr)) (drop (length old) (volume dcr)) = Some ims)"

definition disk_ready :: "byte list \<Rightarrow> DCR \<Rightarrow> bool" where
  "disk_ready old dcr \<longleftrightarrow> vol_ready old dcr \<and> \<not> spooling dcr \<and> \<not> NewVol dcr"

definition volume_images :: "byte list \<Rightarrow> DCR \<Rightarrow> image list" where
  "volume_images old dcr =
     (case parse_volume (do_checksum (dev dcr)) (drop (length old) (volume dcr)) of None \<Rightarrow> [] | Some ims \<Rightarrow> ims)"

text \<open>The bookkeeping leaves the volume, the job and the mode of the device alone.\<close>

definition same_disk :: "DCR \<Rightarrow> DCR \<Rightarrow> bool" where
  "same_disk c c' \<longleftrightarrow> volume c' = volume c \<and> fpos c' = fpos c \<and> write_script c' = write_script c \<and>
     JobStatus c' = JobStatus c \<and> system_job c' = system_job c \<and> spooling c' = spooling c \<and> NewVol c' = NewVol c \<and> JobId c' = JobId c \<and>
     capabilities (dev c') = capabilities (dev c) \<and> max_block_size (dev c') = max_block_size (dev c) \<and>
     (can_store (dev c) \<longrightarrow> can_store (dev c'))"

lemma same_disk_refl: "same_disk c c"
  by (simp add: same_disk_def)

lemma same_disk_trans: "same_disk c c' \<Longrightarrow> same_disk c' c'' \<Longrightarrow> same_disk c c''"
  by (simp add: same_disk_def)

lemma same_disk_able: "same_disk c c' \<Longrightarrow> able c \<Longrightarrow> able c'"
  by (simp add: same_disk_def able_def job_canceled_def)

lemma same_disk_vol_ready:
  assumes "same_disk c c'" and "vol_ready old c"
  shows "vol_ready old c'"
proof -
  have "able c'" using same_disk_able [OF assms(1)] assms(2) by (simp add: vol_ready_def)
  then show ?thesis using assms by (simp add: same_disk_def vol_ready_def do_checksum_def)
qed

lemma same_disk_ready:
  assumes "same_disk c c'" and "disk_ready old c"
  shows "disk_ready old c'"
  using same_disk_vol_ready [OF assms(1), of old] assms by (simp add: disk_ready_def same_disk_def)

lemma same_disk_images: "same_disk c c' \<Longrightarrow> volume_images old c' = volume_images old c"
  by (simp add: same_disk_def volume_images_def do_checksum_def)

lemmas mode_defs = at_weot_def can_append_def is_open_def is_tape_def

lemma same_disk_fields:
  "same_disk c (c\<lparr>VolLastIndex := x\<rparr>)" "same_disk c (c\<lparr>jobmedia_queue := q\<rparr>)"
  "same_disk c (c\<lparr>jobmedia_sent := q\<rparr>)" "same_disk c (clear_index c)"
  "same_disk c (set_new_file_parameters c)" "same_disk c (notify_newfile_in_attached_dcrs c)"
  "same_disk c (c\<lparr>dcr_VolumeName := n, dcr_VolCatInfo := v\<rparr>)"
  by (simp_all add: same_disk_def clear_index_def set_new_file_parameters_def set_start_vol_position_def
      notify_newfile_in_attached_dcrs_def)

lemma same_disk_dev:
  assumes "m_fd (f d) = m_fd d" "capabilities (f d) = capabilities d" "max_block_size (f d) = max_block_size d" "state (f d) = state d"
    "enabled (f d) = enabled d" "dev_adata (f d) = dev_adata d" "dev_type (f d) = dev_type d"
    "max_volume_size (f d) = max_volume_size d" "VolCatName (VolCatInfo (f d)) = VolCatName (VolCatInfo d)"
    "VolCatMaxBytes (VolCatInfo (f d)) = VolCatMaxBytes (VolCatInfo d) \<or> VolCatMaxBytes (VolCatInfo (f d)) = 0"
    and "d = dev c"
  shows "same_disk c (on_dev f c)"
  using assms by (auto simp: same_disk_def can_store_def mode_defs on_dev_def)

lemma flush_jobmedia_willing:
  assumes "willing env"
  shows "\<exists>c'. flush_jobmedia_queue env c = (True, c') \<and> same_disk c c'"
  using assms
  by (auto simp: flush_jobmedia_queue_def flush_filemedia_queue_def willing_def same_disk_def Let_def)

text \<open>No index record is made.\<close>

definition jobmedia_skipped :: "DCR \<Rightarrow> bool" where
  "jobmedia_skipped c \<longleftrightarrow> \<not> WroteVol c \<or> VolLastIndex c = 0 \<or> dcr_EndAddr c < dcr_StartAddr c \<or> system_job c \<or>
     VolFirstIndex c = 0 \<and> (dcr_StartAddr c \<noteq> 0 \<or> dcr_EndAddr c \<noteq> 0)"

lemma jobmedia_skipped_effect:
  assumes "jobmedia_skipped c"
  shows "dir_create_jobmedia_record env False c = (True, c)"
proof -
  have "(if a then x else if b then x else if p then x else if q then x else if r then x else y) = x"
    if "a \<or> b \<or> p \<or> q \<or> r" for a b p q r and x y :: "bool \<times> DCR"
    using that by metis
  then show ?thesis
    using assms unfolding dir_create_jobmedia_record_def jobmedia_skipped_def by simp
qed

lemma jobmedia_willing:
  assumes "willing env"
  shows "\<exists>c'. dir_create_jobmedia_record env False c = (True, c') \<and> same_disk c c'"
proof -
  define c1 where "c1 = (if JobStatus c = JS_Incomplete then c\<lparr>VolLastIndex := lastFileIndex c\<rparr> else c)"
  define c2 where "c2 = c1\<lparr>jobmedia_queue := jobmedia_queue c1 @ [jobmedia_item c1 False]\<rparr>"
  have "same_disk c c1" by (simp add: c1_def same_disk_refl same_disk_fields)
  then have 2: "same_disk c c2" unfolding c2_def by (rule same_disk_trans [OF _ same_disk_fields(2)])
  obtain c3 where 3: "flush_jobmedia_queue env c2 = (True, c3)" "same_disk c2 c3"
    using flush_jobmedia_willing [OF assms] by blast
  let ?c = "if 1000 \<le> length (jobmedia_queue c2) then c3 else c2"
  have "same_disk c (clear_index ?c)"
    using same_disk_trans [OF 2 same_disk_fields(4)]
      same_disk_trans [OF same_disk_trans [OF 2 3(2)] same_disk_fields(4)] by (simp split: if_split)
  moreover have "dir_create_jobmedia_record env False c = (True, clear_index ?c)" if "\<not> jobmedia_skipped c"
  proof -
    have skip: "(if a then x else if b then x else if p then x else if q then x else if r then x else y) = y"
      if "\<not> (a \<or> b \<or> p \<or> q \<or> r)" for a b p q r and x y :: "bool \<times> DCR"
      using that by simp
    show ?thesis
      using that 3(1)
      unfolding dir_create_jobmedia_record_def Let_def c1_def [symmetric] c2_def [symmetric] jobmedia_skipped_def
      by (subst skip) (simp_all split: if_split)
  qed
  ultimately show ?thesis using same_disk_refl jobmedia_skipped_effect by metis
qed

lemma note_files_same: "same_disk c (on_dev note_files c)"
  by (rule same_disk_dev [where d = "dev c"]) (simp_all add: note_files_def)

lemma update_willing:
  assumes "willing env" and "able c"
  shows "\<exists>c'. dir_update_volume_info env c = (True, c') \<and> same_disk c c'"
proof (cases "system_job c \<and> \<not> force_update_volume_info c")
  case True
  then show ?thesis by (simp add: dir_update_volume_info_def same_disk_refl)
next
  case False
  define f :: "DEVICE \<Rightarrow> DEVICE" where "f = (\<lambda>d. d\<lparr>VolCatInfo := (VolCatInfo d)\<lparr>BytesWritten := 0\<rparr>\<rparr>)"
  define c1 where "c1 = on_dev f c"
  define vol where "vol = VolCatInfo (dev c)"
  have 1: "same_disk c c1" unfolding c1_def by (rule same_disk_dev [where d = "dev c"]) (simp_all add: f_def)
  have name: "VolCatName vol \<noteq> []" using assms(2) by (simp add: vol_def able_def can_store_def)
  have canc: "\<not> job_canceled c1" using assms(2) by (simp add: c1_def able_def)
  obtain v where v: "env_volinfo env (sent_volinfo (dev c1) vol) = Some v" "VolCatMaxBytes v = 0"
    using assms(1) by (auto simp: willing_def)
  define v' where "v' = v\<lparr>is_valid := True, VolCatBytes := VolCatAmetaBytes v + VolCatAdataBytes v\<rparr>"
  define c2 where "c2 = c1\<lparr>dcr_VolumeName := VolCatName v', dcr_VolCatInfo := v'\<rparr>"
  let ?c = "on_dev (\<lambda>d. d\<lparr>VolCatInfo := take_volinfo v' (VolCatInfo d)\<rparr>) c2"
  have "same_disk c2 ?c"
    by (rule same_disk_dev [where d = "dev c2"]) (simp_all add: take_volinfo_def v'_def v(2))
  moreover have "same_disk c1 c2" unfolding c2_def by (rule same_disk_fields)
  ultimately have "same_disk c ?c" using 1 same_disk_trans by blast
  moreover have "dir_update_volume_info env c = (True, ?c)"
    using False name canc v(1)
    unfolding dir_update_volume_info_def Let_def f_def [symmetric] c1_def [symmetric] vol_def [symmetric]
    by (simp only: if_False option.case c2_def v'_def)
  ultimately show ?thesis by blast
qed

lemma size_checks_ready:
  assumes "willing env" and "able c"
  shows "\<exists>c'. do_size_checks env forge_on c b = Some (Ret (True, c', b)) \<and> same_disk c c'"
proof -
  let ?f = "\<lambda>d. d\<lparr>file_size := 0\<rparr> :: DEVICE"
  have no: "\<not> is_user_volume_size_reached (dev c) b b"
    using assms(2) by (simp add: is_user_volume_size_reached_def able_def can_store_def
        is_pool_size_reached_def Let_def)
  have dev: "can_append (dev c)" "is_open (dev c)" "\<not> is_tape (dev c)"
    using assms(2) by (simp_all add: able_def can_store_def)
  define c1 where "c1 = on_dev ?f c"
  have weof: "weof env c1 = (True, c1)"
    using dev by (simp add: c1_def weof_def DEVICE_weof_def on_dev_def mode_defs)
  have 1: "same_disk c c1" unfolding c1_def by (rule same_disk_dev [where d = "dev c"]) simp_all
  obtain c2 where 2: "dir_create_jobmedia_record env False c1 = (True, c2)" "same_disk c1 c2"
    using jobmedia_willing [OF assms(1)] by blast
  let ?c3 = "on_dev note_files c2"
  have s3: "same_disk c ?c3" by (rule same_disk_trans [OF same_disk_trans [OF 1 2(2)] note_files_same])
  obtain c4 where 4: "dir_update_volume_info env ?c3 = (True, c4)" "same_disk ?c3 c4"
    using update_willing [OF assms(1) same_disk_able [OF s3 assms(2)]] by blast
  let ?c5 = "set_new_file_parameters (notify_newfile_in_attached_dcrs c4)"
  have "same_disk c ?c5"
    by (rule same_disk_trans [OF same_disk_trans [OF s3 4(2)] same_disk_trans [OF same_disk_fields(6,5)]])
  moreover have "do_size_checks env forge_on c b = Some (Ret (True, ?c5, b))"
    if "0 < max_file_size (dev c) \<and> max_file_size (dev c) \<le> file_size (dev c) + ucast (binbuf b)"
    using no weof 2(1) 4(1) that
    unfolding do_size_checks_def do_new_file_bookkeeping_def Let_def c1_def [symmetric] by simp
  moreover have "do_size_checks env forge_on c b = Some (Ret (True, c, b))"
    if "\<not> (0 < max_file_size (dev c) \<and> max_file_size (dev c) \<le> file_size (dev c) + ucast (binbuf b))"
    using no that unfolding do_size_checks_def by (simp only: if_False)
  ultimately show ?thesis using same_disk_refl by metis
qed

text \<open>The image that \<open>write_block_to_dev\<close> puts on a disk, and the block as it leaves it.\<close>

lemma image_first_block:
  assumes wf: "block_wf b" and ser: "ser_block_header chk b = Ret (cs, b')"
  shows "first_block chk (take (unat (binbuf b)) (buf b')) = Some (image_of b, [])"
    and "length (take (unat (binbuf b)) (buf b')) = unat (binbuf b)"
proof -
  note wfs = block_wfD [OF wf]
  let ?h = "header_bytes cs (binbuf b) (BlockNumber b) (VolSessionId b) (VolSessionTime b)"
  have b': "buf b' = ?h @ drop 24 (buf b)" and cs: "chk \<longrightarrow> cs = bcrc32 (drop 4 ?h @ payload b)"
    using ser ser_block_header_image [OF wf, of chk]
    by (auto simp: Let_def header_bytes_def split: if_splits)
  have len: "24 + length (payload b) = unat (binbuf b)" using wfs by (simp add: payload_def)
  have img: "take (unat (binbuf b)) (buf b') = ?h @ payload b"
    using wfs by (simp add: b' payload_def take_drop)
  have "of_nat (24 + length (payload b)) = binbuf b" unfolding len by simp
  then show "first_block chk (take (unat (binbuf b)) (buf b')) = Some (image_of b, [])"
    using cs len wfs unfolding image_of_def first_block_iff img by auto
  show "length (take (unat (binbuf b)) (buf b')) = unat (binbuf b)" using wfs by (simp add: b')
qed

lemma no_padding_on_disk:
  assumes "block_wf b" and "\<not> is_tape d"
  shows "get_len_and_clear_block d b = Ret (binbuf b, 0, b)"
  using assms by (simp add: get_len_and_clear_block_def block_wf_def Let_def)

lemma empty_block_emptied: "block_wf b \<Longrightarrow> emptied b (empty_block b)"
  unfolding emptied_def
  by (intro conjI empty_block_wf)
    (simp_all add: empty_block_def Let_def payload_def BLKHDR2_LENGTH_def block_wf_def)

text \<open>The counters that follow a successful write do not touch the volume.\<close>

lemma note_written_effect:
  assumes "block_wf b" and "\<not> is_tape (dev c)" and "\<not> dev_adata (dev c)"
  shows "same_disk c (fst (note_written w c b))" and "emptied b (snd (note_written w c b))"
proof -
  show "same_disk c (fst (note_written w c b))"
    using assms(2,3)
    by (simp add: note_written_def Let_def same_disk_def on_dev_def volcat_defs can_store_def mode_defs split del: if_split)
      (simp split: if_split)
  have "snd (note_written w c b) = empty_block (b\<lparr>BlockNumber := BlockNumber b + 1,
      BlockAddr := get_full_addr (dev (on_dev (updateVolCatBlocks 1 \<circ> updateVolCatBytes (ucast w)) c)) + ucast w\<rparr>)"
    using assms(2,3) by (simp add: note_written_def Let_def volcat_defs is_tape_def on_dev_def get_full_addr_def)
  moreover have "emptied (b\<lparr>BlockNumber := x, BlockAddr := y\<rparr>) (empty_block (b\<lparr>BlockNumber := x, BlockAddr := y\<rparr>))" for x y
    using assms(1) by (intro empty_block_emptied) (simp add: block_wf_def)
  ultimately show "emptied b (snd (note_written w c b))" by (simp add: emptied_def)
qed

lemma write_tries_ok:
  assumes "write_script c = []" and "fpos c = length (volume c)"
  shows "write_tries n bs c = (int (length bs), ENONE, c\<lparr>volume := volume c @ bs, fpos := fpos c + length bs\<rparr>)"
  using assms by (subst write_tries.simps) (simp add: d_write_all file_put_end split: nat.split)

lemma padding_same: "same_disk c (on_dev (updateVolCatPadding p) c)" "same_disk c (on_dev (updateVolCatWrites w) c)"
  by (rule same_disk_dev [where d = "dev c"]; simp add: volcat_defs)+

lemma append_ready:
  assumes "vol_ready old c" and "first_block (do_checksum (dev c)) bs = Some (im, [])"
  shows "vol_ready old (c\<lparr>volume := volume c @ bs, fpos := fpos c + length bs\<rparr>)"
    and "volume_images old (c\<lparr>volume := volume c @ bs, fpos := fpos c + length bs\<rparr>) = volume_images old c @ [im]"
proof -
  obtain ims where "parse_volume (do_checksum (dev c)) (drop (length old) (volume c)) = Some ims"
    using assms(1) by (auto simp: vol_ready_def)
  moreover from this have "parse_volume (do_checksum (dev c)) (drop (length old) (volume c) @ bs) = Some (ims @ [im])"
    using assms(2) by (rule parse_volume_append)
  moreover have "length old \<le> length (volume c)"
    using assms(1) by (metis vol_ready_def length_take min.cobounded1)
  ultimately show "vol_ready old (c\<lparr>volume := volume c @ bs, fpos := fpos c + length bs\<rparr>)"
    "volume_images old (c\<lparr>volume := volume c @ bs, fpos := fpos c + length bs\<rparr>) = volume_images old c @ [im]"
    using assms(1) by (simp_all add: vol_ready_def volume_images_def able_def job_canceled_def)
qed

text \<open>
  Everything before the system call succeeds: what is left is to write the image of the block and to
  deal with the result.
\<close>

lemma write_block_prepared:
  assumes "willing env" and able: "able c" and wf: "block_wf b" and ne: "\<not> is_block_empty b"
  obtains c1 b1 bs where "same_disk c c1" "block_wf b1" "buf_len b1 = buf_len b" "image_of b1 = image_of b"
    "binbuf b1 = binbuf b" "length bs = unat (binbuf b)"
    "first_block (do_checksum (dev c1)) bs = Some (image_of b, [])"
    "write_block_to_dev env forge_on c b = (case write_tries 3 bs c1 of (stat, err, c2) \<Rightarrow>
       if stat \<noteq> int (unat (binbuf b)) then write_failure env forge_on stat err c2 b1
       else (case note_written (binbuf b) c2 b1 of (c3, b3) \<Rightarrow> Some (Ret (True, c3, b3))))"
proof -
  have d: "\<not> job_canceled c" "enabled (dev c)" "\<not> dev_adata (dev c)" "\<not> at_weot (dev c)" "can_append (dev c)"
    "is_open (dev c)" "\<not> is_tape (dev c)"
    using able by (simp_all add: able_def can_store_def)
  have b: "\<not> adata b" "binbuf b = of_nat (bufp b)" using block_wfD [OF wf] by simp_all
  let ?b1 = "b\<lparr>block_len := binbuf b\<rparr>" and ?c1 = "on_dev (updateVolCatPadding (ucast (0 :: uint32_t))) c"
  have wf1: "block_wf ?b1" and im1: "image_of ?b1 = image_of b"
    using wf by (simp_all add: block_wf_def image_of_def payload_def)
  obtain cs b2 where ser: "ser_block_header (do_checksum (dev ?c1)) ?b1 = Ret (cs, b2)"
    and b2: "block_wf b2" "\<not> adata b2" "buf_len b2 = buf_len b" "binbuf b2 = binbuf b" "image_of b2 = image_of b"
    using ser_block_header_image [OF wf1, of "do_checksum (dev ?c1)"] block_wfD [OF wf] wf
    by (auto simp: Let_def block_wf_def image_of_def payload_def take_drop)
  obtain c2 where chk: "do_size_checks env forge_on ?c1 b2 = Some (Ret (True, c2, b2))" "same_disk ?c1 c2"
    using size_checks_ready [OF assms(1) same_disk_able [OF padding_same(1) able]] by blast
  let ?c3 = "on_dev (updateVolCatWrites 1) c2"
  have s3: "same_disk c ?c3"
    by (rule same_disk_trans [OF same_disk_trans [OF padding_same(1) chk(2)] padding_same(2)])
  have sum: "do_checksum (dev ?c1) = do_checksum (dev ?c3)"
    using chk(2) s3 padding_same(1) [of c] by (auto simp: same_disk_def do_checksum_def)
  let ?bs = "take (unat (binbuf b)) (buf b2)"
  have img: "first_block (do_checksum (dev ?c3)) ?bs = Some (image_of b, [])" "length ?bs = unat (binbuf b)"
    using image_first_block [OF wf1 ser] unfolding im1 sum by simp_all
  have rd: "mem_read (buf b2) 0 (unat (binbuf b)) = Some ?bs" using img(2) by (simp add: mem_read_def)
  have "write_block_to_dev env forge_on c b = (case write_tries 3 ?bs ?c3 of (stat, err, c2) \<Rightarrow>
       if stat \<noteq> int (unat (binbuf b)) then write_failure env forge_on stat err c2 b2
       else (case note_written (binbuf b) c2 b2 of (c3, b3) \<Rightarrow> Some (Ret (True, c3, b3))))"
    using d b(1) b(2) [symmetric] ne no_padding_on_disk [OF wf d(7)] ser chk(1) rd b2(2)
    unfolding write_block_to_dev_def write_to_volume_def Let_def by simp
  then show thesis using that [OF s3 b2(1,3,5,4) img(2,1)] by blast
qed

lemma write_block_ready:
  assumes "willing env" and rdy: "vol_ready old c" and wf: "block_wf b" and ne: "\<not> is_block_empty b"
  shows "\<exists>c' b'. write_block_to_dev env forge_on c b = Some (Ret (True, c', b')) \<and> vol_ready old c' \<and>
     volume_images old c' = volume_images old c @ [image_of b] \<and> emptied b b' \<and>
     capabilities (dev c') = capabilities (dev c) \<and> max_block_size (dev c') = max_block_size (dev c) \<and> spooling c' = spooling c \<and>
     NewVol c' = NewVol c \<and> JobId c' = JobId c"
proof -
  have able: "able c" using rdy by (simp add: vol_ready_def)
  obtain c1 b1 bs where p: "same_disk c c1" "block_wf b1" "buf_len b1 = buf_len b" "image_of b1 = image_of b"
    "binbuf b1 = binbuf b" "length bs = unat (binbuf b)"
    "first_block (do_checksum (dev c1)) bs = Some (image_of b, [])"
    "write_block_to_dev env forge_on c b = (case write_tries 3 bs c1 of (stat, err, c2) \<Rightarrow>
       if stat \<noteq> int (unat (binbuf b)) then write_failure env forge_on stat err c2 b1
       else (case note_written (binbuf b) c2 b1 of (c3, b3) \<Rightarrow> Some (Ret (True, c3, b3))))"
    by (rule write_block_prepared [OF assms(1) able wf ne])
  have rdy1: "vol_ready old c1" by (rule same_disk_vol_ready [OF p(1) rdy])
  let ?c2 = "c1\<lparr>volume := volume c1 @ bs, fpos := fpos c1 + length bs\<rparr>"
  have tries: "write_tries 3 bs c1 = (int (unat (binbuf b)), ENONE, ?c2)"
    using rdy1 write_tries_ok [of c1 3 bs] by (simp only: vol_ready_def p(6))
  have d: "\<not> is_tape (dev ?c2)" "\<not> dev_adata (dev ?c2)" using rdy1 by (simp_all add: vol_ready_def able_def can_store_def)
  obtain c3 b3 where n: "note_written (binbuf b) ?c2 b1 = (c3, b3)" by (metis surj_pair)
  have s3: "same_disk ?c2 c3" "emptied b1 b3" using note_written_effect [OF p(2) d, of "binbuf b"] n by simp_all
  have "write_block_to_dev env forge_on c b = Some (Ret (True, c3, b3))"
    using p(8) tries n by simp
  moreover have "vol_ready old c3" by (rule same_disk_vol_ready [OF s3(1) append_ready(1) [OF rdy1 p(7)]])
  moreover have "volume_images old c3 = volume_images old c @ [image_of b]"
    using same_disk_images [OF s3(1)] append_ready(2) [OF rdy1 p(7)] same_disk_images [OF p(1)] by metis
  moreover have "emptied b b3" using s3(2) p(3) by (simp add: emptied_def)
  moreover have "capabilities (dev c3) = capabilities (dev c)" "max_block_size (dev c3) = max_block_size (dev c)" "spooling c3 = spooling c"
      "NewVol c3 = NewVol c" "JobId c3 = JobId c"
    using s3(1) p(1) by (simp_all add: same_disk_def)
  ultimately show ?thesis by blast
qed

lemma final_willing:
  assumes "willing env"
  shows "same_disk c (final_jobmedia env final c)"
proof -
  obtain c' where "dir_create_jobmedia_record env False c = (True, c')" "same_disk c c'"
    using jobmedia_willing [OF assms] by blast
  then show ?thesis by (cases final) (simp_all add: final_jobmedia_def same_disk_refl)
qed

lemma disk_readyD:
  assumes "disk_ready old c"
  shows "able c" "\<not> NewVol c" "\<not> spooling c" "vol_ready old c"
  using assms by (simp_all add: disk_ready_def vol_ready_def)

lemma newfile_ready:
  assumes "willing env" and "able c" and nv0: "\<not> NewVol c"
  obtains c2 where "check_for_newvol_or_newfile env c = (True, c2)" "same_disk c c2"
proof (cases "NewFile c")
  case True
  have d: "\<not> job_canceled c" "\<not> NewVol c" using assms(2) nv0 by (simp_all add: able_def)
  obtain c1 where c1: "dir_create_jobmedia_record env False c = (True, c1)" "same_disk c c1"
    using jobmedia_willing [OF assms(1)] by blast
  have nv: "\<not> NewVol c1" using c1(2) d(2) by (simp add: same_disk_def)
  let ?c = "set_new_file_parameters (if VolFirstIndex c \<noteq> 0 then c1 else c)"
  have "check_for_newvol_or_newfile env c = (True, ?c)"
    using True d c1(1) nv unfolding check_for_newvol_or_newfile_def by simp
  moreover have "same_disk c ?c"
    using same_disk_trans [OF c1(2) same_disk_fields(5)] same_disk_fields(5) by simp
  ultimately show thesis by (rule that)
next
  case False
  then show thesis
    using nv0 that [OF _ same_disk_refl] unfolding check_for_newvol_or_newfile_def by simp
qed

text \<open>\<open>write_block_to_device\<close> writes the block; a new file begins with an index record for the old one.\<close>

lemma write_device_ready:
  assumes "willing env" and rdy: "disk_ready old c" and wf: "block_wf b" and ne: "\<not> is_block_empty b"
  shows "\<exists>c' b'. write_block_to_device env forge_on final c b = Some (Ret (True, c', b')) \<and> disk_ready old c' \<and>
     volume_images old c' = volume_images old c @ [image_of b] \<and> emptied b b' \<and>
     capabilities (dev c') = capabilities (dev c) \<and> max_block_size (dev c') = max_block_size (dev c) \<and> JobId c' = JobId c"
proof -
  obtain c2 where c2: "check_for_newvol_or_newfile env c = (True, c2)" "same_disk c c2"
    using newfile_ready [OF assms(1) disk_readyD(1,2) [OF rdy]] by blast
  obtain c3 b3 where w: "write_block_to_dev env forge_on c2 b = Some (Ret (True, c3, b3))" "disk_ready old c3"
    "volume_images old c3 = volume_images old c2 @ [image_of b]" "emptied b b3"
    "capabilities (dev c3) = capabilities (dev c2)" "max_block_size (dev c3) = max_block_size (dev c2)" "JobId c3 = JobId c2"
    using write_block_ready [OF assms(1) _ wf ne, of old c2 forge_on] same_disk_ready [OF c2(2) rdy]
    by (auto simp: disk_ready_def)
  have f: "same_disk c3 (final_jobmedia env final c3)" by (rule final_willing [OF assms(1)])
  have "write_block_to_device env forge_on final c b = Some (Ret (True, final_jobmedia env final c3, b3))"
    using rdy c2(1) w(1) unfolding write_block_to_device_def by (simp add: disk_ready_def)
  moreover have "volume_images old (final_jobmedia env final c3) = volume_images old c @ [image_of b]"
    using w(3) same_disk_images [OF c2(2)] same_disk_images [OF f] by simp
  moreover have "capabilities (dev (final_jobmedia env final c3)) = capabilities (dev c)"
      "max_block_size (dev (final_jobmedia env final c3)) = max_block_size (dev c)" "JobId (final_jobmedia env final c3) = JobId c"
    using w(5-7) c2(2) f by (simp_all add: same_disk_def)
  ultimately show ?thesis using w(4) same_disk_ready [OF f w(2)] by blast
qed

text \<open>A block without data is not written.\<close>

lemma write_device_empty:
  assumes "willing env" and rdy: "disk_ready old c" and wf: "block_wf b" and em: "is_block_empty b"
  shows "\<exists>c'. write_block_to_device env forge_on final c b = Some (Ret (True, c', b)) \<and> same_disk c c'"
proof -
  obtain c2 where c2: "check_for_newvol_or_newfile env c = (True, c2)" "same_disk c c2"
    using newfile_ready [OF assms(1) disk_readyD(1,2) [OF rdy]] by blast
  have rdy2: "disk_ready old c2" by (rule same_disk_ready [OF c2(2) rdy])
  have "write_block_to_dev env forge_on c2 b = Some (Ret (True, c2, b))"
    using rdy2 em block_wfD [OF wf] by (simp add: write_block_to_dev_def disk_ready_def vol_ready_def able_def can_store_def)
  then have "write_block_to_device env forge_on final c b = Some (Ret (True, final_jobmedia env final c2, b))"
    using rdy c2(1) unfolding write_block_to_device_def by (simp add: disk_ready_def)
  then show ?thesis using same_disk_trans [OF c2(2) final_willing [OF assms(1)]] by blast
qed

interpretation disk: block_sink "write_block_to_device env forge_on False" job_canceled
  "\<lambda>c. willing env \<and> disk_ready old c \<and> capabilities (dev c) = caps" "volume_images old" "\<lambda>_ _ _. True" for env forge_on old caps
proof
  fix c b
  show "willing env \<and> disk_ready old c \<and> capabilities (dev c) = caps \<Longrightarrow> \<not> job_canceled c"
    by (simp add: disk_ready_def vol_ready_def able_def)
  assume "willing env \<and> disk_ready old c \<and> capabilities (dev c) = caps" "block_wf b" "\<not> is_block_empty b"
  then show "\<exists>c' b'. write_block_to_device env forge_on False c b = Some (Ret (True, c', b')) \<and>
      (willing env \<and> disk_ready old c' \<and> capabilities (dev c') = caps) \<and>
      volume_images old c' = volume_images old c @ [image_of b] \<and> emptied b b'"
    using write_device_ready by metis
qed simp

section \<open>What writing a block does\<close>

lemma sample_env_willing: "willing sample_env"
  by (simp add: willing_def sample_env_def)

lemma sample_dcr_ready: "disk_ready (volume sample_dcr) sample_dcr"
  by (simp add: disk_ready_def vol_ready_def able_def sample_dcr_def can_store_def job_canceled_def job_canceled_status_def flag_bits st_bits
      is_open_def is_tape_def zero_device_def zero_volcat_def)

lemma sample_block_full: "\<not> is_block_empty sample_block"
  by (simp add: is_block_empty_def sample_block_fields block_consts)

text \<open>
  C5: Refinement of a log of blocks by a disk volume. On a disk volume that is open for writing, behind
  whatever the volume held before, \<open>write_block_to_device\<close> succeeds and appends exactly one block to
  the sequence of blocks on the volume, with the session and the records of the block in memory, and
  empties the block in memory; the volume stays ready for the next block.
\<close>

theorem device_appends_block:
  assumes "willing env" and "disk_ready old c" and "block_wf b" and "\<not> is_block_empty b"
  shows "\<exists>c' b'. write_block_to_device env forge_on final c b = Some (Ret (True, c', b')) \<and> disk_ready old c' \<and>
     volume_images old c' = volume_images old c @ [image_of b] \<and> emptied b b'"
  using write_device_ready [OF assms] by blast

theorem device_appends_block_witness:
  "\<exists>c' b'. write_block_to_device sample_env False True sample_dcr sample_block = Some (Ret (True, c', b')) \<and>
     volume_images [1, 2, 3] c' = [image_of sample_block] \<and> emptied sample_block b'"
proof -
  have "volume sample_dcr = [1, 2, 3]" by (simp add: sample_dcr_def)
  moreover from this have "volume_images [1, 2, 3] sample_dcr = []" by (simp add: volume_images_def parse_volume.simps)
  ultimately show ?thesis
    using device_appends_block [OF sample_env_willing sample_dcr_ready sample_block_wf sample_block_full, of False True] by auto
qed

end
