(* ===== verification/WriteErrors.thy ===== *)
theory WriteErrors
  imports VolumeFormat
begin

text \<open>
  Writing to a disk volume when system calls fail: busy or failing calls are repeated, and when they
  keep failing the volume is closed, the block stays in memory, and \<open>fixup_device_block_write_error\<close>
  puts it on the next volume.
\<close>

section \<open>The system calls\<close>

text \<open>What failing system calls leave alone.\<close>

definition same_job :: "DCR \<Rightarrow> DCR \<Rightarrow> bool" where
  "same_job c c' \<longleftrightarrow> JobStatus c' = JobStatus c \<and> system_job c' = system_job c \<and> spooling c' = spooling c \<and> NewVol c' = NewVol c \<and>
     capabilities (dev c') = capabilities (dev c) \<and> (can_store (dev c) \<longrightarrow> can_store (dev c'))"

lemma same_job_refl: "same_job c c"
  by (simp add: same_job_def)

lemma same_job_trans: "same_job c c' \<Longrightarrow> same_job c' c'' \<Longrightarrow> same_job c c''"
  by (simp add: same_job_def)

lemma same_disk_job: "same_disk c c' \<Longrightarrow> same_job c c'"
  by (simp add: same_disk_def same_job_def)

lemma same_job_able: "same_job c c' \<Longrightarrow> able c \<Longrightarrow> able c'"
  by (simp add: same_job_def able_def job_canceled_def)

lemma clrerror_same: "same_disk c (on_dev (clrerror e) c)"
  by (rule same_disk_dev [where d = "dev c"]; simp add: clrerror_def Let_def)

text \<open>A call writes a part of the bytes at the end of the volume, possibly all of them or none.\<close>

definition appended :: "byte list \<Rightarrow> nat \<Rightarrow> DCR \<Rightarrow> int \<times> errno \<times> DCR \<Rightarrow> bool" where
  "appended bs n c r \<longleftrightarrow> (case r of (stat, err, c') \<Rightarrow>
     n \<le> length bs \<and> (stat = int n \<or> stat = - 1 \<and> n = 0) \<and> volume c' = volume c @ take n bs \<and>
     fpos c' = length (volume c') \<and> same_job c c')"

lemma d_write_appends:
  assumes "fpos c = length (volume c)"
  shows "\<exists>n. appended bs n c (d_write bs c)"
proof (cases "case write_script c of [] \<Rightarrow> Write_all | r # rs \<Rightarrow> r")
  case Write_all
  then have "appended bs (length bs) c (d_write bs c)"
    using assms by (simp add: d_write_def Let_def appended_def file_put_end same_job_def)
  then show ?thesis by blast
next
  case (Write_part n)
  then have "appended bs (min n (length bs)) c (d_write bs c)"
    using assms by (simp add: d_write_def Let_def appended_def file_put_end same_job_def min_def)
  then show ?thesis by blast
next
  case (Write_error e)
  then have "appended bs 0 c (d_write bs c)"
    using assms by (simp add: d_write_def Let_def appended_def same_job_def)
  then show ?thesis by blast
qed

lemma write_tries_appends:
  assumes "fpos c = length (volume c)"
  shows "\<exists>n. appended bs n c (write_tries k bs c)"
  using assms
proof (induction k arbitrary: c)
  case 0
  then show ?case using d_write_appends [OF 0] by (subst write_tries.simps) (simp add: case_prod_unfold)
next
  case (Suc k)
  obtain stat err c1 where r: "d_write bs c = (stat, err, c1)" by (metis surj_pair)
  obtain n where n: "appended bs n c (stat, err, c1)" using d_write_appends [OF Suc.prems, of bs] r by auto
  show ?case
  proof (cases "stat = - 1 \<and> (err = EBUSY \<or> err = EIO)")
    case True
    define c2 where "c2 = (if err = EBUSY then on_dev (clrerror err) c1 else c1)"
    have a: "volume c1 = volume c" "fpos c1 = length (volume c1)" "same_job c c1"
      using n True by (simp_all add: appended_def)
    have s: "volume c2 = volume c1" "fpos c2 = fpos c1" "same_job c1 c2"
      using same_disk_job [OF clrerror_same] same_job_refl by (simp_all add: c2_def)
    have "fpos c2 = length (volume c2)" using a(2) s(1,2) by simp
    then obtain m where m: "appended bs m c2 (write_tries k bs c2)" using Suc.IH [of c2] by blast
    have "appended bs m c (write_tries k bs c2)"
      using m a(1) s(1) same_job_trans [OF same_job_trans [OF a(3) s(3)]]
      by (cases "write_tries k bs c2") (simp add: appended_def)
    moreover have "write_tries (Suc k) bs c = write_tries k bs c2"
      using r True by (subst write_tries.simps) (simp add: c2_def)
    ultimately show ?thesis by metis
  next
    case False
    then have "write_tries (Suc k) bs c = (stat, err, c1)" using r by (subst write_tries.simps) auto
    then show ?thesis using n by auto
  qed
qed

section \<open>The end of a volume\<close>

lemma set_ateot_closes: "is_ateot (set_ateot d)" "\<not> can_append (set_ateot d)"
  by (simp_all add: flag_simps flag_updates)

lemma weof_disk:
  assumes "can_store (dev c)"
  shows "weof env c = (True, on_dev (\<lambda>d. d\<lparr>file_size := 0\<rparr>) c)"
  using assms by (simp add: weof_def DEVICE_weof_def can_store_def on_dev_def)

text \<open>
  \<open>terminate_writing_volume\<close> on a disk: the volume is left as it is, the block is marked, and the
  device does not take any more data.
\<close>

definition closed_volume :: "DCR \<Rightarrow> DCR \<Rightarrow> bool" where
  "closed_volume c c' \<longleftrightarrow> volume c' = volume c \<and> fpos c' = fpos c \<and> JobStatus c' = JobStatus c \<and>
     system_job c' = system_job c \<and> spooling c' = spooling c \<and> is_ateot (dev c') \<and> \<not> can_append (dev c') \<and> \<not> is_tape (dev c') \<and>
     \<not> WroteVol c'"

lemma terminate_disk:
  assumes "willing env" and "able c"
  shows "\<exists>c'. terminate_writing_volume env c b = (True, c', b\<lparr>write_failed := True\<rparr>) \<and> closed_volume c c'"
proof -
  have st: "can_store (dev c)" using assms(2) by (simp add: able_def)
  then have "\<not> is_ateot (dev c)" by (simp add: can_store_def is_ateot_def at_weot_def)
  let ?eof = "\<lambda>d. d\<lparr>file_size := 0\<rparr> :: DEVICE"
  define c1 where "c1 = on_dev note_files c"
  have 1: "same_disk c c1" unfolding c1_def by (rule same_disk_dev [where d = "dev c"]; simp add: note_files_def)
  obtain c2 where 2: "dir_create_jobmedia_record env False c1 = (True, c2)" "same_disk c1 c2"
    using jobmedia_willing [OF assms(1)] by blast
  obtain c3 where 3: "flush_jobmedia_queue env c2 = (True, c3)" "same_disk c2 c3"
    using flush_jobmedia_willing [OF assms(1)] by blast
  have s3: "same_disk c c3" by (rule same_disk_trans [OF same_disk_trans [OF 1 2(2)] 3(2)])
  then have st3: "can_store (dev c3)" using st by (simp add: same_disk_def)
  define c4 where "c4 = on_dev ?eof c3"
  have w: "weof env c3 = (True, c4)" unfolding c4_def by (rule weof_disk [OF st3])
  have s4: "same_disk c c4"
    unfolding c4_def by (rule same_disk_trans [OF s3], rule same_disk_dev [where d = "dev c3"]; simp)
  have st4: "can_store (dev c4)" using s4 st by (simp add: same_disk_def)
  have e: "end_of_volume env c4 = (True, c4)" using st4 by (simp add: end_of_volume_def can_store_def)
  define c5 where "c5 = on_dev mark_full c4"
  have s5: "same_disk c c5"
    unfolding c5_def by (rule same_disk_trans [OF s4], rule same_disk_dev [where d = "dev c4"]; simp add: mark_full_def)
  obtain c6 where 6: "dir_update_volume_info env c5 = (True, c6)" "same_disk c5 c6"
    using update_willing [OF assms(1) same_disk_able [OF s5 assms(2)]] by blast
  have s6: "same_disk c c6" by (rule same_disk_trans [OF s5 6(2)])
  define c7 where "c7 = set_new_file_parameters (notify_newvol_in_attached_dcrs c6)"
  have f7: "dev c7 = dev c6" "volume c7 = volume c6" "fpos c7 = fpos c6" "JobStatus c7 = JobStatus c6"
    "system_job c7 = system_job c6" "spooling c7 = spooling c6" "\<not> WroteVol c7"
    by (simp_all add: c7_def set_new_file_parameters_def set_start_vol_position_def notify_newvol_in_attached_dcrs_def)
  have st7: "can_store (dev c7)" using s6 st by (simp add: f7 same_disk_def)
  have w7: "weof env c7 = (True, on_dev ?eof c7)" by (rule weof_disk [OF st7])
  let ?c8 = "if has_cap (dev c7) CAP_TWOEOF \<and> can_append (dev c7) then on_dev ?eof c7 else c7"
  have "terminate_writing_volume env c b = (True, on_dev set_ateot ?c8, b\<lparr>write_failed := True\<rparr>)"
    using \<open>\<not> is_ateot (dev c)\<close> 2(1) 3(1) w e 6(1) w7 st3
    unfolding terminate_writing_volume_def Let_def c1_def [symmetric]
    by (simp add: can_store_def c5_def [symmetric] c7_def [symmetric])
  moreover have "closed_volume c (on_dev set_ateot ?c8)"
    using s6 f7 set_ateot_closes st7
    by (simp add: closed_volume_def same_disk_def) (simp add: on_dev_def can_store_def is_tape_def set_ateot_def clear_append_def)
  ultimately show ?thesis by blast
qed

section \<open>A write that fails\<close>

lemma nospace_same: "same_disk c (on_dev (check_nospace env) c)"
proof -
  have "bit (state (check_nospace env d)) n = bit (state d) n" if "n = 8 \<or> n = 11" for d n
    using that by (auto simp: check_nospace_def update_freespace_def Let_def flag_updates st_bits
        bit_or_iff bit_and_iff bit_not_iff split: option.split)
  moreover have "m_fd (check_nospace env d) = m_fd d" "capabilities (check_nospace env d) = capabilities d" "max_block_size (check_nospace env d) = max_block_size d"
    "enabled (check_nospace env d) = enabled d" "dev_adata (check_nospace env d) = dev_adata d"
    "dev_type (check_nospace env d) = dev_type d" "max_volume_size (check_nospace env d) = max_volume_size d"
    "VolCatInfo (check_nospace env d) = VolCatInfo d" for d
    by (simp_all add: check_nospace_def update_freespace_def Let_def flag_updates split: option.split)
  ultimately show ?thesis by (simp add: same_disk_def can_store_def flag_bits is_open_def is_tape_def)
qed

lemma errno_same: "same_disk c (set_errno e c)" "same_disk c (on_dev count_error c)"
  unfolding set_errno_def by (rule same_disk_dev [where d = "dev c"]; simp add: count_error_def)+

lemma write_failure_disk:
  assumes "willing env" and "able c" and "\<not> adata b"
  shows "\<exists>c'. write_failure env forge_on stat err c b = Some (Ret (False, c', b\<lparr>write_failed := True\<rparr>)) \<and> closed_volume c c'"
proof -
  define c1 where "c1 = on_dev (clrerror err) c"
  define c2 where "c2 = (if dev_errno (dev c1) = ENONE then set_errno ENOSPC c1 else c1)"
  define c3 where "c3 = (if dev_errno (dev c2) \<noteq> ENOSPC then on_dev count_error c2 else c2)"
  define c4 where "c4 = (if stat = - 1 then c3 else set_errno ENOSPC c)"
  define c5 where "c5 = (if dev_errno (dev c4) = ENOSPC then on_dev (check_nospace env) c4 else c4)"
  have na: "(if adata b then Jmsg_fatal x else x) = x" for x using assms(3) by simp
  have 1: "same_disk c c1" unfolding c1_def by (rule clrerror_same)
  have "same_disk c1 c2" unfolding c2_def using errno_same(1) same_disk_refl by simp
  moreover have "same_disk c2 c3" unfolding c3_def using errno_same(2) same_disk_refl by simp
  ultimately have "same_disk c c3" using same_disk_trans [OF same_disk_trans [OF 1]] by simp
  then have 4: "same_disk c c4" unfolding c4_def using errno_same(1) by simp
  have "same_disk c4 c5" unfolding c5_def using nospace_same same_disk_refl by simp
  then have s: "same_disk c c5" by (rule same_disk_trans [OF 4])
  obtain c6 where 6: "terminate_writing_volume env c5 b = (True, c6, b\<lparr>write_failed := True\<rparr>)" "closed_volume c5 c6"
    using terminate_disk [OF assms(1) same_disk_able [OF s assms(2)]] by blast
  have "reread_last_block env forge_on c6 = Some (Ret c6)"
    using 6(2) by (simp add: reread_last_block_def closed_volume_def)
  then have "write_failure env forge_on stat err c b = Some (Ret (False, c6, b\<lparr>write_failed := True\<rparr>))"
    using 6(1) unfolding write_failure_def Let_def c1_def [symmetric] c2_def [symmetric] na c3_def [symmetric]
      c4_def [symmetric] c5_def [symmetric] by simp
  moreover have "closed_volume c c6" using 6(2) s by (simp add: closed_volume_def same_disk_def)
  ultimately show ?thesis by blast
qed

text \<open>The block that is left over still holds what was to be written.\<close>

definition kept :: "DEV_BLOCK \<Rightarrow> DEV_BLOCK \<Rightarrow> bool" where
  "kept b b' \<longleftrightarrow> block_wf b' \<and> buf_len b' = buf_len b \<and> image_of b' = image_of b \<and> binbuf b' = binbuf b \<and> write_failed b'"

lemma write_block_any:
  assumes w: "willing env" and able: "able c" and wf: "block_wf b" and ne: "\<not> is_block_empty b"
    and pos: "fpos c = length (volume c)"
  shows "\<exists>ok c' b' img n. write_block_to_dev env forge_on c b = Some (Ret (ok, c', b')) \<and>
     first_block (do_checksum (dev c)) img = Some (image_of b, []) \<and> volume c' = volume c @ take n img \<and>
     fpos c' = length (volume c') \<and> JobStatus c' = JobStatus c \<and> system_job c' = system_job c \<and> spooling c' = spooling c \<and>
     (if ok then n = length img \<and> emptied b b' \<and> able c' \<and> NewVol c' = NewVol c
      else n < length img \<and> kept b b' \<and> is_ateot (dev c') \<and> \<not> can_append (dev c') \<and> \<not> WroteVol c')"
proof -
  obtain c1 b1 bs where p: "same_disk c c1" "block_wf b1" "buf_len b1 = buf_len b" "image_of b1 = image_of b"
    "binbuf b1 = binbuf b" "length bs = unat (binbuf b)"
    "first_block (do_checksum (dev c1)) bs = Some (image_of b, [])"
    "write_block_to_dev env forge_on c b = (case write_tries 3 bs c1 of (stat, err, c2) \<Rightarrow>
       if stat \<noteq> int (unat (binbuf b)) then write_failure env forge_on stat err c2 b1
       else (case note_written (binbuf b) c2 b1 of (c3, b3) \<Rightarrow> Some (Ret (True, c3, b3))))"
    by (rule write_block_prepared [OF w able wf ne])
  have pos1: "fpos c1 = length (volume c1)" "volume c1 = volume c" using p(1) pos by (simp_all add: same_disk_def)
  have sum: "do_checksum (dev c1) = do_checksum (dev c)" using p(1) by (simp add: same_disk_def do_checksum_def)
  obtain stat err c2 where r: "write_tries 3 bs c1 = (stat, err, c2)" by (metis surj_pair)
  obtain n where n: "n \<le> length bs" "stat = int n \<or> stat = - 1 \<and> n = 0" "volume c2 = volume c1 @ take n bs"
    "fpos c2 = length (volume c2)" "same_job c1 c2"
    using write_tries_appends [OF pos1(1), of bs 3] by (auto simp: r appended_def)
  have sj: "same_job c c2" by (rule same_job_trans [OF same_disk_job [OF p(1)] n(5)])
  have able2: "able c2" by (rule same_job_able [OF sj able])
  have d2: "\<not> is_tape (dev c2)" "\<not> dev_adata (dev c2)" using able2 by (simp_all add: able_def can_store_def)
  have img: "first_block (do_checksum (dev c)) bs = Some (image_of b, [])" using p(7) sum by simp
  show ?thesis
  proof (cases "stat = int (unat (binbuf b))")
    case True
    have full: "n = length bs" using True n(1,2) p(6) by linarith
    obtain c3 b3 where nw: "note_written (binbuf b) c2 b1 = (c3, b3)" by (metis surj_pair)
    have s3: "same_disk c2 c3" "emptied b1 b3" using note_written_effect [OF p(2) d2, of "binbuf b"] nw by simp_all
    have e: "emptied b b3" using s3(2) p(3) by (simp add: emptied_def)
    have "write_block_to_dev env forge_on c b = Some (Ret (True, c3, b3))" using p(8) r nw True by simp
    moreover have "volume c3 = volume c @ take n bs" "fpos c3 = length (volume c3)"
      "JobStatus c3 = JobStatus c" "system_job c3 = system_job c" "spooling c3 = spooling c" "NewVol c3 = NewVol c"
      using s3(1) n(3,4) pos1(2) sj by (simp_all add: same_disk_def same_job_def)
    moreover have "able c3" by (rule same_disk_able [OF s3(1) able2])
    ultimately show ?thesis using img full e by (intro exI [of _ True]) (metis (full_types))
  next
    case False
    have less: "n < length bs" using False n(1,2) p(6) block_wfD(5) [OF wf] by linarith
    obtain c3 where f: "write_failure env forge_on stat err c2 b1 = Some (Ret (False, c3, b1\<lparr>write_failed := True\<rparr>))"
      "closed_volume c2 c3"
      using write_failure_disk [OF w able2] block_wfD [OF p(2)] by blast
    have "write_block_to_dev env forge_on c b = Some (Ret (False, c3, b1\<lparr>write_failed := True\<rparr>))"
      using p(8) r f(1) False by simp
    moreover have "volume c3 = volume c @ take n bs" "fpos c3 = length (volume c3)"
      "JobStatus c3 = JobStatus c" "system_job c3 = system_job c" "spooling c3 = spooling c" "is_ateot (dev c3)" "\<not> can_append (dev c3)" "\<not> WroteVol c3"
      using f(2) n(3,4) pos1(2) sj by (simp_all add: closed_volume_def same_job_def)
    moreover have "kept b (b1\<lparr>write_failed := True\<rparr>)"
      using p(2-5) by (simp add: kept_def block_wf_def image_of_def payload_def)
    ultimately show ?thesis using img less by (intro exI [of _ False]) (metis (full_types))
  qed
qed

section \<open>The next volume\<close>

text \<open>An operator who mounts a writable volume and a label block for it whenever asked.\<close>

definition mounts :: "sd_env \<Rightarrow> byte list \<Rightarrow> bool" where
  "mounts env old \<longleftrightarrow> (\<forall>c. case env_mount env c of (ok, m, label_blk) \<Rightarrow>
     ok \<and> vol_ready old m \<and> \<not> spooling m \<and> block_wf label_blk \<and> \<not> is_block_empty label_blk)"

lemma vol_ready_cong:
  assumes "dev c' = dev c" "volume c' = volume c" "fpos c' = fpos c" "write_script c' = write_script c"
    "JobStatus c' = JobStatus c"
  shows "vol_ready old c' \<longleftrightarrow> vol_ready old c" "volume_images old c' = volume_images old c"
  using assms by (simp_all add: vol_ready_def able_def job_canceled_def volume_images_def)

definition count_job :: "DEVICE \<Rightarrow> DEVICE" where
  "count_job d = d\<lparr>VolCatInfo := (VolCatInfo d)\<lparr>VolCatJobs := VolCatJobs (VolCatInfo d) + 1\<rparr>\<rparr>"

lemma fixup_next_volume:
  assumes w: "willing env" and "mounts env old" and wf: "block_wf b" and ne: "\<not> is_block_empty b"
  shows "\<exists>c' b' c0 m label_blk. fixup_device_block_write_error env forge_on k c b = Some (Ret (True, c', b')) \<and>
     env_mount env c0 = (True, m, label_blk) \<and> disk_ready old c' \<and> emptied b b' \<and>
     volume_images old c' = volume_images old m @ [image_of label_blk, image_of b]"
proof -
  obtain ok m lbl where mt: "env_mount env (clear_index c) = (ok, m, lbl)" by (metis surj_pair)
  have m: "env_mount env (clear_index c) = (True, m, lbl)" "vol_ready old m" "\<not> spooling m"
    "block_wf lbl" "\<not> is_block_empty lbl"
    using assms(2) [unfolded mounts_def, rule_format, of "clear_index c"] mt by simp_all
  define m1 where "m1 = notify_newvol_in_attached_dcrs m"
  have m1: "vol_ready old m1" "volume_images old m1 = volume_images old m" "\<not> spooling m1"
    using m(2,3) vol_ready_cong [of m1 m] by (simp_all add: m1_def notify_newvol_in_attached_dcrs_def)
  define m2 where "m2 = on_dev count_job m1"
  have 2: "same_disk m1 m2" unfolding m2_def by (rule same_disk_dev [where d = "dev m1"]; simp add: count_job_def)
  obtain m3 where m3: "dir_update_volume_info env m2 = (True, m3)" "same_disk m2 m3"
    using update_willing [OF w] same_disk_vol_ready [OF 2 m1(1)] unfolding vol_ready_def by blast
  have 3: "same_disk m1 m3" by (rule same_disk_trans [OF 2 m3(2)])
  have rdy3: "vol_ready old m3" "\<not> spooling m3" using same_disk_vol_ready [OF 3 m1(1)] 3 m1(3) by (simp_all add: same_disk_def)
  obtain m4 lbl4 where 4: "write_block_to_dev env forge_on m3 lbl = Some (Ret (True, m4, lbl4))" "vol_ready old m4"
    "volume_images old m4 = volume_images old m3 @ [image_of lbl]" "spooling m4 = spooling m3"
    using write_block_ready [OF w rdy3(1) m(4,5), of forge_on] by blast
  define m5 where "m5 = set_new_volume_parameters env (m4\<lparr>NewVol := False\<rparr>)"
  have 5: "vol_ready old m5" "volume_images old m5 = volume_images old m4" "spooling m5 = spooling m4" "\<not> NewVol m5"
    using 4(2) vol_ready_cong [of m5 m4]
    by (simp_all add: m5_def set_new_volume_parameters_def Let_def set_new_file_parameters_def set_start_vol_position_def)
  obtain m6 b6 where 6: "write_block_to_dev env forge_on m5 b = Some (Ret (True, m6, b6))" "vol_ready old m6"
    "volume_images old m6 = volume_images old m5 @ [image_of b]" "emptied b b6" "spooling m6 = spooling m5" "NewVol m6 = NewVol m5"
    using write_block_ready [OF w 5(1) wf ne, of forge_on] by blast
  have "fixup_device_block_write_error env forge_on k c b = Some (Ret (True, m6, b6))"
    using m(1) m3(1) 4(1) 6(1)
    by (subst fixup_device_block_write_error.simps)
      (simp add: Let_def m1_def [symmetric] count_job_def [abs_def, symmetric] m2_def [symmetric] m5_def [symmetric])
  moreover have "disk_ready old m6" using 6(2,5,6) 5(3,4) 4(4) rdy3(2) by (simp add: disk_ready_def)
  moreover have "volume_images old m6 = volume_images old m @ [image_of lbl, image_of b]"
    using 6(3) 5(2) 4(3) same_disk_images [OF 3] m1(2) by simp
  ultimately show ?thesis using m(1) 6(4) by blast
qed

lemma write_device_any:
  assumes w: "willing env" and mt: "mounts env old" and able: "able c" and pos: "fpos c = length (volume c)"
    and fl: "\<not> spooling c" "\<not> NewVol c" "\<not> system_job c" and wf: "block_wf b" and ne: "\<not> is_block_empty b"
  shows "\<exists>c' b'. write_block_to_device env forge_on final c b = Some (Ret (True, c', b')) \<and> emptied b b' \<and>
     ((\<exists>img. first_block (do_checksum (dev c)) img = Some (image_of b, []) \<and> volume c' = volume c @ img) \<or>
      (\<exists>c0 m label_blk. env_mount env c0 = (True, m, label_blk) \<and> disk_ready old c' \<and>
         volume_images old c' = volume_images old m @ [image_of label_blk, image_of b]))"
proof -
  obtain c1 where 1: "check_for_newvol_or_newfile env c = (True, c1)" "same_disk c c1"
    using newfile_ready [OF w able fl(2)] by blast
  have f1: "able c1" "fpos c1 = length (volume c1)" "volume c1 = volume c" "do_checksum (dev c1) = do_checksum (dev c)"
    "\<not> system_job c1" "\<not> job_canceled c1"
    using same_disk_able [OF 1(2) able] 1(2) pos fl by (simp_all add: same_disk_def do_checksum_def able_def)
  obtain ok c2 b2 img n where 2: "write_block_to_dev env forge_on c1 b = Some (Ret (ok, c2, b2))"
    "first_block (do_checksum (dev c1)) img = Some (image_of b, [])" "volume c2 = volume c1 @ take n img"
    "JobStatus c2 = JobStatus c1" "system_job c2 = system_job c1"
    "if ok then n = length img \<and> emptied b b2 \<and> able c2 \<and> NewVol c2 = NewVol c1
     else n < length img \<and> kept b b2 \<and> is_ateot (dev c2) \<and> \<not> can_append (dev c2) \<and> \<not> WroteVol c2"
    using write_block_any [OF w f1(1) wf ne f1(2), of forge_on] by blast
  have fin: "same_disk x (final_jobmedia env final x)" for x by (rule final_willing [OF w])
  show ?thesis
  proof (cases ok)
    case True
    have "write_block_to_device env forge_on final c b = Some (Ret (True, final_jobmedia env final c2, b2))"
      using fl(1) 1(1) 2(1) True unfolding write_block_to_device_def by simp
    moreover have "volume (final_jobmedia env final c2) = volume c @ img"
      using fin [of c2] 2(3,6) True f1(3) by (simp add: same_disk_def)
    ultimately show ?thesis using 2(2,6) True f1(4) by auto
  next
    case False
    then have kept: "kept b b2" "\<not> WroteVol c2" using 2(6) by simp_all
    then have wf2: "block_wf b2" by (simp add: kept_def)
    have k: "block_wf b2" "image_of b2 = image_of b" "buf_len b2 = buf_len b" "\<not> is_block_empty b2" "\<not> WroteVol c2"
      using kept ne block_wfD(1) [OF wf] block_wfD(1) [OF wf2] by (simp_all add: kept_def is_block_empty_def)
    obtain c' b' c0 m lbl where 3: "fixup_device_block_write_error env forge_on 4 c2 b2 = Some (Ret (True, c', b'))"
      "env_mount env c0 = (True, m, lbl)" "disk_ready old c'" "emptied b2 b'"
      "volume_images old c' = volume_images old m @ [image_of lbl, image_of b2]"
      using fixup_next_volume [OF w mt k(1,4), of forge_on 4 c2] by blast
    have "dir_create_jobmedia_record env False c2 = (True, c2)"
      using k(5) by (intro jobmedia_skipped_effect) (simp add: jobmedia_skipped_def)
    moreover have "\<not> job_canceled c2" using f1(6) 2(4) by (simp add: job_canceled_def)
    ultimately have "write_block_to_device env forge_on final c b = Some (Ret (True, final_jobmedia env final c', b'))"
      using fl(1) 1(1) 2(1,5) f1(5) False 3(1) unfolding write_block_to_device_def by simp
    moreover have "disk_ready old (final_jobmedia env final c')"
      "volume_images old (final_jobmedia env final c') = volume_images old c'"
      by (rule same_disk_ready [OF fin 3(3)], rule same_disk_images [OF fin])
    moreover have "emptied b b'" using 3(4) k(3) by (simp add: emptied_def)
    ultimately show ?thesis using 3(2,5) k(2) by metis
  qed
qed

section \<open>What failing system calls do\<close>

text \<open>
  C4: Whatever the system calls do, \<open>write_block_to_dev\<close> on a disk volume returns, keeps what was on
  the volume, and adds to it a part of the image of the block. When it reports success the image is
  there completely and the block is emptied. When it reports failure the image is cut short, the
  block still holds all its records, the device is at its end and not in append mode any more, and
  the status of the job is unchanged.
\<close>

theorem failed_write_keeps_block:
  assumes "willing env" and "able c" and "block_wf b" and "\<not> is_block_empty b" and "fpos c = length (volume c)"
  shows "\<exists>ok c' b' img n. write_block_to_dev env forge_on c b = Some (Ret (ok, c', b')) \<and>
     first_block (do_checksum (dev c)) img = Some (image_of b, []) \<and> volume c' = volume c @ take n img \<and>
     JobStatus c' = JobStatus c \<and>
     (if ok then n = length img \<and> emptied b b'
      else n < length img \<and> kept b b' \<and> is_ateot (dev c') \<and> \<not> can_append (dev c'))"
proof -
  obtain ok c' b' img n where "write_block_to_dev env forge_on c b = Some (Ret (ok, c', b'))"
    "first_block (do_checksum (dev c)) img = Some (image_of b, [])" "volume c' = volume c @ take n img"
    "JobStatus c' = JobStatus c"
    "if ok then n = length img \<and> emptied b b' \<and> able c' \<and> NewVol c' = NewVol c
     else n < length img \<and> kept b b' \<and> is_ateot (dev c') \<and> \<not> can_append (dev c') \<and> \<not> WroteVol c'"
    using write_block_any [OF assms] by blast
  then show ?thesis by (intro exI [of _ ok] exI [of _ c'] exI [of _ b'] exI [of _ img] exI [of _ n]) (simp split: if_splits)
qed


lemma sample_able: "able (sample_dcr\<lparr>write_script := ws\<rparr>)" "fpos sample_dcr = length (volume sample_dcr)"
  using sample_dcr_ready by (simp_all add: disk_ready_def vol_ready_def able_def job_canceled_def)

theorem failed_write_keeps_block_witness:
  "\<exists>ok c' b' img n. write_block_to_dev sample_env False (sample_dcr\<lparr>write_script := [Write_error EBUSY, Write_part 5]\<rparr>) sample_block
       = Some (Ret (ok, c', b')) \<and> volume c' = [1, 2, 3] @ take n img \<and>
     first_block (do_checksum (dev sample_dcr)) img = Some (image_of sample_block, [])"
proof -
  have "volume sample_dcr = [1, 2, 3]" by (simp add: sample_dcr_def)
  then show ?thesis
    using failed_write_keeps_block [OF sample_env_willing sample_able(1) sample_block_wf sample_block_full,
        of "[Write_error EBUSY, Write_part 5]" False] sample_able(2) by auto
qed


text \<open>
  C39: When the Director refuses the update of the volume that was just mounted,
  \<open>fixup_device_block_write_error\<close> reports failure with the label block in the place of the block it
  was called with: unlike the other ways out, this one does not restore the block, whose records are
  no longer reachable from the control record. The job is marked as failed.
\<close>

theorem refused_update_drops_block:
  assumes "env_mount env (clear_index c) = (True, m, label_blk)" and "\<And>v. env_volinfo env v = None"
    and "\<not> system_job m" and "\<not> job_canceled m" and "VolCatName (VolCatInfo (dev m)) \<noteq> []"
  shows "\<exists>c'. fixup_device_block_write_error env forge_on k c b = Some (Ret (False, c', label_blk)) \<and>
     JobStatus c' = setJobStatus JS_FatalError (JobStatus m)"
proof -
  define m1 where "m1 = on_dev count_job (notify_newvol_in_attached_dcrs m)"
  have m1: "\<not> system_job m1" "\<not> job_canceled m1" "VolCatName (VolCatInfo (dev m1)) \<noteq> []"
    using assms(3-5) by (simp_all add: m1_def notify_newvol_in_attached_dcrs_def count_job_def job_canceled_def)
  obtain c' where u: "dir_update_volume_info env m1 = (False, Jmsg_fatal c')" "JobStatus c' = JobStatus m1"
    using m1 assms(2) by (simp add: dir_update_volume_info_def Let_def)
  have "JobStatus m1 = JobStatus m" by (simp add: m1_def notify_newvol_in_attached_dcrs_def)
  then have "JobStatus (Jmsg_fatal c') = setJobStatus JS_FatalError (JobStatus m)"
    using u(2) by (simp add: Jmsg_fatal_def)
  moreover have "fixup_device_block_write_error env forge_on k c b = Some (Ret (False, Jmsg_fatal c', label_blk))"
    using assms(1) u(1)
    by (subst fixup_device_block_write_error.simps)
      (simp add: Let_def count_job_def [abs_def, symmetric] m1_def [symmetric])
  ultimately show ?thesis by blast
qed

theorem refused_update_drops_block_witness:
  "\<exists>c'. fixup_device_block_write_error
       (sample_env\<lparr>env_mount := \<lambda>c. (True, sample_dcr, new_block 64 0 (\<lambda>n. replicate n 0)), env_volinfo := \<lambda>v. None\<rparr>)
       False 4 sample_dcr sample_block = Some (Ret (False, c', new_block 64 0 (\<lambda>n. replicate n 0))) \<and>
     JobStatus c' = JS_FatalError"
proof -
  have "setJobStatus JS_FatalError (JobStatus sample_dcr) = JS_FatalError"
    by (simp add: sample_dcr_def setJobStatus_def get_status_priority_def)
  then show ?thesis
    using refused_update_drops_block [of "sample_env\<lparr>env_mount := \<lambda>c. (True, sample_dcr, new_block 64 0 (\<lambda>n. replicate n 0)),
          env_volinfo := \<lambda>v. None\<rparr>" sample_dcr sample_dcr "new_block 64 0 (\<lambda>n. replicate n 0)" False 4 sample_block]
    by (simp add: sample_dcr_def job_canceled_def job_canceled_status_def)
qed

end
