(* ===== verification/VolumeRead.thy ===== *)
theory VolumeRead
  imports VolumeFormat
begin

text \<open>
  Reading a disk volume back, block by block: \<open>read_block_from_dev\<close> returns the next block of the
  volume format, and the end of the file in two steps, first end of file, then end of the volume.
\<close>

section \<open>A volume open for reading\<close>

definition can_load :: "DCR \<Rightarrow> bool" where
  "can_load c \<longleftrightarrow> \<not> job_canceled c \<and> enabled (dev c) \<and> \<not> at_eot (dev c) \<and> is_open (dev c) \<and> \<not> dev_adata (dev c) \<and>
     \<not> is_tape (dev c) \<and> dev_type (dev c) \<noteq> B_FIFO_DEV \<and> read_script c = [] \<and>
     LabelType (dcr_VolCatInfo c) = B_BACULA_LABEL \<and> label_type (dev c) = B_BACULA_LABEL"

definition read_buffer :: "DEV_BLOCK \<Rightarrow> bool" where
  "read_buffer b \<longleftrightarrow> \<not> adata b \<and> \<not> no_header b \<and> length (buf b) = unat (buf_len b)"

lemma read_fill_disk:
  assumes "read_script c = []" and "dev_type (dev c) \<noteq> B_FIFO_DEV"
  shows "read_fill n [] c = (let bs = take n (drop (fpos c) (volume c))
     in (int (length bs), ENONE, bs, c\<lparr>fpos := fpos c + length bs\<rparr>))"
  using assms
  by (subst read_fill.simps) (simp add: read_tries.simps d_read_all Let_def split: nat.split)

lemma read_block_unfold:
  assumes "can_load c"
  shows "read_block_from_dev env forge_on c b = read_attempts env forge_on True 0 c (set_block_position c b)"
  using assms by (simp add: read_block_from_dev_def can_load_def)

lemma set_block_position_buffer:
  "\<not> dev_adata (dev c) \<Longrightarrow> set_block_position c b = b\<lparr>BlockAddr := get_full_addr (dev c), RecNum := 0\<rparr>"
  by (simp add: set_block_position_def Let_def)

section \<open>The end of the file\<close>

text \<open>Behind the last block nothing is read: the first time this is the end of a file, then of the volume.\<close>

lemma read_at_end:
  assumes ld: "can_load c" and b: "read_buffer b" and e: "drop (fpos c) (volume c) = []"
  shows "\<exists>c' b'. read_block_from_dev env forge_on c b = Some (Ret (False, c', b')) \<and> read_buffer b' \<and>
     buf_len b' = buf_len b \<and> volume c' = volume c \<and> fpos c' = fpos c \<and> at_eof (dev c') \<and>
     at_eot (dev c') = at_eof (dev c) \<and> (at_eof (dev c) \<or> can_load c') \<and> JobStatus c' = JobStatus c \<and>
     discard_invalid_records c' = discard_invalid_records c"
proof -
  have d: "\<not> dev_adata (dev c)" "read_script c = []" "dev_type (dev c) \<noteq> B_FIFO_DEV" "\<not> at_eot (dev c)"
    "\<not> is_tape (dev c)"
    using ld by (simp_all add: can_load_def)
  let ?b = "set_block_position c b"
  have fill: "read_fill n [] c = (0, ENONE, [], c)" for n
    using read_fill_disk [OF d(2,3)] e by simp
  let ?b' = "?b\<lparr>buf := buf ?b, read_len := 0\<rparr>"
  have att: "read_attempt env forge_on True 0 c ?b = Ret (Leave False, 0, end_of_file c, ?b')"
    using d(1) fill unfolding read_attempt_def Let_def by simp
  have "read_block_from_dev env forge_on c b = Some (Ret (False, end_of_file c, ?b'))"
    unfolding read_block_unfold [OF ld] by (subst read_attempts.simps) (simp add: att)
  moreover have "read_buffer ?b'" "buf_len ?b' = buf_len b"
    using b d(1) by (simp_all add: read_buffer_def set_block_position_buffer)
  moreover have "volume (end_of_file c) = volume c" "fpos (end_of_file c) = fpos c"
    "JobStatus (end_of_file c) = JobStatus c" "discard_invalid_records (end_of_file c) = discard_invalid_records c"
    "read_script (end_of_file c) = read_script c" "dcr_VolCatInfo (end_of_file c) = dcr_VolCatInfo c"
    by (simp_all add: end_of_file_def Let_def on_dev_def)
  moreover have "at_eof (dev (end_of_file c))" "at_eot (dev (end_of_file c)) = at_eof (dev c)"
    using d(4,5) by (auto simp: end_of_file_def Let_def flag_simps set_ateof_def DEVICE_set_ateof_def set_eof_def
        set_eot_def is_tape_def)
  moreover have "can_load (end_of_file c)" if "\<not> at_eof (dev c)"
    using ld that calculation
    by (simp add: can_load_def job_canceled_def)
      (simp add: end_of_file_def Let_def flag_simps set_ateof_def DEVICE_set_ateof_def set_eof_def
        set_eot_def is_tape_def is_open_def)
  ultimately show ?thesis by blast
qed

section \<open>The next block\<close>

text \<open>The bookkeeping of a good block: only the offset moves, to the end of the block.\<close>

lemma note_read_effect:
  assumes ld: "can_load c" and len: "block_len b \<le> read_len b" "unat (read_len b) \<le> fpos c"
  defines "c' \<equiv> fst (note_read c b)"
  shows "can_load c'" "volume c' = volume c" "\<not> at_eof (dev c')" "JobStatus c' = JobStatus c"
    "discard_invalid_records c' = discard_invalid_records c" "capabilities (dev c') = capabilities (dev c)"
    "fpos c' = fpos c - unat (read_len b) + unat (block_len b)" "snd (note_read c b) = b\<lparr>block_read := True\<rparr>"
    "dcr_VolumeName c' = dcr_VolumeName c" "dev_type (dev c') = dev_type (dev c)" "is_labeled (dev c') = is_labeled (dev c)"
proof -
  have d: "\<not> is_tape (dev c)" using ld by (simp add: can_load_def)
  have w: "read_len b \<noteq> block_len b \<Longrightarrow> block_len b < read_len b" using len(1) by simp
  note defs = note_read_def Let_def on_dev_def volcat_defs is_tape_def dev_lseek_def clear_eof_def clear_short_block_def
  show "can_load c'"
    using ld
    by (auto simp: c'_def defs can_load_def job_canceled_def flag_simps is_open_def)
  show "volume c' = volume c" "JobStatus c' = JobStatus c" "discard_invalid_records c' = discard_invalid_records c"
    "capabilities (dev c') = capabilities (dev c)" "snd (note_read c b) = b\<lparr>block_read := True\<rparr>"
    using d by (simp_all add: c'_def defs)
  show "\<not> at_eof (dev c')" using d by (auto simp: c'_def defs flag_simps)
  show "dcr_VolumeName c' = dcr_VolumeName c" "dev_type (dev c') = dev_type (dev c)" by (simp_all add: c'_def defs)
  show "is_labeled (dev c') = is_labeled (dev c)" by (auto simp: c'_def defs flag_simps is_labeled_def)
  show "fpos c' = fpos c - unat (read_len b) + unat (block_len b)"
  proof (cases "block_len b < read_len b")
    case True
    then have "fpos c' = fpos c - (unat (read_len b) - unat (block_len b))"
      using d by (simp add: c'_def defs)
    then show ?thesis using True len(2) by (simp add: word_less_nat_alt)
  next
    case False
    then have "read_len b = block_len b" using w by blast
    moreover have "fpos c' = fpos c" using False d by (simp add: c'_def defs)
    ultimately show ?thesis using len(2) by simp
  qed
qed

lemma read_next_block:
  assumes ld: "can_load c" and b: "read_buffer b"
    and blk: "first_block chk (drop (fpos c) (volume c)) = Some ((s, p), rest)"
    and fits: "24 + length p \<le> unat (buf_len b)" and sums: "do_checksum (dev c) \<longrightarrow> chk"
  shows "\<exists>c' b'. read_block_from_dev env forge_on c b = Some (Ret (True, c', b')) \<and> readable s b' \<and>
     unread b' = p \<and> read_buffer b' \<and> buf_len b' = buf_len b \<and> can_load c' \<and> volume c' = volume c \<and>
     drop (fpos c') (volume c') = rest \<and> \<not> at_eof (dev c') \<and> JobStatus c' = JobStatus c \<and>
     do_checksum (dev c') = do_checksum (dev c) \<and> discard_invalid_records c' = discard_invalid_records c \<and>
     dcr_VolumeName c' = dcr_VolumeName c \<and> dev_type (dev c') = dev_type (dev c) \<and> capabilities (dev c') = capabilities (dev c)"
proof -
  have d: "\<not> dev_adata (dev c)" "read_script c = []" "dev_type (dev c) \<noteq> B_FIFO_DEV"
    using ld by (simp_all add: can_load_def)
  obtain sid stime where s: "s = (sid, stime)" by (cases s)
  define len where "len = (of_nat (24 + length p) :: uint32_t)"
  obtain cs num where here: "drop (fpos c) (volume c) = header_bytes cs len num sid stime @ p @ rest"
    and small: "24 + length p \<le> 20000000"
    and cs: "chk \<longrightarrow> cs = bcrc32 (drop 4 (header_bytes cs len num sid stime) @ p)"
    using blk unfolding s first_block_iff len_def by blast
  let ?img = "header_bytes cs len num sid stime @ p"
  have unat_len: "unat len = 24 + length p" using small unfolding len_def by (intro unat_of_nat_small) simp
  define bs where "bs = take (unat (buf_len b)) (drop (fpos c) (volume c))"
  obtain tl where bs: "bs = ?img @ tl" and tl: "rest = tl @ drop (unat (buf_len b)) (drop (fpos c) (volume c))"
  proof
    show "bs = ?img @ take (unat (buf_len b) - (24 + length p)) rest"
      using fits by (simp add: bs_def here)
    show "rest = take (unat (buf_len b) - (24 + length p)) rest @ drop (unat (buf_len b)) (drop (fpos c) (volume c))"
      using fits by (simp add: here)
  qed
  have lbs: "length bs \<le> unat (buf_len b)" "24 + length p \<le> length bs" by (simp add: bs_def) (simp add: bs)
  have unat_bs: "unat (of_nat (length bs) :: uint32_t) = length bs"
    using lbs(1) unsigned_less [of "buf_len b", where 'a = nat] by (intro unat_of_nat_small) simp
  define c1 where "c1 = c\<lparr>fpos := fpos c + length bs\<rparr>"
  have ld1: "can_load c1" using ld by (simp add: c1_def can_load_def job_canceled_def)
  have fill: "read_fill (unat (buf_len b)) [] c = (int (length bs), ENONE, bs, c1)"
    using read_fill_disk [OF d(2,3), of "unat (buf_len b)"] by (simp add: bs_def [symmetric] c1_def)
  let ?b0 = "set_block_position c b"
  have buf0: "buf ?b0 = buf b" "buf_len ?b0 = buf_len b" "\<not> adata ?b0" "\<not> no_header ?b0"
    using b d(1) by (simp_all add: read_buffer_def set_block_position_buffer)
  define nb where "nb = bs @ drop (length bs) (buf b)"
  have put: "mem_write (buf b) 0 bs = Some nb"
    using b lbs(1) by (simp add: mem_write_def read_buffer_def nb_def)
  define b1 where "b1 = ?b0\<lparr>buf := nb, read_len := of_nat (length bs)\<rparr>"
  have b1: "\<not> adata b1" "\<not> no_header b1" "buf b1 = nb" "read_len b1 = of_nat (length bs)" "buf_len b1 = buf_len b"
    using buf0 by (simp_all add: b1_def)
  have split: "buf b1 = be_bytes 4 cs @ be_bytes 4 len @ be_bytes 4 num @ BLKHDR2_ID @
      be_bytes 4 sid @ be_bytes 4 stime @ (p @ tl @ drop (length bs) (buf b))"
    by (simp add: b1 nb_def bs header_bytes_def)
  have take_img: "take (24 + length p) nb = ?img" by (simp add: nb_def bs)
  define b2 where "b2 = b1\<lparr>CheckSum := cs, VolSessionId := sid, VolSessionTime := stime, BlockVer := 2, bufp := 24,
      binbuf := len - 24, block_len := len, BlockNumber := num\<rparr>"
  have "unser_block_header forge_on (dev c1) b1 = Ret (True, dev c1, b2)"
  proof -
    have "do_checksum (dev c1) \<Longrightarrow> cs = bcrc32 (drop 4 (take (24 + length p) nb))"
      using cs sums take_img by (simp add: c1_def)
    then show ?thesis
      using lbs(2) unat_bs small
      by (subst unser_header_fields [OF split b1(1,2)], subst check_block_accepts)
        (simp_all add: b1 b2_def word_le_nat_alt unat_len MAX_BLOCK_LENGTH_def nb_def)
  qed
  then have chkb: "check_read_block forge_on True c1 b1 = Ret (Go_on, c1, b2)"
    using b1 lbs(2) unat_bs
    by (simp add: check_read_block_def word_less_nat_alt BLKHDR2_LENGTH_def c1_def)
  have len2: "block_len b2 = len" "read_len b2 = of_nat (length bs)" "buf_len b2 = buf_len b"
    by (simp_all add: b2_def b1)
  have le: "block_len b2 \<le> read_len b2" "unat (read_len b2) \<le> fpos c1" "\<not> buf_len b2 < block_len b2"
    using lbs unat_bs unat_len fits by (simp_all add: len2 word_le_nat_alt c1_def not_less)
  obtain c3 b3 where n: "note_read c1 b2 = (c3, b3)" by (metis surj_pair)
  note eff = note_read_effect [OF ld1 le(1,2), unfolded n fst_conv snd_conv]
  have att: "read_attempt env forge_on True 0 c ?b0 = Ret (Leave True, 0, c3, b3)"
    using d(1) fill put chkb le n buf0 lbs(2) unfolding read_attempt_def Let_def
    by (auto simp: b1_def [symmetric] not_less [symmetric])
  have "read_block_from_dev env forge_on c b = Some (Ret (True, c3, b3))"
    unfolding read_block_unfold [OF ld] by (subst read_attempts.simps) (simp add: att)
  moreover have b3: "b3 = b2\<lparr>block_read := True\<rparr>" using eff(8) .
  have "unat (len - 24) = length p"
    using unat_len unat_sub_no_wrap [of 24 len] by (simp add: word_le_nat_alt)
  then have "readable s b3" "unread b3 = p"
    using lbs by (simp_all add: b3 b2_def b1 readable_def unread_def s nb_def bs)
  moreover have "read_buffer b3" "buf_len b3 = buf_len b"
    using b lbs(1) by (simp_all add: b3 b2_def b1 read_buffer_def nb_def)
  moreover have "fpos c3 = fpos c + (24 + length p)"
    using eff(7) unat_len unat_bs lbs by (simp add: len2 c1_def)
  then have "drop (fpos c3) (volume c) = rest"
    using here drop_drop [of "24 + length p" "fpos c" "volume c"] by (simp add: add.commute)
  ultimately show ?thesis
    using eff by (auto simp: c1_def do_checksum_def)
qed

section \<open>What reading a block does\<close>

text \<open>
  C6: Refinement of a cursor in a log of blocks by a disk volume. When the rest of the volume is a
  sequence of blocks, \<open>read_block_from_dev\<close> returns the first of them, with its session and its
  records, and leaves the others to be read; when there is none it reports the end of the file, and
  the end of the volume the second time. The volume is not changed.
\<close>

theorem reader_follows_log:
  assumes "can_load c" and "read_buffer b" and "parse_volume chk (drop (fpos c) (volume c)) = Some ims"
    and "\<forall>im \<in> set ims. 24 + length (snd im) \<le> unat (buf_len b)" and "do_checksum (dev c) \<longrightarrow> chk"
  shows "\<exists>c' b'. read_block_from_dev env forge_on c b = Some (Ret (ims \<noteq> [], c', b')) \<and> read_buffer b' \<and>
     buf_len b' = buf_len b \<and> volume c' = volume c \<and>
     parse_volume chk (drop (fpos c') (volume c')) = Some (tl ims) \<and>
     (if ims = [] then at_eof (dev c') \<and> (at_eot (dev c') \<longleftrightarrow> at_eof (dev c))
      else ((VolSessionId b', VolSessionTime b'), unread b') = hd ims \<and> can_load c')"
proof (cases ims)
  case Nil
  then have "drop (fpos c) (volume c) = []" using parse_volume_SomeD [OF assms(3)] by simp
  then obtain c' b' where "read_block_from_dev env forge_on c b = Some (Ret (False, c', b'))" "read_buffer b'"
    "buf_len b' = buf_len b" "volume c' = volume c" "fpos c' = fpos c" "at_eof (dev c')" "at_eot (dev c') = at_eof (dev c)"
    using read_at_end [OF assms(1,2)] by blast
  then show ?thesis using Nil assms(3) by auto
next
  case (Cons im ims')
  obtain s p where im: "im = (s, p)" by (cases im)
  obtain rest where rest: "first_block chk (drop (fpos c) (volume c)) = Some ((s, p), rest)" "parse_volume chk rest = Some ims'"
    using parse_volume_SomeD [OF assms(3)] Cons im by auto
  moreover have "24 + length p \<le> unat (buf_len b)" using assms(4) Cons im by simp
  ultimately obtain c' b' where "read_block_from_dev env forge_on c b = Some (Ret (True, c', b'))" "readable s b'"
    "unread b' = p" "read_buffer b'" "buf_len b' = buf_len b" "can_load c'" "volume c' = volume c"
    "drop (fpos c') (volume c') = rest"
    using read_next_block [OF assms(1,2) _ _ assms(5), of s p rest env forge_on] by blast
  then show ?thesis using Cons im rest(2) by (auto simp: readable_def)
qed

lemma sample_dcr_loads: "can_load (sample_dcr\<lparr>volume := v\<rparr>)"
  by (simp add: can_load_def sample_dcr_def job_canceled_def job_canceled_status_def flag_bits st_bits
      is_open_def is_tape_def zero_device_def zero_volcat_def B_BACULA_LABEL_def)

text \<open>A volume with one block of session \<open>(7, 8)\<close> behind three older bytes.\<close>

theorem reader_follows_log_witness:
  "let h = header_bytes 0 28 1 7 8; v = [1, 2, 3] @ header_bytes (bcrc32 (drop 4 h @ [9, 9, 9, 9])) 28 1 7 8 @ [9, 9, 9, 9]
   in \<exists>c' b'. read_block_from_dev sample_env False (sample_dcr\<lparr>volume := v\<rparr>) (new_block 64 0 (\<lambda>n. replicate n 0))
        = Some (Ret (True, c', b')) \<and> VolSessionId b' = 7 \<and> VolSessionTime b' = 8 \<and> unread b' = [9, 9, 9, 9]"
proof -
  let ?h = "\<lambda>cs. header_bytes cs 28 1 7 8" and ?p = "[9, 9, 9, 9] :: byte list" and ?b = "new_block 64 0 (\<lambda>n. replicate n 0)"
  let ?cs = "bcrc32 (drop 4 (?h 0) @ ?p)"
  let ?v = "[1, 2, 3] @ ?h ?cs @ ?p" and ?c = "\<lambda>v. sample_dcr\<lparr>volume := v\<rparr>"
  have "drop 4 (?h ?cs) = drop 4 (?h 0)" by (simp add: header_bytes_def)
  then have "first_block True (?h ?cs @ ?p @ []) = Some (((7, 8), ?p), [])"
    unfolding first_block_iff by (intro exI [of _ ?cs] exI [of _ 1]) simp
  then have "parse_volume True (drop (fpos (?c ?v)) (volume (?c ?v))) = Some [((7, 8), ?p)]"
    by (simp add: sample_dcr_def parse_volume_block)
  moreover have "read_buffer ?b" "buf_len ?b = 64"
    by (simp_all add: new_block_def empty_block_def Let_def read_buffer_def)
  ultimately show ?thesis
    using reader_follows_log [OF sample_dcr_loads, of ?b True ?v "[((7, 8), ?p)]" sample_env False] by (simp add: Let_def) blast
qed

end
