(* ===== verification/ReadRecords.thy ===== *)
theory ReadRecords
  imports VolumeRead
begin

text \<open>
  The loop of \<^verbatim>\<open>stored/read_records.c\<close> that reads all the records of a set of volumes for a restore without
  a bootstrap: one record packet per session, the change to the next volume, and the theorem that a
  job which is written to a disk volume is read back as it was written.
\<close>

section \<open>The loop over blocks\<close>

text \<open>
  What the caller passes: the callback for the records with the state it works on, the callback that
  mounts the next volume, and the skip over a bad record.
\<close>

record 's read_callbacks =
  record_cb :: "'s \<Rightarrow> DEV_RECORD \<Rightarrow> bool \<times> 's"
  mount_cb :: "DCR \<Rightarrow> DEV_BLOCK \<Rightarrow> bool \<times> DCR \<times> DEV_BLOCK"
  skip_bad :: "DCR \<Rightarrow> DCR"
  ignore_label_errors :: bool

text \<open>
  \<open>mount_next_vol\<close>: without another volume an end-of-tape label is made up for the callback and the
  loop stops; otherwise the first record of the new volume, its label, goes to the callback. The
  result is the success, whether to stop, and the new states.
\<close>

definition mount_next_vol :: "sd_env \<Rightarrow> bool \<Rightarrow> 's read_callbacks \<Rightarrow> 's \<Rightarrow> DCR \<Rightarrow> DEV_BLOCK
    \<Rightarrow> (bool \<times> bool \<times> 's \<times> DCR \<times> DEV_BLOCK) outcome option" where
  "mount_next_vol env forge_on cbs s dcr block =
     (case mount_cb cbs dcr block of
        (mounted, dcr, block) \<Rightarrow>
          if \<not> mounted then
            (let trec = new_record\<lparr>FileIndex := EOT_LABEL, Addr := get_full_addr (dev dcr)\<rparr>
             in case record_cb cbs s trec of (ok, s) \<Rightarrow> Some (Ret (ok, True, s, dcr, block)))
          else
            (case read_block_from_dev env forge_on dcr block of
               None \<Rightarrow> None
             | Some (Dies e) \<Rightarrow> Some (Dies e)
             | Some (Ret (_, dcr, block)) \<Rightarrow>
                 (case read_record_from_block (dev dcr) (dcr_VolumeName dcr) block new_record of
                    Dies e \<Rightarrow> Some (Dies e)
                  | Ret (_, block, trec) \<Rightarrow>
                      (case record_cb cbs s trec of (ok, s) \<Rightarrow> Some (Ret (ok, False, s, dcr, block))))))"

text \<open>
  The packet of the session of a block: the records before it in the list, the packet, and those
  behind it; a new packet goes to the front. A pending record whose next block is missing is marked
  invalid, and dropped when the caller asks for that.
\<close>

definition of_session :: "DEV_BLOCK \<Rightarrow> DEV_RECORD \<Rightarrow> bool" where
  "of_session block rec \<longleftrightarrow> rec_VolSessionId rec = VolSessionId block \<and> rec_VolSessionTime rec = VolSessionTime block"

definition check_order :: "DCR \<Rightarrow> DEV_BLOCK \<Rightarrow> DEV_RECORD \<Rightarrow> DEV_RECORD" where
  "check_order dcr block rec =
     (if remainder rec \<noteq> 0 \<and> rec_BlockNumber rec \<noteq> BlockNumber block - 1 \<and> rec_BlockNumber rec \<noteq> BlockNumber block then
        (let rec = rec\<lparr>invalid := True\<rparr>
         in if discard_invalid_records dcr then empty_record rec else rec)
      else rec)"

definition pick_record :: "DCR \<Rightarrow> DEV_BLOCK \<Rightarrow> DEV_RECORD list \<Rightarrow> DEV_RECORD list \<times> DEV_RECORD \<times> DEV_RECORD list" where
  "pick_record dcr block recs =
     (case dropWhile (\<lambda>rec. \<not> of_session block rec) recs of
        rec # post \<Rightarrow> (takeWhile (\<lambda>rec. \<not> of_session block rec) recs, check_order dcr block rec, post)
      | [] \<Rightarrow> ([], new_record, recs))"

text \<open>The next block; a fifo has its first block in the buffer already.\<close>

definition next_block :: "sd_env \<Rightarrow> bool \<Rightarrow> bool \<Rightarrow> DCR \<Rightarrow> DEV_BLOCK \<Rightarrow> (bool \<times> DCR \<times> DEV_BLOCK) outcome option" where
  "next_block env forge_on first dcr block =
     (if \<not> (\<not> first \<or> dev_type (dev dcr) \<noteq> B_FIFO_DEV) then Some (Ret (True, dcr, block))
      else if at_eot (dev dcr) then Some (Ret (False, dcr, block))
      else read_block_from_dev env forge_on dcr block)"

partial_function (option) read_loop :: "sd_env \<Rightarrow> bool \<Rightarrow> 's read_callbacks \<Rightarrow> 's \<Rightarrow> DCR \<Rightarrow> DEV_BLOCK
    \<Rightarrow> DEV_RECORD list \<Rightarrow> bool \<Rightarrow> (bool \<times> 's \<times> DCR \<times> DEV_BLOCK) outcome option" where
  "read_loop env forge_on cbs s dcr block recs first =
     (if job_canceled dcr then Some (Ret (False, s, dcr, block))
      else if dev_adata (dev dcr) then Some (Dies Assert_failed)
      else
        (case next_block env forge_on first dcr block of
           None \<Rightarrow> None
         | Some (Dies e) \<Rightarrow> Some (Dies e)
         | Some (Ret (got, dcr, block)) \<Rightarrow>
             if \<not> got then
               (if at_eot (dev dcr) then
                  (case mount_next_vol env forge_on cbs s dcr block of
                     None \<Rightarrow> None
                   | Some (Dies e) \<Rightarrow> Some (Dies e)
                   | Some (Ret (ok, should_stop, s, dcr, block)) \<Rightarrow>
                       if should_stop \<or> \<not> ok then Some (Ret (ok, s, dcr, block))
                       else read_loop env forge_on cbs s dcr block recs first)
                else if at_eof (dev dcr) \<or> is_short_block (dev dcr) then
                  read_loop env forge_on cbs s dcr block recs first
                else if forge_on \<or> ignore_label_errors cbs then
                  read_loop env forge_on cbs s (skip_bad cbs dcr) block recs first
                else Some (Ret (False, s, dcr, block)))
             else
               (case pick_record dcr block recs of
                  (pre, rec, post) \<Rightarrow>
                    (let rec = rec\<lparr>state_bits := 0, rec_BlockNumber := BlockNumber block\<rparr>
                     in case read_block_records (dev dcr) (dcr_VolumeName dcr) (record_cb cbs) s block rec of
                          None \<Rightarrow> None
                        | Some (Dies e) \<Rightarrow> Some (Dies e)
                        | Some (Ret (ok, s, block, rec)) \<Rightarrow>
                            if ok then read_loop env forge_on cbs s dcr block (pre @ rec # post) False
                            else Some (Ret (False, s, dcr, block))))))"

definition read_records :: "sd_env \<Rightarrow> bool \<Rightarrow> 's read_callbacks \<Rightarrow> 's \<Rightarrow> DCR \<Rightarrow> DEV_BLOCK
    \<Rightarrow> (bool \<times> 's \<times> DCR \<times> DEV_BLOCK) outcome option" where
  "read_records env forge_on cbs s dcr block = read_loop env forge_on cbs s dcr block [] True"

section \<open>A volume is read\<close>

text \<open>The callbacks of a reader that collects the records of one volume.\<close>

definition collector :: "app_record list read_callbacks" where
  "collector = \<lparr>record_cb = collect, mount_cb = (\<lambda>c b. (False, c, b)), skip_bad = (\<lambda>c. c),
     ignore_label_errors = False\<rparr>"

lemma not_fifo: "can_load c \<Longrightarrow> \<not> at_eot (dev c) \<Longrightarrow> next_block env forge_on first c b = read_block_from_dev env forge_on c b"
  by (simp add: next_block_def can_load_def)

lemma volume_end:
  assumes ld: "can_load c" and b: "read_buffer b" and e: "drop (fpos c) (volume c) = []"
  shows "\<exists>c' b'. read_loop env forge_on collector acc c b recs first
     = Some (Ret (True, acc @ [(EOT_LABEL, 0, [])], c', b'))"
proof -
  have stop: "mount_next_vol env forge_on collector acc c' b' = Some (Ret (True, True, acc @ [(EOT_LABEL, 0, [])], c', b'))"
    for c' b' by (simp add: mount_next_vol_def collector_def collect_def app_view_def new_record_def)
  have eof: "\<exists>c' b'. read_loop env forge_on collector acc c b recs first
      = Some (Ret (True, acc @ [(EOT_LABEL, 0, [])], c', b'))"
    if ld: "can_load c" and b: "read_buffer b" and e: "drop (fpos c) (volume c) = []" and at: "at_eof (dev c)" for c b
  proof -
    obtain c' b' where r: "read_block_from_dev env forge_on c b = Some (Ret (False, c', b'))" "at_eot (dev c')"
      using read_at_end [OF ld b e] at by blast
    then have "next_block env forge_on first c b = Some (Ret (False, c', b'))"
      using ld by (simp add: next_block_def can_load_def)
    then have "read_loop env forge_on collector acc c b recs first
        = Some (Ret (True, acc @ [(EOT_LABEL, 0, [])], c', b'))"
      using ld r(2) stop by (subst read_loop.simps) (simp add: can_load_def)
    then show ?thesis by blast
  qed
  show ?thesis
  proof (cases "at_eof (dev c)")
    case True
    then show ?thesis using eof [OF ld b e] by blast
  next
    case False
    then obtain c' b' where r: "read_block_from_dev env forge_on c b = Some (Ret (False, c', b'))" "\<not> at_eot (dev c')"
      "at_eof (dev c')" "can_load c'" "read_buffer b'" "volume c' = volume c" "fpos c' = fpos c"
      using read_at_end [OF ld b e] by blast
    have "next_block env forge_on first c b = Some (Ret (False, c', b'))"
      using ld r(1) by (simp add: next_block_def can_load_def)
    then have "read_loop env forge_on collector acc c b recs first = read_loop env forge_on collector acc c' b' recs first"
      using ld r(2,3) by (subst read_loop.simps) (simp add: can_load_def)
    then show ?thesis using eof [OF r(4,5) _ r(3)] r(6,7) e by simp
  qed
qed

text \<open>The packet of the only session of the volume, once there is one.\<close>

definition recs_hold :: "uint32_t \<times> uint32_t \<Rightarrow> app_record option \<Rightarrow> DEV_RECORD list \<Rightarrow> bool" where
  "recs_hold s p recs \<longleftrightarrow> recs = [] \<and> p = None \<or>
     (\<exists>r. recs = [r] \<and> (rec_VolSessionId r, rec_VolSessionTime r) = s \<and> holds_pending s p r)"

lemma holds_pending_bits [simp]:
  "holds_pending s p (r\<lparr>state_bits := x, rec_BlockNumber := y\<rparr>) = holds_pending s p r"
  by (cases p) (auto simp: holds_pending_def)

lemma pick_one:
  assumes "recs_hold s p recs" and "readable s b" and "\<not> discard_invalid_records c"
  shows "\<exists>r. pick_record c b recs = ([], r, []) \<and> holds_pending s p r"
  using assms(1)
proof (unfold recs_hold_def, elim disjE conjE exE)
  assume "recs = []" "p = None"
  then show ?thesis by (simp add: pick_record_def holds_pending_def new_record_def)
next
  fix r assume r: "recs = [r]" "(rec_VolSessionId r, rec_VolSessionTime r) = s" "holds_pending s p r"
  have "of_session b r" using r(2) assms(2) by (auto simp: of_session_def readable_def)
  then have "pick_record c b recs = ([], check_order c b r, [])" by (simp add: pick_record_def r(1))
  moreover have "holds_pending s p (check_order c b r)"
    using r(3) assms(3) by (simp add: check_order_def Let_def)
  ultimately show ?thesis by blast
qed

lemma volume_read:
  assumes "can_load c" and "read_buffer b" and "parse_volume chk (drop (fpos c) (volume c)) = Some ims"
    and "do_checksum (dev c) \<longrightarrow> chk" and "\<not> discard_invalid_records c"
    and "\<forall>(s', d) \<in> set ims. s' = s \<and> d \<noteq> [] \<and> 24 + length d \<le> unat (buf_len b)"
    and "list_all2 block_chunks (map snd ims) css" and "decode p (concat css) = Some (out, p')"
    and "list_all deliverable (concat css)" and "recs_hold s p recs"
  shows "\<exists>c' b'. read_loop env forge_on collector acc c b recs first
     = Some (Ret (True, acc @ out @ [(EOT_LABEL, 0, [])], c', b'))"
  using assms
proof (induction ims arbitrary: c b css p out recs first acc)
  case Nil
  have "drop (fpos c) (volume c) = []" using parse_volume_SomeD [OF Nil.prems(3)] by simp
  moreover have "out = []" using Nil.prems(7,8) by simp
  ultimately show ?case using volume_end [OF Nil.prems(1,2)] by simp
next
  case (Cons im ims)
  obtain d where im: "im = (s, d)" "d \<noteq> []" "24 + length d \<le> unat (buf_len b)"
    using Cons.prems(6) by (cases im) auto
  obtain rest where fb: "first_block chk (drop (fpos c) (volume c)) = Some ((s, d), rest)"
    and ims: "parse_volume chk rest = Some ims"
    using parse_volume_SomeD [OF Cons.prems(3)] unfolding im(1) by blast
  obtain cs css' where css: "css = cs # css'" "block_chunks d cs" "list_all2 block_chunks (map snd ims) css'"
    using Cons.prems(7) by (auto simp: im list_all2_Cons1)
  obtain o1 p1 o2 where dec: "decode p cs = Some (o1, p1)" "decode p1 (concat css') = Some (o2, p')" "out = o1 @ o2"
    using Cons.prems(8) by (auto simp: css(1) decode_append split: bind_splits)
  obtain c1 b1 where rb: "read_block_from_dev env forge_on c b = Some (Ret (True, c1, b1))" "readable s b1" "unread b1 = d"
    "read_buffer b1" "buf_len b1 = buf_len b" "can_load c1" "drop (fpos c1) (volume c1) = rest"
    "do_checksum (dev c1) = do_checksum (dev c)" "discard_invalid_records c1 = discard_invalid_records c"
    using read_next_block [OF Cons.prems(1,2) fb im(3) Cons.prems(4), of env forge_on] by blast
  obtain r where r: "pick_record c1 b1 recs = ([], r, [])" "holds_pending s p r"
    using pick_one [OF Cons.prems(10) rb(2)] rb(9) Cons.prems(5) by blast
  let ?r = "r\<lparr>state_bits := 0, rec_BlockNumber := BlockNumber b1\<rparr>"
  have chunks: "unread b1 = concat (map enc_chunk cs)" "list_all within cs" "list_all complete (butlast cs)" "cs \<noteq> []"
    using css(2) rb(3) im(2) by (auto simp: block_chunks_def)
  have "list_all deliverable cs" "list_all deliverable (concat css')"
    using Cons.prems(9) by (simp_all add: css(1))
  obtain b2 r2 where rr: "read_block_records (dev c1) (dcr_VolumeName c1) collect acc b1 ?r
      = Some (Ret (True, acc @ o1, b2, r2))" "holds_pending s p1 r2" "(rec_VolSessionId r2, rec_VolSessionTime r2) = s"
  proof -
    have "holds_pending s p ?r" "\<not> is_block_marked_empty ?r" using r(2) by (simp_all add: is_block_marked_empty_bits)
    from read_block_chunks [OF rb(2) chunks(1) this(1) dec(1) chunks(2,3) \<open>list_all deliverable cs\<close> this(2)]
      chunks(4) that show thesis by blast
  qed
  have same: "same_buf b1 b2" by (rule read_block_records_buf [OF rr(1)])
  have b2: "read_buffer b2" "buf_len b2 = buf_len b" using same rb(4,5) by (simp_all add: same_buf_def read_buffer_def)
  have hold: "recs_hold s p1 [r2]" using rr(2,3) by (simp add: recs_hold_def)
  have "\<exists>c' b'. read_loop env forge_on collector (acc @ o1) c1 b2 [r2] False
      = Some (Ret (True, (acc @ o1) @ o2 @ [(EOT_LABEL, 0, [])], c', b'))"
    using Cons.prems(4,5,6) ims rb(8,9) b2(2)
    by (intro Cons.IH [OF rb(6) b2(1) _ _ _ _ css(3) dec(2) \<open>list_all deliverable (concat css')\<close> hold])
      (simp_all add: rb(7))
  moreover have "read_loop env forge_on collector acc c b recs first
      = read_loop env forge_on collector (acc @ o1) c1 b2 [r2] False"
  proof -
    have "next_block env forge_on first c b = Some (Ret (True, c1, b1))"
      using Cons.prems(1) rb(1) by (simp add: next_block_def can_load_def)
    then show ?thesis
      using Cons.prems(1) r(1) rr(1) by (subst read_loop.simps) (simp add: can_load_def collector_def)
  qed
  ultimately show ?case by (simp add: dec(3))
qed

end
