(* ===== verification/BackupRestore.thy ===== *)
theory BackupRestore
  imports ReadRecords
begin

text \<open>
  Backup and restore of a job on a disk volume, end to end: the records of a job are written with
  \<open>write_record\<close> and the last block is flushed, as \<^verbatim>\<open>stored/append.c\<close> does; \<open>read_records\<close>, started at the
  address where the job began, delivers exactly these records.
\<close>

section \<open>A job\<close>

text \<open>The record packet that the append loop fills for one piece of data from the client.\<close>

definition app_packet :: "uint32_t \<times> uint32_t \<Rightarrow> app_record \<Rightarrow> DEV_RECORD" where
  "app_packet s r = (case r of (fi, strm, d) \<Rightarrow>
     new_record\<lparr>rec_VolSessionId := fst s, rec_VolSessionTime := snd s, FileIndex := fi, Stream := strm,
       data_len := of_nat (length d), rec_data := d\<rparr>)"

text \<open>The records of a job one after the other, then the last block.\<close>

fun write_job :: "sd_env \<Rightarrow> bool \<Rightarrow> uint32_t \<times> uint32_t \<Rightarrow> DCR \<Rightarrow> DEV_BLOCK \<Rightarrow> app_record list
    \<Rightarrow> (bool \<times> DCR \<times> DEV_BLOCK) outcome option" where
  "write_job env forge_on s dcr block [] = write_block_to_device env forge_on True dcr block"
| "write_job env forge_on s dcr block (r # rs) =
     (case write_record (write_block_to_device env forge_on False) job_canceled False dcr block (app_packet s r) of
        None \<Rightarrow> None
      | Some (Dies e) \<Rightarrow> Some (Dies e)
      | Some (Ret (ok, dcr, block, rec)) \<Rightarrow>
          if ok then write_job env forge_on s dcr block rs else Some (Ret (False, dcr, block)))"

text \<open>Records as the client sends them: a positive file index and stream, and less than the sanity limit.\<close>

definition client_record :: "app_record \<Rightarrow> bool" where
  "client_record r \<longleftrightarrow> (case r of (fi, strm, d) \<Rightarrow> 0 <s fi \<and> 0 <s strm \<and> length d < unat MAX_BLOCK_LENGTH)"

lemma app_packet_writable:
  assumes "client_record r"
  shows "block_sink.writable s (app_packet s r)" and "wstate (app_packet s r) = st_none"
    and "(FileIndex (app_packet s r), Stream (app_packet s r), rec_data (app_packet s r)) = r" and "\<not> FileIndex (app_packet s r) <s 0"
  using assms unfolding disk.writable_def
  by (auto simp: app_packet_def client_record_def new_record_def rec_ok_def MAX_BLOCK_LENGTH_def
      word_less_nat_alt word_sless_alt unat_of_nat_small split: prod.splits)

section \<open>Writing\<close>

text \<open>What the volume means: the blocks behind \<open>old\<close> and the open block hold the records \<open>out\<close>.\<close>

definition job_holds :: "byte list \<Rightarrow> uint32_t \<Rightarrow> uint32_t \<times> uint32_t \<Rightarrow> DCR \<Rightarrow> DEV_BLOCK \<Rightarrow> app_record list \<Rightarrow> bool" where
  "job_holds old caps s c b out \<longleftrightarrow> disk_ready old c \<and> capabilities (dev c) = caps \<and> block_wf b \<and>
     (\<exists>cs. stored (map snd (volume_images old c)) (payload b) cs \<and> decode None cs = Some (out, None)) \<and>
     (\<forall>i \<in> set (volume_images old c). fst i = s \<and> fits b i) \<and>
     (payload b \<noteq> [] \<longrightarrow> (VolSessionId b, VolSessionTime b) = s)"

lemma job_holds_record:
  assumes "willing env" and "job_holds old caps s c b out" and "client_record r" and "36 < unat (buf_len b)"
  shows "\<exists>c' b' r'. write_record (write_block_to_device env forge_on False) job_canceled False c b (app_packet s r)
     = Some (Ret (True, c', b', r')) \<and> job_holds old caps s c' b' (out @ [r]) \<and> buf_len b' = buf_len b"
proof -
  have "block_sink.holds (\<lambda>c. willing env \<and> disk_ready old c \<and> capabilities (dev c) = caps) (volume_images old) (\<lambda>_ _ _. True) s c b out None"
    using assms(1,2) unfolding disk.holds_def job_holds_def by blast
  note disk.write_record_finishes [OF app_packet_writable(1) [OF assms(3)] this assms(4)
      app_packet_writable(2) [OF assms(3)], of forge_on] app_packet_writable(4) [OF assms(3)]
  then show ?thesis
    using app_packet_writable(3) [OF assms(3)] unfolding disk.finishes_def disk.holds_def job_holds_def by auto
qed

lemma job_holds_flush:
  assumes "willing env" and "job_holds old caps s c b out"
  shows "\<exists>c' b'. write_block_to_device env forge_on True c b = Some (Ret (True, c', b')) \<and>
     job_holds old caps s c' b' out \<and> payload b' = [] \<and> buf_len b' = buf_len b"
proof -
  have wf: "block_wf b" and rdy: "disk_ready old c" using assms(2) by (simp_all add: job_holds_def)
  obtain cs where cs: "stored (map snd (volume_images old c)) (payload b) cs" "decode None cs = Some (out, None)"
    using assms(2) by (auto simp: job_holds_def)
  show ?thesis
  proof (cases "payload b = []")
    case False
    obtain c' b' where w: "write_block_to_device env forge_on True c b = Some (Ret (True, c', b'))" "disk_ready old c'"
      "volume_images old c' = volume_images old c @ [image_of b]" "emptied b b'"
      "capabilities (dev c') = capabilities (dev c)"
      using write_device_ready [OF assms(1) rdy wf payload_not_empty [OF wf False]] by blast
    then have "stored (map snd (volume_images old c')) (payload b') cs"
      using stored_flush [OF cs(1)] by (simp add: emptied_def image_of_def)
    then have "job_holds old caps s c' b' out"
      using assms(2) w cs(2) image_fits [OF wf False] False
      by (auto simp: job_holds_def emptied_def image_of_def fits_def)
    then show ?thesis using w(1,4) by (auto simp: emptied_def)
  next
    case True
    then have empty: "is_block_empty b"
      using block_wfD [OF wf] by (simp add: is_block_empty_def payload_def BLKHDR2_LENGTH_def word_le_nat_alt)
    obtain c' where w: "write_block_to_device env forge_on True c b = Some (Ret (True, c', b))" "same_disk c c'"
      using write_device_empty [OF assms(1) rdy wf empty] by blast
    then have "job_holds old caps s c' b out"
      using assms(2) same_disk_ready [OF w(2)] same_disk_images [OF w(2)] w(2) by (auto simp: job_holds_def same_disk_def)
    then show ?thesis using w(1) True by blast
  qed
qed

lemma write_job_holds:
  assumes "willing env" and "job_holds old caps s c b out" and "list_all client_record rs" and "36 < unat (buf_len b)"
  shows "\<exists>c' b'. write_job env forge_on s c b rs = Some (Ret (True, c', b')) \<and> job_holds old caps s c' b' (out @ rs) \<and>
     payload b' = [] \<and> buf_len b' = buf_len b"
  using assms(2-4)
proof (induction rs arbitrary: c b out)
  case Nil
  then show ?case using job_holds_flush [OF assms(1) Nil(1)] by simp
next
  case (Cons r rs)
  obtain c1 b1 r1 where w: "write_record (write_block_to_device env forge_on False) job_canceled False c b (app_packet s r)
      = Some (Ret (True, c1, b1, r1))" "job_holds old caps s c1 b1 (out @ [r])" "buf_len b1 = buf_len b"
    using job_holds_record [OF assms(1) Cons.prems(1) _ Cons.prems(3), of r forge_on] Cons.prems(2) by auto
  obtain c2 b2 where "write_job env forge_on s c1 b1 rs = Some (Ret (True, c2, b2))"
    "job_holds old caps s c2 b2 ((out @ [r]) @ rs)" "payload b2 = []" "buf_len b2 = buf_len b1"
    using Cons.IH [OF w(2)] Cons.prems(2,3) w(3) by auto
  then show ?case using w(1,3) by (intro exI [of _ c2] exI [of _ b2]) simp
qed

section \<open>Reading back\<close>

lemma enc_chunk_not_Nil: "enc_chunk c \<noteq> []"
  by (cases c) (simp add: rechdr_bytes_def be_bytes_def le_bytes_def)

text \<open>Records of clients and session labels are all given to the reader.\<close>

definition readable_record :: "app_record \<Rightarrow> bool" where
  "readable_record r \<longleftrightarrow> fst r \<noteq> EOM_LABEL"

lemma stored_deliverable:
  assumes "decode None cs = Some (rs, None)" and "list_all readable_record rs" and "list_all unsplit cs"
  shows "list_all deliverable cs"
proof -
  have "fst c \<in> fst ` set rs" if "c \<in> set cs" for c
    using decode_fis [OF assms(1)] that by (auto simp: fis_def)
  then have "fst c \<noteq> EOM_LABEL" if "c \<in> set cs" for c
    using assms(2) that by (fastforce simp: list_all_iff readable_record_def)
  moreover have "deliverable c" if "fst c \<noteq> EOM_LABEL" "unsplit c" for c
    using that by (cases c) (simp add: unsplit_def)
  ultimately show ?thesis using assms(3) by (simp add: list_all_iff)
qed

lemma client_readable: "client_record r \<Longrightarrow> readable_record r"
  using EOM_LABEL_neg by (auto simp: client_record_def readable_record_def word_sless_alt)

lemma clients_readable: "list_all client_record rs \<Longrightarrow> list_all readable_record rs"
  using client_readable by (simp add: list_all_iff)

text \<open>
  A reader of the volume with contents \<open>v\<close>, positioned behind \<open>old\<close>: its buffer is as large as the
  writer's, and if it checks checksums the writer's device \<open>d\<close> made them.
\<close>

definition restore_from :: "byte list \<Rightarrow> byte list \<Rightarrow> DEVICE \<Rightarrow> uint32_t \<Rightarrow> DCR \<Rightarrow> DEV_BLOCK \<Rightarrow> bool" where
  "restore_from old v d len c2 rb \<longleftrightarrow> can_load c2 \<and> read_buffer rb \<and> volume c2 = v \<and>
     fpos c2 = length old \<and> len \<le> buf_len rb \<and> (do_checksum (dev c2) \<longrightarrow> do_checksum d) \<and>
     \<not> discard_invalid_records c2"

lemma job_holds_read:
  assumes h: "job_holds old caps s c1 b1 rs" and e: "payload b1 = []" and cl: "list_all readable_record rs"
    and r: "restore_from old (volume c1) d (buf_len b1) c2 rb" and d: "capabilities d = caps"
  shows "\<exists>c3 b3. read_records env forge_on collector [] c2 rb = Some (Ret (True, rs @ [(EOT_LABEL, 0, [])], c3, b3))"
proof -
  let ?ims = "volume_images old c1"
  obtain cs where cs: "stored (map snd ?ims) (payload b1) cs" "decode None cs = Some (rs, None)"
    using h by (auto simp: job_holds_def)
  then obtain css cs' where css: "list_all2 block_chunks (map snd ?ims) css" "concat (map enc_chunk cs') = []"
    "cs = concat css @ cs'" "list_all unsplit cs"
    unfolding stored_def e by metis
  then have "cs' = []" using enc_chunk_not_Nil by (cases cs') auto
  then have dec: "decode None (concat css) = Some (rs, None)" using cs(2) css(3) by simp
  have un: "list_all unsplit (concat css)" using css(3,4) by simp
  have "parse_volume (do_checksum (dev c1)) (drop (fpos c2) (volume c2)) = Some ?ims"
    using h r by (auto simp: job_holds_def disk_ready_def vol_ready_def volume_images_def restore_from_def)
  moreover have "\<forall>(s', d) \<in> set ?ims. s' = s \<and> d \<noteq> [] \<and> 24 + length d \<le> unat (buf_len rb)"
    using h r by (fastforce simp: job_holds_def fits_def restore_from_def word_le_nat_alt)
  ultimately show ?thesis
    using volume_read [where acc = "[]" and recs = "[]" and first = True and p = None and s = s,
        OF _ _ _ _ _ _ css(1) dec stored_deliverable [OF dec cl un]] r
      h d unfolding read_records_def restore_from_def recs_hold_def job_holds_def do_checksum_def by auto
qed

text \<open>
  C1: Backup and restore. A job is written to a disk volume that is open for appending, whatever the
  volume already contains: every record goes through the state machine that splits it over blocks,
  full blocks and the last one are written, and the job is reported as written. What was on the volume
  before is unchanged. A reader positioned at the address where the job began, with a buffer as large
  as the writer's, and with or without checksums, gets exactly the records of the job in order, each
  with its file index, stream and data, and then the end-of-tape label. Both loops end.
\<close>

theorem backup_restore:
  assumes "willing env" and "disk_ready (volume c) c" and "block_wf b" and "payload b = []"
    and "36 < unat (buf_len b)" and "list_all client_record rs"
  shows "\<exists>c1 b1. write_job env forge_on s c b rs = Some (Ret (True, c1, b1)) \<and>
     take (length (volume c)) (volume c1) = volume c \<and>
     (\<forall>c2 rb. restore_from (volume c) (volume c1) (dev c) (buf_len b) c2 rb \<longrightarrow>
        (\<exists>c3 b3. read_records env forge_on collector [] c2 rb
           = Some (Ret (True, rs @ [(EOT_LABEL, 0, [])], c3, b3))))"
proof -
  have "volume_images (volume c) c = []" by (simp add: volume_images_def)
  then have "job_holds (volume c) (capabilities (dev c)) s c b []"
    using assms(2-4) stored_Nil by (auto simp: job_holds_def)
  from write_job_holds [OF assms(1) this assms(6,5), of forge_on]
  obtain c1 b1 where w: "write_job env forge_on s c b rs = Some (Ret (True, c1, b1))"
    "job_holds (volume c) (capabilities (dev c)) s c1 b1 rs" "payload b1 = []" "buf_len b1 = buf_len b" by auto
  have "take (length (volume c)) (volume c1) = volume c" using w(2) by (simp add: job_holds_def disk_ready_def vol_ready_def)
  then show ?thesis using w(1,4) job_holds_read [OF w(2,3) clients_readable [OF assms(6)] _ refl] by (intro exI [of _ c1] exI [of _ b1]) simp
qed

section \<open>An example\<close>

theorem backup_restore_witness:
  "let b = new_block 64 0 (\<lambda>n. replicate n 0); rs = [(1, 2, replicate 100 5), (1, 3, [6, 7]), (2, 2, [])]
   in \<exists>c1 b1 c3 b3. write_job sample_env False (7, 8) sample_dcr b rs = Some (Ret (True, c1, b1)) \<and>
        take 3 (volume c1) = [1, 2, 3] \<and>
        read_records sample_env False collector [] (sample_dcr\<lparr>volume := volume c1\<rparr>) b
          = Some (Ret (True, rs @ [(EOT_LABEL, 0, [])], c3, b3))"
proof -
  let ?b = "new_block 64 0 (\<lambda>n. replicate n 0)"
    and ?rs = "[(1, 2, replicate 100 5), (1, 3, [6, 7]), (2, 2, [])] :: app_record list"
  have b: "block_wf ?b" "payload ?b = []" "buf_len ?b = 64" "read_buffer ?b"
    by (simp_all add: new_block_def empty_block_def Let_def block_wf_def payload_def block_consts read_buffer_def)
  have "list_all client_record ?rs"
    by (simp add: client_record_def word_sless_alt MAX_BLOCK_LENGTH_def)
  then obtain c1 b1 where w: "write_job sample_env False (7, 8) sample_dcr ?b ?rs = Some (Ret (True, c1, b1))"
    "take (length (volume sample_dcr)) (volume c1) = volume sample_dcr"
    "\<forall>c2 rb. restore_from (volume sample_dcr) (volume c1) (dev sample_dcr) (buf_len ?b) c2 rb \<longrightarrow>
        (\<exists>c3 b3. read_records sample_env False collector [] c2 rb
           = Some (Ret (True, ?rs @ [(EOT_LABEL, 0, [])], c3, b3)))"
    using backup_restore [OF sample_env_willing sample_dcr_ready b(1,2), of ?rs False "(7, 8)"] b(3) by auto
  let ?c2 = "sample_dcr\<lparr>volume := volume c1\<rparr>"
  have v: "volume sample_dcr = [1, 2, 3]" "fpos sample_dcr = 3" "\<not> discard_invalid_records sample_dcr"
    by (simp_all add: sample_dcr_def)
  have "restore_from (volume sample_dcr) (volume c1) (dev sample_dcr) (buf_len ?b) ?c2 ?b"
    using b(4) sample_dcr_loads v by (simp add: restore_from_def)
  then obtain c3 b3 where "read_records sample_env False collector [] ?c2 ?b
      = Some (Ret (True, ?rs @ [(EOT_LABEL, 0, [])], c3, b3))"
    using w(3) by blast
  moreover have "take 3 (volume c1) = [1, 2, 3]" using w(2) by (simp add: v(1) numeral_3_eq_3)
  ultimately show ?thesis unfolding Let_def using w(1) by blast
qed

end
