(* ===== verification/Spool.thy ===== *)
theory Spool
  imports BackupRestore
begin

text \<open>
  Data spooling (\<^verbatim>\<open>stored/spool.c\<close>): the blocks of a job go to a spool file first and from there to the device, when the job ends, when a limit is
  reached or when the disk with the spool file is full. To \<open>write_record\<close> this is a \<open>block_sink\<close> as the device itself is. Spooling of attributes is
  not modelled.
\<close>

section \<open>State\<close>

record spool_stats_t =
  data_jobs :: uint32_t
  total_data_jobs :: uint32_t
  max_data_size :: int64_t
  data_size :: int64_t

text \<open>
  The device control record, the spool file and its offset, the results of the coming system calls on it (all succeed behind the ends of the
  lists), and the fields of the job and of the device that only spooling uses. \<open>dev_blocked\<close> is the state of the device set by \<open>dblock\<close>,
  \<open>big_endian\<close> the byte order of the host.
\<close>

record SPOOL =
  sp_dcr :: DCR
  spool_open :: bool
  spool_file :: "byte list"
  spool_pos :: nat
  spool_writes :: "write_result list"
  spool_reads :: "read_result list"
  spool_truncs :: "bool list"
  jcr_spool_data :: bool
  dcr_spool_data :: bool
  spool_attributes :: bool
  despooling :: bool
  dev_blocked :: bool
  jcr_session :: "uint32_t \<times> uint32_t"
  job_spool_size :: int64_t
  max_job_spool_size :: int64_t
  spool_size :: uint64_t
  max_spool_size :: uint64_t
  spool_stats :: spool_stats_t
  big_endian :: bool

definition on_dcr :: "(DCR \<Rightarrow> DCR) \<Rightarrow> SPOOL \<Rightarrow> SPOOL" where
  "on_dcr f sp = sp\<lparr>sp_dcr := f (sp_dcr sp)\<rparr>"

definition on_stats :: "(spool_stats_t \<Rightarrow> spool_stats_t) \<Rightarrow> SPOOL \<Rightarrow> SPOOL" where
  "on_stats f sp = sp\<lparr>spool_stats := f (spool_stats sp)\<rparr>"

definition forceJobStatus :: "job_status \<Rightarrow> DCR \<Rightarrow> DCR" where
  "forceJobStatus s dcr = dcr\<lparr>JobStatus := s\<rparr>"

text \<open>Both overloads of \<open>JCR::sendJobStatus\<close> and \<open>setJobStatus\<close> come down to this; what is sent is not modelled.\<close>

definition sendJobStatus :: "job_status \<Rightarrow> DCR \<Rightarrow> DCR" where
  "sendJobStatus s dcr = (if JobStatus dcr = s then dcr else dcr\<lparr>JobStatus := setJobStatus s (JobStatus dcr)\<rparr>)"

text \<open>A fatal message followed by \<open>forceJobStatus(JS_FatalError)\<close>.\<close>

definition fatal :: "SPOOL \<Rightarrow> SPOOL" where
  "fatal = on_dcr (\<lambda>dcr. forceJobStatus JS_FatalError (Jmsg_fatal dcr))"

section \<open>System calls on the spool file\<close>

definition spool_write :: "byte list \<Rightarrow> SPOOL \<Rightarrow> int \<times> SPOOL" where
  "spool_write bs sp =
     (let next = (case spool_writes sp of [] \<Rightarrow> Write_all | r # rs \<Rightarrow> r);
          sp = sp\<lparr>spool_writes := tl (spool_writes sp)\<rparr>;
          put = (\<lambda>bs. sp\<lparr>spool_file := file_put (spool_file sp) (spool_pos sp) bs, spool_pos := spool_pos sp + length bs\<rparr>)
      in case next of
           Write_all \<Rightarrow> (int (length bs), put bs)
         | Write_part n \<Rightarrow> (int (min n (length bs)), put (take n bs))
         | Write_error e \<Rightarrow> (- 1, sp))"

definition spool_read :: "nat \<Rightarrow> SPOOL \<Rightarrow> int \<times> byte list \<times> SPOOL" where
  "spool_read n sp =
     (let next = (case spool_reads sp of [] \<Rightarrow> Read_all | r # rs \<Rightarrow> r);
          sp = sp\<lparr>spool_reads := tl (spool_reads sp)\<rparr>;
          get = (\<lambda>n. let bs = take n (drop (spool_pos sp) (spool_file sp)) in (int (length bs), bs, sp\<lparr>spool_pos := spool_pos sp + length bs\<rparr>))
      in case next of Read_all \<Rightarrow> get n | Read_part k \<Rightarrow> get (min k n) | Read_error e \<Rightarrow> (- 1, [], sp))"

definition spool_truncate :: "nat \<Rightarrow> SPOOL \<Rightarrow> SPOOL" where
  "spool_truncate n sp =
     (let ok = (case spool_truncs sp of [] \<Rightarrow> True | r # rs \<Rightarrow> r);
          sp = sp\<lparr>spool_truncs := tl (spool_truncs sp)\<rparr>
      in if ok then sp\<lparr>spool_file := take n (spool_file sp) @ replicate (n - length (spool_file sp)) 0\<rparr> else sp)"

section \<open>Writing to the spool file\<close>

text \<open>
  \<open>spool_hdr\<close> and \<open>FILEMEDIA_ITEM\<close> as they lie in memory. The links of an item, which the reader overwrites, are taken to be zero.
\<close>

definition spool_hdr_bytes :: "bool \<Rightarrow> int32_t \<Rightarrow> int32_t \<Rightarrow> uint32_t \<Rightarrow> uint32_t \<Rightarrow> byte list" where
  "spool_hdr_bytes be fi li len n = host_bytes be 4 fi @ host_bytes be 4 li @ host_bytes be 4 len @ host_bytes be 4 n"

definition filemedia_bytes :: "bool \<Rightarrow> FILEMEDIA_ITEM \<Rightarrow> byte list" where
  "filemedia_bytes be fm = replicate 16 0 @ host_bytes be 4 (fm_RecordNo fm) @ host_bytes be 4 (fm_FileIndex fm) @
     host_bytes be 8 (fm_BlockAddr fm) @ host_bytes be 8 (fm_FileOffset fm) @ host_bytes be 8 (fm_VolMediaId fm)"

definition write_spool_header :: "SPOOL \<Rightarrow> DEV_BLOCK \<Rightarrow> int \<times> int \<times> SPOOL" where
  "write_spool_header sp block =
     (case spool_write (spool_hdr_bytes (big_endian sp) (FirstIndex block) (LastIndex block) (binbuf block) (of_nat (length (filemedia block)))) sp of
        (stat, sp) \<Rightarrow> (stat, 16, sp))"

definition write_spool_data :: "SPOOL \<Rightarrow> DEV_BLOCK \<Rightarrow> int \<times> int \<times> SPOOL" where
  "write_spool_data sp block = (case spool_write (take (unat (binbuf block)) (buf block)) sp of (stat, sp) \<Rightarrow> (stat, int (unat (binbuf block)), sp))"

fun write_items :: "int \<Rightarrow> FILEMEDIA_ITEM list \<Rightarrow> SPOOL \<Rightarrow> int \<times> SPOOL" where
  "write_items written [] sp = (written, sp)"
| "write_items written (fm # fms) sp =
     (case spool_write (filemedia_bytes (big_endian sp) fm) sp of
        (stat, sp) \<Rightarrow>
          if stat = - 1 then (stat, sp)
          else if stat \<noteq> 48 then (written + stat, sp)
          else write_items (written + stat) fms sp)"

definition write_spool_filemedia :: "SPOOL \<Rightarrow> DEV_BLOCK \<Rightarrow> int \<times> int \<times> SPOOL" where
  "write_spool_filemedia sp block = (case write_items 0 (filemedia block) sp of (written, sp) \<Rightarrow> (written, 48 * int (length (filemedia block)), sp))"

section \<open>Despooling\<close>

datatype rb_code = RB_EOT | RB_ERROR | RB_OK

fun read_items :: "nat \<Rightarrow> SPOOL \<Rightarrow> DEV_BLOCK \<Rightarrow> rb_code \<times> SPOOL \<times> DEV_BLOCK" where
  "read_items 0 sp block = (RB_OK, sp, block)"
| "read_items (Suc n) sp block =
     (case spool_read 48 sp of
        (stat, bs, sp) \<Rightarrow>
          if stat \<noteq> 48 then (RB_ERROR, fatal sp, block)
          else
            (let get = (\<lambda>off len. take len (drop off bs));
                 fm = \<lparr>fm_RecordNo = of_host_bytes (big_endian sp) (get 16 4), fm_FileIndex = of_host_bytes (big_endian sp) (get 20 4),
                       fm_BlockAddr = of_host_bytes (big_endian sp) (get 24 8), fm_FileOffset = of_host_bytes (big_endian sp) (get 32 8),
                       fm_VolMediaId = of_host_bytes (big_endian sp) (get 40 8)\<rparr>
             in read_items n sp (block\<lparr>filemedia := filemedia block @ [fm]\<rparr>)))"

definition read_block_from_spool_file :: "SPOOL \<Rightarrow> DEV_BLOCK \<Rightarrow> (rb_code \<times> SPOOL \<times> DEV_BLOCK) outcome" where
  "read_block_from_spool_file sp block =
     (case spool_read 16 sp of
        (stat, hdr, sp) \<Rightarrow>
          if stat = 0 then Ret (RB_EOT, sp, block)
          else if stat \<noteq> 16 then Ret (RB_ERROR, fatal sp, block)
          else
            (let word = (\<lambda>off. of_host_bytes (big_endian sp) (take 4 (drop off hdr)) :: uint32_t);
                 rlen = word 8
             in if buf_len block < rlen then Ret (RB_ERROR, fatal sp, block)
                else
                  (case spool_read (unat rlen) sp of
                     (stat, bs, sp) \<Rightarrow>
                       bind_outcome (from_option Out_of_bounds (mem_write (buf block) 0 bs)) (\<lambda>mem.
                         let block = block\<lparr>buf := mem\<rparr>
                         in if stat \<noteq> int (unat rlen) then Ret (RB_ERROR, fatal sp, block)
                            else Ret (read_items (unat (word 12)) sp
                              (block\<lparr>binbuf := rlen, bufp := unat rlen, FirstIndex := word 0, LastIndex := word 4,
                                     VolSessionId := fst (jcr_session sp), VolSessionTime := snd (jcr_session sp)\<rparr>))))))"

partial_function (option) despool_loop :: "sd_env \<Rightarrow> bool \<Rightarrow> SPOOL \<Rightarrow> DEV_BLOCK \<Rightarrow> (bool \<times> SPOOL) outcome option" where
  "despool_loop env forge_on sp block =
     (case read_block_from_spool_file sp block of
        Dies e \<Rightarrow> Some (Dies e)
      | Ret (RB_EOT, sp, block) \<Rightarrow> Some (Ret (True, sp))
      | Ret (RB_ERROR, sp, block) \<Rightarrow> Some (Ret (False, sp))
      | Ret (RB_OK, sp, block) \<Rightarrow>
          (case write_block_to_device env forge_on False (sp_dcr sp) block of
             None \<Rightarrow> None
           | Some (Dies e) \<Rightarrow> Some (Dies e)
           | Some (Ret (ok, dcr, block)) \<Rightarrow>
               (if job_canceled dcr then Some (Ret (False, sp\<lparr>sp_dcr := dcr\<rparr>))
                else if \<not> ok then Some (Ret (False, fatal (sp\<lparr>sp_dcr := dcr\<rparr>)))
                else despool_loop env forge_on (sp\<lparr>sp_dcr := dcr\<rparr>) block)))"

text \<open>Before and after the loop.\<close>

definition begin_despool :: "bool \<Rightarrow> SPOOL \<Rightarrow> SPOOL" where
  "begin_despool commit sp =
     (let sp = on_dcr (sendJobStatus JS_DataDespooling) (on_dcr (sendJobStatus (if commit then JS_DataCommitting else JS_DataDespooling)) sp);
          sp = on_dcr (\<lambda>dcr. set_new_file_parameters (dcr\<lparr>spooling := False\<rparr>)) sp
      in sp\<lparr>dev_blocked := True, despooling := True, spool_pos := 0\<rparr>)"

definition forget_spooled :: "SPOOL \<Rightarrow> SPOOL" where
  "forget_spooled sp =
     on_stats (\<lambda>st. st\<lparr>data_size := (if data_size st <s job_spool_size sp then 0 else data_size st - job_spool_size sp)\<rparr>) sp"

definition end_despool :: "sd_env \<Rightarrow> bool \<Rightarrow> SPOOL \<Rightarrow> SPOOL" where
  "end_despool env commit sp =
     (let sp = (case dir_create_jobmedia_record env False (sp_dcr sp) of
                  (ok, dcr) \<Rightarrow> if ok then sp\<lparr>sp_dcr := dcr\<rparr> else fatal (sp\<lparr>sp_dcr := dcr\<rparr>));
          sp = on_dcr (\<lambda>dcr. set_new_file_parameters (snd (flush_jobmedia_queue env dcr))) sp;
          sp = forget_spooled (spool_truncate 0 (sp\<lparr>spool_pos := 0\<rparr>));
          sp = sp\<lparr>spool_size := spool_size sp - job_spool_size sp, job_spool_size := 0, despooling := False\<rparr>;
          sp = on_dcr (\<lambda>dcr. dcr\<lparr>spooling := True\<rparr>) sp;
          sp = (if commit then sp else sp\<lparr>dev_blocked := False\<rparr>)
      in on_dcr (sendJobStatus JS_Running) sp)"

definition despool_data :: "sd_env \<Rightarrow> bool \<Rightarrow> bool \<Rightarrow> SPOOL \<Rightarrow> (bool \<times> SPOOL) outcome option" where
  "despool_data env forge_on commit sp =
     (case despool_loop env forge_on (begin_despool commit sp) (new_block (max_block_size (dev (sp_dcr sp))) 0 (env_memory env)) of
        None \<Rightarrow> None
      | Some (Dies e) \<Rightarrow> Some (Dies e)
      | Some (Ret (ok, sp)) \<Rightarrow> Some (Ret (ok, end_despool env commit sp)))"

section \<open>Spooling a block\<close>

definition rewind_spoolfile :: "sd_env \<Rightarrow> bool \<Rightarrow> int \<Rightarrow> SPOOL \<Rightarrow> (bool \<times> SPOOL) outcome option" where
  "rewind_spoolfile env forge_on sz sp =
     (if sz = 0 then Some (Ret (True, sp))
      else
        (case despool_data env forge_on False (spool_truncate (spool_pos sp - nat sz) sp) of
           None \<Rightarrow> None
         | Some (Dies e) \<Rightarrow> Some (Dies e)
         | Some (Ret (ok, sp)) \<Rightarrow> Some (Ret (ok, if ok then sp else fatal sp))))"

text \<open>One pass of the loop of \<open>write_spool_block\<close>: with success, to be repeated with the number of bytes written, or with a fatal error.\<close>

datatype attempt = Spooled | Short int | Broken

definition spool_attempt :: "SPOOL \<Rightarrow> DEV_BLOCK \<Rightarrow> attempt \<times> SPOOL" where
  "spool_attempt sp block =
     (case write_spool_header sp block of
        (r1, e1, sp) \<Rightarrow>
          if r1 = - 1 then (Broken, sp)
          else if r1 \<noteq> e1 then (Short r1, sp)
          else (case write_spool_data sp block of
                  (r2, e2, sp) \<Rightarrow>
                    if r2 = - 1 then (Broken, sp)
                    else if r2 \<noteq> e2 then (Short (r1 + r2), sp)
                    else (case write_spool_filemedia sp block of
                            (r3, e3, sp) \<Rightarrow>
                              if r3 = - 1 then (Broken, sp)
                              else if r3 \<noteq> e3 then (Short (r1 + r2 + r3), sp)
                              else (Spooled, sp))))"

definition write_spool_block :: "sd_env \<Rightarrow> bool \<Rightarrow> SPOOL \<Rightarrow> DEV_BLOCK \<Rightarrow> (bool \<times> SPOOL) outcome option" where
  "write_spool_block env forge_on sp block =
     (case spool_attempt sp block of
        (Spooled, sp) \<Rightarrow> Some (Ret (True, sp))
      | (Broken, sp) \<Rightarrow> Some (Ret (False, fatal sp))
      | (Short sz, sp) \<Rightarrow>
          (case (if sz > 0 then rewind_spoolfile env forge_on sz sp else Some (Ret (True, sp))) of
             None \<Rightarrow> None
           | Some (Dies e) \<Rightarrow> Some (Dies e)
           | Some (Ret (False, sp)) \<Rightarrow> Some (Ret (False, sp))
           | Some (Ret (True, sp)) \<Rightarrow>
               (case spool_attempt sp block of (a, sp) \<Rightarrow> Some (Ret (if a = Spooled then (True, sp) else (False, fatal sp))))))"

text \<open>\<open>hlen + wlen\<close> added to the size of the job, of the device and of the daemon.\<close>

definition count_spooled :: "int64_t \<Rightarrow> SPOOL \<Rightarrow> SPOOL" where
  "count_spooled n sp = sp\<lparr>job_spool_size := job_spool_size sp + n, spool_size := spool_size sp + n\<rparr>"

definition count_stats :: "int64_t \<Rightarrow> spool_stats_t \<Rightarrow> spool_stats_t" where
  "count_stats n st =
     (let st = st\<lparr>data_size := data_size st + n\<rparr>
      in if max_data_size st <s data_size st then st\<lparr>max_data_size := data_size st\<rparr> else st)"

definition spool_limit :: "SPOOL \<Rightarrow> bool" where
  "spool_limit sp \<longleftrightarrow> (0 <s max_job_spool_size sp \<and> max_job_spool_size sp \<le>s job_spool_size sp) \<or>
     (0 < max_spool_size sp \<and> max_spool_size sp \<le> spool_size sp)"

definition write_block_to_spool_file :: "sd_env \<Rightarrow> bool \<Rightarrow> SPOOL \<Rightarrow> DEV_BLOCK \<Rightarrow> (bool \<times> SPOOL \<times> DEV_BLOCK) outcome option" where
  "write_block_to_spool_file env forge_on sp block =
     (if job_canceled (sp_dcr sp) then Some (Ret (False, sp, block))
      else if binbuf block \<noteq> of_nat (bufp block) then Some (Dies Assert_failed)
      else if binbuf block \<le> of_nat BLKHDR2_LENGTH then Some (Ret (True, sp, block))
      else
        (let n = ucast (16 + binbuf block);
             sp = count_spooled n sp;
             despool = spool_limit sp;
             sp = on_stats (count_stats n) sp
         in case (if despool then despool_data env forge_on False sp else Some (Ret (True, sp))) of
              None \<Rightarrow> None
            | Some (Dies e) \<Rightarrow> Some (Dies e)
            | Some (Ret (False, sp)) \<Rightarrow> Some (Ret (False, sp, block))
            | Some (Ret (True, sp)) \<Rightarrow>
                (case write_spool_block env forge_on (if despool then count_spooled n sp else sp) block of
                   None \<Rightarrow> None
                 | Some (Dies e) \<Rightarrow> Some (Dies e)
                 | Some (Ret (False, sp)) \<Rightarrow> Some (Ret (False, sp, block))
                 | Some (Ret (True, sp)) \<Rightarrow> Some (Ret (True, sp, empty_block block)))))"

text \<open>\<open>DCR::write_block_to_device\<close> for a job that may spool.\<close>

definition write_block_spooling :: "sd_env \<Rightarrow> bool \<Rightarrow> bool \<Rightarrow> SPOOL \<Rightarrow> DEV_BLOCK \<Rightarrow> (bool \<times> SPOOL \<times> DEV_BLOCK) outcome option" where
  "write_block_spooling env forge_on final sp block =
     (if spooling (sp_dcr sp) then write_block_to_spool_file env forge_on sp block
      else (case write_block_to_device env forge_on final (sp_dcr sp) block of
              None \<Rightarrow> None
            | Some (Dies e) \<Rightarrow> Some (Dies e)
            | Some (Ret (ok, dcr, block)) \<Rightarrow> Some (Ret (ok, sp\<lparr>sp_dcr := dcr\<rparr>, block))))"

section \<open>Beginning and end of spooling\<close>

text \<open>\<open>opened\<close> is the result of \<open>open\<close>, which creates the spool file or empties it.\<close>

definition open_data_spool_file :: "bool \<Rightarrow> SPOOL \<Rightarrow> bool \<times> SPOOL" where
  "open_data_spool_file opened sp =
     (if opened then (True, sp\<lparr>spool_open := True, spool_file := [], spool_pos := 0, spool_attributes := True\<rparr>)
      else (False, on_dcr Jmsg_fatal sp))"

definition begin_data_spool :: "bool \<Rightarrow> SPOOL \<Rightarrow> bool \<times> SPOOL" where
  "begin_data_spool opened sp =
     (let d = dev (sp_dcr sp);
          sp = (if is_aligned d \<or> dev_type d = B_DEDUP_DEV then sp\<lparr>jcr_spool_data := False\<rparr> else sp)
      in if \<not> jcr_spool_data sp then (True, sp)
         else case open_data_spool_file opened (sp\<lparr>dcr_spool_data := True\<rparr>) of
                (stat, sp) \<Rightarrow>
                  if stat then (True, on_stats (\<lambda>st. st\<lparr>data_jobs := data_jobs st + 1\<rparr>) (on_dcr (\<lambda>dcr. dcr\<lparr>spooling := True\<rparr>) sp))
                  else (False, sp))"

definition close_data_spool_file :: "SPOOL \<Rightarrow> bool \<times> SPOOL" where
  "close_data_spool_file sp =
     (let sp = on_stats (\<lambda>st. st\<lparr>data_jobs := data_jobs st - 1, total_data_jobs := total_data_jobs st + 1\<rparr>) sp;
          sp = (forget_spooled sp)\<lparr>job_spool_size := 0\<rparr>;
          sp = sp\<lparr>spool_open := False, spool_file := [], spool_pos := 0\<rparr>
      in (True, on_dcr (\<lambda>dcr. dcr\<lparr>spooling := False\<rparr>) sp))"

definition discard_data_spool :: "SPOOL \<Rightarrow> bool \<times> SPOOL" where
  "discard_data_spool sp = (if spooling (sp_dcr sp) then close_data_spool_file sp else (True, sp))"

definition commit_data_spool :: "sd_env \<Rightarrow> bool \<Rightarrow> SPOOL \<Rightarrow> (bool \<times> SPOOL) outcome option" where
  "commit_data_spool env forge_on sp =
     (if spooling (sp_dcr sp) then
        (case despool_data env forge_on True sp of
           None \<Rightarrow> None
         | Some (Dies e) \<Rightarrow> Some (Dies e)
         | Some (Ret (stat, sp)) \<Rightarrow> (if stat then Some (Ret (close_data_spool_file sp)) else Some (Ret (False, snd (close_data_spool_file sp)))))
      else Some (Ret (True, sp)))"

section \<open>The format of the spool file\<close>

text \<open>The first block in a spool file and what follows it, and all blocks: each is a header of 16 bytes, the block and its items of 48 bytes.\<close>

definition first_spooled :: "bool \<Rightarrow> byte list \<Rightarrow> (byte list \<times> byte list) option" where
  "first_spooled be f =
     (let word = (\<lambda>off. of_host_bytes be (take 4 (drop off f)) :: uint32_t); n = unat (word 8); m = 48 * unat (word 12)
      in if 16 \<le> length f \<and> 16 + n + m \<le> length f then Some (take n (drop 16 f), drop (16 + n + m) f) else None)"

lemma first_spooled_shorter: "first_spooled be f = Some (b, rest) \<Longrightarrow> length rest < length f"
  by (auto simp: first_spooled_def Let_def split: if_splits)

function spool_blocks :: "bool \<Rightarrow> byte list \<Rightarrow> byte list list option" where
  "spool_blocks be f =
     (if f = [] then Some []
      else case first_spooled be f of
             None \<Rightarrow> None
           | Some (b, rest) \<Rightarrow> map_option ((#) b) (spool_blocks be rest))"
  by pat_completeness auto
termination by (relation "measure (\<lambda>(_, f). length f)") (auto dest: first_spooled_shorter)

declare spool_blocks.simps [simp del]

lemma spool_blocks_Nil [simp]: "spool_blocks be [] = Some []"
  by (simp add: spool_blocks.simps)

lemma spool_blocks_ConsD:
  assumes "spool_blocks be f = Some (b # bs)"
  obtains rest where "first_spooled be f = Some (b, rest)" and "spool_blocks be rest = Some bs"
  using assms by (subst (asm) spool_blocks.simps) (auto split: if_splits option.splits)

lemma spool_blocks_NilD: "spool_blocks be f = Some [] \<Longrightarrow> f = []"
  by (subst (asm) spool_blocks.simps) (auto split: if_splits option.splits)

lemma first_spooled_append:
  assumes "first_spooled be f = Some (b, rest)"
  shows "first_spooled be (f @ t) = Some (b, rest @ t)"
proof -
  have "16 \<le> length f" using assms by (auto simp: first_spooled_def Let_def split: if_splits)
  then have "take 4 (drop off (f @ t)) = take 4 (drop off f)" if "off = 8 \<or> off = 12" for off using that by auto
  then show ?thesis using assms by (auto simp: first_spooled_def Let_def split: if_splits)
qed

lemma spool_blocks_append:
  assumes "spool_blocks be f = Some bs" and "first_spooled be e = Some (b, [])"
  shows "spool_blocks be (f @ e) = Some (bs @ [b])"
  using assms
proof (induction be f arbitrary: bs rule: spool_blocks.induct)
  case (1 be f)
  have e: "e \<noteq> []" using first_spooled_shorter [OF 1(3)] by auto
  show ?case
  proof (cases "f = []")
    case True
    then show ?thesis using 1(2,3) e by (simp add: spool_blocks.simps [of be e])
  next
    case False
    obtain b1 rest bs1 where f: "first_spooled be f = Some (b1, rest)" "spool_blocks be rest = Some bs1" "bs = b1 # bs1"
      using 1(2) False by (subst (asm) spool_blocks.simps) (auto split: option.splits)
    then show ?thesis
      using 1(1) [OF False f(1) refl f(2) 1(3)] first_spooled_append [OF f(1), of e] False by (simp add: spool_blocks.simps [of be "f @ e"])
  qed
qed

text \<open>What \<open>write_spool_block\<close> writes for a block without items.\<close>

definition spool_entry :: "bool \<Rightarrow> DEV_BLOCK \<Rightarrow> byte list" where
  "spool_entry be b = spool_hdr_bytes be (FirstIndex b) (LastIndex b) (binbuf b) 0 @ take (unat (binbuf b)) (buf b)"

lemma length_spool_hdr [simp]: "length (spool_hdr_bytes be fi li len n) = 16"
  by (simp add: spool_hdr_bytes_def host_bytes_def)

lemma of_host_host:
  assumes "8 * n = LENGTH('a::len)"
  shows "of_host_bytes be (host_bytes be n (w :: 'a word)) = w"
  using assms by (simp add: host_bytes_def of_host_bytes_def of_le_bytes_le_bytes)

lemma length_host_bytes [simp]: "length (host_bytes be n w) = n"
  by (simp add: host_bytes_def)

lemma first_spooled_entry:
  assumes "unat (binbuf b) \<le> length (buf b)"
  shows "first_spooled be (spool_entry be b) = Some (take (unat (binbuf b)) (buf b), [])"
proof -
  have "take 4 (drop 8 (spool_entry be b)) = host_bytes be 4 (binbuf b)" "take 4 (drop 12 (spool_entry be b)) = host_bytes be 4 (0 :: uint32_t)"
    by (simp_all add: spool_entry_def spool_hdr_bytes_def)
  moreover have "drop 16 (spool_entry be b) = take (unat (binbuf b)) (buf b)" "length (spool_entry be b) = 16 + unat (binbuf b)"
    using assms by (simp_all add: spool_entry_def)
  ultimately show ?thesis by (simp add: first_spooled_def Let_def of_host_host)
qed

section \<open>Reading it back\<close>

lemma spool_read_all:
  assumes "spool_reads sp = []"
  shows "spool_read n sp = (let bs = take n (drop (spool_pos sp) (spool_file sp)) in (int (length bs), bs, sp\<lparr>spool_pos := spool_pos sp + length bs\<rparr>))"
proof -
  have "sp\<lparr>spool_reads := []\<rparr> = sp" using assms by simp
  then show ?thesis using assms by (simp add: spool_read_def Let_def)
qed

lemma read_items_all:
  assumes "spool_reads sp = []" and "48 * n \<le> length (drop (spool_pos sp) (spool_file sp))"
  shows "\<exists>fms. read_items n sp b = (RB_OK, sp\<lparr>spool_pos := spool_pos sp + 48 * n\<rparr>, b\<lparr>filemedia := filemedia b @ fms\<rparr>)"
  using assms
proof (induction n arbitrary: sp b)
  case 0
  then show ?case by (intro exI [of _ "[]"]) simp
next
  case (Suc n)
  define sp1 where "sp1 = sp\<lparr>spool_pos := spool_pos sp + 48\<rparr>"
  define bs where "bs = take 48 (drop (spool_pos sp) (spool_file sp))"
  have l: "length bs = 48" using Suc.prems(2) by (simp add: bs_def)
  have r: "spool_read 48 sp = (48, bs, sp1)" using spool_read_all [OF Suc.prems(1), of 48] l by (simp add: bs_def [symmetric] sp1_def Let_def)
  have "spool_reads sp1 = []" "48 * n \<le> length (drop (spool_pos sp1) (spool_file sp1))" using Suc.prems by (simp_all add: sp1_def)
  note ih = Suc.IH [OF this]
  have "\<exists>fm. read_items (Suc n) sp b = read_items n sp1 (b\<lparr>filemedia := filemedia b @ [fm]\<rparr>)"
    unfolding read_items.simps r Let_def by (simp only: prod.case not_not if_False simp_thms) (rule exI, rule refl)
  then obtain fm where fm: "read_items (Suc n) sp b = read_items n sp1 (b\<lparr>filemedia := filemedia b @ [fm]\<rparr>)" by (rule exE)
  obtain fms where "read_items n sp1 (b\<lparr>filemedia := filemedia b @ [fm]\<rparr>) = (RB_OK, sp1\<lparr>spool_pos := spool_pos sp1 + 48 * n\<rparr>,
      (b\<lparr>filemedia := filemedia b @ [fm]\<rparr>)\<lparr>filemedia := filemedia (b\<lparr>filemedia := filemedia b @ [fm]\<rparr>) @ fms\<rparr>)"
    using ih by (rule exE)
  then have "read_items (Suc n) sp b = (RB_OK, sp1\<lparr>spool_pos := spool_pos sp1 + 48 * n\<rparr>, b\<lparr>filemedia := filemedia b @ fm # fms\<rparr>)"
    unfolding fm by simp
  then show ?case by (intro exI [of _ "fm # fms"]) (simp add: sp1_def algebra_simps)
qed

text \<open>A buffer that blocks of at most \<open>n\<close> bytes are read into.\<close>

definition spool_buffer :: "uint32_t \<Rightarrow> DEV_BLOCK \<Rightarrow> bool" where
  "spool_buffer n b \<longleftrightarrow> \<not> adata b \<and> buf_len b = n \<and> length (buf b) = unat n \<and> n \<le> MAX_BLOCK_LENGTH"

lemma read_spooled:
  assumes r: "spool_reads sp = []" and f: "first_spooled (big_endian sp) (drop (spool_pos sp) (spool_file sp)) = Some (bs, rest)"
    and b: "spool_buffer n b" and l: "length bs \<le> unat n"
  shows "\<exists>pos b'. read_block_from_spool_file sp b = Ret (RB_OK, sp\<lparr>spool_pos := pos\<rparr>, b') \<and> drop pos (spool_file sp) = rest \<and>
     spool_buffer n b' \<and> binbuf b' = of_nat (length bs) \<and> bufp b' = length bs \<and> take (length bs) (buf b') = bs \<and>
     (VolSessionId b', VolSessionTime b') = jcr_session sp"
proof -
  let ?be = "big_endian sp" and ?f = "drop (spool_pos sp) (spool_file sp)"
  define word where "word = (\<lambda>off. of_host_bytes ?be (take 4 (drop off (take 16 ?f))) :: uint32_t)"
  have w: "word 8 = of_host_bytes ?be (take 4 (drop 8 ?f))" "word 12 = of_host_bytes ?be (take 4 (drop 12 ?f))"
    by (simp_all add: word_def drop_take)
  let ?n = "unat (word 8)" and ?m = "48 * unat (word 12)"
  have f': "16 + ?n + ?m \<le> length ?f" "bs = take ?n (drop 16 ?f)" "rest = drop (16 + ?n + ?m) ?f"
    using f unfolding first_spooled_def Let_def w [symmetric] by (simp_all split: if_splits)
  have lb: "length bs = ?n" using f'(1,2) by simp
  define sp1 where "sp1 = sp\<lparr>spool_pos := spool_pos sp + 16\<rparr>"
  define sp2 where "sp2 = sp\<lparr>spool_pos := spool_pos sp + 16 + ?n\<rparr>"
  have r1: "spool_read 16 sp = (16, take 16 ?f, sp1)" using spool_read_all [OF r, of 16] f'(1) by (simp add: Let_def sp1_def)
  have r2: "spool_read ?n sp1 = (int ?n, bs, sp2)"
    using spool_read_all [of sp1 ?n] r lb by (simp add: Let_def sp1_def sp2_def f'(2) add.commute)
  have big: "\<not> buf_len b < word 8" using b l lb by (simp add: spool_buffer_def word_less_nat_alt)
  define mem where "mem = bs @ drop (length bs) (buf b)"
  have mem: "mem_write (buf b) 0 bs = Some mem" using b l by (simp add: mem_write_def spool_buffer_def mem_def)
  define b1 where "b1 = b\<lparr>buf := mem, binbuf := word 8, bufp := ?n, FirstIndex := word 0, LastIndex := word 4,
      VolSessionId := fst (jcr_session sp2), VolSessionTime := snd (jcr_session sp2)\<rparr>"
  have "spool_reads sp2 = []" "?m \<le> length (drop (spool_pos sp2) (spool_file sp2))" using r f'(1) by (simp_all add: sp2_def)
  then obtain fms where it: "read_items (unat (word 12)) sp2 b1 = (RB_OK, sp2\<lparr>spool_pos := spool_pos sp2 + ?m\<rparr>, b1\<lparr>filemedia := filemedia b1 @ fms\<rparr>)"
    using read_items_all by blast
  have rd: "read_block_from_spool_file sp b = Ret (RB_OK, sp\<lparr>spool_pos := spool_pos sp + 16 + ?n + ?m\<rparr>, b1\<lparr>filemedia := filemedia b1 @ fms\<rparr>)"
  proof -
    have "big_endian sp1 = ?be" by (simp add: sp1_def)
    then have w1: "(\<lambda>off. of_host_bytes (big_endian sp1) (take 4 (drop off (take 16 ?f))) :: uint32_t) = word" by (simp add: word_def)
    have "read_block_from_spool_file sp b = Ret (read_items (unat (word 12)) sp2 b1)"
      unfolding read_block_from_spool_file_def r1 prod.case Let_def w1 [THEN fun_cong] using big r2 mem by (simp add: b1_def)
    then show ?thesis unfolding it by (simp add: sp2_def)
  qed
  moreover have "drop (spool_pos sp + 16 + ?n + ?m) (spool_file sp) = rest" using f'(3) by (simp add: add.commute add.left_commute)
  moreover have "spool_buffer n (b1\<lparr>filemedia := filemedia b1 @ fms\<rparr>)" using b l by (simp add: spool_buffer_def b1_def mem_def)
  ultimately show ?thesis using lb by (intro exI [of _ "spool_pos sp + 16 + ?n + ?m"] exI [of _ "b1\<lparr>filemedia := filemedia b1 @ fms\<rparr>"])
      (simp add: b1_def mem_def sp2_def)
qed

lemma read_spool_end:
  assumes "spool_reads sp = []" and "drop (spool_pos sp) (spool_file sp) = []"
  shows "read_block_from_spool_file sp b = Ret (RB_EOT, sp, b)"
  using spool_read_all [OF assms(1), of 16] assms(2) by (simp add: read_block_from_spool_file_def)

section \<open>Despooling\<close>

definition spooled_image :: "uint32_t \<times> uint32_t \<Rightarrow> byte list \<Rightarrow> image" where
  "spooled_image s bs = (s, drop 24 bs)"

lemma despool_loop_writes:
  assumes "willing env" and "disk_ready old (sp_dcr sp)" and "spool_reads sp = []"
    and "spool_blocks (big_endian sp) (drop (spool_pos sp) (spool_file sp)) = Some bss"
    and "\<forall>bs \<in> set bss. 24 < length bs \<and> length bs \<le> unat n" and "spool_buffer n b"
  shows "\<exists>c pos. despool_loop env forge_on sp b = Some (Ret (True, sp\<lparr>sp_dcr := c, spool_pos := pos\<rparr>)) \<and> disk_ready old c \<and>
     volume_images old c = volume_images old (sp_dcr sp) @ map (spooled_image (jcr_session sp)) bss \<and>
     capabilities (dev c) = capabilities (dev (sp_dcr sp)) \<and> max_block_size (dev c) = max_block_size (dev (sp_dcr sp)) \<and> JobId c = JobId (sp_dcr sp)"
  using assms(2-6)
proof (induction bss arbitrary: sp b)
  case Nil
  have "drop (spool_pos sp) (spool_file sp) = []" using spool_blocks_NilD [OF Nil(3)] .
  then have "despool_loop env forge_on sp b = Some (Ret (True, sp))"
    by (subst despool_loop.simps) (simp add: read_spool_end [OF Nil(2)])
  then show ?case using Nil(1) by (intro exI [of _ "sp_dcr sp"] exI [of _ "spool_pos sp"]) simp
next
  case (Cons bs bss)
  obtain rest where f: "first_spooled (big_endian sp) (drop (spool_pos sp) (spool_file sp)) = Some (bs, rest)" "spool_blocks (big_endian sp) rest = Some bss"
    by (rule spool_blocks_ConsD [OF Cons.prems(3)])
  have l: "24 < length bs" "length bs \<le> unat n" using Cons.prems(4) by simp_all
  obtain pos b' where r: "read_block_from_spool_file sp b = Ret (RB_OK, sp\<lparr>spool_pos := pos\<rparr>, b')" "drop pos (spool_file sp) = rest"
      "spool_buffer n b'" "binbuf b' = of_nat (length bs)" "bufp b' = length bs" "take (length bs) (buf b') = bs"
      "(VolSessionId b', VolSessionTime b') = jcr_session sp"
    using read_spooled [OF Cons.prems(2) f(1) Cons.prems(5) l(2)] by blast
  have u: "unat (of_nat (length bs) :: uint32_t) = length bs"
    using l(2) unsigned_less [of n, where 'a = nat] by (intro unat_of_nat_small) simp
  have wf: "block_wf b'" using r(3-5) l u by (simp add: block_wf_def spool_buffer_def block_consts word_le_nat_alt)
  have pl: "payload b' = drop 24 bs" using r(4,6) u by (simp add: payload_def)
  then have "payload b' \<noteq> []" using l(1) by simp
  then obtain c b2 where w: "write_block_to_device env forge_on False (sp_dcr sp) b' = Some (Ret (True, c, b2))" "disk_ready old c"
      "volume_images old c = volume_images old (sp_dcr sp) @ [image_of b']" "emptied b' b2" "capabilities (dev c) = capabilities (dev (sp_dcr sp))"
      "max_block_size (dev c) = max_block_size (dev (sp_dcr sp))" "JobId c = JobId (sp_dcr sp)"
    using write_device_ready [OF assms(1) Cons.prems(1) wf payload_not_empty [OF wf], of forge_on False] by blast
  let ?sp = "sp\<lparr>spool_pos := pos, sp_dcr := c\<rparr>"
  have "\<not> job_canceled c" using w(2) by (simp add: disk_ready_def vol_ready_def able_def)
  then have step: "despool_loop env forge_on sp b = despool_loop env forge_on ?sp b2"
    using r(1) w(1) by (subst despool_loop.simps) simp
  have "spool_buffer n b2" using w(4) r(3) by (simp add: emptied_def spool_buffer_def block_wf_def)
  then obtain c' pos' where "despool_loop env forge_on ?sp b2 = Some (Ret (True, ?sp\<lparr>sp_dcr := c', spool_pos := pos'\<rparr>))" "disk_ready old c'"
      "volume_images old c' = volume_images old c @ map (spooled_image (jcr_session sp)) bss"
      "capabilities (dev c') = capabilities (dev c)" "max_block_size (dev c') = max_block_size (dev c)" "JobId c' = JobId c"
    using Cons.IH [of ?sp b2] Cons.prems(2,4) w(2) r(2) f(2) by auto
  moreover have "image_of b' = spooled_image (jcr_session sp) bs" using pl r(7) by (simp add: image_of_def spooled_image_def)
  ultimately show ?case using step w(3,5-7) by (intro exI [of _ c'] exI [of _ pos']) simp
qed


text \<open>What may happen to the device control record between two blocks: the status of the job and the bookkeeping change, the volume does not.\<close>

definition same_volume :: "DCR \<Rightarrow> DCR \<Rightarrow> bool" where
  "same_volume c c' \<longleftrightarrow> volume c' = volume c \<and> fpos c' = fpos c \<and> write_script c' = write_script c \<and> NewVol c' = NewVol c \<and> JobId c' = JobId c \<and>
     capabilities (dev c') = capabilities (dev c) \<and> max_block_size (dev c') = max_block_size (dev c) \<and> (able c \<longrightarrow> able c')"

lemma same_volume_trans: "same_volume c c' \<Longrightarrow> same_volume c' c'' \<Longrightarrow> same_volume c c''"
  by (simp add: same_volume_def)

lemma same_disk_volume: "same_disk c c' \<Longrightarrow> same_volume c c'"
  using same_disk_able [of c c'] by (simp add: same_disk_def same_volume_def)

lemma same_volume_images: "same_volume c c' \<Longrightarrow> volume_images old c' = volume_images old c"
  by (simp add: same_volume_def volume_images_def do_checksum_def)

lemma same_volume_ready: "same_volume c c' \<Longrightarrow> vol_ready old c \<Longrightarrow> vol_ready old c'"
  by (simp add: same_volume_def vol_ready_def do_checksum_def)

lemma status_same:
  assumes "get_status_priority st = 0"
  shows "same_volume c (sendJobStatus st c)"
proof -
  have "\<not> job_canceled_status (setJobStatus st x)" if "\<not> job_canceled_status x" for x
    using that assms by (auto simp: setJobStatus_def job_canceled_status_def get_status_priority_def)
  then show ?thesis by (simp add: same_volume_def sendJobStatus_def able_def job_canceled_def)
qed

lemma spooling_same: "same_volume c (c\<lparr>spooling := x\<rparr>)"
  by (simp add: same_volume_def able_def job_canceled_def)

lemma spooling_kept [simp]: "spooling (sendJobStatus st c) = spooling c" "spooling (set_new_file_parameters c) = spooling c"
  by (simp_all add: sendJobStatus_def set_new_file_parameters_def set_start_vol_position_def)

text \<open>The size of the blocks of the device.\<close>

definition spool_len :: "uint32_t \<Rightarrow> uint32_t" where
  "spool_len mb = (if mb = 0 then DEFAULT_BLOCK_SIZE else mb)"

lemma new_spool_buffer:
  assumes "\<forall>n. length (env_memory env n) = n" and "spool_len mb \<le> MAX_BLOCK_LENGTH"
  shows "spool_buffer (spool_len mb) (new_block mb 0 (env_memory env))"
  using assms by (simp add: spool_buffer_def spool_len_def new_block_def empty_block_def Let_def)

text \<open>
  A job that spools on a device with blocks of \<open>mb\<close> bytes and capabilities \<open>caps\<close> in session \<open>s\<close>: the device can take blocks, the system calls that read
  and truncate the spool file succeed, and memory is handed out in the size asked for.
\<close>

definition spool_base :: "sd_env \<Rightarrow> byte list \<Rightarrow> uint32_t \<Rightarrow> uint32_t \<Rightarrow> uint32_t \<Rightarrow> uint32_t \<times> uint32_t \<Rightarrow> SPOOL \<Rightarrow> bool" where
  "spool_base env old caps mb jid s sp \<longleftrightarrow> willing env \<and> (\<forall>n. length (env_memory env n) = n) \<and> spool_len mb \<le> MAX_BLOCK_LENGTH \<and>
     vol_ready old (sp_dcr sp) \<and> \<not> NewVol (sp_dcr sp) \<and> spooling (sp_dcr sp) \<and> capabilities (dev (sp_dcr sp)) = caps \<and>
     max_block_size (dev (sp_dcr sp)) = mb \<and> JobId (sp_dcr sp) = jid \<and> spool_reads sp = [] \<and> spool_truncs sp = [] \<and> jcr_session sp = s"

definition spool_contents :: "uint32_t \<Rightarrow> SPOOL \<Rightarrow> byte list list \<Rightarrow> bool" where
  "spool_contents mb sp bss \<longleftrightarrow> spool_blocks (big_endian sp) (spool_file sp) = Some bss \<and>
     (\<forall>bs \<in> set bss. 24 < length bs \<and> length bs \<le> unat (spool_len mb))"

lemma begin_despool_same:
  "same_volume (sp_dcr sp) (sp_dcr (begin_despool commit sp))" "\<not> spooling (sp_dcr (begin_despool commit sp))"
proof -
  let ?st = "if commit then JS_DataCommitting else JS_DataDespooling"
  have "get_status_priority ?st = 0" "get_status_priority JS_DataDespooling = 0" by (simp_all add: get_status_priority_def)
  from same_volume_trans [OF status_same [OF this(1)] status_same [OF this(2)]]
  show "same_volume (sp_dcr sp) (sp_dcr (begin_despool commit sp))"
    using same_volume_trans [OF _ same_volume_trans [OF spooling_same same_disk_volume [OF same_disk_fields(5)]]]
    by (simp add: begin_despool_def on_dcr_def Let_def)
  show "\<not> spooling (sp_dcr (begin_despool commit sp))" by (simp add: begin_despool_def on_dcr_def Let_def)
qed

lemma sp_dcr_simps [simp]:
  "sp_dcr (on_dcr f sp) = f (sp_dcr sp)" "sp_dcr (on_stats g sp) = sp_dcr sp" "sp_dcr (spool_truncate n sp) = sp_dcr sp"
  "sp_dcr (forget_spooled sp) = sp_dcr sp"
  by (simp_all add: on_dcr_def on_stats_def spool_truncate_def forget_spooled_def Let_def)

lemma end_despool_same:
  assumes "willing env"
  shows "same_volume (sp_dcr sp) (sp_dcr (end_despool env commit sp))" "spooling (sp_dcr (end_despool env commit sp))"
proof -
  obtain c1 where 1: "dir_create_jobmedia_record env False (sp_dcr sp) = (True, c1)" "same_disk (sp_dcr sp) c1"
    using jobmedia_willing [OF assms] by blast
  obtain c2 where 2: "flush_jobmedia_queue env c1 = (True, c2)" "same_disk c1 c2"
    using flush_jobmedia_willing [OF assms] by blast
  have st: "get_status_priority JS_Running = 0" by (simp add: get_status_priority_def)
  have e: "sp_dcr (end_despool env commit sp) = sendJobStatus JS_Running ((set_new_file_parameters c2)\<lparr>spooling := True\<rparr>)"
    unfolding end_despool_def 1(1) prod.case if_True by (simp add: Let_def 2(1))
  show "same_volume (sp_dcr sp) (sp_dcr (end_despool env commit sp))" unfolding e
    by (rule same_volume_trans [OF same_disk_volume [OF same_disk_trans [OF same_disk_trans [OF 1(2) 2(2)] same_disk_fields(5)]]
          same_volume_trans [OF spooling_same status_same [OF st]]])
  show "spooling (sp_dcr (end_despool env commit sp))" unfolding e by simp
qed

lemma end_despool_fields:
  assumes "spool_truncs sp = []"
  shows "spool_file (end_despool env commit sp) = []" "spool_pos (end_despool env commit sp) = 0"
    "spool_writes (end_despool env commit sp) = spool_writes sp" "spool_reads (end_despool env commit sp) = spool_reads sp"
    "spool_truncs (end_despool env commit sp) = []" "jcr_session (end_despool env commit sp) = jcr_session sp"
    "big_endian (end_despool env commit sp) = big_endian sp"
proof -
  obtain ok c where r: "dir_create_jobmedia_record env False (sp_dcr sp) = (ok, c)" by (metis surj_pair)
  define sp1 where "sp1 = (if ok then sp\<lparr>sp_dcr := c\<rparr> else fatal (sp\<lparr>sp_dcr := c\<rparr>))"
  have f: "spool_writes sp1 = spool_writes sp" "spool_reads sp1 = spool_reads sp" "spool_truncs sp1 = []" "jcr_session sp1 = jcr_session sp"
      "big_endian sp1 = big_endian sp"
    using assms by (simp_all add: sp1_def fatal_def on_dcr_def)
  show "spool_file (end_despool env commit sp) = []" "spool_pos (end_despool env commit sp) = 0"
    "spool_writes (end_despool env commit sp) = spool_writes sp" "spool_reads (end_despool env commit sp) = spool_reads sp"
    "spool_truncs (end_despool env commit sp) = []" "jcr_session (end_despool env commit sp) = jcr_session sp"
    "big_endian (end_despool env commit sp) = big_endian sp"
    unfolding end_despool_def r prod.case sp1_def [symmetric]
    using f by (simp_all add: Let_def on_dcr_def on_stats_def forget_spooled_def spool_truncate_def)
qed

lemma despool_data_ready:
  assumes b: "spool_base env old caps mb jid s sp" and c: "spool_contents mb sp bss"
  shows "\<exists>sp'. despool_data env forge_on commit sp = Some (Ret (True, sp')) \<and> spool_base env old caps mb jid s sp' \<and> spool_file sp' = [] \<and>
     spool_pos sp' = 0 \<and> spool_writes sp' = spool_writes sp \<and> big_endian sp' = big_endian sp \<and>
     volume_images old (sp_dcr sp') = volume_images old (sp_dcr sp) @ map (spooled_image s) bss"
proof -
  define sp1 where "sp1 = begin_despool commit sp"
  have f1: "spool_reads sp1 = []" "spool_truncs sp1 = []" "spool_pos sp1 = 0" "spool_file sp1 = spool_file sp" "big_endian sp1 = big_endian sp"
      "jcr_session sp1 = s" "spool_writes sp1 = spool_writes sp"
    using b by (simp_all add: sp1_def begin_despool_def Let_def on_dcr_def spool_base_def)
  have s1: "same_volume (sp_dcr sp) (sp_dcr sp1)" "\<not> spooling (sp_dcr sp1)" unfolding sp1_def by (rule begin_despool_same)+
  have w: "willing env" and mb: "max_block_size (dev (sp_dcr sp)) = mb" using b by (simp_all add: spool_base_def)
  have "disk_ready old (sp_dcr sp1)"
    using b s1 same_volume_ready [OF s1(1)] by (simp add: spool_base_def disk_ready_def same_volume_def)
  moreover have "spool_blocks (big_endian sp1) (drop (spool_pos sp1) (spool_file sp1)) = Some bss"
      "\<forall>bs \<in> set bss. 24 < length bs \<and> length bs \<le> unat (spool_len mb)"
    using c f1 by (simp_all add: spool_contents_def)
  moreover have "spool_buffer (spool_len mb) (new_block mb 0 (env_memory env))" using b by (intro new_spool_buffer) (simp_all add: spool_base_def)
  ultimately obtain d pos where l: "despool_loop env forge_on sp1 (new_block mb 0 (env_memory env)) = Some (Ret (True, sp1\<lparr>sp_dcr := d, spool_pos := pos\<rparr>))"
      "disk_ready old d" "volume_images old d = volume_images old (sp_dcr sp1) @ map (spooled_image (jcr_session sp1)) bss"
      "capabilities (dev d) = capabilities (dev (sp_dcr sp1))" "max_block_size (dev d) = max_block_size (dev (sp_dcr sp1))" "JobId d = JobId (sp_dcr sp1)"
    using despool_loop_writes [OF w _ f1(1), of old bss "spool_len mb" "new_block mb 0 (env_memory env)" forge_on] by blast
  define sp2 where "sp2 = sp1\<lparr>sp_dcr := d, spool_pos := pos\<rparr>"
  define sp3 where "sp3 = end_despool env commit sp2"
  have f2: "sp_dcr sp2 = d" "spool_truncs sp2 = []" "spool_reads sp2 = []" "jcr_session sp2 = s" "big_endian sp2 = big_endian sp"
      "spool_writes sp2 = spool_writes sp"
    using f1 by (simp_all add: sp2_def)
  have s3: "same_volume d (sp_dcr sp3)" "spooling (sp_dcr sp3)" using end_despool_same [OF w, where sp = sp2 and commit = commit] by (simp_all add: sp3_def f2(1))
  have f3: "spool_file sp3 = []" "spool_pos sp3 = 0" "spool_writes sp3 = spool_writes sp" "spool_reads sp3 = []" "spool_truncs sp3 = []"
      "jcr_session sp3 = s" "big_endian sp3 = big_endian sp"
    using end_despool_fields [OF f2(2), where env = env and commit = commit] f2 by (simp_all add: sp3_def)
  have "despool_data env forge_on commit sp = Some (Ret (True, sp3))"
    using l(1) by (simp add: despool_data_def mb sp1_def [symmetric] sp2_def [symmetric] sp3_def)
  moreover have "spool_base env old caps mb jid s sp3"
    using b s3 f3 l(2,4-6) s1(1) same_volume_ready [OF s3(1)] by (simp add: spool_base_def disk_ready_def same_volume_def)
  moreover have "volume_images old (sp_dcr sp3) = volume_images old (sp_dcr sp) @ map (spooled_image s) bss"
    using l(3) same_volume_images [OF s3(1)] same_volume_images [OF s1(1)] f1(6) by simp
  ultimately show ?thesis using f3 by blast
qed

section \<open>Spooling\<close>

text \<open>
  The results of writing to the spool file that spooling recovers from: everything is written, or a write is short because the disk is full, and after the
  contents of the spool file have gone to the device there is room for the block.
\<close>

fun lucky :: "write_result list \<Rightarrow> bool" where
  "lucky [] \<longleftrightarrow> True"
| "lucky (Write_all # ws) \<longleftrightarrow> lucky ws"
| "lucky (Write_part n # ws) \<longleftrightarrow> set (take 2 ws) \<subseteq> {Write_all} \<and> lucky ws"
| "lucky (Write_error e # ws) \<longleftrightarrow> False"

definition grow :: "write_result list \<Rightarrow> byte list \<Rightarrow> SPOOL \<Rightarrow> SPOOL" where
  "grow ws bs sp = sp\<lparr>spool_writes := ws, spool_file := spool_file sp @ bs, spool_pos := spool_pos sp + length bs\<rparr>"

lemma grow_simps [simp]:
  "spool_writes (grow ws bs sp) = ws" "spool_file (grow ws bs sp) = spool_file sp @ bs" "spool_pos (grow ws bs sp) = spool_pos sp + length bs"
  "big_endian (grow ws bs sp) = big_endian sp" "sp_dcr (grow ws bs sp) = sp_dcr sp" "jcr_session (grow ws bs sp) = jcr_session sp"
  "spool_truncs (grow ws bs sp) = spool_truncs sp" "grow ws' bs' (grow ws bs sp) = grow ws' (bs @ bs') sp"
  by (simp_all add: grow_def)

lemma spool_write_lucky:
  assumes "spool_pos sp = length (spool_file sp)" and "lucky (spool_writes sp)"
  shows "\<exists>ws k. spool_write bs sp = (int k, grow ws (take k bs) sp) \<and> k \<le> length bs \<and> lucky ws \<and>
     (k < length bs \<longrightarrow> set (take 2 ws) \<subseteq> {Write_all})"
proof (cases "spool_writes sp")
  case Nil
  then show ?thesis using assms by (intro exI [of _ "[]"] exI [of _ "length bs"]) (simp add: spool_write_def Let_def grow_def file_put_end)
next
  case (Cons r ws)
  show ?thesis
  proof (cases r)
    case Write_all
    then show ?thesis using assms Cons by (intro exI [of _ ws] exI [of _ "length bs"]) (simp add: spool_write_def Let_def grow_def file_put_end)
  next
    case (Write_part n)
    then show ?thesis using assms Cons
      by (intro exI [of _ ws] exI [of _ "min n (length bs)"]) (simp add: spool_write_def Let_def grow_def file_put_end min_def)
  next
    case (Write_error e)
    then show ?thesis using assms(2) Cons by simp
  qed
qed

lemma spool_write_all:
  assumes "spool_pos sp = length (spool_file sp)" and "set (take 1 (spool_writes sp)) \<subseteq> {Write_all}"
  shows "spool_write bs sp = (int (length bs), grow (tl (spool_writes sp)) bs sp)"
  using assms by (cases "spool_writes sp") (simp_all add: spool_write_def Let_def grow_def file_put_end)

text \<open>One pass of the loop: the block is at the end of the spool file, or a part of it.\<close>

lemma no_items: "filemedia b = [] \<Longrightarrow> write_spool_filemedia sp b = (0, 0, sp)"
  by (simp add: write_spool_filemedia_def)

lemma spool_attempt_lucky:
  assumes pos: "spool_pos sp = length (spool_file sp)" and l: "lucky (spool_writes sp)" and fm: "filemedia b = []"
    and len: "unat (binbuf b) \<le> length (buf b)"
  shows "(\<exists>ws. spool_attempt sp b = (Spooled, grow ws (spool_entry (big_endian sp) b) sp) \<and> lucky ws) \<or>
     (\<exists>ws k. spool_attempt sp b = (Short (int k), grow ws (take k (spool_entry (big_endian sp) b)) sp) \<and> lucky ws \<and>
        set (take 2 ws) \<subseteq> {Write_all} \<and> k \<le> length (spool_entry (big_endian sp) b))"
proof -
  define h where "h = spool_hdr_bytes (big_endian sp) (FirstIndex b) (LastIndex b) (binbuf b) 0"
  define d where "d = take (unat (binbuf b)) (buf b)"
  have e: "spool_entry (big_endian sp) b = h @ d" by (simp add: spool_entry_def h_def d_def)
  have lh: "length h = 16" and ld: "length d = unat (binbuf b)" using len by (simp_all add: h_def d_def)
  obtain ws k where 1: "spool_write h sp = (int k, grow ws (take k h) sp)" "k \<le> 16" "lucky ws" "k < 16 \<longrightarrow> set (take 2 ws) \<subseteq> {Write_all}"
    using spool_write_lucky [OF pos l, of h] unfolding lh by blast
  have hd: "write_spool_header sp b = (int k, 16, grow ws (take k h) sp)" by (simp add: write_spool_header_def fm h_def [symmetric] 1(1))
  show ?thesis
  proof (cases "k = 16")
    case False
    then have "spool_attempt sp b = (Short (int k), grow ws (take k (h @ d)) sp)" using 1(2) lh by (simp add: spool_attempt_def hd)
    then show ?thesis using 1(2-4) False lh unfolding e by auto
  next
    case True
    have h1: "take k h = h" using True lh by simp
    have "spool_pos (grow ws h sp) = length (spool_file (grow ws h sp))" "lucky (spool_writes (grow ws h sp))" using pos 1(3) by simp_all
    then obtain ws' j where 2: "spool_write d (grow ws h sp) = (int j, grow ws' (take j d) (grow ws h sp))" "j \<le> length d" "lucky ws'"
        "j < length d \<longrightarrow> set (take 2 ws') \<subseteq> {Write_all}"
      using spool_write_lucky by blast
    have dt: "write_spool_data (grow ws h sp) b = (int j, int (length d), grow ws' (h @ take j d) sp)"
      using 2(1) by (simp add: write_spool_data_def d_def [symmetric] ld)
    show ?thesis
    proof (cases "j = length d")
      case j: True
      then have "spool_attempt sp b = (Spooled, grow ws' (h @ d) sp)" using True hd h1 dt by (simp add: spool_attempt_def no_items [OF fm])
      then show ?thesis using 2(3) unfolding e by blast
    next
      case False
      then have "spool_attempt sp b = (Short (int (16 + j)), grow ws' (take (16 + j) (h @ d)) sp)"
        using True hd h1 dt lh by (simp add: spool_attempt_def)
      then show ?thesis using 2(2-4) False lh unfolding e by (intro disjI2 exI [of _ ws'] exI [of _ "16 + j"]) simp
    qed
  qed
qed

lemma spool_attempt_all:
  assumes pos: "spool_pos sp = length (spool_file sp)" and l: "lucky (spool_writes sp)" "set (take 2 (spool_writes sp)) \<subseteq> {Write_all}"
    and fm: "filemedia b = []" and len: "unat (binbuf b) \<le> length (buf b)"
  shows "\<exists>ws. spool_attempt sp b = (Spooled, grow ws (spool_entry (big_endian sp) b) sp) \<and> lucky ws"
proof -
  define h where "h = spool_hdr_bytes (big_endian sp) (FirstIndex b) (LastIndex b) (binbuf b) 0"
  define d where "d = take (unat (binbuf b)) (buf b)"
  let ?ws = "tl (spool_writes sp)"
  have ld: "length d = unat (binbuf b)" and lh: "length h = 16" using len by (simp_all add: d_def h_def)
  have two: "set (take 1 (spool_writes sp)) \<subseteq> {Write_all}" "set (take 1 ?ws) \<subseteq> {Write_all}" "lucky (tl ?ws)"
  proof -
    consider "spool_writes sp = []" | "spool_writes sp = [Write_all]" | ws where "spool_writes sp = Write_all # Write_all # ws"
      using l(2) by (cases "spool_writes sp"; cases "tl (spool_writes sp)") auto
    then have "set (take 1 (spool_writes sp)) \<subseteq> {Write_all} \<and> set (take 1 ?ws) \<subseteq> {Write_all} \<and> lucky (tl ?ws)" using l(1) by cases simp_all
    then show "set (take 1 (spool_writes sp)) \<subseteq> {Write_all}" "set (take 1 ?ws) \<subseteq> {Write_all}" "lucky (tl ?ws)" by blast+
  qed
  have "write_spool_header sp b = (16, 16, grow ?ws h sp)"
    using spool_write_all [OF pos two(1), of h] lh by (simp add: write_spool_header_def fm h_def [symmetric])
  moreover have "write_spool_data (grow ?ws h sp) b = (int (length d), int (length d), grow (tl ?ws) (h @ d) sp)"
    using spool_write_all [of "grow ?ws h sp" d] pos two(2) by (simp add: write_spool_data_def d_def [symmetric] ld)
  ultimately have "spool_attempt sp b = (Spooled, grow (tl ?ws) (h @ d) sp)" by (simp add: spool_attempt_def no_items [OF fm])
  then show ?thesis using two(3) by (auto simp: spool_entry_def h_def d_def)
qed

text \<open>The state between two blocks, and the blocks of the job: first those on the volume, then those in the spool file.\<close>

definition spool_ready :: "sd_env \<Rightarrow> byte list \<Rightarrow> uint32_t \<Rightarrow> uint32_t \<Rightarrow> uint32_t \<Rightarrow> uint32_t \<times> uint32_t \<Rightarrow> SPOOL \<Rightarrow> bool" where
  "spool_ready env old caps mb jid s sp \<longleftrightarrow> spool_base env old caps mb jid s sp \<and> lucky (spool_writes sp) \<and> spool_pos sp = length (spool_file sp) \<and>
     (\<exists>bss. spool_contents mb sp bss)"

definition spool_images :: "byte list \<Rightarrow> SPOOL \<Rightarrow> image list" where
  "spool_images old sp = volume_images old (sp_dcr sp) @
     map (spooled_image (jcr_session sp)) (case spool_blocks (big_endian sp) (spool_file sp) of None \<Rightarrow> [] | Some bss \<Rightarrow> bss)"

lemma spool_images_contents: "spool_contents mb sp bss \<Longrightarrow> spool_images old sp = volume_images old (sp_dcr sp) @ map (spooled_image (jcr_session sp)) bss"
  by (simp add: spool_images_def spool_contents_def)

lemma spool_base_grow [simp]: "spool_base env old caps mb jid s (grow ws bs sp) = spool_base env old caps mb jid s sp"
  by (simp add: spool_base_def grow_def)

lemma spool_base_session: "spool_base env old caps mb jid s sp \<Longrightarrow> jcr_session sp = s"
  by (simp add: spool_base_def)

lemma despool_ready:
  assumes "spool_base env old caps mb jid s sp" and "spool_contents mb sp bss" and "lucky (spool_writes sp)"
  shows "\<exists>sp'. despool_data env forge_on commit sp = Some (Ret (True, sp')) \<and> spool_ready env old caps mb jid s sp' \<and>
     spool_writes sp' = spool_writes sp \<and> spool_images old sp' = spool_images old sp \<and> spool_file sp' = []"
proof -
  obtain sp' where d: "despool_data env forge_on commit sp = Some (Ret (True, sp'))" "spool_base env old caps mb jid s sp'" "spool_file sp' = []"
      "spool_pos sp' = 0" "spool_writes sp' = spool_writes sp" "big_endian sp' = big_endian sp"
      "volume_images old (sp_dcr sp') = volume_images old (sp_dcr sp) @ map (spooled_image s) bss"
    using despool_data_ready [OF assms(1,2)] by blast
  have c: "spool_contents mb sp' []" using d(3) by (simp add: spool_contents_def)
  then have "spool_images old sp' = spool_images old sp"
    using d(7) spool_images_contents [OF c] spool_images_contents [OF assms(2)] spool_base_session [OF assms(1)] by simp
  then show ?thesis using d(1-5) c assms(3) by (intro exI [of _ sp']) (auto simp: spool_ready_def)
qed

lemma spooled_ready:
  assumes r: "spool_ready env old caps mb jid s sp" and l: "lucky ws" and wf: "block_wf b" and ne: "payload b \<noteq> []" and sz: "buf_len b \<le> spool_len mb"
    and se: "(VolSessionId b, VolSessionTime b) = s"
  defines "sp' \<equiv> grow ws (spool_entry (big_endian sp) b) sp"
  shows "spool_ready env old caps mb jid s sp' \<and> spool_images old sp' = spool_images old sp @ [image_of b]"
proof -
  obtain bss where c: "spool_contents mb sp bss" using r by (auto simp: spool_ready_def)
  let ?d = "take (unat (binbuf b)) (buf b)"
  have w: "unat (binbuf b) \<le> length (buf b)" "24 < unat (binbuf b)" "unat (binbuf b) \<le> unat (spool_len mb)"
    using block_wfD [OF wf] ne sz by (auto simp: payload_def word_le_nat_alt)
  have "spool_blocks (big_endian sp) (spool_file sp @ spool_entry (big_endian sp) b) = Some (bss @ [?d])"
    using c by (intro spool_blocks_append first_spooled_entry [OF w(1)]) (simp add: spool_contents_def)
  then have c': "spool_contents mb sp' (bss @ [?d])" using c w by (auto simp: spool_contents_def sp'_def)
  have "jcr_session sp = s" using r by (simp add: spool_ready_def spool_base_def)
  then have "spool_images old sp' = spool_images old sp @ [image_of b]"
    unfolding spool_images_contents [OF c'] spool_images_contents [OF c] by (simp add: sp'_def image_of_def spooled_image_def payload_def se)
  moreover have "spool_ready env old caps mb jid s sp'" using r l c' by (auto simp: spool_ready_def sp'_def)
  ultimately show ?thesis by simp
qed

lemma write_spool_block_ready:
  assumes r: "spool_ready env old caps mb jid s sp" and wf: "block_wf b" and ne: "payload b \<noteq> []" and sz: "buf_len b \<le> spool_len mb"
    and fm: "filemedia b = []" and se: "(VolSessionId b, VolSessionTime b) = s"
  shows "\<exists>sp'. write_spool_block env forge_on sp b = Some (Ret (True, sp')) \<and> spool_ready env old caps mb jid s sp' \<and>
     spool_images old sp' = spool_images old sp @ [image_of b]"
proof -
  have base: "spool_base env old caps mb jid s sp" "spool_pos sp = length (spool_file sp)" "lucky (spool_writes sp)" using r by (simp_all add: spool_ready_def)
  obtain bss where c: "spool_contents mb sp bss" using r by (auto simp: spool_ready_def)
  have len: "unat (binbuf b) \<le> length (buf b)" using block_wfD [OF wf] by simp
  let ?e = "spool_entry (big_endian sp) b"
  consider (all) ws where "spool_attempt sp b = (Spooled, grow ws ?e sp)" "lucky ws"
    | (short) ws k where "spool_attempt sp b = (Short (int k), grow ws (take k ?e) sp)" "lucky ws" "set (take 2 ws) \<subseteq> {Write_all}" "k \<le> length ?e"
    using spool_attempt_lucky [OF base(2,3) fm len] by blast
  then show ?thesis
  proof cases
    case all
    then have "write_spool_block env forge_on sp b = Some (Ret (True, grow ws ?e sp))" by (simp add: write_spool_block_def)
    then show ?thesis using spooled_ready [OF r all(2) wf ne sz se] by blast
  next
    case short
    have "\<exists>sp1. (if 0 < int k then rewind_spoolfile env forge_on (int k) (grow ws (take k ?e) sp) else Some (Ret (True, grow ws (take k ?e) sp)))
        = Some (Ret (True, sp1)) \<and> spool_ready env old caps mb jid s sp1 \<and> spool_writes sp1 = ws \<and> spool_images old sp1 = spool_images old sp"
    proof (cases "k = 0")
      case True
      have "spool_ready env old caps mb jid s (grow ws [] sp)" "spool_images old (grow ws [] sp) = spool_images old sp"
        using r short(2) by (auto simp: spool_ready_def spool_contents_def spool_images_def)
      then show ?thesis using True by (intro exI [of _ "grow ws [] sp"]) simp
    next
      case False
      define sp1 where "sp1 = spool_truncate (spool_pos (grow ws (take k ?e) sp) - k) (grow ws (take k ?e) sp)"
      have "spool_truncs sp = []" using base(1) by (simp add: spool_base_def)
      then have t: "sp1 = (grow ws (take k ?e) sp)\<lparr>spool_file := spool_file sp\<rparr>"
        using base(2) short(4) by (simp add: sp1_def spool_truncate_def Let_def grow_def)
      have "spool_base env old caps mb jid s sp1" "spool_contents mb sp1 bss" "spool_writes sp1 = ws" "spool_images old sp1 = spool_images old sp"
        using base(1) c by (simp_all add: t spool_base_def spool_contents_def grow_def spool_images_def)
      then obtain sp2 where "despool_data env forge_on False sp1 = Some (Ret (True, sp2))" "spool_ready env old caps mb jid s sp2" "spool_writes sp2 = ws"
          "spool_images old sp2 = spool_images old sp"
        using despool_ready [of env old caps mb jid s sp1 bss forge_on False] short(2) by auto
      moreover have "rewind_spoolfile env forge_on (int k) (grow ws (take k ?e) sp) = Some (Ret (True, sp2))"
        using False calculation(1) unfolding rewind_spoolfile_def nat_int sp1_def [symmetric] by simp
      ultimately show ?thesis using False by (intro exI [of _ sp2]) simp
    qed
    then obtain sp1 where 1: "(if 0 < int k then rewind_spoolfile env forge_on (int k) (grow ws (take k ?e) sp)
        else Some (Ret (True, grow ws (take k ?e) sp))) = Some (Ret (True, sp1))"
        "spool_ready env old caps mb jid s sp1" "spool_writes sp1 = ws" "spool_images old sp1 = spool_images old sp"
      by (elim exE conjE)
    obtain ws' where 2: "spool_attempt sp1 b = (Spooled, grow ws' (spool_entry (big_endian sp1) b) sp1)" "lucky ws'"
      using spool_attempt_all [OF _ _ _ fm len, of sp1] 1(2,3) short(2,3) by (auto simp: spool_ready_def)
    have "write_spool_block env forge_on sp b = Some (Ret (True, grow ws' (spool_entry (big_endian sp1) b) sp1))"
      unfolding write_spool_block_def short(1) by (simp only: prod.case attempt.case 1(1) option.case outcome.case bool.case 2(1) if_True refl)
    then show ?thesis using spooled_ready [OF 1(2) 2(2) wf ne sz se] 1(4) by auto
  qed
qed

lemma count_ready [simp]:
  "spool_ready env old caps mb jid s (count_spooled n sp) = spool_ready env old caps mb jid s sp" "spool_images old (count_spooled n sp) = spool_images old sp"
  "spool_ready env old caps mb jid s (on_stats f sp) = spool_ready env old caps mb jid s sp" "spool_images old (on_stats f sp) = spool_images old sp"
  by (simp_all add: count_spooled_def on_stats_def spool_ready_def spool_base_def spool_contents_def spool_images_def)

lemma spool_ready_not_canceled: "spool_ready env old caps mb jid s sp \<Longrightarrow> \<not> job_canceled (sp_dcr sp)"
  by (simp add: spool_ready_def spool_base_def vol_ready_def able_def)

lemma write_spooling_ready:
  assumes r: "spool_ready env old caps mb jid s sp" and wf: "block_wf b" and ne: "\<not> is_block_empty b" and sz: "buf_len b \<le> spool_len mb"
    and fm: "filemedia b = []" and se: "(VolSessionId b, VolSessionTime b) = s"
  shows "\<exists>sp' b'. write_block_spooling env forge_on final sp b = Some (Ret (True, sp', b')) \<and> spool_ready env old caps mb jid s sp' \<and>
     spool_images old sp' = spool_images old sp @ [image_of b] \<and> emptied b b'"
proof -
  define n :: int64_t where "n = ucast (16 + binbuf b)"
  define despool where "despool = spool_limit (count_spooled n sp)"
  define sp1 where "sp1 = on_stats (count_stats n) (count_spooled n sp)"
  have r1: "spool_ready env old caps mb jid s sp1" "spool_images old sp1 = spool_images old sp" using r by (simp_all add: sp1_def)
  have big: "\<not> binbuf b \<le> of_nat BLKHDR2_LENGTH" and pl: "payload b \<noteq> []"
    using ne block_wfD [OF wf] by (auto simp: is_block_empty_def payload_def BLKHDR2_LENGTH_def word_le_nat_alt)
  have "\<exists>sp2. (if despool then despool_data env forge_on False sp1 else Some (Ret (True, sp1))) = Some (Ret (True, sp2)) \<and>
      spool_ready env old caps mb jid s sp2 \<and> spool_images old sp2 = spool_images old sp"
  proof (cases despool)
    case True
    obtain bss where "spool_base env old caps mb jid s sp1" "spool_contents mb sp1 bss" "lucky (spool_writes sp1)" using r1(1) by (auto simp: spool_ready_def)
    then show ?thesis using despool_ready [of env old caps mb jid s sp1 bss forge_on False] r1(2) True by auto
  next
    case False
    then show ?thesis using r1 by (intro exI [of _ sp1]) simp
  qed
  then obtain sp2 where 2: "(if despool then despool_data env forge_on False sp1 else Some (Ret (True, sp1))) = Some (Ret (True, sp2))"
      "spool_ready env old caps mb jid s sp2" "spool_images old sp2 = spool_images old sp"
    by (elim exE conjE)
  define sp3 where "sp3 = (if despool then count_spooled n sp2 else sp2)"
  have r3: "spool_ready env old caps mb jid s sp3" "spool_images old sp3 = spool_images old sp" using 2(2,3) by (simp_all add: sp3_def)
  obtain sp4 where 4: "write_spool_block env forge_on sp3 b = Some (Ret (True, sp4))" "spool_ready env old caps mb jid s sp4"
      "spool_images old sp4 = spool_images old sp3 @ [image_of b]"
    using write_spool_block_ready [OF r3(1) wf pl sz fm se] by blast
  have "write_block_to_spool_file env forge_on sp b = Some (Ret (True, sp4, empty_block b))"
    unfolding write_block_to_spool_file_def Let_def n_def [symmetric] despool_def [symmetric] sp1_def [symmetric] 2(1) option.case outcome.case prod.case bool.case
      sp3_def [symmetric] 4(1)
    using spool_ready_not_canceled [OF r] big block_wfD(3) [OF wf] by simp
  moreover have "spooling (sp_dcr sp)" using r by (simp add: spool_ready_def spool_base_def)
  ultimately have "write_block_spooling env forge_on final sp b = Some (Ret (True, sp4, empty_block b))" by (simp add: write_block_spooling_def)
  then show ?thesis using 4(2,3) r3(2) empty_block_emptied [OF wf] by (intro exI [of _ sp4] exI [of _ "empty_block b"]) simp
qed

interpretation spool: block_sink "write_block_spooling env forge_on False" "\<lambda>sp. job_canceled (sp_dcr sp)" "spool_ready env old caps mb jid s"
  "spool_images old" "\<lambda>s' fm n. s' = s \<and> fm = [] \<and> n \<le> spool_len mb" for env forge_on old caps mb jid s
  using write_spooling_ready by unfold_locales (auto dest: spool_ready_not_canceled)

section \<open>A spooled job\<close>

text \<open>The records of a job, its last block and the end of spooling as \<^verbatim>\<open>do_append_data\<close> does them, beside the socket and the session labels.\<close>

fun spool_records :: "sd_env \<Rightarrow> bool \<Rightarrow> uint32_t \<times> uint32_t \<Rightarrow> SPOOL \<Rightarrow> DEV_BLOCK \<Rightarrow> app_record list \<Rightarrow> (bool \<times> SPOOL \<times> DEV_BLOCK) outcome option" where
  "spool_records env forge_on s sp block [] = write_block_spooling env forge_on True sp block"
| "spool_records env forge_on s sp block (r # rs) =
     (case write_record (write_block_spooling env forge_on False) (\<lambda>sp. job_canceled (sp_dcr sp)) False sp block (app_packet s r) of
        None \<Rightarrow> None
      | Some (Dies e) \<Rightarrow> Some (Dies e)
      | Some (Ret (ok, sp, block, rec)) \<Rightarrow> if ok then spool_records env forge_on s sp block rs else Some (Ret (False, sp, block)))"

definition spool_job :: "sd_env \<Rightarrow> bool \<Rightarrow> bool \<Rightarrow> uint32_t \<times> uint32_t \<Rightarrow> SPOOL \<Rightarrow> DEV_BLOCK \<Rightarrow> app_record list \<Rightarrow> (bool \<times> SPOOL) outcome option" where
  "spool_job env forge_on opened s sp block rs =
     (case spool_records env forge_on s (snd (begin_data_spool opened sp)) block rs of
        None \<Rightarrow> None
      | Some (Dies e) \<Rightarrow> Some (Dies e)
      | Some (Ret (ok, sp, block)) \<Rightarrow>
          (let sp = on_dcr (\<lambda>dcr. snd (flush_jobmedia_queue env dcr)) sp
           in if ok then commit_data_spool env forge_on sp else Some (Ret (False, snd (discard_data_spool sp)))))"

abbreviation spool_holds :: "sd_env \<Rightarrow> byte list \<Rightarrow> uint32_t \<Rightarrow> uint32_t \<Rightarrow> uint32_t \<Rightarrow> uint32_t \<times> uint32_t \<Rightarrow> SPOOL \<Rightarrow> DEV_BLOCK \<Rightarrow> app_record list \<Rightarrow> bool" where
  "spool_holds env old caps mb jid s sp b out \<equiv>
     block_sink.holds (spool_ready env old caps mb jid s) (spool_images old) (\<lambda>s' fm n. s' = s \<and> fm = [] \<and> n \<le> spool_len mb) s sp b out None"

lemma spool_holds_flush:
  assumes h: "spool_holds env old caps mb jid s sp b out"
  shows "\<exists>sp' b'. write_block_spooling env forge_on True sp b = Some (Ret (True, sp', b')) \<and> spool_holds env old caps mb jid s sp' b' out \<and>
     payload b' = [] \<and> buf_len b' = buf_len b"
proof (cases "payload b = []")
  case False
  have "write_block_spooling env forge_on True sp b = write_block_spooling env forge_on False sp b"
    using h by (simp add: write_block_spooling_def spool.holds_def spool_ready_def spool_base_def)
  then show ?thesis using spool.flush_holds [OF h False] by metis
next
  case True
  have r: "spool_ready env old caps mb jid s sp" "block_wf b" using h by (simp_all add: spool.holds_def)
  have "binbuf b \<le> of_nat BLKHDR2_LENGTH" using block_wfD [OF r(2)] True by (simp add: payload_def BLKHDR2_LENGTH_def word_le_nat_alt)
  then have "write_block_spooling env forge_on True sp b = Some (Ret (True, sp, b))"
    using r spool_ready_not_canceled [OF r(1)] block_wfD(3) [OF r(2)]
    by (simp add: write_block_spooling_def write_block_to_spool_file_def spool_ready_def spool_base_def)
  then show ?thesis using h True by blast
qed

lemma spool_records_hold:
  assumes "spool_holds env old caps mb jid s sp b out" and "list_all client_record rs" and "36 < unat (buf_len b)"
  shows "\<exists>sp' b'. spool_records env forge_on s sp b rs = Some (Ret (True, sp', b')) \<and> spool_holds env old caps mb jid s sp' b' (out @ rs) \<and>
     payload b' = [] \<and> buf_len b' = buf_len b"
  using assms
proof (induction rs arbitrary: sp b out)
  case Nil
  then show ?case using spool_holds_flush by simp
next
  case (Cons r rs)
  have cl: "client_record r" "list_all client_record rs" using Cons.prems(2) by simp_all
  obtain sp1 b1 r1 where w: "write_record (write_block_spooling env forge_on False) (\<lambda>sp. job_canceled (sp_dcr sp)) False sp b (app_packet s r)
      = Some (Ret (True, sp1, b1, r1))" "spool_holds env old caps mb jid s sp1 b1 (out @ [r])" "buf_len b1 = buf_len b"
    using spool.write_record_finishes [OF app_packet_writable(1) [OF cl(1)] Cons.prems(1,3) app_packet_writable(2) [OF cl(1)], of forge_on]
      app_packet_writable(4) [OF cl(1)] app_packet_writable(3) [OF cl(1)] unfolding spool.finishes_def by auto
  obtain sp2 b2 where "spool_records env forge_on s sp1 b1 rs = Some (Ret (True, sp2, b2))" "spool_holds env old caps mb jid s sp2 b2 ((out @ [r]) @ rs)"
      "payload b2 = []" "buf_len b2 = buf_len b1"
    using Cons.IH [OF w(2) cl(2)] Cons.prems(3) w(3) by auto
  then show ?case using w(1,3) by (intro exI [of _ sp2] exI [of _ b2]) simp
qed

lemma spool_ready_same:
  assumes "same_disk (sp_dcr sp) c" and "spool_ready env old caps mb jid s sp"
  shows "spool_ready env old caps mb jid s (sp\<lparr>sp_dcr := c\<rparr>)" "spool_images old (sp\<lparr>sp_dcr := c\<rparr>) = spool_images old sp"
  using assms same_disk_vol_ready [OF assms(1)] same_disk_images [OF assms(1)]
  by (simp_all add: spool_ready_def spool_base_def spool_contents_def spool_images_def same_disk_def)

lemma commit_ready:
  assumes "spool_ready env old caps mb jid s sp"
  shows "\<exists>sp'. commit_data_spool env forge_on (on_dcr (\<lambda>dcr. snd (flush_jobmedia_queue env dcr)) sp) = Some (Ret (True, sp')) \<and>
     disk_ready old (sp_dcr sp') \<and> capabilities (dev (sp_dcr sp')) = caps \<and> volume_images old (sp_dcr sp') = spool_images old sp"
proof -
  have w: "willing env" using assms by (simp add: spool_ready_def spool_base_def)
  obtain c where f: "flush_jobmedia_queue env (sp_dcr sp) = (True, c)" "same_disk (sp_dcr sp) c" using flush_jobmedia_willing [OF w] by blast
  define sp1 where "sp1 = sp\<lparr>sp_dcr := c\<rparr>"
  have e: "on_dcr (\<lambda>dcr. snd (flush_jobmedia_queue env dcr)) sp = sp1" by (simp add: on_dcr_def f(1) sp1_def)
  have 1: "spool_ready env old caps mb jid s sp1" "spool_images old sp1 = spool_images old sp"
    unfolding sp1_def by (rule spool_ready_same [OF f(2) assms])+
  then obtain bss where "spool_base env old caps mb jid s sp1" "spool_contents mb sp1 bss" "lucky (spool_writes sp1)" by (auto simp: spool_ready_def)
  then obtain sp2 where 2: "despool_data env forge_on True sp1 = Some (Ret (True, sp2))" "spool_ready env old caps mb jid s sp2"
      "spool_images old sp2 = spool_images old sp1" "spool_file sp2 = []"
    using despool_ready [of env old caps mb jid s sp1 bss forge_on True] by blast
  have cl: "sp_dcr (snd (close_data_spool_file sp2)) = (sp_dcr sp2)\<lparr>spooling := False\<rparr>" "fst (close_data_spool_file sp2)"
    by (simp_all add: close_data_spool_file_def Let_def)
  have sp: "spooling (sp_dcr sp1)" using 1(1) by (simp add: spool_ready_def spool_base_def)
  have "commit_data_spool env forge_on sp1 = Some (Ret (True, snd (close_data_spool_file sp2)))"
    using sp 2(1) cl(2) by (simp add: commit_data_spool_def prod_eq_iff)
  moreover have "disk_ready old ((sp_dcr sp2)\<lparr>spooling := False\<rparr>)"
    using 2(2) same_volume_ready [OF spooling_same] by (simp add: disk_ready_def spool_ready_def spool_base_def)
  moreover have "volume_images old ((sp_dcr sp2)\<lparr>spooling := False\<rparr>) = spool_images old sp"
    using same_volume_images [OF spooling_same] 2(3,4) 1(2) by (simp add: spool_images_def)
  moreover have "capabilities (dev (sp_dcr sp2)) = caps" using 2(2) by (simp add: spool_ready_def spool_base_def)
  ultimately show ?thesis unfolding e by (intro exI [of _ "snd (close_data_spool_file sp2)"]) (simp add: cl(1))
qed

text \<open>A job about to spool: the spool file can be opened, and the device is one that is spooled for.\<close>

definition will_spool :: "sd_env \<Rightarrow> SPOOL \<Rightarrow> bool" where
  "will_spool env sp \<longleftrightarrow> willing env \<and> (\<forall>n. length (env_memory env n) = n) \<and> disk_ready (volume (sp_dcr sp)) (sp_dcr sp) \<and>
     spool_len (max_block_size (dev (sp_dcr sp))) \<le> MAX_BLOCK_LENGTH \<and> \<not> is_aligned (dev (sp_dcr sp)) \<and> dev_type (dev (sp_dcr sp)) \<noteq> B_DEDUP_DEV \<and>
     jcr_spool_data sp \<and> lucky (spool_writes sp) \<and> spool_reads sp = [] \<and> spool_truncs sp = []"

lemma begin_spool_ready:
  assumes "will_spool env sp"
  shows "let c = sp_dcr sp; sp' = snd (begin_data_spool True sp)
    in spool_ready env (volume c) (capabilities (dev c)) (max_block_size (dev c)) (JobId c) (jcr_session sp) sp' \<and> spool_images (volume c) sp' = []"
proof -
  let ?c = "sp_dcr sp" and ?sp = "snd (begin_data_spool True sp)"
  have f: "sp_dcr ?sp = ?c\<lparr>spooling := True\<rparr>" "spool_file ?sp = []" "spool_pos ?sp = 0" "spool_writes ?sp = spool_writes sp" "spool_reads ?sp = []"
      "spool_truncs ?sp = []" "jcr_session ?sp = jcr_session sp"
    using assms by (simp_all add: begin_data_spool_def open_data_spool_file_def will_spool_def on_dcr_def on_stats_def)
  have "vol_ready (volume ?c) (?c\<lparr>spooling := True\<rparr>)" "volume_images (volume ?c) (?c\<lparr>spooling := True\<rparr>) = []"
    using assms same_volume_ready [OF spooling_same] by (simp_all add: will_spool_def disk_ready_def volume_images_def)
  then show ?thesis
    using assms f by (simp add: Let_def spool_ready_def spool_base_def spool_contents_def spool_images_def will_spool_def disk_ready_def)
qed

text \<open>
  C2: Backup through a spool file and restore. A job with data spooling is written as in \<open>backup_restore\<close>, but its blocks go to the spool file and from there
  to the disk volume: at the end of the job, whenever the limit of the job or of the device on spooled data is reached, whatever these limits are, and
  whenever a write to the spool file is short because its disk is full. The job is reported as written, the old contents of the volume are unchanged, and a
  reader positioned where the job began gets exactly the records of the job in order.
\<close>

theorem spooled_backup_restore:
  assumes "will_spool env sp" and "jcr_session sp = s" and "block_wf b" and "payload b = []" and "filemedia b = []"
    and "36 < unat (buf_len b)" and "buf_len b \<le> spool_len (max_block_size (dev (sp_dcr sp)))" and "list_all client_record rs"
  shows "\<exists>sp1. spool_job env forge_on True s sp b rs = Some (Ret (True, sp1)) \<and>
     take (length (volume (sp_dcr sp))) (volume (sp_dcr sp1)) = volume (sp_dcr sp) \<and>
     (\<forall>c2 rb. restore_from (volume (sp_dcr sp)) (volume (sp_dcr sp1)) (dev (sp_dcr sp)) (buf_len b) c2 rb \<longrightarrow>
        (\<exists>c3 b3. read_records env forge_on collector [] c2 rb = Some (Ret (True, rs @ [(EOT_LABEL, 0, [])], c3, b3))))"
proof -
  let ?c = "sp_dcr sp"
  let ?old = "volume ?c" and ?caps = "capabilities (dev ?c)" and ?mb = "max_block_size (dev ?c)"
  define sp0 where "sp0 = snd (begin_data_spool True sp)"
  have r0: "spool_ready env ?old ?caps ?mb (JobId ?c) s sp0" "spool_images ?old sp0 = []"
    using begin_spool_ready [OF assms(1)] assms(2) by (simp_all add: Let_def sp0_def)
  have h0: "spool_holds env ?old ?caps ?mb (JobId ?c) s sp0 b []" using r0 assms(3-5,7) stored_Nil by (auto simp: spool.holds_def)
  obtain sp1 b1 where 1: "spool_records env forge_on s sp0 b rs = Some (Ret (True, sp1, b1))" "spool_holds env ?old ?caps ?mb (JobId ?c) s sp1 b1 rs" "payload b1 = []"
      "buf_len b1 = buf_len b"
    using spool_records_hold [OF h0 assms(8,6), of forge_on] by auto
  have r1: "spool_ready env ?old ?caps ?mb (JobId ?c) s sp1" using 1(2) by (simp add: spool.holds_def)
  obtain sp2 where 2: "commit_data_spool env forge_on (on_dcr (\<lambda>dcr. snd (flush_jobmedia_queue env dcr)) sp1) = Some (Ret (True, sp2))"
      "disk_ready ?old (sp_dcr sp2)" "capabilities (dev (sp_dcr sp2)) = ?caps" "volume_images ?old (sp_dcr sp2) = spool_images ?old sp1"
    using commit_ready [OF r1] by blast
  have "job_holds ?old ?caps s (sp_dcr sp2) b1 rs" using 1(2) 2(2-4) unfolding spool.holds_def job_holds_def by simp
  note rd = job_holds_read [OF this 1(3) clients_readable [OF assms(8)] _ refl]
  have "spool_job env forge_on True s sp b rs = Some (Ret (True, sp2))" using 1(1) 2(1) by (simp add: spool_job_def sp0_def)
  moreover have "take (length ?old) (volume (sp_dcr sp2)) = ?old" using 2(2) by (simp add: disk_ready_def vol_ready_def)
  ultimately show ?thesis using rd 1(4) by (intro exI [of _ sp2]) simp
qed

section \<open>The space that is counted\<close>

definition same_size :: "SPOOL \<Rightarrow> SPOOL \<Rightarrow> bool" where
  "same_size sp sp' \<longleftrightarrow> spool_size sp' = spool_size sp \<and> job_spool_size sp' = job_spool_size sp"

lemma same_size_trans: "same_size sp sp' \<Longrightarrow> same_size sp' sp'' \<Longrightarrow> same_size sp sp''"
  by (simp add: same_size_def)

lemma same_size_simps [simp]: "same_size sp sp" "same_size sp (fatal sp') = same_size sp sp'" "same_size sp (sp'\<lparr>sp_dcr := c\<rparr>) = same_size sp sp'"
  by (simp_all add: same_size_def fatal_def on_dcr_def)

lemma spool_read_size: "spool_read n sp = (stat, bs, sp') \<Longrightarrow> same_size sp sp'"
  by (cases "spool_reads sp"; cases "hd (spool_reads sp)") (auto simp: spool_read_def same_size_def Let_def)

lemma read_items_size: "read_items n sp b = (rc, sp', b') \<Longrightarrow> same_size sp sp'"
proof (induction n arbitrary: sp b)
  case (Suc n)
  obtain stat bs sp1 where r: "spool_read 48 sp = (stat, bs, sp1)" by (metis surj_pair)
  have s1: "same_size sp sp1" by (rule spool_read_size [OF r])
  show ?case
  proof (cases "stat = 48")
    case True
    have "\<exists>b1. read_items n sp1 b1 = (rc, sp', b')" using Suc.prems True unfolding read_items.simps r prod.case Let_def by (auto simp only: simp_thms if_False)
    then show ?thesis using Suc.IH same_size_trans [OF s1] by blast
  next
    case False
    then show ?thesis using Suc.prems s1 by (auto simp: r)
  qed
qed simp

lemma read_block_size:
  assumes "read_block_from_spool_file sp b = Ret (rc, sp', b')"
  shows "same_size sp sp'"
proof -
  obtain stat hdr sp1 where r: "spool_read 16 sp = (stat, hdr, sp1)" by (metis surj_pair)
  define word where "word = (\<lambda>off. of_host_bytes (big_endian sp1) (take 4 (drop off hdr)) :: uint32_t)"
  obtain stat2 bs sp2 where r2: "spool_read (unat (word 8)) sp1 = (stat2, bs, sp2)" by (metis surj_pair)
  have s: "same_size sp sp1" "same_size sp sp2" using spool_read_size [OF r] same_size_trans [OF spool_read_size [OF r] spool_read_size [OF r2]] by simp_all
  have step: "(rc, sp', b') = (RB_EOT, sp1, b) \<or> (rc, sp', b') = (RB_ERROR, fatal sp1, b) \<or> sp' = fatal sp2 \<or> (\<exists>n b1. read_items n sp2 b1 = (rc, sp', b'))"
    using assms unfolding read_block_from_spool_file_def r prod.case Let_def word_def [symmetric, THEN fun_cong] r2
    by (cases "mem_write (buf b) 0 bs") (auto split: if_splits)
  then show ?thesis using s read_items_size same_size_trans [OF s(2)] by auto
qed

lemma despool_loop_size: "despool_loop env forge_on sp b = Some y \<Longrightarrow> y = Ret (ok, sp') \<Longrightarrow> same_size sp sp'"
proof (induction arbitrary: ok sp' rule: despool_loop.raw_induct [rotated, consumes 1])
  case (1 despool_loop env forge_on sp b y)
  obtain rc sp1 b1 where r: "read_block_from_spool_file sp b = Ret (rc, sp1, b1)" using 1(2,3) by (auto split: outcome.splits)
  have s: "same_size sp sp1" by (rule read_block_size [OF r])
  show ?case
  proof (cases rc)
    case RB_OK
    then obtain k c b2 where w: "write_block_to_device env forge_on False (sp_dcr sp1) b1 = Some (Ret (k, c, b2))"
      using 1(2,3) r by (auto split: option.splits outcome.splits)
    have "sp' = sp1\<lparr>sp_dcr := c\<rparr> \<or> sp' = fatal (sp1\<lparr>sp_dcr := c\<rparr>) \<or> despool_loop env forge_on (sp1\<lparr>sp_dcr := c\<rparr>) b2 = Some (Ret (ok, sp'))"
      using 1(2,3) r RB_OK w by (auto split: if_splits)
    then show ?thesis
    proof (elim disjE)
      assume "despool_loop env forge_on (sp1\<lparr>sp_dcr := c\<rparr>) b2 = Some (Ret (ok, sp'))"
      then have "same_size (sp1\<lparr>sp_dcr := c\<rparr>) sp'" using 1(1) by blast
      then show ?thesis using s by (simp add: same_size_def)
    qed (use s in simp_all)
  qed (use 1(2,3) r s in auto)
qed

lemma end_despool_size:
  "spool_size (end_despool env commit sp) = spool_size sp - job_spool_size sp" "job_spool_size (end_despool env commit sp) = 0"
proof -
  obtain ok c where r: "dir_create_jobmedia_record env False (sp_dcr sp) = (ok, c)" by (metis surj_pair)
  define sp1 where "sp1 = (if ok then sp\<lparr>sp_dcr := c\<rparr> else fatal (sp\<lparr>sp_dcr := c\<rparr>))"
  have f: "spool_size sp1 = spool_size sp" "job_spool_size sp1 = job_spool_size sp" by (simp_all add: sp1_def fatal_def on_dcr_def)
  show "spool_size (end_despool env commit sp) = spool_size sp - job_spool_size sp" "job_spool_size (end_despool env commit sp) = 0"
    unfolding end_despool_def r prod.case sp1_def [symmetric]
    using f by (simp_all add: Let_def on_dcr_def on_stats_def forget_spooled_def spool_truncate_def)
qed

lemma despool_data_size:
  assumes "despool_data env forge_on commit sp = Some (Ret (ok, sp'))"
  shows "spool_size sp' = spool_size sp - job_spool_size sp \<and> job_spool_size sp' = 0"
proof -
  obtain sp1 where l: "despool_loop env forge_on (begin_despool commit sp) (new_block (max_block_size (dev (sp_dcr sp))) 0 (env_memory env)) = Some (Ret (ok, sp1))"
      "sp' = end_despool env commit sp1"
    using assms by (auto simp: despool_data_def split: option.splits outcome.splits)
  have "same_size (begin_despool commit sp) sp1" by (rule despool_loop_size [OF l(1) refl])
  then have "same_size sp sp1" by (simp add: same_size_def begin_despool_def on_dcr_def Let_def)
  then show ?thesis by (simp add: l(2) end_despool_size same_size_def)
qed

lemma close_size: "spool_size (snd (close_data_spool_file sp)) = spool_size sp" "job_spool_size (snd (close_data_spool_file sp)) = 0"
    "spool_file (snd (close_data_spool_file sp)) = []"
  by (simp_all add: close_data_spool_file_def Let_def on_dcr_def forget_spooled_def on_stats_def)

text \<open>
  C40: The space that a device counts as spooled, in \<open>spool_size\<close>, is what other jobs have spooled and what this job has. Ending spooling with
  \<open>commit_data_spool\<close> takes the job's share off, whatever happens while the blocks are written. Ending it with \<open>discard_data_spool\<close>, as a failed job does,
  deletes the spool file but leaves its size counted for the device: when that and one block of the next job reach the limit of the device, the first block of
  the next job, whose spool file is empty, already makes it despool.
\<close>

theorem discard_leaks_spool_size:
  assumes "spooling (sp_dcr sp)" and "spool_size sp = others + job_spool_size sp"
  shows "(\<forall>ok sp1. commit_data_spool env forge_on sp = Some (Ret (ok, sp1)) \<longrightarrow> spool_size sp1 = others \<and> job_spool_size sp1 = 0) \<and>
    (\<exists>sp2. discard_data_spool sp = (True, sp2) \<and> spool_file sp2 = [] \<and> job_spool_size sp2 = 0 \<and> spool_size sp2 = others + job_spool_size sp \<and>
      (0 < max_spool_size sp \<and> max_spool_size sp \<le> others + job_spool_size sp + n \<longrightarrow> spool_limit (count_spooled n (snd (begin_data_spool opened sp2)))))"
proof (intro conjI allI impI)
  fix ok sp1
  assume "commit_data_spool env forge_on sp = Some (Ret (ok, sp1))"
  then obtain st sp0 where "despool_data env forge_on True sp = Some (Ret (st, sp0))" "sp1 = snd (close_data_spool_file sp0)"
    using assms(1) by (auto simp: commit_data_spool_def split: option.splits outcome.splits if_splits)
  then show "spool_size sp1 = others" "job_spool_size sp1 = 0" using despool_data_size assms(2) by (simp_all add: close_size)
next
  let ?sp = "snd (close_data_spool_file sp)"
  have m: "max_spool_size ?sp = max_spool_size sp" by (simp add: close_data_spool_file_def Let_def on_dcr_def forget_spooled_def on_stats_def)
  have b: "max_spool_size (snd (begin_data_spool opened x)) = max_spool_size x" "spool_size (snd (begin_data_spool opened x)) = spool_size x" for x
    by (simp_all add: begin_data_spool_def open_data_spool_file_def on_dcr_def on_stats_def Let_def)
  have "discard_data_spool sp = (True, ?sp)" using assms(1) by (simp add: discard_data_spool_def close_data_spool_file_def Let_def)
  moreover have "0 < max_spool_size sp \<and> max_spool_size sp \<le> others + job_spool_size sp + n \<longrightarrow> spool_limit (count_spooled n (snd (begin_data_spool opened ?sp)))"
    using assms(2) by (simp add: spool_limit_def count_spooled_def b m close_size)
  ultimately show "\<exists>sp2. discard_data_spool sp = (True, sp2) \<and> spool_file sp2 = [] \<and> job_spool_size sp2 = 0 \<and> spool_size sp2 = others + job_spool_size sp \<and>
      (0 < max_spool_size sp \<and> max_spool_size sp \<le> others + job_spool_size sp + n \<longrightarrow> spool_limit (count_spooled n (snd (begin_data_spool opened sp2))))"
    using close_size [of sp] assms(2) by (intro exI [of _ ?sp]) simp
qed

section \<open>Examples\<close>

text \<open>A device with blocks of 64 bytes, a limit of 200 spooled bytes, and a spool file whose second block is cut off after 5 bytes.\<close>

definition sample_spool :: SPOOL where
  "sample_spool = \<lparr>sp_dcr = on_dev (\<lambda>d. d\<lparr>max_block_size := 64\<rparr>) sample_dcr, spool_open = False, spool_file = [], spool_pos = 0,
     spool_writes = [Write_all, Write_all, Write_part 5], spool_reads = [], spool_truncs = [], jcr_spool_data = True, dcr_spool_data = False,
     spool_attributes = False, despooling = False, dev_blocked = False, jcr_session = (7, 8), job_spool_size = 0, max_job_spool_size = 200,
     spool_size = 0, max_spool_size = 0, spool_stats = \<lparr>data_jobs = 0, total_data_jobs = 0, max_data_size = 0, data_size = 0\<rparr>, big_endian = False\<rparr>"

lemma sample_spool_dcr:
  "sp_dcr sample_spool = on_dev (\<lambda>d. d\<lparr>max_block_size := 64\<rparr>) sample_dcr" "volume (sp_dcr sample_spool) = [1, 2, 3]"
  by (simp_all add: sample_spool_def sample_dcr_def on_dev_def)

lemma sample_will_spool: "will_spool sample_env sample_spool"
proof -
  have d: "disk_ready (volume (sp_dcr sample_spool)) (sp_dcr sample_spool)"
    using sample_dcr_ready by (simp add: sample_spool_dcr(1) disk_ready_def vol_ready_def able_def can_store_def mode_defs job_canceled_def
        do_checksum_def on_dev_def)
  show ?thesis using d sample_env_willing
    by (simp add: will_spool_def sample_spool_def sample_env_def spool_len_def MAX_BLOCK_LENGTH_def on_dev_def sample_dcr_def is_aligned_def
        zero_device_def)
qed

theorem spooled_backup_restore_witness:
  "let b = new_block 64 0 (\<lambda>n. replicate n 0); rs = [(1, 2, replicate 100 5), (1, 3, [6, 7]), (2, 2, [])]
   in \<exists>sp1 c3 b3. spool_job sample_env False True (7, 8) sample_spool b rs = Some (Ret (True, sp1)) \<and>
        take 3 (volume (sp_dcr sp1)) = [1, 2, 3] \<and>
        read_records sample_env False collector [] (sample_dcr\<lparr>volume := volume (sp_dcr sp1)\<rparr>) b
          = Some (Ret (True, rs @ [(EOT_LABEL, 0, [])], c3, b3))"
proof -
  let ?b = "new_block 64 0 (\<lambda>n. replicate n 0)"
    and ?rs = "[(1, 2, replicate 100 5), (1, 3, [6, 7]), (2, 2, [])] :: app_record list"
  have b: "block_wf ?b" "payload ?b = []" "filemedia ?b = []" "buf_len ?b = 64" "read_buffer ?b"
    by (simp_all add: new_block_def empty_block_def Let_def block_wf_def payload_def block_consts read_buffer_def)
  have rs: "list_all client_record ?rs" by (simp add: client_record_def word_sless_alt MAX_BLOCK_LENGTH_def)
  have sp: "jcr_session sample_spool = (7, 8)" "max_block_size (dev (sp_dcr sample_spool)) = 64"
      "capabilities (dev (sp_dcr sample_spool)) = capabilities (dev sample_dcr)"
    by (simp_all add: sample_spool_def on_dev_def)
  have ln: "36 < unat (buf_len ?b)" "buf_len ?b \<le> spool_len (max_block_size (dev (sp_dcr sample_spool)))" by (simp_all add: b(4) sp(2) spool_len_def)
  obtain sp1 where w: "spool_job sample_env False True (7, 8) sample_spool ?b ?rs = Some (Ret (True, sp1))"
      "take (length (volume (sp_dcr sample_spool))) (volume (sp_dcr sp1)) = volume (sp_dcr sample_spool)"
      "\<forall>c2 rb. restore_from (volume (sp_dcr sample_spool)) (volume (sp_dcr sp1)) (dev (sp_dcr sample_spool)) (buf_len ?b) c2 rb \<longrightarrow>
        (\<exists>c3 b3. read_records sample_env False collector [] c2 rb = Some (Ret (True, ?rs @ [(EOT_LABEL, 0, [])], c3, b3)))"
    using spooled_backup_restore [OF sample_will_spool sp(1) b(1-3) ln rs, of False] by blast
  let ?c2 = "sample_dcr\<lparr>volume := volume (sp_dcr sp1)\<rparr>"
  have v: "fpos sample_dcr = 3" "\<not> discard_invalid_records sample_dcr" by (simp_all add: sample_dcr_def)
  have "restore_from (volume (sp_dcr sample_spool)) (volume (sp_dcr sp1)) (dev (sp_dcr sample_spool)) (buf_len ?b) ?c2 ?b"
    using b(4,5) sample_dcr_loads v sp(3) by (simp add: restore_from_def sample_spool_dcr(2) do_checksum_def)
  then obtain c3 b3 where "read_records sample_env False collector [] ?c2 ?b = Some (Ret (True, ?rs @ [(EOT_LABEL, 0, [])], c3, b3))"
    using w(3) by blast
  moreover have "take 3 (volume (sp_dcr sp1)) = [1, 2, 3]" using w(2) by (simp add: sample_spool_dcr(2) numeral_3_eq_3)
  ultimately show ?thesis unfolding Let_def using w(1) by blast
qed

theorem discard_leaks_spool_size_witness:
  "let sp = (snd (begin_data_spool True sample_spool))\<lparr>job_spool_size := 900, spool_size := 900, max_spool_size := 950\<rparr>
   in \<exists>sp2. discard_data_spool sp = (True, sp2) \<and> spool_file sp2 = [] \<and> spool_size sp2 = 900 \<and>
        spool_limit (count_spooled 80 (snd (begin_data_spool True sp2)))"
proof -
  let ?sp = "(snd (begin_data_spool True sample_spool))\<lparr>job_spool_size := 900, spool_size := 900, max_spool_size := 950\<rparr>"
  have "spooling (sp_dcr ?sp)"
    by (simp add: begin_data_spool_def open_data_spool_file_def sample_spool_def on_dcr_def on_stats_def on_dev_def sample_dcr_def zero_device_def
        is_aligned_def)
  then obtain sp2 where "discard_data_spool ?sp = (True, sp2)" "spool_file sp2 = []" "spool_size sp2 = 900"
      "spool_limit (count_spooled 80 (snd (begin_data_spool True sp2)))"
    using discard_leaks_spool_size [of ?sp 0 sample_env False 80 True] by auto
  then show ?thesis unfolding Let_def by blast
qed

end
