(* ===== verification/MatchBsr.thy ===== *)
theory MatchBsr
  imports Dcr
begin

text \<open>
  Bootstrap records choose what a restore takes from a volume: \<^verbatim>\<open>stored/bsr.h\<close>,
  \<^verbatim>\<open>stored/match_bsr.c\<close> and the routines of \<^verbatim>\<open>stored/read_records.c\<close> that move the volume to the next
  wanted address. A chain of bootstrap records is a list whose head is the root; the flags of the
  root are those of its head. The routines mark records as done and drop file indexes while the
  volume is read, on the assumption that addresses and file indexes come in order. The theorems
  below compare them with a selection that has no memory.
\<close>

section \<open>Bootstrap records\<close>

record BSR_SESSID =
  sessid :: uint32_t
  sessid2 :: uint32_t

record BSR_VOLADDR =
  saddr :: uint64_t
  eaddr :: uint64_t
  va_done :: bool

record BSR_FINDEX =
  findex :: int32_t
  findex2 :: int32_t

record BSR_JOBID =
  bsr_JobId :: uint32_t
  bsr_JobId2 :: uint32_t

text \<open>
  The fields that matching uses; lists of one field (volumes, clients, jobs, types, levels, streams,
  session times) are lists of that field. A regular expression is the set of strings it matches.
\<close>

record BSR =
  reposition :: bool
  mount_next_volume :: bool
  bsr_done :: bool
  use_fast_rejection :: bool
  use_positioning :: bool
  skip_file :: bool
  bsr_volume :: "string list"
  bsr_count :: uint32_t
  found :: uint32_t
  volfile :: "(uint32_t \<times> uint32_t) list"
  volblock :: "(uint32_t \<times> uint32_t) list"
  voladdr :: "BSR_VOLADDR list"
  bsr_sesstime :: "uint32_t list"
  bsr_sessid :: "BSR_SESSID list"
  JobId_list :: "BSR_JOBID list"
  bsr_job :: "string list"
  bsr_client :: "string list"
  bsr_FileIndex :: "BSR_FINDEX list"
  bsr_JobType :: "uint32_t list"
  bsr_JobLevel :: "uint32_t list"
  bsr_stream :: "int32_t list"
  fileregex_re :: "(string \<Rightarrow> bool) option"

text \<open>The fields of a session label that bootstrap records refer to.\<close>

record SESSION_LABEL =
  sess_JobId :: uint32_t
  sess_Job :: string
  sess_ClientName :: string
  sess_JobType :: uint32_t
  sess_JobLevel :: uint32_t

section \<open>The single tests\<close>

text \<open>Each routine walks its list; no list means that everything matches, except for the volumes.\<close>

fun match_block_sesstime :: "uint32_t list \<Rightarrow> DEV_BLOCK \<Rightarrow> bool" where
  "match_block_sesstime [] block = True"
| "match_block_sesstime (t # ts) block =
     (if t = VolSessionTime block then True else if ts \<noteq> [] then match_block_sesstime ts block else False)"

fun match_block_sessid :: "BSR_SESSID list \<Rightarrow> DEV_BLOCK \<Rightarrow> bool" where
  "match_block_sessid [] block = True"
| "match_block_sessid (s # ss) block =
     (if sessid s \<le> VolSessionId block \<and> VolSessionId block \<le> sessid2 s then True
      else if ss \<noteq> [] then match_block_sessid ss block else False)"

fun match_bsr_block_loop :: "BSR list \<Rightarrow> DEV_BLOCK \<Rightarrow> bool" where
  "match_bsr_block_loop [] block = False"
| "match_bsr_block_loop (b # bs) block =
     (if \<not> match_block_sesstime (bsr_sesstime b) block then match_bsr_block_loop bs block
      else if \<not> match_block_sessid (bsr_sessid b) block then match_bsr_block_loop bs block
      else True)"

definition match_bsr_block :: "BSR list \<Rightarrow> DEV_BLOCK \<Rightarrow> bool" where
  "match_bsr_block bsrs block =
     (if bsrs = [] \<or> \<not> use_fast_rejection (hd bsrs) \<or> BlockVer block < 2 then True
      else match_bsr_block_loop bsrs block)"

fun match_volume :: "string list \<Rightarrow> string \<Rightarrow> bool" where
  "match_volume [] vol = False"
| "match_volume (v # vs) vol = (if v = vol then True else if vs \<noteq> [] then match_volume vs vol else False)"

fun match_client :: "string list \<Rightarrow> SESSION_LABEL \<Rightarrow> bool" where
  "match_client [] sess = True"
| "match_client (c # cs) sess =
     (if c = sess_ClientName sess then True else if cs \<noteq> [] then match_client cs sess else False)"

fun match_job :: "string list \<Rightarrow> SESSION_LABEL \<Rightarrow> bool" where
  "match_job [] sess = True"
| "match_job (j # js) sess = (if j = sess_Job sess then True else if js \<noteq> [] then match_job js sess else False)"

fun match_job_type :: "uint32_t list \<Rightarrow> SESSION_LABEL \<Rightarrow> bool" where
  "match_job_type [] sess = True"
| "match_job_type (t # ts) sess =
     (if t = sess_JobType sess then True else if ts \<noteq> [] then match_job_type ts sess else False)"

fun match_job_level :: "uint32_t list \<Rightarrow> SESSION_LABEL \<Rightarrow> bool" where
  "match_job_level [] sess = True"
| "match_job_level (l # ls) sess =
     (if l = sess_JobLevel sess then True else if ls \<noteq> [] then match_job_level ls sess else False)"

fun match_jobid :: "BSR_JOBID list \<Rightarrow> SESSION_LABEL \<Rightarrow> bool" where
  "match_jobid [] sess = True"
| "match_jobid (j # js) sess =
     (if bsr_JobId j \<le> sess_JobId sess \<and> sess_JobId sess \<le> bsr_JobId2 j then True
      else if js \<noteq> [] then match_jobid js sess else False)"

fun match_stream :: "int32_t list \<Rightarrow> DEV_RECORD \<Rightarrow> bool" where
  "match_stream [] rec = True"
| "match_stream (s # ss) rec = (if s = Stream rec then True else if ss \<noteq> [] then match_stream ss rec else False)"

fun match_sesstime :: "uint32_t list \<Rightarrow> DEV_RECORD \<Rightarrow> bool" where
  "match_sesstime [] rec = True"
| "match_sesstime (t # ts) rec =
     (if t = rec_VolSessionTime rec then True else if ts \<noteq> [] then match_sesstime ts rec else False)"

fun match_sessid :: "BSR_SESSID list \<Rightarrow> DEV_RECORD \<Rightarrow> bool" where
  "match_sessid [] rec = True"
| "match_sessid (s # ss) rec =
     (if sessid s \<le> rec_VolSessionId rec \<and> rec_VolSessionId rec \<le> sessid2 s then True
      else if ss \<noteq> [] then match_sessid ss rec else False)"

text \<open>
  \<open>match_voladdr\<close> and \<open>match_findex\<close> change the bootstrap record: the results are the list, whether the
  record is done, and the flag \<open>reposition\<close> of the root.
\<close>

fun match_voladdr :: "uint64_t \<Rightarrow> bool \<Rightarrow> BSR_VOLADDR list \<Rightarrow> bool \<Rightarrow> bool \<Rightarrow> bool \<times> BSR_VOLADDR list \<times> bool \<times> bool" where
  "match_voladdr addr done [] bdone repos = (True, [], bdone, repos)"
| "match_voladdr addr done (va # vas) bdone repos =
     (if saddr va \<le> addr \<and> addr \<le> eaddr va then (True, va # vas, bdone, repos)
      else
        (let past = eaddr va < addr;
             va = (if past then va\<lparr>va_done := True\<rparr> else va);
             bdone = (if past \<and> vas = [] then True else bdone)
         in if vas \<noteq> [] then
              (case match_voladdr addr (va_done va \<and> done) vas bdone repos of
                 (ok, vas, bdone, repos) \<Rightarrow> (ok, va # vas, bdone, repos))
            else if va_done va \<and> done then (False, va # vas, True, True)
            else (False, va # vas, bdone, repos)))"

fun match_findex :: "int32_t \<Rightarrow> BSR_FINDEX list \<Rightarrow> bool \<Rightarrow> bool \<Rightarrow> bool \<times> BSR_FINDEX list \<times> bool \<times> bool" where
  "match_findex fi [] bdone repos = (True, [], bdone, repos)"
| "match_findex fi (f # fs) bdone repos =
     (if findex f \<le>s fi \<and> fi \<le>s findex2 f then (True, f # fs, bdone, repos)
      else if findex2 f <s fi then
        (if fs \<noteq> [] then match_findex fi fs bdone repos else (False, f # fs, True, True))
      else (False, f # fs, bdone, repos))"

definition STREAM_UNIX_ATTRIBUTES :: int32_t where "STREAM_UNIX_ATTRIBUTES = 1"
definition STREAM_UNIX_ATTRIBUTES_EX :: int32_t where "STREAM_UNIX_ATTRIBUTES_EX = 5"

text \<open>
  \<open>match_fileregex\<close> decides at the attributes of a file whether the records of the file are
  skipped; \<open>unpack\<close> yields the file name of an attributes record. The test itself never fails.
\<close>

definition match_fileregex :: "(DEV_RECORD \<Rightarrow> string option) \<Rightarrow> DEV_RECORD \<Rightarrow> BSR \<Rightarrow> bool \<times> BSR" where
  "match_fileregex unpack rec bsr =
     (case fileregex_re bsr of
        None \<Rightarrow> (True, bsr)
      | Some matches \<Rightarrow>
          (True,
           if maskedStream rec = STREAM_UNIX_ATTRIBUTES \<or> maskedStream rec = STREAM_UNIX_ATTRIBUTES_EX then
             (let bsr = bsr\<lparr>skip_file := False\<rparr>
              in case unpack rec of
                   Some fname \<Rightarrow> if matches fname then bsr else bsr\<lparr>skip_file := True\<rparr>
                 | None \<Rightarrow> bsr)
           else bsr))"

section \<open>Matching a record\<close>

text \<open>
  The tests of \<open>match_all\<close> for one bootstrap record: whether it matches, the record afterwards, the
  flag \<open>reposition\<close> of the root, and whether this is the match that \<open>rec->bsr\<close> remembers.
\<close>

definition match_one :: "(DEV_RECORD \<Rightarrow> string option) \<Rightarrow> DEV_RECORD \<Rightarrow> string \<Rightarrow> SESSION_LABEL \<Rightarrow> BSR \<Rightarrow> bool
    \<Rightarrow> bool \<times> BSR \<times> bool \<times> bool" where
  "match_one unpack rec vol sess bsr repos =
     (if bsr_done bsr then (False, bsr, repos, False)
      else if \<not> match_volume (bsr_volume bsr) vol then (False, bsr, repos, False)
      else
        (case match_voladdr (get_record_address rec) True (voladdr bsr) (bsr_done bsr) repos of
           (ok, vas, bdone, repos) \<Rightarrow>
             (let bsr = bsr\<lparr>voladdr := vas, bsr_done := bdone\<rparr>
              in if \<not> ok then (False, bsr, repos, False)
                 else if \<not> match_sesstime (bsr_sesstime bsr) rec then (False, bsr, repos, False)
                 else if \<not> match_sessid (bsr_sessid bsr) rec then (False, bsr, repos, False)
                 else
                   (case match_findex (FileIndex rec) (bsr_FileIndex bsr) (bsr_done bsr) repos of
                      (ok, fs, bdone, repos) \<Rightarrow>
                        (let bsr = bsr\<lparr>bsr_FileIndex := fs, bsr_done := bdone\<rparr>
                         in if \<not> ok then (False, bsr, repos, False)
                            else
                              (case match_fileregex unpack rec bsr of
                                 (ok, bsr) \<Rightarrow>
                                   if \<not> ok then (False, bsr, repos, False)
                                   else if skip_file bsr then (False, bsr, repos, False)
                                   else if bsr_count bsr \<noteq> 0 \<and> bsr_FileIndex bsr \<noteq> [] then (True, bsr, repos, True)
                                   else
                                     (match_jobid (JobId_list bsr) sess \<and> match_job (bsr_job bsr) sess \<and>
                                      match_client (bsr_client bsr) sess \<and> match_job_type (bsr_JobType bsr) sess \<and>
                                      match_job_level (bsr_JobLevel bsr) sess \<and> match_stream (bsr_stream bsr) rec,
                                      bsr, repos, False)))))))"

text \<open>
  \<open>match_all\<close>: the first bootstrap record that matches. The results are 1, 0 or -1, the chain, the
  flag \<open>reposition\<close> of the root, and the position in the chain that \<open>rec->bsr\<close> gets.
\<close>

fun match_all :: "(DEV_RECORD \<Rightarrow> string option) \<Rightarrow> DEV_RECORD \<Rightarrow> string \<Rightarrow> SESSION_LABEL \<Rightarrow> bool \<Rightarrow> BSR list \<Rightarrow> bool
    \<Rightarrow> int \<times> BSR list \<times> bool \<times> nat option" where
  "match_all unpack rec vol sess done [] repos = (0, [], repos, None)"
| "match_all unpack rec vol sess done (bsr # next) repos =
     (case match_one unpack rec vol sess bsr repos of
        (ok, bsr, repos, complete) \<Rightarrow>
          if ok then (1, bsr # next, repos, if complete then Some 0 else None)
          else if next \<noteq> [] then
            (case match_all unpack rec vol sess (bsr_done bsr \<and> done) next repos of
               (stat, next, repos, at) \<Rightarrow> (stat, bsr # next, repos, map_option Suc at))
          else if bsr_done bsr \<and> done then (- 1, [bsr], repos, None)
          else (0, [bsr], repos, None))"

definition set_reposition :: "bool \<Rightarrow> BSR list \<Rightarrow> BSR list" where
  "set_reposition r bsrs = (case bsrs of [] \<Rightarrow> [] | b # bs \<Rightarrow> b\<lparr>reposition := r\<rparr> # bs)"

definition match_bsr :: "(DEV_RECORD \<Rightarrow> string option) \<Rightarrow> BSR list \<Rightarrow> DEV_RECORD \<Rightarrow> string \<Rightarrow> SESSION_LABEL
    \<Rightarrow> int \<times> BSR list \<times> nat option" where
  "match_bsr unpack bsrs rec vol sess =
     (if bsrs = [] then (1, [], None)
      else
        (case match_all unpack rec vol sess True bsrs False of
           (stat, bsrs, repos, at) \<Rightarrow>
             (stat, set_reposition (repos \<and> \<not> (stat \<noteq> 0 \<or> \<not> use_positioning (hd bsrs))) bsrs, at)))"

text \<open>
  \<open>is_this_bsr_done\<close>, called between two files: the files found by the bootstrap record of the last
  complete match are counted; \<open>at\<close> is \<open>rec->bsr\<close>.
\<close>

definition is_this_bsr_done :: "nat option \<Rightarrow> BSR list \<Rightarrow> bool \<times> BSR list" where
  "is_this_bsr_done at bsrs =
     (case at of
        None \<Rightarrow> (False, bsrs)
      | Some k \<Rightarrow>
          (let b = bsrs ! k;
               b = b\<lparr>found := found b + 1\<rparr>
           in if bsr_count b \<noteq> 0 \<and> bsr_count b \<le> found b
              then (True, set_reposition True (bsrs[k := b\<lparr>bsr_done := True\<rparr>]))
              else (False, bsrs[k := b])))"

section \<open>Finding the next address\<close>

definition CAP_POSITIONBLOCKS :: uint32_t where "CAP_POSITIONBLOCKS = push_bit 19 1"

definition is_positioning_ok :: "BSR list \<Rightarrow> bool" where
  "is_positioning_ok bsrs = list_all (\<lambda>b. volfile b \<noteq> [] \<and> volblock b \<noteq> [] \<or> voladdr b \<noteq> []) bsrs"

definition is_fast_rejection_ok :: "BSR list \<Rightarrow> bool" where
  "is_fast_rejection_ok bsrs = list_all (\<lambda>b. bsr_sesstime b \<noteq> [] \<and> bsr_sessid b \<noteq> []) bsrs"

fun get_smallest_voladdr :: "BSR_VOLADDR list \<Rightarrow> uint64_t option \<Rightarrow> uint64_t option" where
  "get_smallest_voladdr [] acc = acc"
| "get_smallest_voladdr (va # vas) acc =
     get_smallest_voladdr vas
       (if \<not> va_done va then (case acc of Some m \<Rightarrow> Some (min m (saddr va)) | None \<Rightarrow> Some (saddr va)) else acc)"

definition find_smallest_volfile :: "BSR \<Rightarrow> BSR \<Rightarrow> BSR" where
  "find_smallest_volfile found_bsr bsr =
     (case get_smallest_voladdr (voladdr found_bsr) None of
        Some found_saddr \<Rightarrow>
          (case get_smallest_voladdr (voladdr bsr) None of
             Some bsr_saddr \<Rightarrow> if bsr_saddr < found_saddr then bsr else found_bsr
           | None \<Rightarrow> found_bsr)
      | None \<Rightarrow> found_bsr)"

fun find_next_loop :: "string \<Rightarrow> BSR list \<Rightarrow> BSR option \<Rightarrow> BSR option" where
  "find_next_loop vol [] found_bsr = found_bsr"
| "find_next_loop vol (bsr # next) found_bsr =
     (if bsr_done bsr \<or> \<not> match_volume (bsr_volume bsr) vol then find_next_loop vol next found_bsr
      else find_next_loop vol next
             (case found_bsr of None \<Rightarrow> Some bsr | Some f \<Rightarrow> Some (find_smallest_volfile f bsr)))"

definition set_mount_next :: "bool \<Rightarrow> BSR list \<Rightarrow> BSR list" where
  "set_mount_next m bsrs = (case bsrs of [] \<Rightarrow> [] | b # bs \<Rightarrow> b\<lparr>mount_next_volume := m\<rparr> # bs)"

definition find_next_bsr :: "BSR list \<Rightarrow> string \<Rightarrow> DEVICE \<Rightarrow> BSR option \<times> BSR list" where
  "find_next_bsr bsrs vol d =
     (if bsrs = [] then (None, bsrs)
      else if \<not> use_positioning (hd bsrs) \<or> \<not> reposition (hd bsrs) \<or> \<not> has_cap d CAP_POSITIONBLOCKS then (None, bsrs)
      else
        (let bsrs = set_mount_next False bsrs;
             found_bsr = find_next_loop vol bsrs None
         in (found_bsr, if found_bsr = None then set_mount_next True bsrs else bsrs)))"

definition get_bsr_start_addr :: "BSR option \<Rightarrow> uint64_t" where
  "get_bsr_start_addr bsr =
     (case bsr of None \<Rightarrow> 0 | Some b \<Rightarrow> (case voladdr b of [] \<Rightarrow> 0 | va # _ \<Rightarrow> saddr va))"

text \<open>\<open>DEVICE::reposition\<close> of a disk; \<open>lseek\<close> fails on an address that is negative as an offset.\<close>

definition DEVICE_reposition :: "uint64_t \<Rightarrow> DCR \<Rightarrow> bool \<times> DCR" where
  "DEVICE_reposition raddr dcr =
     (if \<not> is_open (dev dcr) then (False, set_errno EBADF dcr)
      else if sint raddr < 0 then (False, set_errno (EOTHER 22) dcr)
      else (True, on_dev (\<lambda>d. d\<lparr>file_addr := raddr\<rparr>) (dev_lseek (unat raddr) dcr)))"

text \<open>
  \<open>try_repositioning\<close>: the result tells that the next block is to be read. \<open>mount\<close> is
  \<open>jcr->mount_next_volume\<close>, and the address of the record is cleared when the result is true.
\<close>

definition try_repositioning :: "BSR list \<Rightarrow> string \<Rightarrow> bool \<Rightarrow> DEV_RECORD \<Rightarrow> DCR
    \<Rightarrow> bool \<times> BSR list \<times> bool \<times> DEV_RECORD \<times> DCR" where
  "try_repositioning bsrs vol mount rec dcr =
     (case find_next_bsr bsrs vol (dev dcr) of
        (bsr, bsrs) \<Rightarrow>
          (case bsr of
             None \<Rightarrow>
               if bsrs \<noteq> [] \<and> mount_next_volume (hd bsrs) then
                 (let bsrs = set_mount_next False bsrs
                  in if \<not> at_eot (dev dcr) then (True, bsrs, True, rec\<lparr>Addr := 0\<rparr>, on_dev set_eot dcr)
                     else (True, bsrs, mount, rec\<lparr>Addr := 0\<rparr>, dcr))
               else (False, bsrs, mount, rec, dcr)
           | Some b \<Rightarrow>
               (let bsr_addr = get_bsr_start_addr (Some b)
                in if bsr_addr < get_full_addr (dev dcr) then (False, bsrs, mount, rec, dcr)
                   else (True, bsrs, mount, rec\<lparr>Addr := 0\<rparr>, snd (DEVICE_reposition bsr_addr dcr)))))"

definition position_to_first_file :: "BSR list \<Rightarrow> string \<Rightarrow> DCR \<Rightarrow> BSR option \<times> BSR list \<times> DCR" where
  "position_to_first_file bsrs vol dcr =
     (if bsrs = [] then (None, bsrs, dcr)
      else
        (case find_next_bsr (set_reposition True bsrs) vol (dev dcr) of
           (bsr, bsrs) \<Rightarrow>
             (let bsr_addr = get_bsr_start_addr bsr
              in if 0 < bsr_addr
                 then (bsr, bsrs, snd (DEVICE_reposition bsr_addr (on_dev clear_eot dcr)))
                 else (bsr, bsrs, dcr))))"

section \<open>A selection without memory\<close>

lemma match_lists:
  "match_block_sesstime ts blk \<longleftrightarrow> ts = [] \<or> VolSessionTime blk \<in> set ts"
  "match_block_sessid ss blk \<longleftrightarrow> ss = [] \<or> (\<exists>s \<in> set ss. sessid s \<le> VolSessionId blk \<and> VolSessionId blk \<le> sessid2 s)"
  "match_volume vs vol \<longleftrightarrow> vol \<in> set vs"
  "match_sesstime ts r \<longleftrightarrow> ts = [] \<or> rec_VolSessionTime r \<in> set ts"
  "match_sessid ss r \<longleftrightarrow> ss = [] \<or> (\<exists>s \<in> set ss. sessid s \<le> rec_VolSessionId r \<and> rec_VolSessionId r \<le> sessid2 s)"
proof -
  show "match_block_sesstime ts blk \<longleftrightarrow> ts = [] \<or> VolSessionTime blk \<in> set ts" by (induction ts) auto
  show "match_block_sessid ss blk \<longleftrightarrow> ss = [] \<or> (\<exists>s \<in> set ss. sessid s \<le> VolSessionId blk \<and> VolSessionId blk \<le> sessid2 s)"
    by (induction ss) auto
  show "match_volume vs vol \<longleftrightarrow> vol \<in> set vs" by (induction vs) auto
  show "match_sesstime ts r \<longleftrightarrow> ts = [] \<or> rec_VolSessionTime r \<in> set ts" by (induction ts) auto
  show "match_sessid ss r \<longleftrightarrow> ss = [] \<or> (\<exists>s \<in> set ss. sessid s \<le> rec_VolSessionId r \<and> rec_VolSessionId r \<le> sessid2 s)"
    by (induction ss) auto
qed

text \<open>The parts of a bootstrap record as sets: its sessions, its address ranges, its file indexes.\<close>

definition in_session :: "BSR \<Rightarrow> DEV_RECORD \<Rightarrow> bool" where
  "in_session b r \<longleftrightarrow> match_sesstime (bsr_sesstime b) r \<and> match_sessid (bsr_sessid b) r"

definition addr_ranges :: "BSR_VOLADDR list \<Rightarrow> (uint64_t \<times> uint64_t) list" where
  "addr_ranges vas = map (\<lambda>va. (saddr va, eaddr va)) vas"

definition in_ranges :: "uint64_t \<Rightarrow> (uint64_t \<times> uint64_t) list \<Rightarrow> bool" where
  "in_ranges a rs \<longleftrightarrow> rs = [] \<or> (\<exists>(s, e) \<in> set rs. s \<le> a \<and> a \<le> e)"

definition in_findex :: "int32_t \<Rightarrow> BSR_FINDEX list \<Rightarrow> bool" where
  "in_findex fi fs \<longleftrightarrow> fs = [] \<or> (\<exists>f \<in> set fs. findex f \<le>s fi \<and> fi \<le>s findex2 f)"

definition in_job :: "SESSION_LABEL \<Rightarrow> BSR \<Rightarrow> DEV_RECORD \<Rightarrow> bool" where
  "in_job sess b r \<longleftrightarrow> match_jobid (JobId_list b) sess \<and> match_job (bsr_job b) sess \<and>
     match_client (bsr_client b) sess \<and> match_job_type (bsr_JobType b) sess \<and>
     match_job_level (bsr_JobLevel b) sess \<and> match_stream (bsr_stream b) r"

definition selects :: "string \<Rightarrow> SESSION_LABEL \<Rightarrow> BSR \<Rightarrow> DEV_RECORD \<Rightarrow> bool" where
  "selects vol sess b r \<longleftrightarrow> vol \<in> set (bsr_volume b) \<and> in_ranges (Addr r) (addr_ranges (voladdr b)) \<and> in_session b r \<and>
     in_findex (FileIndex r) (bsr_FileIndex b) \<and> (bsr_count b \<noteq> 0 \<and> bsr_FileIndex b \<noteq> [] \<or> in_job sess b r)"

text \<open>
  What the Director writes: file indexes in ascending order, the last address range reaching at
  least as far as the others, no file name pattern.
\<close>

definition bsr_sorted :: "BSR \<Rightarrow> bool" where
  "bsr_sorted b \<longleftrightarrow> sorted_wrt (\<lambda>f g. findex f \<le>s findex g) (bsr_FileIndex b) \<and>
     list_all (\<lambda>e. e \<le> last (map eaddr (voladdr b))) (map eaddr (voladdr b)) \<and> fileregex_re b = None \<and> \<not> skip_file b"

text \<open>The order of records on a volume: addresses ascend, and so do the file indexes of a session.\<close>

definition follows :: "BSR \<Rightarrow> DEV_RECORD \<Rightarrow> DEV_RECORD \<Rightarrow> bool" where
  "follows b r r' \<longleftrightarrow> Addr r \<le> Addr r' \<and> (in_session b r \<and> in_session b r' \<longrightarrow> FileIndex r \<le>s FileIndex r')"

section \<open>One record of the volume\<close>

definition addr_step :: "uint64_t \<Rightarrow> BSR_VOLADDR list \<Rightarrow> bool \<Rightarrow> bool \<times> BSR_VOLADDR list \<times> bool \<times> bool \<Rightarrow> bool" where
  "addr_step a vas bd res \<longleftrightarrow> (case res of (ok, vas', bd', rp') \<Rightarrow>
     ok = in_ranges a (addr_ranges vas) \<and> addr_ranges vas' = addr_ranges vas \<and>
     (\<forall>va' \<in> set vas'. va_done va' \<longrightarrow> va' \<in> set vas \<or> eaddr va' < a) \<and>
     (bd' \<longrightarrow> bd \<or> vas \<noteq> [] \<and> (eaddr (last vas) < a \<or> va_done (last vas))))"

lemma match_voladdr_step: "addr_step a vas bd (match_voladdr a dn vas bd rp)"
proof (induction a dn vas bd rp rule: match_voladdr.induct)
  case (1 a dn bd rp)
  then show ?case by (simp add: addr_step_def in_ranges_def addr_ranges_def)
next
  case (2 a dn va vas bd rp)
  show ?case
  proof (cases "saddr va \<le> a \<and> a \<le> eaddr va")
    case True
    then show ?thesis by (auto simp: addr_step_def in_ranges_def addr_ranges_def)
  next
    case out: False
    define va1 where "va1 = (if eaddr va < a then va\<lparr>va_done := True\<rparr> else va)"
    have va1: "saddr va1 = saddr va" "eaddr va1 = eaddr va" "va_done va1 \<longrightarrow> va1 = va \<or> eaddr va1 < a"
      by (simp_all add: va1_def)
    show ?thesis
    proof (cases "vas = []")
      case True
      then show ?thesis
        using out va1 by (auto simp: addr_step_def in_ranges_def addr_ranges_def Let_def va1_def)
    next
      case False
      obtain ok vas' bd' rp' where r: "match_voladdr a (va_done va1 \<and> dn) vas bd rp = (ok, vas', bd', rp')"
        by (metis surj_pair)
      then have "addr_step a vas bd (ok, vas', bd', rp')"
        using 2 [OF out refl refl refl] False by (simp add: va1_def)
      moreover have "match_voladdr a dn (va # vas) bd rp = (ok, va1 # vas', bd', rp')"
        using out False r unfolding match_voladdr.simps Let_def va1_def [symmetric] if_not_P [OF out] by simp
      ultimately show ?thesis
        using out False va1 by (auto simp: addr_step_def in_ranges_def addr_ranges_def)
    qed
  qed
qed

definition findex_step :: "int32_t \<Rightarrow> BSR_FINDEX list \<Rightarrow> bool \<Rightarrow> bool \<times> BSR_FINDEX list \<times> bool \<times> bool \<Rightarrow> bool" where
  "findex_step fi fs bd res \<longleftrightarrow> (case res of (ok, fs', bd', rp') \<Rightarrow>
     ok = in_findex fi fs \<and> (\<exists>ds. fs = ds @ fs' \<and> (\<forall>f \<in> set ds. findex2 f <s fi)) \<and> (fs \<noteq> [] \<longrightarrow> fs' \<noteq> []) \<and>
     (bd \<longrightarrow> bd') \<and> (bd' \<longrightarrow> bd \<or> fs' \<noteq> [] \<and> (\<forall>f \<in> set fs'. findex2 f <s fi)))"

lemma match_findex_step:
  assumes "sorted_wrt (\<lambda>f g. findex f \<le>s findex g) fs"
  shows "findex_step fi fs bd (match_findex fi fs bd rp)"
  using assms
proof (induction fi fs bd rp rule: match_findex.induct)
  case (1 fi bd rp)
  then show ?case by (simp add: findex_step_def in_findex_def)
next
  case (2 fi f fs bd rp)
  consider (hit) "findex f \<le>s fi \<and> fi \<le>s findex2 f" | (past) "findex2 f <s fi" "fs \<noteq> []" | (last) "findex2 f <s fi" "fs = []"
    | (before) "fi <s findex f" "\<not> findex2 f <s fi"
    by (force simp: word_sle_eq word_sless_alt)
  then show ?case
  proof cases
    case hit
    then show ?thesis by (auto simp: findex_step_def in_findex_def)
  next
    case past
    then have no: "\<not> (findex f \<le>s fi \<and> fi \<le>s findex2 f)" by (auto simp: word_sle_eq word_sless_alt)
    obtain ok fs' bd' rp' where r: "match_findex fi fs bd rp = (ok, fs', bd', rp')" by (metis surj_pair)
    have "findex_step fi fs bd (ok, fs', bd', rp')" using 2(1) [OF no past] 2(2) r by simp
    then have st: "ok = in_findex fi fs" "\<exists>ds. fs = ds @ fs' \<and> (\<forall>f \<in> set ds. findex2 f <s fi)" "fs' \<noteq> []"
      "bd \<longrightarrow> bd'" "bd' \<longrightarrow> bd \<or> (\<forall>f \<in> set fs'. findex2 f <s fi)"
      using past by (auto simp: findex_step_def)
    then obtain ds where ds: "fs = ds @ fs'" "\<forall>f \<in> set ds. findex2 f <s fi" by blast
    have "in_findex fi (f # fs) = in_findex fi fs" using no past(2) by (auto simp: in_findex_def)
    moreover have "f # fs = (f # ds) @ fs'" "\<forall>g \<in> set (f # ds). findex2 g <s fi" using ds past(1) by simp_all
    ultimately show ?thesis
      using no past r st unfolding findex_step_def by (simp del: set_simps) blast
  next
    case last
    then show ?thesis by (auto simp: findex_step_def in_findex_def word_sle_eq word_sless_alt)
  next
    case before
    have "\<forall>g \<in> set (f # fs). fi <s findex g" using before(1) 2(2) by (auto simp: word_sle_eq word_sless_alt)
    then have "\<not> in_findex fi (f # fs)" by (auto simp: in_findex_def word_sle_eq word_sless_alt)
    moreover have "\<not> (findex f \<le>s fi \<and> fi \<le>s findex2 f)" using before(1) by (simp add: word_sle_eq word_sless_alt)
    ultimately show ?thesis using before(2) by (simp add: findex_step_def)
  qed
qed

definition good :: "BSR \<Rightarrow> DEV_RECORD list \<Rightarrow> bool" where
  "good b rs \<longleftrightarrow> bsr_sorted b \<and> (\<forall>va \<in> set (voladdr b). va_done va \<longrightarrow> (\<forall>r \<in> set rs. eaddr va < Addr r))"

definition chooses :: "string \<Rightarrow> SESSION_LABEL \<Rightarrow> BSR \<Rightarrow> DEV_RECORD \<Rightarrow> bool" where
  "chooses vol sess b r \<longleftrightarrow> \<not> bsr_done b \<and> selects vol sess b r"

text \<open>The bootstrap record \<open>b'\<close> makes the same choices among the records to come as \<open>b\<close>.\<close>

definition same_choice :: "string \<Rightarrow> SESSION_LABEL \<Rightarrow> DEV_RECORD list \<Rightarrow> BSR \<Rightarrow> BSR \<Rightarrow> bool" where
  "same_choice vol sess rs b b' \<longleftrightarrow> good b' rs \<and> in_session b' = in_session b \<and>
     (\<forall>r \<in> set rs. chooses vol sess b' r = chooses vol sess b r)"

lemma good_tl: "good b (r # rs) \<Longrightarrow> same_choice vol sess rs b b"
  by (auto simp: good_def same_choice_def)

lemma same_choice_trans:
  "same_choice vol sess rs b b' \<Longrightarrow> same_choice vol sess rs b' b'' \<Longrightarrow> same_choice vol sess rs b b''"
  by (simp add: same_choice_def)

lemma after_voladdr:
  assumes g: "good b (r # rs)" and f: "\<forall>r' \<in> set rs. follows b r r'" and "\<not> bsr_done b"
    and m: "match_voladdr (Addr r) dn (voladdr b) False rp = (ok, vas, bd, rp')"
  shows "ok = in_ranges (Addr r) (addr_ranges (voladdr b))"
    and "same_choice vol sess rs b (b\<lparr>voladdr := vas, bsr_done := bd\<rparr>)"
proof -
  let ?b = "b\<lparr>voladdr := vas, bsr_done := bd\<rparr>"
  have st: "ok = in_ranges (Addr r) (addr_ranges (voladdr b))" "addr_ranges vas = addr_ranges (voladdr b)"
    "\<forall>va' \<in> set vas. va_done va' \<longrightarrow> va' \<in> set (voladdr b) \<or> eaddr va' < Addr r"
    "bd \<longrightarrow> voladdr b \<noteq> [] \<and> (eaddr (last (voladdr b)) < Addr r \<or> va_done (last (voladdr b)))"
    using match_voladdr_step [of "Addr r" "voladdr b" False dn rp] m by (simp_all add: addr_step_def)
  show "ok = in_ranges (Addr r) (addr_ranges (voladdr b))" by (rule st(1))
  have le: "Addr r \<le> Addr r'" if "r' \<in> set rs" for r' using f that by (simp add: follows_def)
  have "map eaddr vas = map eaddr (voladdr b)" using arg_cong [OF st(2), of "map snd"] by (simp add: addr_ranges_def comp_def)
  then have "list_all (\<lambda>e. e \<le> last (map eaddr vas)) (map eaddr vas)" using g by (simp only: good_def bsr_sorted_def)
  moreover have "\<forall>va \<in> set vas. va_done va \<longrightarrow> (\<forall>r' \<in> set rs. eaddr va < Addr r')"
    using st(3) g le unfolding good_def by (metis list.set_intros(2) order_less_le_trans)
  ultimately have "good ?b rs" using g by (simp add: good_def bsr_sorted_def)
  moreover have "chooses vol sess ?b r' = chooses vol sess b r'" if r': "r' \<in> set rs" for r'
  proof (cases bd)
    case True
    then have "voladdr b \<noteq> []" "eaddr (last (voladdr b)) < Addr r'"
      using st(4) le [OF r'] g r' by (auto simp: good_def)
    moreover from this(1) have "\<forall>va \<in> set (voladdr b). eaddr va \<le> eaddr (last (voladdr b))"
      using g by (simp add: good_def bsr_sorted_def last_map list_all_iff)
    ultimately have "\<not> in_ranges (Addr r') (addr_ranges (voladdr b))"
      by (fastforce simp: in_ranges_def addr_ranges_def)
    then show ?thesis using True by (simp add: chooses_def selects_def)
  next
    case False
    then show ?thesis using assms(3) st(2) by (simp add: chooses_def selects_def in_session_def in_job_def)
  qed
  ultimately show "same_choice vol sess rs b ?b" by (auto simp: same_choice_def in_session_def fun_eq_iff)
qed

lemma after_findex:
  assumes g: "good b rs" and f: "\<forall>r' \<in> set rs. follows b r r'" and s: "in_session b r"
    and m: "match_findex (FileIndex r) (bsr_FileIndex b) (bsr_done b) rp = (ok, fs, bd, rp')"
  shows "ok = in_findex (FileIndex r) (bsr_FileIndex b)" and "fs = [] \<longleftrightarrow> bsr_FileIndex b = []"
    and "same_choice vol sess rs b (b\<lparr>bsr_FileIndex := fs, bsr_done := bd\<rparr>)"
proof -
  let ?b = "b\<lparr>bsr_FileIndex := fs, bsr_done := bd\<rparr>" and ?fi = "FileIndex r"
  have srt: "sorted_wrt (\<lambda>f g. findex f \<le>s findex g) (bsr_FileIndex b)" using g by (simp add: good_def bsr_sorted_def)
  have st: "ok = in_findex ?fi (bsr_FileIndex b)" "\<exists>ds. bsr_FileIndex b = ds @ fs \<and> (\<forall>f \<in> set ds. findex2 f <s ?fi)"
    "bsr_FileIndex b \<noteq> [] \<longrightarrow> fs \<noteq> []" "bsr_done b \<longrightarrow> bd" "bd \<longrightarrow> bsr_done b \<or> fs \<noteq> [] \<and> (\<forall>f \<in> set fs. findex2 f <s ?fi)"
    using match_findex_step [OF srt, of ?fi "bsr_done b" rp] m by (simp_all add: findex_step_def)
  obtain ds where ds: "bsr_FileIndex b = ds @ fs" "\<forall>f \<in> set ds. findex2 f <s ?fi" using st(2) by blast
  show "ok = in_findex ?fi (bsr_FileIndex b)" by (rule st(1))
  show nil: "fs = [] \<longleftrightarrow> bsr_FileIndex b = []" using st(3) ds(1) by auto
  have "good ?b rs" using g srt ds(1) by (simp add: good_def bsr_sorted_def sorted_wrt_append)
  moreover have "chooses vol sess ?b r' = chooses vol sess b r'" if r': "r' \<in> set rs" for r'
  proof (cases "in_session b r'")
    case True
    have le: "?fi \<le>s FileIndex r'" using f r' s True by (simp add: follows_def)
    have passed: "\<not> (findex g \<le>s FileIndex r' \<and> FileIndex r' \<le>s findex2 g)" if "findex2 g <s ?fi" for g
      using that le by (simp add: word_sle_eq word_sless_alt)
    have keep: "in_findex (FileIndex r') fs = in_findex (FileIndex r') (bsr_FileIndex b)"
      using ds passed nil by (auto simp: in_findex_def)
    show ?thesis
    proof (cases "bd \<and> \<not> bsr_done b")
      case True
      then have "\<not> in_findex (FileIndex r') fs" using st(5) passed by (auto simp: in_findex_def)
      then show ?thesis using keep by (simp add: chooses_def selects_def)
    next
      case False
      then show ?thesis using keep nil st(4)
        by (auto simp: chooses_def selects_def in_session_def in_job_def)
    qed
  next
    case False
    then show ?thesis by (auto simp: chooses_def selects_def in_session_def)
  qed
  ultimately show "same_choice vol sess rs b ?b" by (auto simp: same_choice_def in_session_def fun_eq_iff)
qed

lemma match_one_step:
  assumes g: "good b (r # rs)" and f: "\<forall>r' \<in> set rs. follows b r r'"
    and m: "match_one unpack r vol sess b rp = (ok, b', rp', cpl)"
  shows "ok = chooses vol sess b r" and "same_choice vol sess rs b b'"
proof -
  have *: "ok = chooses vol sess b r \<and> same_choice vol sess rs b b'"
  proof (cases "bsr_done b \<or> \<not> match_volume (bsr_volume b) vol")
    case True
    then have "match_one unpack r vol sess b rp = (False, b, rp, False)"
      unfolding match_one_def by (cases "bsr_done b") simp_all
    then have "ok = False" "b' = b" using m by simp_all
    then show ?thesis using True good_tl [OF g] by (auto simp: chooses_def selects_def match_lists)
  next
    case False
    then have nd: "\<not> bsr_done b" and vol: "vol \<in> set (bsr_volume b)" by (simp_all add: match_lists)
    obtain ok1 vas bd1 rp1 where v: "match_voladdr (Addr r) True (voladdr b) False rp = (ok1, vas, bd1, rp1)" by (metis surj_pair)
    define b1 where "b1 = b\<lparr>voladdr := vas, bsr_done := bd1\<rparr>"
    have ok1: "ok1 = in_ranges (Addr r) (addr_ranges (voladdr b))" and s1: "same_choice vol sess rs b b1"
      using after_voladdr [OF g f nd v] by (simp_all add: b1_def)
    have b1: "bsr_FileIndex b1 = bsr_FileIndex b" "fileregex_re b1 = None" "\<not> skip_file b1" "bsr_count b1 = bsr_count b"
      "in_job sess b1 = in_job sess b" "in_session b1 = in_session b"
      using g s1 by (simp_all add: b1_def good_def bsr_sorted_def in_job_def fun_eq_iff same_choice_def)
    show ?thesis
    proof (cases "ok1 \<and> in_session b1 r")
      case False
      then have "match_one unpack r vol sess b rp = (False, b1, rp1, False)"
        using nd vol v unfolding match_one_def get_record_address_def Let_def in_session_def b1_def
        by (cases ok1; cases "match_sesstime (bsr_sesstime b) r") (simp_all add: match_lists(3))
      then have "ok = False" "b' = b1" using m by simp_all
      then show ?thesis using False s1 ok1 b1(6) by (auto simp: chooses_def selects_def)
    next
      case True
      then have sess: "match_sesstime (bsr_sesstime b1) r" "match_sessid (bsr_sessid b1) r" by (simp_all add: in_session_def)
      obtain ok2 fs bd2 rp2 where x: "match_findex (FileIndex r) (bsr_FileIndex b1) (bsr_done b1) rp1 = (ok2, fs, bd2, rp2)"
        by (metis surj_pair)
      define b2 where "b2 = b1\<lparr>bsr_FileIndex := fs, bsr_done := bd2\<rparr>"
      have g1: "good b1 rs" and f1: "\<forall>r' \<in> set rs. follows b1 r r'" using s1 f b1(6) by (simp_all add: same_choice_def follows_def)
      have ok2: "ok2 = in_findex (FileIndex r) (bsr_FileIndex b1)" "fs = [] \<longleftrightarrow> bsr_FileIndex b1 = []"
        and s2: "same_choice vol sess rs b1 b2"
        using after_findex [OF g1 f1 _ x] True by (simp_all add: b2_def)
      have b2: "match_fileregex unpack r b2 = (True, b2)" "\<not> skip_file b2" "bsr_FileIndex b2 = fs" "bsr_count b2 = bsr_count b"
        using b1 by (simp_all add: b2_def match_fileregex_def)
      have job: "in_job sess b2 = in_job sess b" using b1(5) by (simp add: b2_def in_job_def fun_eq_iff)
      have "match_one unpack r vol sess b rp =
          (if \<not> ok2 then (False, b2, rp2, False)
           else if bsr_count b2 \<noteq> 0 \<and> bsr_FileIndex b2 \<noteq> [] then (True, b2, rp2, True)
           else (in_job sess b2 r, b2, rp2, False))"
        using nd vol v True sess x b2(1,2)
        unfolding match_one_def get_record_address_def Let_def in_job_def b1_def b2_def
        by (simp add: match_lists(3))
      then have "b' = b2" "ok = (ok2 \<and> (bsr_count b \<noteq> 0 \<and> fs \<noteq> [] \<or> in_job sess b r))"
        using m b2(3,4) job by (auto split: if_splits)
      then show ?thesis
        using same_choice_trans [OF s1 s2] nd vol True ok1 ok2 b1(1,6) by (auto simp: chooses_def selects_def)
    qed
  qed
  then show "ok = chooses vol sess b r" "same_choice vol sess rs b b'" by blast+
qed

section \<open>The whole chain\<close>

lemma match_all_step:
  assumes "bsrs \<noteq> []" and "\<forall>b \<in> set bsrs. good b (r # rs)" and "\<forall>b \<in> set bsrs. \<forall>r' \<in> set rs. follows b r r'"
    and "match_all unpack r vol sess dn bsrs rp = (stat, bsrs', rp', at)"
  shows "(if \<exists>b \<in> set bsrs. chooses vol sess b r then stat = 1
          else stat = 0 \<or> stat = - 1 \<and> dn \<and> (\<forall>b \<in> set bsrs'. bsr_done b)) \<and>
         list_all2 (same_choice vol sess rs) bsrs bsrs'"
  using assms
proof (induction bsrs arbitrary: dn rp stat bsrs' rp' at)
  case Nil
  then show ?case by simp
next
  case (Cons b bs)
  obtain ok b1 rp1 cpl where o: "match_one unpack r vol sess b rp = (ok, b1, rp1, cpl)" by (metis surj_pair)
  have one: "ok = chooses vol sess b r" "same_choice vol sess rs b b1"
    using match_one_step [OF _ _ o, of rs] Cons.prems(2,3) by simp_all
  have rest: "list_all2 (same_choice vol sess rs) bs bs"
    using Cons.prems(2) good_tl by (auto simp: list_all2_same)
  show ?case
  proof (cases ok)
    case True
    then show ?thesis using Cons.prems(4) o one rest by auto
  next
    case no: False
    show ?thesis
    proof (cases "bs = []")
      case True
      then show ?thesis using Cons.prems(4) o one no by (auto split: if_splits)
    next
      case False
      obtain stat2 bs2 rp2 at2 where m: "match_all unpack r vol sess (bsr_done b1 \<and> dn) bs rp1 = (stat2, bs2, rp2, at2)"
        by (metis surj_pair)
      from Cons.IH [OF False _ _ this] Cons.prems(2,3)
      have ih: "if \<exists>b \<in> set bs. chooses vol sess b r then stat2 = 1
          else stat2 = 0 \<or> stat2 = - 1 \<and> (bsr_done b1 \<and> dn) \<and> (\<forall>b \<in> set bs2. bsr_done b)"
        "list_all2 (same_choice vol sess rs) bs bs2" by auto
      moreover have "stat = stat2" "bsrs' = b1 # bs2" using Cons.prems(4) o no False m by auto
      ultimately show ?thesis using one no by (auto split: if_splits)
    qed
  qed
qed

text \<open>
  What \<open>read_records\<close> takes of a sequence of records: those for which \<open>match_bsr\<close> returns 1, until it
  returns -1.
\<close>

fun select_records :: "(DEV_RECORD \<Rightarrow> string option) \<Rightarrow> string \<Rightarrow> SESSION_LABEL \<Rightarrow> BSR list \<Rightarrow> DEV_RECORD list \<Rightarrow> DEV_RECORD list" where
  "select_records unpack vol sess bsrs [] = []"
| "select_records unpack vol sess bsrs (r # rs) =
     (case match_bsr unpack bsrs r vol sess of
        (stat, bsrs, at) \<Rightarrow>
          if stat = - 1 then []
          else if stat = 0 then select_records unpack vol sess bsrs rs
          else r # select_records unpack vol sess bsrs rs)"

lemma same_choice_reposition:
  assumes "list_all2 (same_choice vol sess rs) bsrs bsrs'"
  shows "list_all2 (same_choice vol sess rs) bsrs (set_reposition x bsrs')"
proof (cases bsrs')
  case (Cons b' bs')
  then obtain b bs where b: "bsrs = b # bs" "same_choice vol sess rs b b'" "list_all2 (same_choice vol sess rs) bs bs'"
    using assms by (cases bsrs) auto
  have "same_choice vol sess rs b (b'\<lparr>reposition := x\<rparr>)"
    using b(2) by (auto simp: same_choice_def good_def bsr_sorted_def in_session_def chooses_def selects_def in_job_def fun_eq_iff)
  then show ?thesis using b(1,3) Cons by (simp add: set_reposition_def)
qed (use assms in \<open>simp add: set_reposition_def\<close>)

lemma select_chosen:
  assumes "bsrs \<noteq> []" and "\<forall>b \<in> set bsrs. good b recs" and "sorted_wrt (\<lambda>r r'. \<forall>b \<in> set bsrs. follows b r r') recs"
  shows "select_records unpack vol sess bsrs recs = filter (\<lambda>r. \<exists>b \<in> set bsrs. chooses vol sess b r) recs"
  using assms
proof (induction recs arbitrary: bsrs)
  case Nil
  then show ?case by simp
next
  case (Cons r rs)
  obtain stat bs1 rp at where a: "match_all unpack r vol sess True bsrs False = (stat, bs1, rp, at)" by (metis surj_pair)
  define bs2 where "bs2 = set_reposition (rp \<and> \<not> (stat \<noteq> 0 \<or> \<not> use_positioning (hd bs1))) bs1"
  have m: "match_bsr unpack bsrs r vol sess = (stat, bs2, at)" using a Cons.prems(1) by (simp add: match_bsr_def bs2_def)
  have f: "\<forall>b \<in> set bsrs. \<forall>r' \<in> set rs. follows b r r'" using Cons.prems(3) by auto
  have st: "if \<exists>b \<in> set bsrs. chooses vol sess b r then stat = 1 else stat = 0 \<or> stat = - 1 \<and> (\<forall>b \<in> set bs1. bsr_done b)"
    and all1: "list_all2 (same_choice vol sess rs) bsrs bs1"
    using match_all_step [OF Cons.prems(1,2) f a] by (auto split: if_splits)
  have all2: "list_all2 (same_choice vol sess rs) bsrs bs2" unfolding bs2_def by (rule same_choice_reposition [OF all1])
  have same: "(\<exists>b \<in> set bsrs. chooses vol sess b r') \<longleftrightarrow> (\<exists>b \<in> set bs'. chooses vol sess b r')"
    if "list_all2 (same_choice vol sess rs) bsrs bs'" "r' \<in> set rs" for bs' r'
    using that(1,2) by (induction rule: list_all2_induct) (auto simp: same_choice_def)
  have good2: "good b rs \<and> (\<exists>b0 \<in> set bsrs. in_session b = in_session b0)" if b: "b \<in> set bs2" for b
  proof -
    obtain i where i: "i < length bs2" "b = bs2 ! i" using b by (metis in_set_conv_nth)
    have "same_choice vol sess rs (bsrs ! i) b" "bsrs ! i \<in> set bsrs"
      using list_all2_nthD2 [OF all2 i(1)] i list_all2_lengthD [OF all2] by simp_all
    then show ?thesis unfolding same_choice_def by metis
  qed
  have "sorted_wrt (\<lambda>r r'. \<forall>b \<in> set bs2. follows b r r') rs"
  proof (rule sorted_wrt_mono_rel [of rs "\<lambda>r r'. \<forall>b \<in> set bsrs. follows b r r'"])
    show "sorted_wrt (\<lambda>r r'. \<forall>b \<in> set bsrs. follows b r r') rs" using Cons.prems(3) by simp
    fix r1 r2 assume "\<forall>b \<in> set bsrs. follows b r1 r2"
    then show "\<forall>b \<in> set bs2. follows b r1 r2" using good2 unfolding follows_def by metis
  qed
  moreover have "bs2 \<noteq> []" using all2 Cons.prems(1) by auto
  ultimately have ih: "select_records unpack vol sess bs2 rs = filter (\<lambda>r. \<exists>b \<in> set bs2. chooses vol sess b r) rs"
    using Cons.IH good2 by blast
  have ih': "select_records unpack vol sess bs2 rs = filter (\<lambda>r. \<exists>b \<in> set bsrs. chooses vol sess b r) rs"
    unfolding ih by (rule filter_cong) (use same [OF all2] in auto)
  have "\<forall>r' \<in> set rs. \<not> (\<exists>b \<in> set bsrs. chooses vol sess b r')" if "\<forall>b \<in> set bs1. bsr_done b"
    using same [OF all1] that by (auto simp: chooses_def)
  then show ?case using m st ih' by (auto split: if_splits)
qed


section \<open>Fast rejection\<close>

lemma match_one_session:
  assumes "match_one unpack r vol sess b rp = (True, b', rp', cpl)"
  shows "in_session b r"
proof (rule ccontr)
  assume no: "\<not> in_session b r"
  obtain ok1 vas bd1 rp1 where v: "match_voladdr (Addr r) True (voladdr b) (bsr_done b) rp = (ok1, vas, bd1, rp1)"
    by (metis surj_pair)
  have "fst (match_one unpack r vol sess b rp) = False"
    using no v unfolding match_one_def get_record_address_def Let_def in_session_def
    by (cases "bsr_done b"; cases "match_volume (bsr_volume b) vol"; cases ok1; cases "match_sesstime (bsr_sesstime b) r") simp_all
  then show False using assms by simp
qed

lemma match_all_session:
  "match_all unpack r vol sess dn bsrs rp = (1, bsrs', rp', at) \<Longrightarrow> \<exists>b \<in> set bsrs. in_session b r"
proof (induction bsrs arbitrary: dn rp bsrs' rp' at)
  case (Cons b bs)
  obtain ok b1 rp1 cpl where o: "match_one unpack r vol sess b rp = (ok, b1, rp1, cpl)" by (metis surj_pair)
  show ?case
  proof (cases ok)
    case True
    then show ?thesis using match_one_session o by (metis list.set_intros(1))
  next
    case False
    obtain stat2 bs2 rp2 at2 where m: "match_all unpack r vol sess (bsr_done b1 \<and> dn) bs rp1 = (stat2, bs2, rp2, at2)"
      by (metis surj_pair)
    then have "stat2 = 1" using Cons.prems o False by (auto split: if_splits)
    then show ?thesis using Cons.IH m by auto
  qed
qed simp

text \<open>
  Fast rejection is safe. When \<open>match_bsr_block\<close> rejects a block by the session in its header, no record
  of that session matches the bootstrap: \<open>match_bsr\<close> does not return 1 for it.
\<close>

lemma fast_rejection_sound:
  assumes "\<not> match_bsr_block bsrs block" and "rec_VolSessionId r = VolSessionId block"
    and "rec_VolSessionTime r = VolSessionTime block"
  shows "fst (match_bsr unpack bsrs r vol sess) \<noteq> 1"
proof
  assume one: "fst (match_bsr unpack bsrs r vol sess) = 1"
  have ne: "bsrs \<noteq> []" and no: "\<not> match_bsr_block_loop bsrs block"
    using assms(1) by (auto simp: match_bsr_block_def split: if_splits)
  obtain stat bs rp at where "match_all unpack r vol sess True bsrs False = (stat, bs, rp, at)" by (metis surj_pair)
  moreover from this have "stat = 1" using one ne by (simp add: match_bsr_def)
  ultimately obtain b where "b \<in> set bsrs" "in_session b r" using match_all_session by blast
  moreover from this(2) have "match_block_sesstime (bsr_sesstime b) block" "match_block_sessid (bsr_sessid b) block"
    using assms(2,3) by (simp_all add: in_session_def match_lists)
  ultimately have "match_bsr_block_loop bsrs block" by (induction bsrs) auto
  then show False using no by simp
qed

section \<open>Moving to the next address\<close>

lemma get_smallest_effect:
  "get_smallest_voladdr vas acc = (case acc of None \<Rightarrow> get_smallest_voladdr vas None
     | Some m \<Rightarrow> Some (case get_smallest_voladdr vas None of None \<Rightarrow> m | Some k \<Rightarrow> min m k))"
proof (induction vas arbitrary: acc)
  case Nil
  then show ?case by (simp split: option.split)
next
  case (Cons va vas)
  show ?case
    by (cases acc; cases "va_done va")
      (simp_all, simp_all add: Cons.IH [of "Some _"] min.assoc split: option.split)
qed

lemma get_smallest_le:
  assumes "va \<in> set vas" and "\<not> va_done va"
  shows "\<exists>m. get_smallest_voladdr vas None = Some m \<and> m \<le> saddr va"
  using assms
proof (induction vas)
  case (Cons v vas)
  then show ?case
    by (cases "v = va") (auto simp: get_smallest_effect [of vas "Some _"] min_le_iff_disj split: option.split)
qed simp

lemma get_smallest_in:
  assumes "get_smallest_voladdr vas None = Some m"
  shows "\<exists>va \<in> set vas. \<not> va_done va \<and> saddr va = m"
  using assms
proof (induction vas arbitrary: m)
  case (Cons v vas)
  then show ?case
    by (cases "va_done v")
      (auto simp: get_smallest_effect [of vas "Some _"] min_def split: option.splits if_splits)
qed simp

text \<open>The bootstrap records that still want something from the volume, and the first address they want.\<close>

definition open_bsr :: "string \<Rightarrow> BSR \<Rightarrow> bool" where
  "open_bsr vol b \<longleftrightarrow> \<not> bsr_done b \<and> match_volume (bsr_volume b) vol"

definition smallest :: "BSR \<Rightarrow> uint64_t option" where
  "smallest b = get_smallest_voladdr (voladdr b) None"

lemma find_next_loop_smallest:
  assumes "\<forall>b \<in> set bsrs. open_bsr vol b \<longrightarrow> smallest b \<noteq> None" and "acc \<noteq> None \<longrightarrow> smallest (the acc) \<noteq> None"
    and "find_next_loop vol bsrs acc = Some f"
  shows "(\<forall>b \<in> {b \<in> set bsrs. open_bsr vol b} \<union> set_option acc. the (smallest f) \<le> the (smallest b)) \<and>
     f \<in> {b \<in> set bsrs. open_bsr vol b} \<union> set_option acc \<and> smallest f \<noteq> None"
  using assms
proof (induction bsrs arbitrary: acc)
  case Nil
  then show ?case by auto
next
  case (Cons b bs)
  show ?case
  proof (cases "open_bsr vol b")
    case False
    then have "find_next_loop vol bs acc = Some f" using Cons.prems(3) by (auto simp: open_bsr_def split: if_splits)
    then show ?thesis using Cons.IH [of acc] Cons.prems(1,2) False by auto
  next
    case True
    define acc1 where "acc1 = (case acc of None \<Rightarrow> b | Some f \<Rightarrow> find_smallest_volfile f b)"
    have "find_next_loop vol bs (Some acc1) = Some f"
      using Cons.prems(3) True by (auto simp: open_bsr_def acc1_def split: option.splits)
    moreover have sb: "smallest b \<noteq> None" using Cons.prems(1) True by simp
    have acc1: "smallest acc1 \<noteq> None" "the (smallest acc1) \<le> the (smallest b)"
      "acc \<noteq> None \<longrightarrow> the (smallest acc1) \<le> the (smallest (the acc))" "acc1 = b \<or> acc = Some acc1"
      using Cons.prems(2) sb
      by (auto simp: acc1_def find_smallest_volfile_def smallest_def split: option.splits if_splits)
    ultimately show ?thesis using Cons.IH [of "Some acc1"] Cons.prems(1) True acc1 by force
  qed
qed

lemma set_mount_next_fields:
  "smallest (b\<lparr>mount_next_volume := m\<rparr>) = smallest b" "open_bsr vol (b\<lparr>mount_next_volume := m\<rparr>) = open_bsr vol b"
  by (simp_all add: smallest_def open_bsr_def)

lemma set_mount_next_mem:
  "b \<in> set bsrs \<Longrightarrow> \<exists>c \<in> set (set_mount_next m bsrs). open_bsr vol c = open_bsr vol b \<and> smallest c = smallest b"
  by (cases bsrs) (auto simp: set_mount_next_def set_mount_next_fields)

lemma find_next_loop_none: "find_next_loop vol bsrs acc = None \<Longrightarrow> acc = None \<and> (\<forall>b \<in> set bsrs. \<not> open_bsr vol b)"
proof (induction vol bsrs acc rule: find_next_loop.induct)
  case (2 vol b bs acc)
  show ?case
  proof (cases "open_bsr vol b")
    case True
    then have c: "\<not> (bsr_done b \<or> \<not> match_volume (bsr_volume b) vol)" by (simp add: open_bsr_def)
    then show ?thesis using 2(2) [OF c] 2(3) by (simp split: option.splits)
  next
    case False
    then have c: "bsr_done b \<or> \<not> match_volume (bsr_volume b) vol" by (auto simp: open_bsr_def)
    then show ?thesis using 2(1) [OF c] 2(3) False by simp
  qed
qed simp

text \<open>
  The ranges of every bootstrap record start with the lowest address, and one that is not done has a
  range that is not done.
\<close>

definition ranges_ok :: "BSR \<Rightarrow> bool" where
  "ranges_ok b \<longleftrightarrow> (\<forall>va \<in> set (voladdr b). saddr (hd (voladdr b)) \<le> saddr va) \<and>
     (\<not> bsr_done b \<longrightarrow> (\<exists>va \<in> set (voladdr b). \<not> va_done va))"

lemma start_addr_le_smallest: "ranges_ok b \<Longrightarrow> smallest b = Some m \<Longrightarrow> get_bsr_start_addr (Some b) \<le> m"
  using get_smallest_in [of "voladdr b" m]
  by (cases "voladdr b") (auto simp: ranges_ok_def smallest_def get_bsr_start_addr_def)

lemma find_next_start:
  assumes ok: "\<forall>b \<in> set bsrs. ranges_ok b" and f: "find_next_bsr bsrs vol d = (Some f, bsrs')"
    and b: "b \<in> set bsrs" "open_bsr vol b" and va: "va \<in> set (voladdr b)" "\<not> va_done va"
  shows "get_bsr_start_addr (Some f) \<le> saddr va"
proof -
  define bs where "bs = set_mount_next False bsrs"
  have loop: "find_next_loop vol bs None = Some f"
    using f by (auto simp: find_next_bsr_def bs_def Let_def split: if_splits)
  have bs: "\<forall>c \<in> set bs. ranges_ok c" "\<exists>c \<in> set bs. open_bsr vol c \<and> smallest c = smallest b"
  proof -
    show "\<forall>c \<in> set bs. ranges_ok c" using ok by (auto simp: bs_def set_mount_next_def ranges_ok_def split: list.splits)
    show "\<exists>c \<in> set bs. open_bsr vol c \<and> smallest c = smallest b"
      using b(2) set_mount_next_mem [OF b(1), of False vol] by (auto simp: bs_def)
  qed
  have some: "smallest c \<noteq> None" if "c \<in> set bs" "open_bsr vol c" for c
    using that bs(1) get_smallest_le unfolding smallest_def ranges_ok_def open_bsr_def by (metis option.distinct(1))
  obtain c where c: "c \<in> set bs" "open_bsr vol c" "smallest c = smallest b" using bs(2) by blast
  have fs: "the (smallest f) \<le> the (smallest c)" "f \<in> set bs" "smallest f \<noteq> None"
    using find_next_loop_smallest [OF _ _ loop] some c by auto
  obtain m where "smallest b = Some m" "m \<le> saddr va" using get_smallest_le [OF va] by (auto simp: smallest_def)
  then show ?thesis using fs c(3) start_addr_le_smallest bs(1) by (metis option.collapse option.sel order_trans)
qed


section \<open>Examples\<close>

definition sample_bsr :: BSR where
  "sample_bsr = \<lparr>reposition = False, mount_next_volume = False, bsr_done = False, use_fast_rejection = False,
     use_positioning = True, skip_file = False, bsr_volume = [''Vol''], bsr_count = 3, found = 0, volfile = [],
     volblock = [], voladdr = [\<lparr>saddr = 1000, eaddr = 2000, va_done = False\<rparr>], bsr_sesstime = [8],
     bsr_sessid = [\<lparr>sessid = 7, sessid2 = 7\<rparr>], JobId_list = [], bsr_job = [], bsr_client = [],
     bsr_FileIndex = [\<lparr>findex = 2, findex2 = 3\<rparr>, \<lparr>findex = 5, findex2 = 5\<rparr>], bsr_JobType = [], bsr_JobLevel = [],
     bsr_stream = [], fileregex_re = None\<rparr>"

definition sample_sess :: SESSION_LABEL where
  "sample_sess = \<lparr>sess_JobId = 1, sess_Job = ''job'', sess_ClientName = ''client'', sess_JobType = 66, sess_JobLevel = 70\<rparr>"

definition sample_rec :: "int32_t \<Rightarrow> uint64_t \<Rightarrow> DEV_RECORD" where
  "sample_rec fi a = new_record\<lparr>FileIndex := fi, Addr := a, rec_VolSessionId := 7, rec_VolSessionTime := 8, Stream := 2\<rparr>"

lemma sample_rec_fields [simp]:
  "FileIndex (sample_rec fi a) = fi" "Addr (sample_rec fi a) = a" "rec_VolSessionId (sample_rec fi a) = 7"
  "rec_VolSessionTime (sample_rec fi a) = 8" "Stream (sample_rec fi a) = 2"
  by (simp_all add: sample_rec_def)

lemma sample_selects: "selects ''Vol'' sample_sess sample_bsr (sample_rec fi a) \<longleftrightarrow>
    1000 \<le> a \<and> a \<le> 2000 \<and> (2 \<le>s fi \<and> fi \<le>s 3 \<or> 5 \<le>s fi \<and> fi \<le>s 5)"
  by (auto simp: selects_def sample_bsr_def in_ranges_def addr_ranges_def in_session_def in_findex_def)


lemma fast_rejection_sound_example:
  "fst (match_bsr (\<lambda>_. None) [sample_bsr\<lparr>use_fast_rejection := True\<rparr>] (sample_rec 2 1000\<lparr>rec_VolSessionId := 9\<rparr>) ''Vol'' sample_sess) \<noteq> 1"
proof -
  have "\<not> match_bsr_block [sample_bsr\<lparr>use_fast_rejection := True\<rparr>] (sample_block\<lparr>BlockVer := 2, VolSessionId := 9, VolSessionTime := 8\<rparr>)"
    by (simp add: match_bsr_block_def sample_bsr_def)
  then show ?thesis
    by (rule fast_rejection_sound [where block = "sample_block\<lparr>BlockVer := 2, VolSessionId := 9, VolSessionTime := 8\<rparr>"]) simp_all
qed

text \<open>The example device can be positioned.\<close>

definition sample_disk :: DCR where
  "sample_disk = sample_dcr\<lparr>dev := (dev sample_dcr)\<lparr>capabilities := CAP_POSITIONBLOCKS\<rparr>\<rparr>"

lemma sample_disk_dev:
  "has_cap (dev sample_disk) CAP_POSITIONBLOCKS" "is_open (dev sample_disk)" "get_full_addr (dev sample_disk) = 0"
  by (simp_all add: sample_disk_def sample_dcr_def zero_device_def has_cap_def CAP_POSITIONBLOCKS_def is_open_def
      get_full_addr_def full_addr_def is_tape_def)



end
