(* ===== verification/LabelFormat.thy ===== *)
theory LabelFormat
  imports RecordRead Dcr
begin

text \<open>
  The labels of \<^verbatim>\<open>stored/label.c\<close> as records: \<open>create_volume_label_record\<close>, \<open>create_session_label\<close> and their readers. A C
  array of characters is a byte list of its size, and a string in it ends with its first zero. A session label
  comes back as it was written; of a volume label the numbers behind the names do not.
\<close>

section \<open>Strings in arrays\<close>

definition cstr :: "byte list \<Rightarrow> byte list" where
  "cstr a = takeWhile (\<lambda>x. x \<noteq> 0) a"

definition terminated :: "nat \<Rightarrow> byte list \<Rightarrow> bool" where
  "terminated n a \<longleftrightarrow> length a = n \<and> 0 \<in> set a"

definition bytes_of :: "string \<Rightarrow> byte list" where
  "bytes_of s = map of_char s"

definition string_of :: "byte list \<Rightarrow> string" where
  "string_of bs = map (\<lambda>b. char_of (unat b)) bs"

text \<open>\<open>bstrncpy(dest, src, sizeof(dest))\<close>, with the padding of \<open>strncpy\<close>.\<close>

definition bstrncpy :: "nat \<Rightarrow> byte list \<Rightarrow> byte list" where
  "bstrncpy maxlen src = take (maxlen - 1) (src @ replicate (maxlen - 1) 0) @ [0]"

section \<open>Constants\<close>

definition BaculaId :: "byte list" where "BaculaId = bytes_of ''Bacula 1.0 immortal\<newline>''"
definition OldBaculaId :: "byte list" where "OldBaculaId = bytes_of ''Bacula 0.9 mortal\<newline>''"
definition BaculaMetaDataId :: "byte list" where "BaculaMetaDataId = bytes_of ''Bacula 1.0 Metadata\<newline>''"
definition BaculaAlignedDataId :: "byte list" where "BaculaAlignedDataId = bytes_of ''Bacula 1.0 Aligned Data\<newline>''"
definition BaculaDedupMetaDataId :: "byte list" where "BaculaDedupMetaDataId = bytes_of ''Bacula 1.0 Dedup Metadata\<newline>''"
definition BaculaS3CloudId :: "byte list" where "BaculaS3CloudId = bytes_of ''Bacula 1.0 S3 Cloud Data\<newline>''"
definition BaculaTapeVersion :: uint32_t where "BaculaTapeVersion = 11"
definition OldCompatibleBaculaTapeVersion1 :: uint32_t where "OldCompatibleBaculaTapeVersion1 = 10"
definition OldCompatibleBaculaTapeVersion2 :: uint32_t where "OldCompatibleBaculaTapeVersion2 = 9"
definition BaculaMetaDataVersion :: uint32_t where "BaculaMetaDataVersion = 10000"
definition BaculaAlignedDataVersion :: uint32_t where "BaculaAlignedDataVersion = 20000"
definition BaculaDedupMetaDataVersion :: uint32_t where "BaculaDedupMetaDataVersion = 30000"
definition BaculaS3CloudVersion :: uint32_t where "BaculaS3CloudVersion = 40000"
definition MAX_NAME_LENGTH :: nat where "MAX_NAME_LENGTH = 128"
definition SER_LENGTH_Volume_Label :: nat where "SER_LENGTH_Volume_Label = 1024"
definition SER_LENGTH_Session_Label :: nat where "SER_LENGTH_Session_Label = 1024"

section \<open>Volume labels\<close>

text \<open>\<open>dev->VolHdr\<close>. Times of type \<open>float64_t\<close> are their bit patterns.\<close>

record Volume_Label =
  vl_LabelType :: int32_t
  vl_LabelSize :: uint32_t
  vl_Id :: "byte list"
  vl_VerNum :: uint32_t
  vl_label_date :: uint64_t
  vl_label_time :: uint64_t
  vl_label_btime :: int64_t
  vl_write_btime :: int64_t
  vl_write_date :: uint64_t
  vl_write_time :: uint64_t
  vl_VolumeName :: "byte list"
  vl_PrevVolumeName :: "byte list"
  vl_PoolName :: "byte list"
  vl_PoolType :: "byte list"
  vl_MediaType :: "byte list"
  vl_HostName :: "byte list"
  vl_LabelProg :: "byte list"
  vl_ProgVersion :: "byte list"
  vl_ProgDate :: "byte list"
  vl_AlignedVolumeName :: "byte list"
  vl_FirstData :: uint64_t
  vl_FileAlignment :: uint32_t
  vl_PaddingSize :: uint32_t
  vl_BlockSize :: uint32_t
  vl_MaxPartSize :: uint64_t

text \<open>
  What the label routines take from the job and from the clock: the session, the strings of the job, and
  \<open>get_current_btime()\<close> and \<open>get_current_time()\<close>, which do not advance during a call.
\<close>

record label_job =
  lj_VolSessionId :: uint32_t
  lj_VolSessionTime :: uint32_t
  lj_btime :: int64_t
  lj_julian :: "uint64_t \<times> uint64_t"
  lj_pool_name :: "byte list"
  lj_pool_type :: "byte list"
  lj_job_name :: "byte list"
  lj_client_name :: "byte list"
  lj_Job :: "byte list"
  lj_fileset_name :: "byte list"
  lj_fileset_md5 :: "byte list"
  lj_JobType :: uint32_t
  lj_JobLevel :: uint32_t
  lj_JobFiles :: uint32_t
  lj_JobBytes :: uint64_t
  lj_JobErrors :: uint32_t
  lj_JobStatus :: uint32_t

definition ser_volume_label :: "Volume_Label \<Rightarrow> cursor \<Rightarrow> cursor option" where
  "ser_volume_label vl c = do {
     c \<leftarrow> ser_string (vl_Id vl) c;
     c \<leftarrow> ser_uint32 (vl_VerNum vl) c;
     c \<leftarrow> (if 11 \<le> vl_VerNum vl then do { c \<leftarrow> ser_btime (vl_label_btime vl) c; ser_btime (vl_write_btime vl) c }
           else do { c \<leftarrow> ser_float64 (vl_label_date vl) c; ser_float64 (vl_label_time vl) c });
     c \<leftarrow> ser_float64 (vl_write_date vl) c;
     c \<leftarrow> ser_float64 (vl_write_time vl) c;
     c \<leftarrow> ser_string (vl_VolumeName vl) c;
     c \<leftarrow> ser_string (vl_PrevVolumeName vl) c;
     c \<leftarrow> ser_string (vl_PoolName vl) c;
     c \<leftarrow> ser_string (vl_PoolType vl) c;
     c \<leftarrow> ser_string (vl_MediaType vl) c;
     c \<leftarrow> ser_string (vl_HostName vl) c;
     c \<leftarrow> ser_string (vl_LabelProg vl) c;
     c \<leftarrow> ser_string (vl_ProgVersion vl) c;
     c \<leftarrow> ser_string (vl_ProgDate vl) c;
     c \<leftarrow> ser_string (vl_AlignedVolumeName vl) c;
     c \<leftarrow> ser_uint64 (vl_FirstData vl) c;
     c \<leftarrow> ser_uint32 (vl_FileAlignment vl) c;
     c \<leftarrow> ser_uint32 (vl_PaddingSize vl) c;
     ser_uint32 (vl_BlockSize vl) c
   }"

text \<open>The times that \<open>create_volume_label_record\<close> sets, and the name it clears.\<close>

definition stamp_label :: "label_job \<Rightarrow> Volume_Label \<Rightarrow> Volume_Label" where
  "stamp_label job vl =
     (let vl = (if 11 \<le> vl_VerNum vl then vl\<lparr>vl_write_btime := lj_btime job, vl_write_date := 0, vl_write_time := 0\<rparr>
                else vl\<lparr>vl_write_date := fst (lj_julian job), vl_write_time := snd (lj_julian job)\<rparr>)
      in vl\<lparr>vl_AlignedVolumeName := (vl_AlignedVolumeName vl)[0 := 0]\<rparr>)"

text \<open>
  \<open>create_volume_label_record\<close>; \<open>rec_data\<close> is set to the \<open>data_len\<close> bytes that were serialised, what is behind them in
  the buffer is never used.
\<close>

definition create_volume_label_record :: "label_job \<Rightarrow> bool \<Rightarrow> DCR \<Rightarrow> Volume_Label \<Rightarrow> DEV_RECORD \<Rightarrow> (DCR \<times> Volume_Label \<times> DEV_RECORD) outcome" where
  "create_volume_label_record job is_adata dcr vl rec =
     (let mem = check_pool_memory_size (rec_data rec) (of_nat SER_LENGTH_Volume_Label);
          mem = replicate SER_LENGTH_Volume_Label 0 @ drop SER_LENGTH_Volume_Label mem;
          vl = stamp_label job vl
      in bind_outcome (from_option Out_of_bounds (ser_volume_label vl (mem, 0))) (\<lambda>(mem, n).
           if SER_LENGTH_Volume_Label < n then Dies Assert_failed
           else
             (let dcr = (if is_adata then dcr else dcr\<lparr>dcr_VolumeName := string_of (cstr (bstrncpy MAX_NAME_LENGTH (cstr (vl_VolumeName vl))))\<rparr>)
              in if dcr_VolumeName dcr = [] then Dies Assert_failed
                 else Ret (dcr, vl,
                   rec\<lparr>rec_data := take n mem, data_len := of_nat n, FileIndex := vl_LabelType vl,
                       rec_VolSessionId := lj_VolSessionId job, rec_VolSessionTime := lj_VolSessionTime job,
                       Stream := of_nat (NumWriteVolumes dcr), maskedStream := of_nat (NumWriteVolumes dcr)\<rparr>))))"

text \<open>\<open>unser_volume_label\<close>; the line that would read \<open>AlignedVolumeName\<close> is commented out in the source.\<close>

definition unser_label_times :: "Volume_Label \<Rightarrow> cursor \<Rightarrow> (Volume_Label \<times> cursor) option" where
  "unser_label_times vl c =
     (if 11 \<le> vl_VerNum vl then do {
        (t1, c) \<leftarrow> unser_btime c;
        (t2, c) \<leftarrow> unser_btime c;
        Some (vl\<lparr>vl_label_btime := t1, vl_write_btime := t2\<rparr>, c)
      } else do {
        (t1, c) \<leftarrow> unser_float64 c;
        (t2, c) \<leftarrow> unser_float64 c;
        Some (vl\<lparr>vl_label_date := t1, vl_label_time := t2\<rparr>, c)
      })"

definition unser_label_fields :: "Volume_Label \<Rightarrow> cursor \<Rightarrow> (Volume_Label \<times> cursor) option" where
  "unser_label_fields vl c = do {
     (Id, c) \<leftarrow> unser_string (vl_Id vl) c;
     (VerNum, c) \<leftarrow> unser_uint32 c;
     (vl, c) \<leftarrow> unser_label_times (vl\<lparr>vl_Id := Id, vl_VerNum := VerNum\<rparr>) c;
     (t3, c) \<leftarrow> unser_float64 c;
     (t4, c) \<leftarrow> unser_float64 c;
     (s1, c) \<leftarrow> unser_string (vl_VolumeName vl) c;
     (s2, c) \<leftarrow> unser_string (vl_PrevVolumeName vl) c;
     (s3, c) \<leftarrow> unser_string (vl_PoolName vl) c;
     (s4, c) \<leftarrow> unser_string (vl_PoolType vl) c;
     (s5, c) \<leftarrow> unser_string (vl_MediaType vl) c;
     (s6, c) \<leftarrow> unser_string (vl_HostName vl) c;
     (s7, c) \<leftarrow> unser_string (vl_LabelProg vl) c;
     (s8, c) \<leftarrow> unser_string (vl_ProgVersion vl) c;
     (s9, c) \<leftarrow> unser_string (vl_ProgDate vl) c;
     (n1, c) \<leftarrow> unser_uint64 c;
     (n2, c) \<leftarrow> unser_uint32 c;
     (n3, c) \<leftarrow> unser_uint32 c;
     (n4, c) \<leftarrow> unser_uint32 c;
     Some (vl\<lparr>vl_write_date := t3, vl_write_time := t4, vl_VolumeName := s1, vl_PrevVolumeName := s2, vl_PoolName := s3,
              vl_PoolType := s4, vl_MediaType := s5, vl_HostName := s6, vl_LabelProg := s7, vl_ProgVersion := s8, vl_ProgDate := s9,
              vl_AlignedVolumeName := (vl_AlignedVolumeName vl)[0 := 0],
              vl_FirstData := n1, vl_FileAlignment := n2, vl_PaddingSize := n3, vl_BlockSize := n4\<rparr>, c)
   }"

definition unser_volume_label :: "bool \<Rightarrow> Volume_Label \<Rightarrow> DEV_RECORD \<Rightarrow> (bool \<times> Volume_Label \<times> DEV_RECORD) outcome" where
  "unser_volume_label forge_on vl rec =
     (if FileIndex rec \<noteq> VOL_LABEL \<and> FileIndex rec \<noteq> PRE_LABEL \<and> \<not> forge_on then Ret (False, vl, rec)
      else
        (let vl = vl\<lparr>vl_LabelType := FileIndex rec, vl_LabelSize := data_len rec\<rparr>;
             rec = rec\<lparr>rec_data := check_pool_memory_size (rec_data rec) (of_nat SER_LENGTH_Volume_Label)\<rparr>
         in bind_outcome (from_option Out_of_bounds (unser_label_fields vl (rec_data rec, 0))) (\<lambda>(vl, _, n).
              if SER_LENGTH_Volume_Label < n then Dies Assert_failed else Ret (True, vl, rec))))"

section \<open>Session labels\<close>

text \<open>The field \<open>VolumeIndex\<close>, which is neither written nor read, is left out.\<close>

record Session_Label =
  sl_Id :: "byte list"
  sl_VerNum :: uint32_t
  sl_JobId :: uint32_t
  sl_write_btime :: int64_t
  sl_write_date :: uint64_t
  sl_write_time :: uint64_t
  sl_PoolName :: "byte list"
  sl_PoolType :: "byte list"
  sl_JobName :: "byte list"
  sl_ClientName :: "byte list"
  sl_Job :: "byte list"
  sl_FileSetName :: "byte list"
  sl_FileSetMD5 :: "byte list"
  sl_JobType :: uint32_t
  sl_JobLevel :: uint32_t
  sl_JobFiles :: uint32_t
  sl_JobBytes :: uint64_t
  sl_StartBlock :: uint32_t
  sl_EndBlock :: uint32_t
  sl_StartFile :: uint32_t
  sl_EndFile :: uint32_t
  sl_JobErrors :: uint32_t
  sl_JobStatus :: uint32_t

definition ser_session_label :: "label_job \<Rightarrow> DCR \<Rightarrow> int32_t \<Rightarrow> cursor \<Rightarrow> cursor option" where
  "ser_session_label job dcr label c = do {
     c \<leftarrow> ser_string (BaculaId @ [0]) c;
     c \<leftarrow> ser_uint32 BaculaTapeVersion c;
     c \<leftarrow> ser_uint32 (JobId dcr) c;
     c \<leftarrow> ser_btime (lj_btime job) c;
     c \<leftarrow> ser_float64 0 c;
     c \<leftarrow> ser_string (lj_pool_name job) c;
     c \<leftarrow> ser_string (lj_pool_type job) c;
     c \<leftarrow> ser_string (lj_job_name job) c;
     c \<leftarrow> ser_string (lj_client_name job) c;
     c \<leftarrow> ser_string (lj_Job job) c;
     c \<leftarrow> ser_string (lj_fileset_name job) c;
     c \<leftarrow> ser_uint32 (lj_JobType job) c;
     c \<leftarrow> ser_uint32 (lj_JobLevel job) c;
     c \<leftarrow> ser_string (lj_fileset_md5 job) c;
     (if label = EOS_LABEL then do {
        c \<leftarrow> ser_uint32 (lj_JobFiles job) c;
        c \<leftarrow> ser_uint64 (lj_JobBytes job) c;
        c \<leftarrow> ser_uint32 (ucast (dcr_StartAddr dcr)) c;
        c \<leftarrow> ser_uint32 (ucast (dcr_EndAddr dcr)) c;
        c \<leftarrow> ser_uint32 (ucast (drop_bit 32 (dcr_StartAddr dcr))) c;
        c \<leftarrow> ser_uint32 (ucast (drop_bit 32 (dcr_EndAddr dcr))) c;
        c \<leftarrow> ser_uint32 (lj_JobErrors job) c;
        ser_uint32 (lj_JobStatus job) c
      } else Some c)
   }"

definition create_session_label :: "label_job \<Rightarrow> DCR \<Rightarrow> DEV_RECORD \<Rightarrow> int32_t \<Rightarrow> DEV_RECORD outcome" where
  "create_session_label job dcr rec label =
     (let rec = rec\<lparr>rec_VolSessionId := lj_VolSessionId job, rec_VolSessionTime := lj_VolSessionTime job,
                    Stream := JobId dcr, maskedStream := JobId dcr\<rparr>;
          mem = check_pool_memory_size (rec_data rec) (of_nat SER_LENGTH_Session_Label)
      in bind_outcome (from_option Out_of_bounds (ser_session_label job dcr label (mem, 0))) (\<lambda>(mem, n).
           if SER_LENGTH_Session_Label < n then Dies Assert_failed
           else Ret (rec\<lparr>rec_data := take n mem, data_len := of_nat n\<rparr>)))"

text \<open>The fields that an end-of-session label has in addition; \<open>JS_Terminated\<close> is the character T.\<close>

definition unser_session_totals :: "Session_Label \<Rightarrow> cursor \<Rightarrow> (Session_Label \<times> cursor) option" where
  "unser_session_totals sl c = do {
     (n1, c) \<leftarrow> unser_uint32 c;
     (n2, c) \<leftarrow> unser_uint64 c;
     (n3, c) \<leftarrow> unser_uint32 c;
     (n4, c) \<leftarrow> unser_uint32 c;
     (n5, c) \<leftarrow> unser_uint32 c;
     (n6, c) \<leftarrow> unser_uint32 c;
     (n7, c) \<leftarrow> unser_uint32 c;
     (n8, c) \<leftarrow> (if 11 \<le> sl_VerNum sl then unser_uint32 c else Some (of_char CHR ''T'', c));
     Some (sl\<lparr>sl_JobFiles := n1, sl_JobBytes := n2, sl_StartBlock := n3, sl_EndBlock := n4, sl_StartFile := n5,
              sl_EndFile := n6, sl_JobErrors := n7, sl_JobStatus := n8\<rparr>, c)
   }"

definition unser_session_fields :: "int32_t \<Rightarrow> Session_Label \<Rightarrow> cursor \<Rightarrow> (Session_Label \<times> cursor) option" where
  "unser_session_fields label sl c = do {
     (Id, c) \<leftarrow> unser_string (sl_Id sl) c;
     (VerNum, c) \<leftarrow> unser_uint32 c;
     (Jid, c) \<leftarrow> unser_uint32 c;
     let sl = sl\<lparr>sl_Id := Id, sl_VerNum := VerNum, sl_JobId := Jid\<rparr>;
     (sl, c) \<leftarrow> (if 11 \<le> VerNum then do { (t, c) \<leftarrow> unser_btime c; Some (sl\<lparr>sl_write_btime := t\<rparr>, c) }
                 else do { (t, c) \<leftarrow> unser_float64 c; Some (sl\<lparr>sl_write_date := t\<rparr>, c) });
     (t2, c) \<leftarrow> unser_float64 c;
     (s1, c) \<leftarrow> unser_string (sl_PoolName sl) c;
     (s2, c) \<leftarrow> unser_string (sl_PoolType sl) c;
     (s3, c) \<leftarrow> unser_string (sl_JobName sl) c;
     (s4, c) \<leftarrow> unser_string (sl_ClientName sl) c;
     let sl = sl\<lparr>sl_write_time := t2, sl_PoolName := s1, sl_PoolType := s2, sl_JobName := s3, sl_ClientName := s4\<rparr>;
     (sl, c) \<leftarrow> (if 10 \<le> VerNum then do {
         (s5, c) \<leftarrow> unser_string (sl_Job sl) c;
         (s6, c) \<leftarrow> unser_string (sl_FileSetName sl) c;
         (n1, c) \<leftarrow> unser_uint32 c;
         (n2, c) \<leftarrow> unser_uint32 c;
         Some (sl\<lparr>sl_Job := s5, sl_FileSetName := s6, sl_JobType := n1, sl_JobLevel := n2\<rparr>, c)
       } else Some (sl, c));
     (s7, c) \<leftarrow> (if 11 \<le> VerNum then unser_string (sl_FileSetMD5 sl) c else Some ((sl_FileSetMD5 sl)[0 := 0], c));
     let sl = sl\<lparr>sl_FileSetMD5 := s7\<rparr>;
     (if label = EOS_LABEL then unser_session_totals sl c else Some (sl, c))
   }"

definition unser_session_label :: "Session_Label \<Rightarrow> DEV_RECORD \<Rightarrow> (Session_Label \<times> DEV_RECORD) outcome" where
  "unser_session_label sl rec =
     (let rec = rec\<lparr>rec_data := check_pool_memory_size (rec_data rec) (of_nat SER_LENGTH_Session_Label)\<rparr>
      in bind_outcome (from_option Out_of_bounds (unser_session_fields (FileIndex rec) sl (rec_data rec, 0))) (\<lambda>(sl, _). Ret (sl, rec)))"

section \<open>Chains of writes and reads\<close>

lemma terminated_cstr:
  assumes "terminated n a"
  obtains rest where "a = cstr a @ 0 # rest" and "0 \<notin> set (cstr a)" and "length (cstr a) < n"
proof -
  have "dropWhile (\<lambda>x. x \<noteq> 0) a \<noteq> []" using assms by (auto simp: terminated_def dropWhile_eq_Nil_conv)
  then obtain x rest where d: "dropWhile (\<lambda>x. x \<noteq> 0) a = x # rest" by (cases "dropWhile (\<lambda>x. x \<noteq> 0) a") auto
  then have "x = 0" using hd_dropWhile [of "\<lambda>x. x \<noteq> 0" a] by simp
  then have a: "a = cstr a @ 0 # rest" using takeWhile_dropWhile_id [of "\<lambda>x. x \<noteq> 0" a] d by (simp add: cstr_def)
  moreover have "0 \<notin> set (cstr a)" using set_takeWhileD [of 0 "\<lambda>x. x \<noteq> 0" a] by (auto simp: cstr_def)
  moreover have "length (cstr a) < n" using arg_cong [OF a, of length] assms by (simp add: terminated_def)
  ultimately show ?thesis using that by blast
qed

lemma cstr_zero: "0 \<notin> set s \<Longrightarrow> cstr (s @ 0 # rest) = s"
  by (induction s) (simp_all add: cstr_def)

text \<open>What one write of a field stores.\<close>

lemma ser_string_put: "terminated n a \<Longrightarrow> ser_string a c = put_bytes (cstr a @ [0]) c"
  by (metis serial_string_put terminated_cstr)

text \<open>A cursor in front of the bytes \<open>bs\<close>, and a chain of reads that succeeds with a property.\<close>

definition at_bytes :: "cursor \<Rightarrow> byte list \<Rightarrow> bool" where
  "at_bytes c bs \<longleftrightarrow> drop (snd c) (fst c) = bs"

definition yields :: "'a option \<Rightarrow> ('a \<Rightarrow> bool) \<Rightarrow> bool" where
  "yields m P \<longleftrightarrow> (\<exists>x. m = Some x \<and> P x)"

lemma at_bytes_get:
  fixes v :: "'a::len word"
  assumes "at_bytes c (be_bytes n v @ rest)" and "8 * n = LENGTH('a)"
  shows "\<exists>c'. get_be n c = Some (v, c') \<and> at_bytes c' rest \<and> fst c' = fst c \<and> snd c' = snd c + n"
proof -
  obtain buf p where c: "c = (buf, p)" by (cases c)
  have "take n (drop p buf) = be_bytes n v" using assms(1) c by (simp add: at_bytes_def)
  moreover have "drop (p + n) buf = rest" using arg_cong [OF assms(1) [unfolded at_bytes_def], of "drop n"] c by (simp add: add.commute)
  ultimately show ?thesis using get_be_at [of n p buf v] assms(2) c by (simp add: at_bytes_def)
qed

lemma yields_get:
  fixes v :: "'a::len word"
  assumes "at_bytes c (be_bytes n v @ rest)" and "8 * n = LENGTH('a)" and "\<And>c'. at_bytes c' rest \<Longrightarrow> fst c' = fst c \<Longrightarrow> yields (f v c') P"
  shows "yields (Option.bind (get_be n c) (\<lambda>(x, c). f x c)) P"
  using at_bytes_get [OF assms(1,2)] assms(3) by auto

lemma yields_string:
  assumes "at_bytes c (s @ 0 # rest)" and "0 \<notin> set s" and "length s < length dest"
    and "\<And>c' a. at_bytes c' rest \<Longrightarrow> fst c' = fst c \<Longrightarrow> cstr a = s \<Longrightarrow> terminated (length dest) a \<Longrightarrow> yields (f a c') P"
  shows "yields (Option.bind (unser_string dest c) (\<lambda>(x, c). f x c)) P"
proof -
  obtain buf p where c: "c = (buf, p)" by (cases c)
  have d: "drop p buf = s @ 0 # rest" using assms(1) c by (simp add: at_bytes_def)
  have "length (drop p buf) = length (s @ 0 # rest)" by (simp only: d)
  then have len: "p + length s < length buf" by simp
  have "take (length s + 1) (drop p buf) = s @ [0]" unfolding d by simp
  from unserial_string_copies [OF this assms(2) assms(3) assms(3) len]
  have "unser_string dest c = Some (s @ 0 # drop (Suc (length s)) dest, (buf, p + length s + 1))" by (simp add: unser_string_def c)
  moreover have "drop (p + length s + 1) buf = rest" using arg_cong [OF d, of "drop (length s + 1)"] by (simp add: add.commute add.left_commute)
  ultimately show ?thesis
    using assms(4) [of "(buf, p + length s + 1)" "s @ 0 # drop (Suc (length s)) dest"] assms(2,3) c by (simp add: at_bytes_def cstr_zero terminated_def)
qed

lemma yields_Some: "P x \<Longrightarrow> yields (Some x) P"
  by (simp add: yields_def)

section \<open>The bytes of a volume label\<close>

definition label_ok :: "Volume_Label \<Rightarrow> bool" where
  "label_ok vl \<longleftrightarrow> terminated 32 (vl_Id vl) \<and>
     list_all (terminated MAX_NAME_LENGTH) [vl_VolumeName vl, vl_PrevVolumeName vl, vl_PoolName vl, vl_PoolType vl, vl_MediaType vl, vl_HostName vl] \<and>
     list_all (terminated 50) [vl_LabelProg vl, vl_ProgVersion vl, vl_ProgDate vl] \<and> length (vl_AlignedVolumeName vl) = MAX_NAME_LENGTH + 4"

definition label_bytes :: "Volume_Label \<Rightarrow> byte list" where
  "label_bytes vl =
     cstr (vl_Id vl) @ [0] @ be_bytes 4 (vl_VerNum vl) @
     (if 11 \<le> vl_VerNum vl then be_bytes 8 (vl_label_btime vl) @ be_bytes 8 (vl_write_btime vl)
      else be_bytes 8 (vl_label_date vl) @ be_bytes 8 (vl_label_time vl)) @
     be_bytes 8 (vl_write_date vl) @ be_bytes 8 (vl_write_time vl) @
     cstr (vl_VolumeName vl) @ [0] @ cstr (vl_PrevVolumeName vl) @ [0] @ cstr (vl_PoolName vl) @ [0] @ cstr (vl_PoolType vl) @ [0] @
     cstr (vl_MediaType vl) @ [0] @ cstr (vl_HostName vl) @ [0] @ cstr (vl_LabelProg vl) @ [0] @ cstr (vl_ProgVersion vl) @ [0] @
     cstr (vl_ProgDate vl) @ [0] @ cstr (vl_AlignedVolumeName vl) @ [0] @
     be_bytes 8 (vl_FirstData vl) @ be_bytes 4 (vl_FileAlignment vl) @ be_bytes 4 (vl_PaddingSize vl) @ be_bytes 4 (vl_BlockSize vl)"

lemma ser_label_bytes:
  assumes "label_ok vl" and "0 \<in> set (vl_AlignedVolumeName vl)"
  shows "ser_volume_label vl c = put_bytes (label_bytes vl) c"
proof -
  have s: "ser_string (vl_Id vl) c = put_bytes (cstr (vl_Id vl) @ [0]) c" "ser_string (vl_VolumeName vl) c = put_bytes (cstr (vl_VolumeName vl) @ [0]) c"
     "ser_string (vl_PrevVolumeName vl) c = put_bytes (cstr (vl_PrevVolumeName vl) @ [0]) c" "ser_string (vl_PoolName vl) c = put_bytes (cstr (vl_PoolName vl) @ [0]) c"
     "ser_string (vl_PoolType vl) c = put_bytes (cstr (vl_PoolType vl) @ [0]) c" "ser_string (vl_MediaType vl) c = put_bytes (cstr (vl_MediaType vl) @ [0]) c"
     "ser_string (vl_HostName vl) c = put_bytes (cstr (vl_HostName vl) @ [0]) c" "ser_string (vl_LabelProg vl) c = put_bytes (cstr (vl_LabelProg vl) @ [0]) c"
     "ser_string (vl_ProgVersion vl) c = put_bytes (cstr (vl_ProgVersion vl) @ [0]) c" "ser_string (vl_ProgDate vl) c = put_bytes (cstr (vl_ProgDate vl) @ [0]) c"
     "ser_string (vl_AlignedVolumeName vl) c = put_bytes (cstr (vl_AlignedVolumeName vl) @ [0]) c" for c
    using assms ser_string_put [of "MAX_NAME_LENGTH + 4" "vl_AlignedVolumeName vl" c]
    by (simp_all add: label_ok_def ser_string_put terminated_def)
  show ?thesis
    unfolding ser_volume_label_def s label_bytes_def codec_simps
    by (simp add: put_bytes_append put_bytes_bind)
qed

text \<open>A byte in front of a number moves it by one byte, and its last byte is left over.\<close>

lemma le_bytes_shifted:
  fixes v :: "'a::len word"
  assumes "8 * n = LENGTH('a)" and "0 < n"
  shows "le_bytes n v @ [x] = ucast v # le_bytes n (push_bit (8 * n - 8) (ucast x) OR drop_bit 8 v)"
proof (rule nth_equalityI)
  fix i assume "i < length (le_bytes n v @ [x])"
  then have i: "i \<le> n" by simp
  show "(le_bytes n v @ [x]) ! i = (ucast v # le_bytes n (push_bit (8 * n - 8) (ucast x) OR drop_bit 8 v)) ! i"
  proof (cases i)
    case 0
    then show ?thesis using assms(2) by (simp add: nth_append le_bytes_def)
  next
    case (Suc j)
    show ?thesis
    proof (rule bit_word_eqI)
      fix k assume k: "k < LENGTH(8)"
      show "bit ((le_bytes n v @ [x]) ! i) k \<longleftrightarrow> bit ((ucast v # le_bytes n (push_bit (8 * n - 8) (ucast x) OR drop_bit 8 v)) ! i) k"
      proof (cases "i < n")
        case True
        have "\<not> 8 * n - 8 \<le> 8 * j + k" using True Suc k by simp
        moreover have "8 + (8 * j + k) = 8 * i + k" using Suc by simp
        ultimately show ?thesis using True Suc k
          by (simp add: nth_append le_bytes_def bit_simps add.commute add.left_commute)
      next
        case False
        then have n: "i = n" using i by simp
        have "8 * n - 8 = 8 * j" using Suc n by simp
        moreover have "8 + (8 * j + k) \<ge> LENGTH('a)" using assms(1) Suc n by simp
        ultimately show ?thesis using n Suc k assms(1)
          by (auto simp: nth_append le_bytes_def bit_simps dest: bit_imp_le_length)
      qed
    qed
  qed
qed simp

lemma be_bytes_shifted:
  fixes v :: "'a::len word"
  assumes "8 * n = LENGTH('a)" and "0 < n"
  shows "x # be_bytes n v = be_bytes n (push_bit (8 * n - 8) (ucast x) OR drop_bit 8 v) @ [ucast v]"
  using arg_cong [OF le_bytes_shifted [OF assms, of v x], of rev] by (simp add: be_bytes_def)

text \<open>The label that was read: the identification, the times and the names are those of \<open>vl\<close>.\<close>

definition same_label :: "Volume_Label \<Rightarrow> Volume_Label \<Rightarrow> bool" where
  "same_label vl vl' \<longleftrightarrow>
     map cstr [vl_Id vl', vl_VolumeName vl', vl_PrevVolumeName vl', vl_PoolName vl', vl_PoolType vl', vl_MediaType vl', vl_HostName vl', vl_LabelProg vl',
       vl_ProgVersion vl', vl_ProgDate vl', vl_AlignedVolumeName vl'] =
     map cstr [vl_Id vl, vl_VolumeName vl, vl_PrevVolumeName vl, vl_PoolName vl, vl_PoolType vl, vl_MediaType vl, vl_HostName vl, vl_LabelProg vl,
       vl_ProgVersion vl, vl_ProgDate vl, vl_AlignedVolumeName vl] \<and>
     vl_VerNum vl' = vl_VerNum vl \<and> vl_write_date vl' = vl_write_date vl \<and> vl_write_time vl' = vl_write_time vl \<and>
     (if 11 \<le> vl_VerNum vl then vl_label_btime vl' = vl_label_btime vl \<and> vl_write_btime vl' = vl_write_btime vl
      else vl_label_date vl' = vl_label_date vl \<and> vl_label_time vl' = vl_label_time vl)"

text \<open>The numbers, each taken one byte too early.\<close>

definition shifted_numbers :: "Volume_Label \<Rightarrow> Volume_Label \<Rightarrow> bool" where
  "shifted_numbers vl vl' \<longleftrightarrow>
     vl_FirstData vl' = drop_bit 8 (vl_FirstData vl) \<and>
     vl_FileAlignment vl' = push_bit 24 (ucast (vl_FirstData vl)) OR drop_bit 8 (vl_FileAlignment vl) \<and>
     vl_PaddingSize vl' = push_bit 24 (vl_FileAlignment vl) OR drop_bit 8 (vl_PaddingSize vl) \<and>
     vl_BlockSize vl' = push_bit 24 (vl_PaddingSize vl) OR drop_bit 8 (vl_BlockSize vl)"

lemma push_low_byte: "push_bit 24 (ucast (ucast w :: byte) :: uint32_t) = push_bit 24 (ucast w)" for w :: "'a::len word"
  by (rule bit_word_eqI) (auto simp: bit_simps)

lemma label_tail:
  "0 # be_bytes 8 (vl_FirstData vl) @ be_bytes 4 (vl_FileAlignment vl) @ be_bytes 4 (vl_PaddingSize vl) @ be_bytes 4 (vl_BlockSize vl) @ rest =
     be_bytes 8 (drop_bit 8 (vl_FirstData vl)) @
     be_bytes 4 (push_bit 24 (ucast (vl_FirstData vl)) OR drop_bit 8 (vl_FileAlignment vl) :: uint32_t) @
     be_bytes 4 (push_bit 24 (vl_FileAlignment vl) OR drop_bit 8 (vl_PaddingSize vl)) @
     be_bytes 4 (push_bit 24 (vl_PaddingSize vl) OR drop_bit 8 (vl_BlockSize vl)) @ ucast (vl_BlockSize vl) # rest"
proof -
  have s: "x # be_bytes 4 v @ r = be_bytes 4 (push_bit 24 (ucast x) OR drop_bit 8 v) @ ucast v # r" for x :: byte and v :: uint32_t and r
    using be_bytes_shifted [of 4 x v] by (simp flip: append_Cons)
  have f: "0 # be_bytes 8 (vl_FirstData vl) @ r = be_bytes 8 (drop_bit 8 (vl_FirstData vl)) @ ucast (vl_FirstData vl) # r" for r :: "byte list"
    using be_bytes_shifted [of 8 0 "vl_FirstData vl"] by (simp flip: append_Cons)
  show ?thesis unfolding f s push_low_byte by simp
qed

lemma yields_times:
  assumes "vl_VerNum vl0 = vl_VerNum vl"
    and "at_bytes c ((if 11 \<le> vl_VerNum vl then be_bytes 8 (vl_label_btime vl) @ be_bytes 8 (vl_write_btime vl)
       else be_bytes 8 (vl_label_date vl) @ be_bytes 8 (vl_label_time vl)) @ rest)"
    and "\<And>c' t1 t2 d1 d2. at_bytes c' rest \<Longrightarrow> fst c' = fst c \<Longrightarrow>
       (if 11 \<le> vl_VerNum vl then t1 = vl_label_btime vl \<and> t2 = vl_write_btime vl else d1 = vl_label_date vl \<and> d2 = vl_label_time vl) \<Longrightarrow>
       yields (f (vl0\<lparr>vl_label_btime := t1, vl_write_btime := t2, vl_label_date := d1, vl_label_time := d2\<rparr>) c') P"
  shows "yields (Option.bind (unser_label_times vl0 c) (\<lambda>(x, c). f x c)) P"
proof (cases "11 \<le> vl_VerNum vl")
  case True
  obtain c1 where c1: "get_be 8 c = Some (vl_label_btime vl, c1)" "at_bytes c1 (be_bytes 8 (vl_write_btime vl) @ rest)" "fst c1 = fst c"
    using at_bytes_get [of c 8 "vl_label_btime vl"] assms(2) True by auto
  obtain c2 where c2: "get_be 8 c1 = Some (vl_write_btime vl, c2)" "at_bytes c2 rest" "fst c2 = fst c1"
    using at_bytes_get [OF c1(2)] by auto
  show ?thesis
    using assms(3) [OF c2(2), of "vl_label_btime vl" "vl_write_btime vl" "vl_label_date vl0" "vl_label_time vl0"] c1 c2 assms(1) True
    by (simp add: unser_label_times_def codec_simps)
next
  case False
  obtain c1 where c1: "get_be 8 c = Some (vl_label_date vl, c1)" "at_bytes c1 (be_bytes 8 (vl_label_time vl) @ rest)" "fst c1 = fst c"
    using at_bytes_get [of c 8 "vl_label_date vl"] assms(2) False by auto
  obtain c2 where c2: "get_be 8 c1 = Some (vl_label_time vl, c2)" "at_bytes c2 rest" "fst c2 = fst c1"
    using at_bytes_get [OF c1(2)] by auto
  show ?thesis
    using assms(3) [OF c2(2), of "vl_label_btime vl0" "vl_write_btime vl0" "vl_label_date vl" "vl_label_time vl"] c1 c2 assms(1) False
    by (simp add: unser_label_times_def codec_simps)
qed

lemma read_label_bytes:
  assumes vl: "label_ok vl" "cstr (vl_AlignedVolumeName vl) = []" and vl0: "label_ok vl0" and c: "at_bytes c (label_bytes vl @ rest)"
  shows "yields (unser_label_fields vl0 c) (\<lambda>(vl', c'). same_label vl vl' \<and> shifted_numbers vl vl' \<and> label_ok vl' \<and>
     vl_LabelType vl' = vl_LabelType vl0 \<and> at_bytes c' (ucast (vl_BlockSize vl) # rest) \<and> fst c' = fst c)"
proof -
  have z: "0 \<notin> set (cstr a)" for a using set_takeWhileD [of 0 "\<lambda>x. x \<noteq> 0" a] by (auto simp: cstr_def)
  have short: "terminated n a \<Longrightarrow> terminated n b \<Longrightarrow> length (cstr a) < length b" for n a b
    using terminated_cstr [of n a] by (metis terminated_def)
  have l: "length (cstr (vl_Id vl)) < length (vl_Id vl0)" "length (cstr (vl_VolumeName vl)) < length (vl_VolumeName vl0)"
     "length (cstr (vl_PrevVolumeName vl)) < length (vl_PrevVolumeName vl0)" "length (cstr (vl_PoolName vl)) < length (vl_PoolName vl0)"
     "length (cstr (vl_PoolType vl)) < length (vl_PoolType vl0)" "length (cstr (vl_MediaType vl)) < length (vl_MediaType vl0)"
     "length (cstr (vl_HostName vl)) < length (vl_HostName vl0)" "length (cstr (vl_LabelProg vl)) < length (vl_LabelProg vl0)"
     "length (cstr (vl_ProgVersion vl)) < length (vl_ProgVersion vl0)" "length (cstr (vl_ProgDate vl)) < length (vl_ProgDate vl0)"
    using vl(1) vl0 by (auto simp: label_ok_def intro!: short)
  let ?t = "be_bytes 8 (vl_write_date vl) @ be_bytes 8 (vl_write_time vl) @
     cstr (vl_VolumeName vl) @ 0 # cstr (vl_PrevVolumeName vl) @ 0 # cstr (vl_PoolName vl) @ 0 # cstr (vl_PoolType vl) @ 0 #
     cstr (vl_MediaType vl) @ 0 # cstr (vl_HostName vl) @ 0 # cstr (vl_LabelProg vl) @ 0 # cstr (vl_ProgVersion vl) @ 0 #
     cstr (vl_ProgDate vl) @ 0 # be_bytes 8 (drop_bit 8 (vl_FirstData vl)) @
     be_bytes 4 (push_bit 24 (ucast (vl_FirstData vl)) OR drop_bit 8 (vl_FileAlignment vl) :: uint32_t) @
     be_bytes 4 (push_bit 24 (vl_FileAlignment vl) OR drop_bit 8 (vl_PaddingSize vl)) @
     be_bytes 4 (push_bit 24 (vl_PaddingSize vl) OR drop_bit 8 (vl_BlockSize vl)) @ ucast (vl_BlockSize vl) # rest"
  have eq: "label_bytes vl @ rest = cstr (vl_Id vl) @ 0 # be_bytes 4 (vl_VerNum vl) @
     (if 11 \<le> vl_VerNum vl then be_bytes 8 (vl_label_btime vl) @ be_bytes 8 (vl_write_btime vl)
      else be_bytes 8 (vl_label_date vl) @ be_bytes 8 (vl_label_time vl)) @ ?t"
    unfolding label_tail [symmetric] label_bytes_def vl(2) by simp
  have al: "cstr ((vl_AlignedVolumeName vl0)[0 := 0]) = []" by (cases "vl_AlignedVolumeName vl0") (simp_all add: cstr_def)
  have c': "at_bytes c (cstr (vl_Id vl) @ 0 # be_bytes 4 (vl_VerNum vl) @
     (if 11 \<le> vl_VerNum vl then be_bytes 8 (vl_label_btime vl) @ be_bytes 8 (vl_write_btime vl)
      else be_bytes 8 (vl_label_date vl) @ be_bytes 8 (vl_label_time vl)) @ ?t)"
    using c unfolding eq .
  have n: "length (vl_Id vl0) = 32" "length (vl_VolumeName vl0) = MAX_NAME_LENGTH" "length (vl_PrevVolumeName vl0) = MAX_NAME_LENGTH"
      "length (vl_PoolName vl0) = MAX_NAME_LENGTH" "length (vl_PoolType vl0) = MAX_NAME_LENGTH" "length (vl_MediaType vl0) = MAX_NAME_LENGTH"
      "length (vl_HostName vl0) = MAX_NAME_LENGTH" "length (vl_LabelProg vl0) = 50" "length (vl_ProgVersion vl0) = 50" "length (vl_ProgDate vl0) = 50"
      "length (vl_AlignedVolumeName vl0) = MAX_NAME_LENGTH + 4"
    using vl0 by (simp_all add: label_ok_def terminated_def)
  show ?thesis
    unfolding unser_label_fields_def codec_simps
    by (insert c', ((rule yields_string, assumption, rule z, simp (no_asm) add: l) | (rule yields_get, assumption, simp (no_asm)) |
        (rule yields_times [where vl = vl], simp (no_asm), assumption))+, rule yields_Some)
      (simp add: same_label_def shifted_numbers_def al label_ok_def n vl(2))
qed

text \<open>A label fits its record with room to spare.\<close>

lemma label_bytes_room:
  assumes "label_ok vl" and "cstr (vl_AlignedVolumeName vl) = []"
  shows "length (label_bytes vl) \<le> 1007"
proof -
  have s: "length (cstr a) < n" if "terminated n a" for n a using terminated_cstr [OF that] by metis
  have "length (cstr (vl_Id vl)) < 32" "length (cstr (vl_VolumeName vl)) < 128" "length (cstr (vl_PrevVolumeName vl)) < 128"
     "length (cstr (vl_PoolName vl)) < 128" "length (cstr (vl_PoolType vl)) < 128" "length (cstr (vl_MediaType vl)) < 128"
     "length (cstr (vl_HostName vl)) < 128" "length (cstr (vl_LabelProg vl)) < 50" "length (cstr (vl_ProgVersion vl)) < 50"
     "length (cstr (vl_ProgDate vl)) < 50"
    using assms(1) by (auto simp: label_ok_def MAX_NAME_LENGTH_def intro!: s)
  then show ?thesis by (simp add: label_bytes_def assms(2))
qed

lemma stamp_label_ok:
  assumes "label_ok vl"
  shows "label_ok (stamp_label job vl)" "cstr (vl_AlignedVolumeName (stamp_label job vl)) = []" "0 \<in> set (vl_AlignedVolumeName (stamp_label job vl))"
proof -
  obtain x xs where a: "vl_AlignedVolumeName vl = x # xs" using assms by (cases "vl_AlignedVolumeName vl") (simp_all add: label_ok_def MAX_NAME_LENGTH_def)
  show "label_ok (stamp_label job vl)" "cstr (vl_AlignedVolumeName (stamp_label job vl)) = []" "0 \<in> set (vl_AlignedVolumeName (stamp_label job vl))"
    using assms by (simp_all add: stamp_label_def label_ok_def Let_def a cstr_def)
qed

text \<open>The record of a label.\<close>

definition label_record :: "label_job \<Rightarrow> DCR \<Rightarrow> Volume_Label \<Rightarrow> DEV_RECORD \<Rightarrow> DEV_RECORD" where
  "label_record job dcr vl rec =
     rec\<lparr>rec_data := label_bytes vl, data_len := of_nat (length (label_bytes vl)), FileIndex := vl_LabelType vl,
         rec_VolSessionId := lj_VolSessionId job, rec_VolSessionTime := lj_VolSessionTime job,
         Stream := of_nat (NumWriteVolumes dcr), maskedStream := of_nat (NumWriteVolumes dcr)\<rparr>"

lemma cstr_bstrncpy: "0 \<notin> set s \<Longrightarrow> length s < n \<Longrightarrow> cstr (bstrncpy n s) = s"
proof -
  assume s: "0 \<notin> set s" "length s < n"
  have "bstrncpy n s = s @ replicate (n - 1 - length s) 0 @ [0]" using s(2) by (simp add: bstrncpy_def min_def)
  then obtain rest where "bstrncpy n s = s @ 0 # rest" by (cases "n - 1 - length s") auto
  then show ?thesis using cstr_zero [OF s(1)] by simp
qed

lemma create_label_record:
  assumes ok: "label_ok vl" and name: "cstr (vl_VolumeName vl) \<noteq> []"
  shows "create_volume_label_record job False dcr vl rec =
     Ret (dcr\<lparr>dcr_VolumeName := string_of (cstr (vl_VolumeName vl))\<rparr>, stamp_label job vl, label_record job dcr (stamp_label job vl) rec)"
proof -
  let ?v = "stamp_label job vl" and ?n = SER_LENGTH_Volume_Label
  let ?m = "replicate ?n 0 @ drop ?n (check_pool_memory_size (rec_data rec) (of_nat ?n)) :: byte list"
  have n: "length (label_bytes ?v) \<le> 1007" by (rule label_bytes_room [OF stamp_label_ok(1,2) [OF ok]])
  then have fit: "0 + length (label_bytes ?v) \<le> length ?m" by (simp add: SER_LENGTH_Volume_Label_def)
  have ser: "ser_volume_label ?v (?m, 0) = Some (label_bytes ?v @ drop (length (label_bytes ?v)) ?m, length (label_bytes ?v))"
    unfolding ser_label_bytes [OF stamp_label_ok(1,3) [OF ok]] using put_bytes_at [OF fit] by simp
  have nm: "vl_VolumeName ?v = vl_VolumeName vl" by (simp add: stamp_label_def Let_def)
  have t: "terminated MAX_NAME_LENGTH (vl_VolumeName vl)" using ok by (simp add: label_ok_def)
  have c: "cstr (bstrncpy MAX_NAME_LENGTH (cstr (vl_VolumeName vl))) = cstr (vl_VolumeName vl)"
    using terminated_cstr [OF t] cstr_bstrncpy by metis
  have "string_of (cstr (vl_VolumeName vl)) \<noteq> []" using name by (simp add: string_of_def)
  then show ?thesis
    using n unfolding create_volume_label_record_def Let_def ser
    by (simp add: nm c label_record_def SER_LENGTH_Volume_Label_def)
qed

lemma pool_prefix: "\<exists>rest. check_pool_memory_size b n = b @ rest"
  by (simp add: check_pool_memory_size_def)

lemma yieldsD:
  assumes "yields m (\<lambda>(x, c). P x c)"
  obtains x c where "m = Some (x, c)" and "P x c"
  using assms by (auto simp: yields_def)

lemma unser_label_record:
  assumes vl: "label_ok vl" "cstr (vl_AlignedVolumeName vl) = []" and vl0: "label_ok vl0"
    and rec: "take (length (label_bytes vl)) (rec_data rec) = label_bytes vl" "FileIndex rec = VOL_LABEL \<or> FileIndex rec = PRE_LABEL"
  shows "\<exists>vl' rec'. unser_volume_label forge_on vl0 rec = Ret (True, vl', rec') \<and> same_label vl vl' \<and> shifted_numbers vl vl' \<and> label_ok vl' \<and>
     vl_LabelType vl' = FileIndex rec"
proof -
  let ?v = "vl0\<lparr>vl_LabelType := FileIndex rec, vl_LabelSize := data_len rec\<rparr>"
  let ?m = "check_pool_memory_size (rec_data rec) (of_nat SER_LENGTH_Volume_Label)"
  obtain r1 where r1: "rec_data rec = label_bytes vl @ r1" using rec(1) by (metis append_take_drop_id)
  obtain r2 where "?m = rec_data rec @ r2" using pool_prefix by blast
  then have m: "?m = label_bytes vl @ r1 @ r2" using r1 by simp
  then have at: "at_bytes (?m, 0) (label_bytes vl @ r1 @ r2)" by (simp add: at_bytes_def)
  have "label_ok ?v" using vl0 by (simp add: label_ok_def)
  from read_label_bytes [OF vl this at] obtain vl' c' where u1: "unser_label_fields ?v (?m, 0) = Some (vl', c')"
      and u2: "same_label vl vl' \<and> shifted_numbers vl vl' \<and> label_ok vl' \<and> vl_LabelType vl' = vl_LabelType ?v \<and>
        at_bytes c' (ucast (vl_BlockSize vl) # r1 @ r2) \<and> fst c' = fst (?m, 0 :: nat)"
    by (rule yieldsD)
  have dr: "drop (snd c') ?m = ucast (vl_BlockSize vl) # r1 @ r2" using u2 by (auto simp: at_bytes_def)
  have "length (drop (snd c') ?m) = Suc (length (r1 @ r2))" unfolding dr by simp
  then have "snd c' \<le> SER_LENGTH_Volume_Label"
    using arg_cong [OF m, of length] label_bytes_room [OF vl] by (simp add: SER_LENGTH_Volume_Label_def)
  moreover obtain b n where "c' = (b, n)" by (cases c')
  ultimately have "unser_volume_label forge_on vl0 rec = Ret (True, vl', rec\<lparr>rec_data := ?m\<rparr>)"
    using u1 rec(2) by (auto simp: unser_volume_label_def Let_def)
  then show ?thesis using u2 by simp
qed

section \<open>Session labels come back\<close>

definition session_ok :: "label_job \<Rightarrow> bool" where
  "session_ok job \<longleftrightarrow> list_all (\<lambda>a. 0 \<in> set a \<and> length (cstr a) < MAX_NAME_LENGTH)
     [lj_pool_name job, lj_pool_type job, lj_job_name job, lj_client_name job, lj_Job job, lj_fileset_name job, lj_fileset_md5 job]"

definition session_arrays :: "Session_Label \<Rightarrow> bool" where
  "session_arrays sl \<longleftrightarrow> length (sl_Id sl) = 32 \<and> list_all (\<lambda>a. length a = MAX_NAME_LENGTH)
     [sl_PoolName sl, sl_PoolType sl, sl_JobName sl, sl_ClientName sl, sl_Job sl, sl_FileSetName sl, sl_FileSetMD5 sl]"

definition session_bytes :: "label_job \<Rightarrow> DCR \<Rightarrow> int32_t \<Rightarrow> byte list" where
  "session_bytes job dcr label =
     BaculaId @ [0] @ be_bytes 4 BaculaTapeVersion @ be_bytes 4 (JobId dcr) @ be_bytes 8 (lj_btime job) @ be_bytes 8 (0 :: uint64_t) @
     cstr (lj_pool_name job) @ [0] @ cstr (lj_pool_type job) @ [0] @ cstr (lj_job_name job) @ [0] @ cstr (lj_client_name job) @ [0] @
     cstr (lj_Job job) @ [0] @ cstr (lj_fileset_name job) @ [0] @ be_bytes 4 (lj_JobType job) @ be_bytes 4 (lj_JobLevel job) @
     cstr (lj_fileset_md5 job) @ [0] @
     (if label = EOS_LABEL then
        be_bytes 4 (lj_JobFiles job) @ be_bytes 8 (lj_JobBytes job) @ be_bytes 4 (ucast (dcr_StartAddr dcr) :: uint32_t) @
        be_bytes 4 (ucast (dcr_EndAddr dcr) :: uint32_t) @ be_bytes 4 (ucast (drop_bit 32 (dcr_StartAddr dcr)) :: uint32_t) @
        be_bytes 4 (ucast (drop_bit 32 (dcr_EndAddr dcr)) :: uint32_t) @ be_bytes 4 (lj_JobErrors job) @ be_bytes 4 (lj_JobStatus job)
      else [])"

text \<open>The label that was read says what the job was.\<close>

definition session_read :: "label_job \<Rightarrow> DCR \<Rightarrow> int32_t \<Rightarrow> Session_Label \<Rightarrow> bool" where
  "session_read job dcr label sl \<longleftrightarrow>
     map cstr [sl_Id sl, sl_PoolName sl, sl_PoolType sl, sl_JobName sl, sl_ClientName sl, sl_Job sl, sl_FileSetName sl, sl_FileSetMD5 sl] =
     BaculaId # map cstr [lj_pool_name job, lj_pool_type job, lj_job_name job, lj_client_name job, lj_Job job, lj_fileset_name job, lj_fileset_md5 job] \<and>
     sl_VerNum sl = BaculaTapeVersion \<and> sl_JobId sl = JobId dcr \<and> sl_write_btime sl = lj_btime job \<and> sl_JobType sl = lj_JobType job \<and>
     sl_JobLevel sl = lj_JobLevel job \<and>
     (label = EOS_LABEL \<longrightarrow> sl_JobFiles sl = lj_JobFiles job \<and> sl_JobBytes sl = lj_JobBytes job \<and> sl_JobErrors sl = lj_JobErrors job \<and>
        sl_JobStatus sl = lj_JobStatus job \<and> push_bit 32 (ucast (sl_StartFile sl)) OR ucast (sl_StartBlock sl) = dcr_StartAddr dcr \<and>
        push_bit 32 (ucast (sl_EndFile sl)) OR ucast (sl_EndBlock sl) = dcr_EndAddr dcr)"

lemma bacula_id: "0 \<notin> set BaculaId" "length BaculaId = 20"
  by code_simp+

lemma ser_session_bytes:
  assumes "session_ok job"
  shows "ser_session_label job dcr label c = put_bytes (session_bytes job dcr label) c"
proof -
  have t: "ser_string a c = put_bytes (cstr a @ [0]) c" if "0 \<in> set a" for a c
    using that by (intro ser_string_put [of "length a"]) (simp add: terminated_def)
  have s: "ser_string (lj_pool_name job) c = put_bytes (cstr (lj_pool_name job) @ [0]) c" "ser_string (lj_pool_type job) c = put_bytes (cstr (lj_pool_type job) @ [0]) c"
      "ser_string (lj_job_name job) c = put_bytes (cstr (lj_job_name job) @ [0]) c" "ser_string (lj_client_name job) c = put_bytes (cstr (lj_client_name job) @ [0]) c"
      "ser_string (lj_Job job) c = put_bytes (cstr (lj_Job job) @ [0]) c" "ser_string (lj_fileset_name job) c = put_bytes (cstr (lj_fileset_name job) @ [0]) c"
      "ser_string (lj_fileset_md5 job) c = put_bytes (cstr (lj_fileset_md5 job) @ [0]) c" for c
    using assms by (simp_all add: session_ok_def t)
  have i: "ser_string (BaculaId @ [0]) c = put_bytes (BaculaId @ [0]) c" for c using serial_string_put [OF bacula_id(1), of "[]"] by simp
  show ?thesis
    unfolding ser_session_label_def s i session_bytes_def codec_simps
    by (simp add: put_bytes_append put_bytes_bind)
qed

lemma bind_pair_assoc: "Option.bind (Option.bind m (\<lambda>(x, c). k x c)) h = Option.bind m (\<lambda>(x, c). Option.bind (k x c) h)"
  by (cases m) auto

lemma join_address: "push_bit 32 (ucast (ucast (drop_bit 32 a) :: uint32_t)) OR ucast (ucast a :: uint32_t) = (a :: uint64_t)"
  by (rule bit_word_eqI) (auto simp: bit_simps)

lemma read_session_bytes:
  assumes job: "session_ok job" and sl: "session_arrays sl" and c: "at_bytes c (session_bytes job dcr label @ rest)"
  shows "yields (unser_session_fields label sl c) (\<lambda>(sl', c'). session_read job dcr label sl' \<and> at_bytes c' rest)"
proof -
  have z: "0 \<notin> set (cstr a)" for a using set_takeWhileD [of 0 "\<lambda>x. x \<noteq> 0" a] by (auto simp: cstr_def)
  have l: "length BaculaId < length (sl_Id sl)" "length (cstr (lj_pool_name job)) < length (sl_PoolName sl)" "length (cstr (lj_pool_type job)) < length (sl_PoolType sl)"
      "length (cstr (lj_job_name job)) < length (sl_JobName sl)" "length (cstr (lj_client_name job)) < length (sl_ClientName sl)"
      "length (cstr (lj_Job job)) < length (sl_Job sl)" "length (cstr (lj_fileset_name job)) < length (sl_FileSetName sl)"
      "length (cstr (lj_fileset_md5 job)) < length (sl_FileSetMD5 sl)"
    using job sl by (simp_all add: session_ok_def session_arrays_def bacula_id)
  have v: "(11 \<le> BaculaTapeVersion) = True" "(10 \<le> BaculaTapeVersion) = True" by (simp_all add: BaculaTapeVersion_def)
  show ?thesis
  proof (cases "label = EOS_LABEL")
    case True
    have c': "at_bytes c (BaculaId @ 0 # be_bytes 4 BaculaTapeVersion @ be_bytes 4 (JobId dcr) @ be_bytes 8 (lj_btime job) @ be_bytes 8 (0 :: uint64_t) @
       cstr (lj_pool_name job) @ 0 # cstr (lj_pool_type job) @ 0 # cstr (lj_job_name job) @ 0 # cstr (lj_client_name job) @ 0 #
       cstr (lj_Job job) @ 0 # cstr (lj_fileset_name job) @ 0 # be_bytes 4 (lj_JobType job) @ be_bytes 4 (lj_JobLevel job) @
       cstr (lj_fileset_md5 job) @ 0 # 
       be_bytes 4 (lj_JobFiles job) @ be_bytes 8 (lj_JobBytes job) @ be_bytes 4 (ucast (dcr_StartAddr dcr) :: uint32_t) @
        be_bytes 4 (ucast (dcr_EndAddr dcr) :: uint32_t) @ be_bytes 4 (ucast (drop_bit 32 (dcr_StartAddr dcr)) :: uint32_t) @
        be_bytes 4 (ucast (drop_bit 32 (dcr_EndAddr dcr)) :: uint32_t) @ be_bytes 4 (lj_JobErrors job) @ be_bytes 4 (lj_JobStatus job) @ rest)"
      using c True by (simp add: session_bytes_def)
    show ?thesis
      unfolding unser_session_fields_def unser_session_totals_def codec_simps if_P [OF True]
      by (insert c', ((rule yields_string, assumption, rule z bacula_id(1), simp (no_asm) add: l) | (rule yields_get, assumption, simp (no_asm)) |
          (simp (no_asm) only: v if_True bind_pair_assoc bind.simps prod.case Let_def) | (simp (no_asm) add: v))+, rule yields_Some)
        (simp add: session_read_def join_address)
  next
    case False
    have c': "at_bytes c (BaculaId @ 0 # be_bytes 4 BaculaTapeVersion @ be_bytes 4 (JobId dcr) @ be_bytes 8 (lj_btime job) @ be_bytes 8 (0 :: uint64_t) @
       cstr (lj_pool_name job) @ 0 # cstr (lj_pool_type job) @ 0 # cstr (lj_job_name job) @ 0 # cstr (lj_client_name job) @ 0 #
       cstr (lj_Job job) @ 0 # cstr (lj_fileset_name job) @ 0 # be_bytes 4 (lj_JobType job) @ be_bytes 4 (lj_JobLevel job) @
       cstr (lj_fileset_md5 job) @ 0 # rest)"
      using c False by (simp add: session_bytes_def)
    show ?thesis
      unfolding unser_session_fields_def codec_simps if_not_P [OF False]
      by (insert c', ((rule yields_string, assumption, rule z bacula_id(1), simp (no_asm) add: l) | (rule yields_get, assumption, simp (no_asm)) |
          (simp (no_asm) only: v if_True bind_pair_assoc bind.simps prod.case Let_def) | (simp (no_asm) add: v))+, rule yields_Some)
        (simp add: session_read_def False)
  qed
qed

lemma session_bytes_room:
  assumes "session_ok job"
  shows "length (session_bytes job dcr label) \<le> 985"
proof -
  have "length (cstr (lj_pool_name job)) < 128" "length (cstr (lj_pool_type job)) < 128" "length (cstr (lj_job_name job)) < 128"
      "length (cstr (lj_client_name job)) < 128" "length (cstr (lj_Job job)) < 128" "length (cstr (lj_fileset_name job)) < 128"
      "length (cstr (lj_fileset_md5 job)) < 128"
    using assms by (simp_all add: session_ok_def MAX_NAME_LENGTH_def)
  then show ?thesis by (simp add: session_bytes_def bacula_id)
qed

lemma create_session_record:
  assumes "session_ok job"
  shows "create_session_label job dcr rec label = Ret (rec\<lparr>rec_VolSessionId := lj_VolSessionId job, rec_VolSessionTime := lj_VolSessionTime job,
     Stream := JobId dcr, maskedStream := JobId dcr, rec_data := session_bytes job dcr label, data_len := of_nat (length (session_bytes job dcr label))\<rparr>)"
proof -
  let ?m = "check_pool_memory_size (rec_data rec) (of_nat SER_LENGTH_Session_Label)" and ?b = "session_bytes job dcr label"
  have n: "length ?b \<le> 985" by (rule session_bytes_room [OF assms])
  have "1024 \<le> length ?m" by (simp add: check_pool_memory_size_def SER_LENGTH_Session_Label_def)
  then have fit: "0 + length ?b \<le> length ?m" using n by simp
  have "ser_session_label job dcr label (?m, 0) = Some (?b @ drop (length ?b) ?m, length ?b)"
    unfolding ser_session_bytes [OF assms] using put_bytes_at [OF fit] by simp
  then show ?thesis using n by (simp add: create_session_label_def Let_def SER_LENGTH_Session_Label_def)
qed

lemma unser_session_record:
  assumes "session_ok job" and "session_arrays sl" and "take (length (session_bytes job dcr label)) (rec_data rec) = session_bytes job dcr label"
    and "FileIndex rec = label"
  shows "\<exists>sl' rec'. unser_session_label sl rec = Ret (sl', rec') \<and> session_read job dcr label sl'"
proof -
  let ?m = "check_pool_memory_size (rec_data rec) (of_nat SER_LENGTH_Session_Label)"
  obtain r1 where r1: "rec_data rec = session_bytes job dcr label @ r1" using assms(3) by (metis append_take_drop_id)
  obtain r2 where "?m = rec_data rec @ r2" using pool_prefix by blast
  then have at: "at_bytes (?m, 0) (session_bytes job dcr label @ r1 @ r2)" using r1 by (simp add: at_bytes_def)
  from read_session_bytes [OF assms(1,2) at] obtain sl' c' where
      "unser_session_fields label sl (?m, 0) = Some (sl', c')" "session_read job dcr label sl' \<and> at_bytes c' (r1 @ r2)"
    by (rule yieldsD)
  then show ?thesis using assms(4) by (simp add: unser_session_label_def Let_def)
qed

section \<open>Properties\<close>

text \<open>
  C18: The label of a volume comes back. The record that \<open>create_volume_label_record\<close> makes of a label fits its buffer, and
  \<open>unser_volume_label\<close> finds in it the type, the identification, the version, the times and all names, whatever
  the label in memory was before.
\<close>

theorem volume_label_roundtrip:
  assumes "label_ok vl" and "cstr (vl_VolumeName vl) \<noteq> []" and "label_ok vl0" and "vl_LabelType vl = VOL_LABEL \<or> vl_LabelType vl = PRE_LABEL"
  shows "\<exists>dcr' vl1 rec1 vl2 rec2. create_volume_label_record job False dcr vl rec = Ret (dcr', vl1, rec1) \<and> unat (data_len rec1) \<le> 1007 \<and>
     unser_volume_label forge_on vl0 rec1 = Ret (True, vl2, rec2) \<and> same_label vl1 vl2 \<and> vl_LabelType vl2 = vl_LabelType vl \<and> label_ok vl2 \<and>
     dcr_VolumeName dcr' = string_of (cstr (vl_VolumeName vl2)) \<and> cstr (vl_VolumeName vl2) = cstr (vl_VolumeName vl)"
proof -
  let ?v = "stamp_label job vl" and ?r = "label_record job dcr (stamp_label job vl) rec"
  note ok = stamp_label_ok [OF assms(1), of job]
  have v: "vl_LabelType ?v = vl_LabelType vl" "vl_VolumeName ?v = vl_VolumeName vl" by (simp_all add: stamp_label_def Let_def)
  have n: "length (label_bytes ?v) \<le> 1007" by (rule label_bytes_room [OF ok(1,2)])
  have "unat (data_len ?r) = length (label_bytes ?v)" using n by (simp add: label_record_def unat_of_nat_small)
  moreover obtain vl2 rec2 where "unser_volume_label forge_on vl0 ?r = Ret (True, vl2, rec2)" "same_label ?v vl2" "label_ok vl2" "vl_LabelType vl2 = FileIndex ?r"
    using unser_label_record [OF ok(1,2) assms(3), of ?r forge_on] assms(4) v(1) by (auto simp: label_record_def)
  moreover have "cstr (vl_VolumeName vl2) = cstr (vl_VolumeName vl)" using \<open>same_label ?v vl2\<close> v(2) by (simp add: same_label_def)
  moreover have "FileIndex ?r = vl_LabelType vl" by (simp add: label_record_def v(1))
  ultimately show ?thesis
    using create_label_record [OF assms(1,2), of job dcr rec] n
    by (intro exI [of _ "dcr\<lparr>dcr_VolumeName := string_of (cstr (vl_VolumeName vl))\<rparr>"] exI [of _ ?v] exI [of _ ?r] exI [of _ vl2] exI [of _ rec2]) simp
qed

text \<open>
  C37: The numbers of a volume label do not come back. The writer stores the name of the aligned volume in front of them, and the line
  of the reader that would take it is commented out, so each number is taken one byte too early: the block size that is
  read is the block size that was written divided by 256, with the low byte of the padding size on top. Every
  time a volume is recycled the label is read and written once more.
\<close>

theorem label_numbers_shifted:
  assumes "label_ok vl" and "cstr (vl_VolumeName vl) \<noteq> []" and "label_ok vl0" and "vl_LabelType vl = VOL_LABEL \<or> vl_LabelType vl = PRE_LABEL"
  shows "\<exists>dcr' vl1 rec1 vl2 rec2. create_volume_label_record job False dcr vl rec = Ret (dcr', vl1, rec1) \<and>
     unser_volume_label forge_on vl0 rec1 = Ret (True, vl2, rec2) \<and>
     vl_FirstData vl2 = drop_bit 8 (vl_FirstData vl) \<and>
     vl_FileAlignment vl2 = push_bit 24 (ucast (vl_FirstData vl)) OR drop_bit 8 (vl_FileAlignment vl) \<and>
     vl_PaddingSize vl2 = push_bit 24 (vl_FileAlignment vl) OR drop_bit 8 (vl_PaddingSize vl) \<and>
     vl_BlockSize vl2 = push_bit 24 (vl_PaddingSize vl) OR drop_bit 8 (vl_BlockSize vl)"
proof -
  let ?v = "stamp_label job vl" and ?r = "label_record job dcr (stamp_label job vl) rec"
  note ok = stamp_label_ok [OF assms(1), of job]
  have v: "vl_LabelType ?v = vl_LabelType vl" "vl_FirstData ?v = vl_FirstData vl" "vl_FileAlignment ?v = vl_FileAlignment vl"
      "vl_PaddingSize ?v = vl_PaddingSize vl" "vl_BlockSize ?v = vl_BlockSize vl" by (simp_all add: stamp_label_def Let_def)
  obtain vl2 rec2 where "unser_volume_label forge_on vl0 ?r = Ret (True, vl2, rec2)" "shifted_numbers ?v vl2"
    using unser_label_record [OF ok(1,2) assms(3), of ?r forge_on] assms(4) v(1) by (auto simp: label_record_def)
  then show ?thesis
    using create_label_record [OF assms(1,2), of job dcr rec] by (auto simp: shifted_numbers_def v)
qed

text \<open>
  The labels at the start and at the end of a session come back. The record that \<open>create_session_label\<close> makes fits its buffer, and
  \<open>unser_session_label\<close> finds in it the job, and at the end of the session also its totals and the addresses on the volume.
\<close>

lemma session_label_roundtrip:
  assumes "session_ok job" and "session_arrays sl"
  shows "\<exists>rec1 sl' rec2. create_session_label job dcr rec label = Ret rec1 \<and> unat (data_len rec1) \<le> 985 \<and>
     unser_session_label sl (rec1\<lparr>FileIndex := label\<rparr>) = Ret (sl', rec2) \<and> session_read job dcr label sl'"
proof -
  have n: "length (session_bytes job dcr label) \<le> 985" by (rule session_bytes_room [OF assms(1)])
  let ?r = "rec\<lparr>rec_VolSessionId := lj_VolSessionId job, rec_VolSessionTime := lj_VolSessionTime job,
     Stream := JobId dcr, maskedStream := JobId dcr, rec_data := session_bytes job dcr label, data_len := of_nat (length (session_bytes job dcr label))\<rparr>"
  obtain sl' rec2 where "unser_session_label sl (?r\<lparr>FileIndex := label\<rparr>) = Ret (sl', rec2)" "session_read job dcr label sl'"
    using unser_session_record [OF assms, of dcr label "?r\<lparr>FileIndex := label\<rparr>"] by auto
  moreover have "unat (data_len ?r) \<le> 985" using n by (simp add: unat_of_nat_small)
  ultimately show ?thesis using create_session_record [OF assms(1), of dcr rec label] by blast
qed

text \<open>A label, an empty label to read into, and a job.\<close>

definition sample_label :: Volume_Label where
  "sample_label =
     \<lparr>vl_LabelType = PRE_LABEL, vl_LabelSize = 0, vl_Id = bstrncpy 32 BaculaId, vl_VerNum = 11, vl_label_date = 0, vl_label_time = 0,
      vl_label_btime = 5, vl_write_btime = 0, vl_write_date = 0, vl_write_time = 0, vl_VolumeName = bstrncpy 128 (bytes_of ''Vol1''),
      vl_PrevVolumeName = bstrncpy 128 [], vl_PoolName = bstrncpy 128 (bytes_of ''Default''), vl_PoolType = bstrncpy 128 (bytes_of ''Backup''),
      vl_MediaType = bstrncpy 128 (bytes_of ''File''), vl_HostName = bstrncpy 128 (bytes_of ''host''), vl_LabelProg = bstrncpy 50 (bytes_of ''sd''),
      vl_ProgVersion = bstrncpy 50 [], vl_ProgDate = bstrncpy 50 [], vl_AlignedVolumeName = replicate 132 0, vl_FirstData = 0,
      vl_FileAlignment = 0, vl_PaddingSize = 0, vl_BlockSize = 64512, vl_MaxPartSize = 0\<rparr>"

definition sample_job :: label_job where
  "sample_job =
     \<lparr>lj_VolSessionId = 7, lj_VolSessionTime = 8, lj_btime = 9, lj_julian = (0, 0), lj_pool_name = bytes_of ''Default'' @ [0],
      lj_pool_type = bytes_of ''Backup'' @ [0], lj_job_name = bytes_of ''job'' @ [0], lj_client_name = bytes_of ''fd'' @ [0],
      lj_Job = bytes_of ''job.1'' @ [0], lj_fileset_name = bytes_of ''all'' @ [0], lj_fileset_md5 = bytes_of ''md5'' @ [0], lj_JobType = 66,
      lj_JobLevel = 70, lj_JobFiles = 3, lj_JobBytes = 4, lj_JobErrors = 0, lj_JobStatus = 84\<rparr>"

definition empty_session :: Session_Label where
  "empty_session =
     (let a = replicate MAX_NAME_LENGTH 0
      in \<lparr>sl_Id = replicate 32 0, sl_VerNum = 0, sl_JobId = 0, sl_write_btime = 0, sl_write_date = 0, sl_write_time = 0, sl_PoolName = a,
          sl_PoolType = a, sl_JobName = a, sl_ClientName = a, sl_Job = a, sl_FileSetName = a, sl_FileSetMD5 = a, sl_JobType = 0,
          sl_JobLevel = 0, sl_JobFiles = 0, sl_JobBytes = 0, sl_StartBlock = 0, sl_EndBlock = 0, sl_StartFile = 0, sl_EndFile = 0,
          sl_JobErrors = 0, sl_JobStatus = 0\<rparr>)"

lemma sample_label_ok: "label_ok sample_label" "cstr (vl_VolumeName sample_label) = bytes_of ''Vol1''" "bytes_of ''Vol1'' \<noteq> []"
    "vl_LabelType sample_label = PRE_LABEL" "session_ok sample_job" "session_arrays empty_session"
  by code_simp+

theorem volume_label_roundtrip_witness:
  "\<exists>dcr' vl1 rec1 vl2 rec2. create_volume_label_record sample_job False sample_dcr sample_label new_record = Ret (dcr', vl1, rec1) \<and>
     unser_volume_label False sample_label rec1 = Ret (True, vl2, rec2) \<and> cstr (vl_VolumeName vl2) = bytes_of ''Vol1''"
  using volume_label_roundtrip [of sample_label sample_label sample_job sample_dcr new_record False] sample_label_ok by auto

theorem label_numbers_shifted_witness:
  "\<exists>dcr' vl1 rec1 vl2 rec2. create_volume_label_record sample_job False sample_dcr sample_label new_record = Ret (dcr', vl1, rec1) \<and>
     unser_volume_label False sample_label rec1 = Ret (True, vl2, rec2) \<and> vl_BlockSize vl2 = 252"
proof -
  have "vl_BlockSize sample_label = 64512" "vl_PaddingSize sample_label = 0" by (simp_all add: sample_label_def)
  then show ?thesis
    using label_numbers_shifted [of sample_label sample_label sample_job sample_dcr new_record False] sample_label_ok by auto
qed

lemma session_label_roundtrip_example:
  "\<exists>rec1 sl' rec2. create_session_label sample_job sample_dcr new_record EOS_LABEL = Ret rec1 \<and>
     unser_session_label empty_session (rec1\<lparr>FileIndex := EOS_LABEL\<rparr>) = Ret (sl', rec2) \<and> session_read sample_job sample_dcr EOS_LABEL sl'"
  using session_label_roundtrip [OF sample_label_ok(5,6), of sample_dcr new_record EOS_LABEL] by blast

end
