(* ===== verification/Label.thy ===== *)
theory Label
  imports LabelFormat VolumeRead
begin

text \<open>
  Writing and checking the label of a volume: the routines of \<^verbatim>\<open>stored/label.c\<close> that act on a device. A volume that was
  labelled is accepted under its name, and no other volume is.
\<close>

section \<open>State and surroundings\<close>

datatype vol_code = VOL_NOT_READ | VOL_OK | VOL_NO_LABEL | VOL_IO_ERROR | VOL_NAME_ERROR | VOL_CREATE_ERROR
  | VOL_VERSION_ERROR | VOL_LABEL_ERROR | VOL_NO_MEDIA | VOL_TYPE_ERROR

datatype open_mode = OPEN_READ_ONLY | OPEN_READ_WRITE | CREATE_READ_WRITE

definition CAP_STREAM :: uint32_t where "CAP_STREAM = push_bit 14 1"
definition CAP_CHECKLABELS :: uint32_t where "CAP_CHECKLABELS = push_bit 22 1"

text \<open>
  What the label routines ask of the operating system, the tape drive, the ANSI label routines, the list of volumes in use and
  the Director. The remaining fields are settings of the device and of the job, and strings of the build. The flag \<open>m_unload\<close>,
  by which the autochanger is told to unload a volume, is not part of the model.
\<close>

record label_env =
  le_open :: "open_mode \<Rightarrow> DCR \<Rightarrow> bool \<times> DCR"
  le_truncate :: "DCR \<Rightarrow> bool \<times> DCR"
  le_seek :: "DCR \<Rightarrow> errno option"
  le_tape_rewind :: "DCR \<Rightarrow> bool \<times> DCR"
  le_tape_worm :: "DCR \<Rightarrow> bool"
  le_read_ansi :: "DCR \<Rightarrow> vol_code \<times> DCR"
  le_write_ansi :: "DCR \<Rightarrow> bool \<times> DCR"
  le_reserve :: "string \<Rightarrow> DCR \<Rightarrow> bool \<times> DCR"
  le_unused :: "DCR \<Rightarrow> DCR"
  le_volume_info :: "string \<Rightarrow> DCR \<Rightarrow> bool \<times> DCR"
  le_device_label_type :: int32_t
  le_poll :: bool
  le_ignore_label_errors :: bool
  le_is_writing :: bool
  le_file_alignment :: uint32_t
  le_adata_size :: uint32_t
  le_max_part_size :: uint64_t
  le_media_type :: "byte list"
  le_hostname :: "byte list option"
  le_my_name :: "byte list"
  le_version :: "byte list"
  le_build_date :: "byte list"

text \<open>The device control record, \<open>dev->VolHdr\<close>, \<open>dcr->block\<close> and \<open>jcr->label_errors\<close>.\<close>

record label_state =
  ls_dcr :: DCR
  ls_hdr :: Volume_Label
  ls_block :: DEV_BLOCK
  ls_errors :: int32_t

abbreviation ls_dev :: "label_state \<Rightarrow> DEVICE" where
  "ls_dev st \<equiv> dev (ls_dcr st)"

definition in_dcr :: "(DCR \<Rightarrow> DCR) \<Rightarrow> label_state \<Rightarrow> label_state" where
  "in_dcr f st = st\<lparr>ls_dcr := f (ls_dcr st)\<rparr>"

definition dcr_call :: "(DCR \<Rightarrow> 'a \<times> DCR) \<Rightarrow> label_state \<Rightarrow> 'a \<times> label_state" where
  "dcr_call f st = (case f (ls_dcr st) of (x, dcr) \<Rightarrow> (x, st\<lparr>ls_dcr := dcr\<rparr>))"

definition dev_rewind :: "label_env \<Rightarrow> DCR \<Rightarrow> bool \<times> DCR" where
  "dev_rewind le dcr =
     (if is_tape (dev dcr) then le_tape_rewind le dcr
      else (case DEVICE_rewind (le_seek le dcr) (dev dcr) of
              (ok, d) \<Rightarrow> (ok, dcr\<lparr>dev := d, fpos := (if ok \<and> is_file d then 0 else fpos dcr)\<rparr>)))"

section \<open>Reading a label\<close>

text \<open>\<open>label_errors++\<close>, and the fatal error when there are too many of them.\<close>

definition count_label_error :: "label_env \<Rightarrow> label_state \<Rightarrow> label_state" where
  "count_label_error le st =
     (if le_poll le then st
      else (let st' = st\<lparr>ls_errors := ls_errors st + 1\<rparr> in if 100 <s ls_errors st then in_dcr Jmsg_fatal st' else st'))"

text \<open>The part about ANSI and IBM labels; the result is a code to fail with, or whether there is such a label.\<close>

definition read_ansi_part :: "label_env \<Rightarrow> label_state \<Rightarrow> (vol_code + bool) \<times> label_state" where
  "read_ansi_part le st =
     (let want = (LabelType (dcr_VolCatInfo (ls_dcr st)) \<noteq> B_BACULA_LABEL \<or> le_device_label_type le \<noteq> B_BACULA_LABEL)
      in if want \<or> has_cap (ls_dev st) CAP_CHECKLABELS then
           (case dcr_call (le_read_ansi le) st of
              (stat, st) \<Rightarrow>
                if want \<and> stat \<noteq> VOL_OK then (Inl stat, st)
                else if stat = VOL_NAME_ERROR \<or> stat = VOL_LABEL_ERROR then (Inl stat, count_label_error le st)
                else if stat \<noteq> VOL_OK then (Inr False, snd (dcr_call (dev_rewind le) st))
                else (Inr True, st))
         else (Inr False, st))"

definition known_ids :: "byte list list" where
  "known_ids = [BaculaId, OldBaculaId, BaculaMetaDataId, BaculaAlignedDataId, BaculaDedupMetaDataId, BaculaS3CloudId]"

text \<open>The block with the label, the record in it and the label in the record.\<close>

definition read_label_record :: "sd_env \<Rightarrow> bool \<Rightarrow> label_state \<Rightarrow> (bool \<times> label_state) outcome option" where
  "read_label_record env forge_on st =
     (let st = st\<lparr>ls_dcr := (ls_dcr st)\<lparr>reading_label := True\<rparr>, ls_block := empty_block (ls_block st)\<rparr>
      in case read_block_from_dev env forge_on (ls_dcr st) (ls_block st) of
           None \<Rightarrow> None
         | Some (Dies e) \<Rightarrow> Some (Dies e)
         | Some (Ret (ok, dcr, block)) \<Rightarrow>
             (let st = st\<lparr>ls_dcr := dcr, ls_block := block\<rparr>
              in if \<not> ok then Some (Ret (False, st))
                 else Some (bind_outcome (read_record_from_block (dev dcr) (dcr_VolumeName dcr) block new_record) (\<lambda>(ok, block, rec).
                   let st = st\<lparr>ls_block := block\<rparr>
                   in if \<not> ok then Ret (False, st)
                      else bind_outcome (unser_volume_label forge_on (ls_hdr st) rec) (\<lambda>(ok, vl, rec).
                        let st = st\<lparr>ls_hdr := vl\<rparr>
                        in Ret (ok \<and> cstr (vl_Id vl) \<in> set known_ids, st))))))"

definition known_versions :: "uint32_t list" where
  "known_versions = [BaculaTapeVersion, BaculaMetaDataVersion, BaculaDedupMetaDataVersion, BaculaS3CloudVersion,
     OldCompatibleBaculaTapeVersion1, OldCompatibleBaculaTapeVersion2]"

text \<open>The identification that a device accepts; other devices accept every volume.\<close>

definition wanted_id :: "dev_type_t \<Rightarrow> byte list option" where
  "wanted_id t =
     (case t of
        B_DEDUP_DEV \<Rightarrow> Some BaculaDedupMetaDataId
      | B_FILE_DEV \<Rightarrow> Some BaculaId
      | B_ALIGNED_DEV \<Rightarrow> Some BaculaMetaDataId
      | B_ADATA_DEV \<Rightarrow> Some BaculaMetaDataId
      | B_CLOUD_DEV \<Rightarrow> Some BaculaS3CloudId
      | _ \<Rightarrow> None)"

definition other_volume :: "label_state \<Rightarrow> bool" where
  "other_volume st \<longleftrightarrow>
     (let want = dcr_VolumeName (ls_dcr st)
      in want \<noteq> [] \<and> hd want \<noteq> CHR ''*'' \<and> string_of (cstr (vl_VolumeName (ls_hdr st))) \<noteq> want)"

definition check_label_header :: "label_env \<Rightarrow> label_state \<Rightarrow> vol_code \<times> label_state" where
  "check_label_header le st =
     (let vl = ls_hdr st
      in if vl_VerNum vl \<notin> set known_versions then (VOL_VERSION_ERROR, st)
         else if vl_LabelType vl \<noteq> PRE_LABEL \<and> vl_LabelType vl \<noteq> VOL_LABEL then (VOL_LABEL_ERROR, count_label_error le st)
         else
           (let st = in_dcr (on_dev set_labeled) st
            in if other_volume st then (VOL_NAME_ERROR, count_label_error le st)
               else case wanted_id (dev_type (ls_dev st)) of
                      None \<Rightarrow> (VOL_OK, st)
                    | Some i \<Rightarrow> (if cstr (vl_Id vl) = i then VOL_OK else VOL_TYPE_ERROR, st)))"

definition bail_out :: "label_env \<Rightarrow> vol_code \<Rightarrow> label_state \<Rightarrow> vol_code \<times> label_state" where
  "bail_out le stat st = (stat, snd (dcr_call (dev_rewind le) (st\<lparr>ls_block := empty_block (ls_block st)\<rparr>)))"

text \<open>What follows a label that is accepted.\<close>

definition accept_label :: "label_env \<Rightarrow> bool \<Rightarrow> label_state \<Rightarrow> vol_code \<times> label_state" where
  "accept_label le have_ansi st =
     (let (stat, st) =
        (if has_cap (ls_dev st) CAP_STREAM then (VOL_OK, st)
         else (case dcr_call (dev_rewind le) st of
                 (_, st) \<Rightarrow> if have_ansi then dcr_call (le_read_ansi le) st else (VOL_OK, st)))
      in if stat \<noteq> VOL_OK then bail_out le stat st
         else case dcr_call (le_reserve le (string_of (cstr (vl_VolumeName (ls_hdr st))))) st of
                (ok, st) \<Rightarrow>
                  if \<not> ok then bail_out le VOL_NAME_ERROR st
                  else (VOL_OK, if le_is_writing le then st\<lparr>ls_block := empty_block (ls_block st)\<rparr> else st))"

definition begin_label_read :: "label_env \<Rightarrow> DEVICE \<Rightarrow> DEVICE" where
  "begin_label_read le d = (clear_read (clear_append (clear_labeled d)))\<lparr>label_type := B_BACULA_LABEL\<rparr>"

definition read_dev_volume_label :: "label_env \<Rightarrow> sd_env \<Rightarrow> bool \<Rightarrow> label_state \<Rightarrow> (vol_code \<times> label_state) outcome option" where
  "read_dev_volume_label le env forge_on st =
     (case (if is_open (ls_dev st) then (True, st) else dcr_call (le_open le OPEN_READ_ONLY) st) of
        (False, st) \<Rightarrow> Some (Ret (VOL_IO_ERROR, st))
      | (True, st) \<Rightarrow>
          (let st = in_dcr (on_dev (begin_label_read le)) st;
               st = in_dcr (\<lambda>dcr. on_dev (\<lambda>d. d\<lparr>is_worm := le_tape_worm le dcr\<rparr>) dcr) st
           in case dcr_call (dev_rewind le) st of
                (False, st) \<Rightarrow> Some (Ret (VOL_NO_MEDIA, st))
              | (True, st) \<Rightarrow>
                  (let st = st\<lparr>ls_hdr := (ls_hdr st)\<lparr>vl_Id := bstrncpy 32 (bytes_of ''**error**'')\<rparr>\<rparr>
                   in case read_ansi_part le st of
                        (Inl stat, st) \<Rightarrow> Some (Ret (bail_out le stat st))
                      | (Inr have_ansi, st) \<Rightarrow>
                          (case read_label_record env forge_on st of
                             None \<Rightarrow> None
                           | Some (Dies e) \<Rightarrow> Some (Dies e)
                           | Some (Ret (ok, st)) \<Rightarrow>
                               (let st = in_dcr (\<lambda>dcr. dcr\<lparr>reading_label := False\<rparr>) st
                                in if \<not> ok then
                                     (if le_ignore_label_errors le then
                                        Some (Ret (VOL_OK, (in_dcr (on_dev set_labeled) st)\<lparr>ls_block := empty_block (ls_block st)\<rparr>))
                                      else Some (Ret (bail_out le VOL_NO_LABEL st)))
                                   else case check_label_header le st of
                                          (stat, st) \<Rightarrow>
                                            if stat \<noteq> VOL_OK then Some (Ret (bail_out le stat st))
                                            else Some (Ret (accept_label le have_ansi st)))))))"

section \<open>Writing a label\<close>

text \<open>\<open>sprintf\<close> of a string into an array.\<close>

definition sprintf_string :: "byte list \<Rightarrow> byte list \<Rightarrow> byte list option" where
  "sprintf_string a s = (if length s < length a then Some (s @ 0 # drop (Suc (length s)) a) else None)"

text \<open>
  The identification, the version and the numbers, by the type of the device. Below, \<open>gethostname\<close> fails for a name that does
  not fit, and \<open>le_version\<close> and \<open>le_build_date\<close> are the texts with the version and the date of the build.
\<close>

definition header_by_type :: "label_env \<Rightarrow> DEVICE \<Rightarrow> Volume_Label \<Rightarrow> Volume_Label" where
  "header_by_type le d vl =
     (let aligned = (\<lambda>vl. vl\<lparr>vl_FirstData := ucast (le_file_alignment le), vl_FileAlignment := le_file_alignment le,
                             vl_PaddingSize := padding_size d, vl_BlockSize := le_adata_size le\<rparr>)
      in if is_aligned d then aligned (vl\<lparr>vl_Id := bstrncpy 32 BaculaMetaDataId, vl_VerNum := BaculaMetaDataVersion\<rparr>)
         else if dev_type d = B_ADATA_DEV then aligned (vl\<lparr>vl_Id := bstrncpy 32 BaculaAlignedDataId, vl_VerNum := BaculaAlignedDataVersion\<rparr>)
         else if dev_type d = B_DEDUP_DEV then
           vl\<lparr>vl_Id := bstrncpy 32 BaculaDedupMetaDataId, vl_VerNum := BaculaDedupMetaDataVersion, vl_BlockSize := max_block_size d\<rparr>
         else if dev_type d = B_CLOUD_DEV then
           vl\<lparr>vl_Id := bstrncpy 32 BaculaS3CloudId, vl_VerNum := BaculaS3CloudVersion, vl_BlockSize := max_block_size d,
              vl_MaxPartSize := le_max_part_size le\<rparr>
         else vl\<lparr>vl_Id := bstrncpy 32 BaculaId, vl_VerNum := BaculaTapeVersion, vl_BlockSize := max_block_size d\<rparr>)"

definition create_volume_header :: "label_env \<Rightarrow> label_job \<Rightarrow> byte list \<Rightarrow> byte list \<Rightarrow> bool \<Rightarrow> label_state \<Rightarrow> label_state outcome" where
  "create_volume_header le job VolName PoolName no_prelabel st =
     (let d = ls_dev st; vl = header_by_type le d (ls_hdr st)
      in bind_outcome (from_option Out_of_bounds (sprintf_string (vl_ProgVersion vl) (le_version le))) (\<lambda>ver.
         bind_outcome (from_option Out_of_bounds (sprintf_string (vl_ProgDate vl) (le_build_date le))) (\<lambda>date.
           let vl = vl\<lparr>vl_LabelType := (if has_cap d CAP_STREAM \<and> no_prelabel \<or> is_worm d then VOL_LABEL else PRE_LABEL),
                       vl_VolumeName := bstrncpy MAX_NAME_LENGTH VolName, vl_PoolName := bstrncpy MAX_NAME_LENGTH PoolName,
                       vl_MediaType := bstrncpy MAX_NAME_LENGTH (le_media_type le), vl_PoolType := bstrncpy MAX_NAME_LENGTH (bytes_of ''Backup''),
                       vl_label_btime := lj_btime job, vl_label_date := 0, vl_label_time := 0,
                       vl_HostName := (case le_hostname le of Some h \<Rightarrow> bstrncpy MAX_NAME_LENGTH h | None \<Rightarrow> (vl_HostName vl)[0 := 0]),
                       vl_LabelProg := bstrncpy 50 (le_my_name le), vl_ProgVersion := ver, vl_ProgDate := date\<rparr>
           in Ret (in_dcr (on_dev set_labeled) (st\<lparr>ls_hdr := vl\<rparr>)))))"

text \<open>The ANSI label in front: one that is there is passed over, otherwise one is written if requested.\<close>

definition skip_or_write_ansi :: "label_env \<Rightarrow> label_state \<Rightarrow> bool \<times> label_state" where
  "skip_or_write_ansi le st =
     (if label_type (ls_dev st) \<noteq> B_BACULA_LABEL then
        (case dcr_call (le_read_ansi le) st of
           (stat, st) \<Rightarrow> if stat = VOL_OK then (True, st) else (False, snd (dcr_call (dev_rewind le) st)))
      else dcr_call (le_write_ansi le) st)"

definition put_label_record :: "label_state \<Rightarrow> DEV_RECORD \<Rightarrow> (bool \<times> label_state) outcome option" where
  "put_label_record st rec =
     (case write_record_to_block False (ls_block st) rec of
        None \<Rightarrow> None
      | Some (Dies e) \<Rightarrow> Some (Dies e)
      | Some (Ret (ok, block, _)) \<Rightarrow> Some (Ret (ok, st\<lparr>ls_block := block\<rparr>)))"

definition put_label_block :: "sd_env \<Rightarrow> bool \<Rightarrow> label_state \<Rightarrow> (bool \<times> label_state) outcome option" where
  "put_label_block env forge_on st =
     (case write_block_to_dev env forge_on (ls_dcr st) (ls_block st) of
        None \<Rightarrow> None
      | Some (Dies e) \<Rightarrow> Some (Dies e)
      | Some (Ret (ok, dcr, block)) \<Rightarrow> Some (Ret (ok, st\<lparr>ls_dcr := dcr, ls_block := block\<rparr>)))"

definition write_volume_label_to_dev :: "label_env \<Rightarrow> sd_env \<Rightarrow> bool \<Rightarrow> label_job \<Rightarrow> byte list \<Rightarrow> byte list \<Rightarrow> bool \<Rightarrow> label_state
    \<Rightarrow> (bool \<times> label_state) outcome option" where
  "write_volume_label_to_dev le env forge_on job VolName PoolName no_prelabel st =
     (case dcr_call (dev_rewind le) (st\<lparr>ls_block := empty_block (ls_block st)\<rparr>) of
        (False, st) \<Rightarrow> Some (Ret (False, st))
      | (True, st) \<Rightarrow>
          (case create_volume_header le job VolName PoolName no_prelabel (in_dcr (on_dev set_append) st) of
             Dies e \<Rightarrow> Some (Dies e)
           | Ret st \<Rightarrow>
               (case (if adata (ls_block st) then (True, st) else skip_or_write_ansi le st) of
                  (False, st) \<Rightarrow> Some (Ret (False, st))
                | (True, st) \<Rightarrow>
                    (case create_volume_label_record job (adata (ls_block st)) (ls_dcr st) (ls_hdr st) new_record of
                       Dies e \<Rightarrow> Some (Dies e)
                     | Ret (dcr, vl, rec) \<Rightarrow>
                         (case put_label_record (st\<lparr>ls_dcr := dcr, ls_hdr := vl\<rparr>) (rec\<lparr>Stream := 0, maskedStream := 0\<rparr>) of
                            None \<Rightarrow> None
                          | Some (Dies e) \<Rightarrow> Some (Dies e)
                          | Some (Ret (False, st)) \<Rightarrow> Some (Ret (False, st))
                          | Some (Ret (True, st)) \<Rightarrow>
                              (if adata (ls_block st) then Some (Ret (True, st\<lparr>ls_block := empty_block (ls_block st)\<rparr>))
                               else put_label_block env forge_on st))))))"

text \<open>
  \<open>write_volume_label\<close>, which a console command or a recycled volume uses. \<open>close_part\<close> and \<open>set_ameta\<close> do nothing on a device without parts
  and without a separate volume for aligned data.
\<close>

definition set_vol_name :: "byte list \<Rightarrow> DCR \<Rightarrow> DCR" where
  "set_vol_name VolName dcr =
     (let name = string_of (cstr (bstrncpy MAX_NAME_LENGTH VolName));
          dcr = on_dev (\<lambda>d. d\<lparr>VolCatInfo := (VolCatInfo d)\<lparr>VolCatName := name, is_valid := False\<rparr>\<rparr>) dcr
      in dcr\<lparr>dcr_VolCatInfo := (dcr_VolCatInfo dcr)\<lparr>VolCatName := name, is_valid := False\<rparr>\<rparr>)"

definition clearVolCatBytes :: "DEVICE \<Rightarrow> DEVICE" where
  "clearVolCatBytes d = d\<lparr>VolCatInfo := (VolCatInfo d)\<lparr>VolCatBytes := 0, VolCatAmetaBytes := 0, VolCatAdataBytes := 0\<rparr>\<rparr>"

definition label_failed :: "label_env \<Rightarrow> label_state \<Rightarrow> bool \<times> label_state" where
  "label_failed le st = (False, in_dcr (on_dev clear_append) (in_dcr (le_unused le) st))"

definition write_volume_label :: "label_env \<Rightarrow> sd_env \<Rightarrow> bool \<Rightarrow> label_job \<Rightarrow> byte list \<Rightarrow> byte list \<Rightarrow> bool \<Rightarrow> bool \<Rightarrow> label_state
    \<Rightarrow> (bool \<times> label_state) outcome option" where
  "write_volume_label le env forge_on job VolName PoolName relabel no_prelabel st =
     (if VolName = [] then Some (Ret (label_failed le st))
      else
        (case (if relabel then dcr_call (le_truncate le) (in_dcr (le_unused le) st) else (True, st)) of
           (False, st) \<Rightarrow> Some (Ret (label_failed le st))
         | (True, st) \<Rightarrow>
             (case dcr_call (le_open le OPEN_READ_WRITE) (in_dcr (on_dev clearVolCatBytes) (in_dcr (set_vol_name VolName) st)) of
                (opened, st) \<Rightarrow>
                  (case (if opened then (True, st) else if is_tape (ls_dev st) then (False, st) else dcr_call (le_open le CREATE_READ_WRITE) st) of
                     (False, st) \<Rightarrow> Some (Ret (label_failed le st))
                   | (True, st) \<Rightarrow>
                       (case write_volume_label_to_dev le env forge_on job VolName PoolName no_prelabel st of
                          None \<Rightarrow> None
                        | Some (Dies e) \<Rightarrow> Some (Dies e)
                        | Some (Ret (False, st)) \<Rightarrow> Some (Ret (label_failed le st))
                        | Some (Ret (True, st)) \<Rightarrow>
                            (if is_aligned (ls_dev st) then Some (Ret (True, in_dcr (on_dev clear_append) st))
                             else
                               (case dcr_call (weof env) st of
                                  (eof, st) \<Rightarrow>
                                    (case dcr_call (le_reserve le (string_of VolName))
                                        (if eof then in_dcr (on_dev set_labeled) st else st) of
                                       (False, st) \<Rightarrow> Some (Ret (label_failed le st))
                                     | (True, st) \<Rightarrow> Some (Ret (True, in_dcr (on_dev clear_append) st))))))))))"

section \<open>The label at the first use of a volume\<close>

definition write_volume_label_to_block :: "label_job \<Rightarrow> label_state \<Rightarrow> (bool \<times> label_state) outcome option" where
  "write_volume_label_to_block job st =
     (let st = st\<lparr>ls_block := empty_block (ls_block st)\<rparr>
      in case create_volume_label_record job (adata (ls_block st)) (ls_dcr st) (ls_hdr st) (new_record\<lparr>rec_data := replicate SER_LENGTH_Volume_Label 0\<rparr>) of
           Dies e \<Rightarrow> Some (Dies e)
         | Ret (dcr, vl, rec) \<Rightarrow>
             (case put_label_record (st\<lparr>ls_dcr := dcr, ls_hdr := vl, ls_block := (ls_block st)\<lparr>BlockNumber := 0\<rparr>\<rparr>) rec of
                None \<Rightarrow> None
              | Some (Dies e) \<Rightarrow> Some (Dies e)
              | Some (Ret (ok, st)) \<Rightarrow> Some (Ret (ok, if ok then st else in_dcr Jmsg_fatal st))))"

text \<open>
  \<open>rewrite_volume_label\<close> in three parts: opening, rewinding and truncating; the label; the catalog. The counters that
  \<open>VOLUME_CAT_INFO\<close> of the model does not have (cloud parts, the type of the volume and the time of the first write) are left out.
\<close>

definition reopen_volume :: "label_env \<Rightarrow> bool \<Rightarrow> label_state \<Rightarrow> bool \<times> label_state" where
  "reopen_volume le recycle st =
     (if has_cap (ls_dev st) CAP_STREAM then (True, st)
      else case dcr_call (dev_rewind le) st of
        (False, st) \<Rightarrow> (False, in_dcr Jmsg_fatal st)
      | (True, st) \<Rightarrow>
          (if \<not> recycle then (True, st)
           else case dcr_call (le_truncate le) st of
             (False, st) \<Rightarrow> (False, in_dcr Jmsg_fatal st)
           | (True, st) \<Rightarrow>
               (case dcr_call (le_open le OPEN_READ_WRITE) st of (ok, st) \<Rightarrow> (ok, if ok then st else in_dcr Jmsg_fatal st))))"

definition reset_counters :: "bool \<Rightarrow> VOLUME_CAT_INFO \<Rightarrow> VOLUME_CAT_INFO" where
  "reset_counters recycle v =
     (let v = v\<lparr>VolCatJobs := 0, VolCatFiles := 0, VolCatErrors := 0, VolCatBlocks := 0, VolCatRBytes := 0, VolLastPartBytes := 0\<rparr>
      in if recycle then v\<lparr>VolCatMounts := VolCatMounts v + 1, VolCatRecycles := VolCatRecycles v + 1\<rparr>
         else v\<lparr>VolCatMounts := 1, VolCatRecycles := 0, VolCatWrites := 1, VolCatReads := 1\<rparr>)"

definition register_label :: "label_env \<Rightarrow> sd_env \<Rightarrow> bool \<Rightarrow> label_state \<Rightarrow> bool \<times> label_state" where
  "register_label le env recycle st =
     (let name = dcr_VolumeName (ls_dcr st);
          st = in_dcr (on_dev (\<lambda>d. d\<lparr>VolCatInfo := (VolCatInfo d)\<lparr>VolCatName := name, is_valid := False\<rparr>\<rparr>)) st
      in case dcr_call (le_volume_info le name) st of
           (False, st) \<Rightarrow> (False, st)
         | (True, st) \<Rightarrow>
             (let st = in_dcr (on_dev (\<lambda>d. (set_labeled d)\<lparr>VolCatInfo := reset_counters recycle (VolCatInfo d)\<rparr>)) st;
                  st = in_dcr (\<lambda>dcr. dcr\<lparr>dcr_VolMediaId := VolMediaId (dcr_VolCatInfo dcr)\<rparr>) st;
                  (_, st) = dcr_call (dir_create_jobmedia_record env True) st;
                  st = in_dcr (on_dev (\<lambda>d. d\<lparr>VolCatInfo := (VolCatInfo d)\<lparr>VolCatStatus := ''Append'', is_valid := False\<rparr>\<rparr>)) st
              in dcr_call (dir_update_volume_info env) st))"

definition rewrite_volume_label :: "label_env \<Rightarrow> sd_env \<Rightarrow> bool \<Rightarrow> label_job \<Rightarrow> bool \<Rightarrow> label_state \<Rightarrow> (bool \<times> label_state) outcome option" where
  "rewrite_volume_label le env forge_on job recycle st =
     (if dcr_VolumeName (ls_dcr st) = [] \<or> adata (ls_block st) then Some (Dies Assert_failed)
      else if is_worm (ls_dev st) then Some (Ret (False, in_dcr Jmsg_fatal st))
      else case dcr_call (le_open le OPEN_READ_WRITE) st of
        (False, st) \<Rightarrow> Some (Ret (False, st))
      | (True, st) \<Rightarrow>
          (let st = in_dcr (on_dev (\<lambda>d. clearVolCatBytes (set_append d))) (st\<lparr>ls_hdr := (ls_hdr st)\<lparr>vl_LabelType := VOL_LABEL\<rparr>\<rparr>);
               st = in_dcr (on_dev (\<lambda>d. d\<lparr>VolCatInfo := (VolCatInfo d)\<lparr>VolCatStatus := ''Append'', is_valid := False\<rparr>\<rparr>)) st
           in case reopen_volume le recycle st of
                (False, st) \<Rightarrow> Some (Ret (False, st))
              | (True, st) \<Rightarrow>
                  (case write_volume_label_to_block job st of
                     None \<Rightarrow> None
                   | Some (Dies e) \<Rightarrow> Some (Dies e)
                   | Some (Ret (False, st)) \<Rightarrow> Some (Ret (False, st))
                   | Some (Ret (True, st)) \<Rightarrow>
                       (let st = in_dcr (on_dev (setVolCatInfo False)) st
                        in if has_cap (ls_dev st) CAP_STREAM then Some (Ret (register_label le env recycle st))
                           else case skip_or_write_ansi le st of
                             (False, st) \<Rightarrow> Some (Ret (False, st))
                           | (True, st) \<Rightarrow>
                               (case put_label_block env forge_on st of
                                  None \<Rightarrow> None
                                | Some (Dies e) \<Rightarrow> Some (Dies e)
                                | Some (Ret (False, st)) \<Rightarrow> Some (Ret (False, st))
                                | Some (Ret (True, st)) \<Rightarrow> Some (Ret (register_label le env recycle st)))))))"

text \<open>\<open>write_session_label\<close>; a label that does not fit the block begins the next one.\<close>

definition write_session_label :: "sd_env \<Rightarrow> bool \<Rightarrow> label_job \<Rightarrow> int32_t \<Rightarrow> label_state \<Rightarrow> (bool \<times> label_state) outcome option" where
  "write_session_label env forge_on job label st =
     (case dcr_call (check_for_newvol_or_newfile env) st of
        (False, st) \<Rightarrow> Some (Ret (False, st))
      | (True, st) \<Rightarrow>
          (if label \<noteq> SOS_LABEL \<and> label \<noteq> EOS_LABEL then Some (Dies Assert_failed)
           else
             (let st = in_dcr (\<lambda>dcr. if label = SOS_LABEL then set_start_vol_position dcr else dcr\<lparr>dcr_EndAddr := get_full_addr (dev dcr)\<rparr>) st
              in case create_session_label job (ls_dcr st) new_record label of
                   Dies e \<Rightarrow> Some (Dies e)
                 | Ret rec \<Rightarrow>
                     (case can_write_record_to_block (ls_block st) (rec\<lparr>FileIndex := label\<rparr>) of
                        (fit, rec) \<Rightarrow>
                          (case (if fit then Some (Ret (True, ls_dcr st, ls_block st)) else write_block_to_device env forge_on False (ls_dcr st) (ls_block st)) of
                             None \<Rightarrow> None
                           | Some (Dies e) \<Rightarrow> Some (Dies e)
                           | Some (Ret (False, dcr, block)) \<Rightarrow> Some (Ret (False, st\<lparr>ls_dcr := dcr, ls_block := block\<rparr>))
                           | Some (Ret (True, dcr, block)) \<Rightarrow>
                               (case write_record (write_block_to_device env forge_on False) job_canceled False dcr block rec of
                                  None \<Rightarrow> None
                                | Some (Dies e) \<Rightarrow> Some (Dies e)
                                | Some (Ret (ok, dcr, block, _)) \<Rightarrow> Some (Ret (ok, st\<lparr>ls_dcr := dcr, ls_block := block\<rparr>))))))))"

section \<open>No other volume is accepted\<close>

lemma in_dcr_fields [simp]: "ls_dcr (in_dcr f st) = f (ls_dcr st)" "ls_hdr (in_dcr f st) = ls_hdr st" "ls_block (in_dcr f st) = ls_block st"
  by (simp_all add: in_dcr_def)

lemma dcr_call_cases:
  assumes "dcr_call f st = (x, st')"
  obtains c where "f (ls_dcr st) = (x, c)" and "st' = st\<lparr>ls_dcr := c\<rparr>"
  using assms by (auto simp: dcr_call_def split: prod.splits)

text \<open>Routines that leave the name of the volume alone, as the ANSI label routines, the tape drive and the list of volumes do.\<close>

definition keeps_name :: "(DCR \<Rightarrow> 'a \<times> DCR) \<Rightarrow> bool" where
  "keeps_name f \<longleftrightarrow> (\<forall>c. dcr_VolumeName (snd (f c)) = dcr_VolumeName c)"

lemma keeps_nameD: "keeps_name f \<Longrightarrow> f c = (x, c') \<Longrightarrow> dcr_VolumeName c' = dcr_VolumeName c"
  by (metis keeps_name_def snd_conv)

lemma dev_rewind_keeps: "keeps_name (le_tape_rewind le) \<Longrightarrow> keeps_name (dev_rewind le)"
  by (auto simp: keeps_name_def dev_rewind_def split: prod.split)

text \<open>The name that is asked for admits a volume of this name.\<close>

definition asks_for :: "string \<Rightarrow> string \<Rightarrow> bool" where
  "asks_for want name \<longleftrightarrow> want = [] \<or> hd want = CHR ''*'' \<or> want = name"

lemma other_volume_iff: "other_volume st \<longleftrightarrow> \<not> asks_for (dcr_VolumeName (ls_dcr st)) (string_of (cstr (vl_VolumeName (ls_hdr st))))"
  by (auto simp: other_volume_def asks_for_def Let_def)

text \<open>The label and the name that is asked for agree.\<close>

definition right_volume :: "label_state \<Rightarrow> bool" where
  "right_volume st \<longleftrightarrow> cstr (vl_Id (ls_hdr st)) \<in> set known_ids \<and> vl_VerNum (ls_hdr st) \<in> set known_versions \<and>
     (vl_LabelType (ls_hdr st) = PRE_LABEL \<or> vl_LabelType (ls_hdr st) = VOL_LABEL) \<and>
     asks_for (dcr_VolumeName (ls_dcr st)) (string_of (cstr (vl_VolumeName (ls_hdr st))))"

lemma right_volume_call:
  assumes "dcr_call f st = (x, st')" and "keeps_name f" and "right_volume st"
  shows "right_volume st'"
  using assms(3) keeps_nameD [OF assms(2)] by (rule_tac dcr_call_cases [OF assms(1)]) (simp add: right_volume_def)

lemma right_volume_cong:
  "ls_hdr st' = ls_hdr st \<Longrightarrow> dcr_VolumeName (ls_dcr st') = dcr_VolumeName (ls_dcr st) \<Longrightarrow> right_volume st' = right_volume st"
  by (simp add: right_volume_def)

lemma check_label_right:
  assumes "check_label_header le st = (VOL_OK, st')" and "cstr (vl_Id (ls_hdr st)) \<in> set known_ids"
  shows "right_volume st'"
proof -
  let ?st = "in_dcr (on_dev set_labeled) st"
  have "st' = ?st" "vl_VerNum (ls_hdr st) \<in> set known_versions" "vl_LabelType (ls_hdr st) = PRE_LABEL \<or> vl_LabelType (ls_hdr st) = VOL_LABEL"
      "\<not> other_volume ?st"
    using assms(1) by (auto simp: check_label_header_def Let_def simp del: in_dcr_fields split: if_splits option.splits)
  then show ?thesis using assms(2) unfolding other_volume_iff by (simp add: right_volume_def)
qed

lemma accept_label_right:
  assumes "accept_label le ansi st = (VOL_OK, st')" and "right_volume st"
    and "keeps_name (le_tape_rewind le)" and "keeps_name (le_read_ansi le)" and "\<And>n. keeps_name (le_reserve le n)"
  shows "right_volume st'"
proof -
  note call = right_volume_call
  obtain stat st1 where p: "(if has_cap (ls_dev st) CAP_STREAM then (VOL_OK, st)
         else (case dcr_call (dev_rewind le) st of
                 (_, st) \<Rightarrow> if ansi then dcr_call (le_read_ansi le) st else (VOL_OK, st))) = (stat, st1)" (is "?p = _")
    by (metis surj_pair)
  have 1: "right_volume st1"
  proof (cases "has_cap (ls_dev st) CAP_STREAM")
    case True
    then show ?thesis using p assms(2) by simp
  next
    case False
    obtain x s where s: "dcr_call (dev_rewind le) st = (x, s)" by (metis surj_pair)
    have "right_volume s" by (rule call [OF s dev_rewind_keeps [OF assms(3)] assms(2)])
    then show ?thesis using p False s call [OF _ assms(4)] by (auto split: if_splits)
  qed
  obtain ok st2 where r: "dcr_call (le_reserve le (string_of (cstr (vl_VolumeName (ls_hdr st1))))) st1 = (ok, st2)" by (metis surj_pair)
  have 2: "right_volume st2" by (rule call [OF r assms(5) 1])
  have "st' = (if le_is_writing le then st2\<lparr>ls_block := empty_block (ls_block st2)\<rparr> else st2)"
    using assms(1) unfolding accept_label_def Let_def p prod.case r by (auto simp: bail_out_def split: if_splits)
  then show ?thesis using 2 right_volume_cong [of st' st2] by (simp split: if_splits)
qed

lemma read_label_id:
  assumes "read_label_record env forge_on st = Some (Ret (True, st'))"
  shows "cstr (vl_Id (ls_hdr st')) \<in> set known_ids"
  using assms unfolding read_label_record_def Let_def
  by (auto simp: bind_outcome_Ret_iff split: option.splits outcome.splits prod.splits if_splits)

lemma read_ansi_code: "read_ansi_part le st = (Inl stat, st') \<Longrightarrow> stat \<noteq> VOL_OK"
  by (auto simp: read_ansi_part_def Let_def split: if_splits prod.splits)


section \<open>A labelled volume is recognised\<close>

text \<open>The start of the volume: \<open>rewind\<close> of a disk that can seek.\<close>

definition rewound :: "DEVICE \<Rightarrow> DEVICE" where
  "rewound d = d\<lparr>state := state d AND NOT (ST_EOT OR ST_EOF OR ST_WEOT), block_num := 0, dev_file := 0, file_size := 0, file_addr := 0\<rparr>"

lemma dev_rewind_disk:
  assumes "le_seek le c = None" and "dev_type (dev c) = B_FILE_DEV" and "is_open (dev c)"
  shows "dev_rewind le c = (True, c\<lparr>dev := rewound (dev c), fpos := 0\<rparr>)"
  using assms by (simp add: dev_rewind_def DEVICE_rewind_def Let_def rewound_def is_tape_def is_file_def is_open_def)

text \<open>A volume that begins with a block whose first record is the label \<open>v\<close>.\<close>

definition volume_labelled :: "bool \<Rightarrow> Volume_Label \<Rightarrow> byte list \<Rightarrow> bool" where
  "volume_labelled chk v vol \<longleftrightarrow> label_ok v \<and> cstr (vl_AlignedVolumeName v) = [] \<and> cstr (vl_Id v) = BaculaId \<and> vl_VerNum v = BaculaTapeVersion \<and>
     (vl_LabelType v = VOL_LABEL \<or> vl_LabelType v = PRE_LABEL) \<and>
     (\<exists>s rest. first_block chk vol = Some ((s, enc_chunk (vl_LabelType v, 0, of_nat (length (label_bytes v)), label_bytes v)), rest))"

subsection \<open>Writing\<close>

definition disk_env :: "label_env \<Rightarrow> bool" where
  "disk_env le \<longleftrightarrow> (\<forall>c. le_seek le c = None) \<and> (\<forall>c. le_write_ansi le c = (True, c)) \<and> length (le_version le) < 50 \<and> length (le_build_date le) < 50"

definition blank_disk :: "label_state \<Rightarrow> bool" where
  "blank_disk st \<longleftrightarrow> volume (ls_dcr st) = [] \<and> write_script (ls_dcr st) = [] \<and> \<not> job_canceled (ls_dcr st) \<and> dev_type (ls_dev st) = B_FILE_DEV \<and>
     label_type (ls_dev st) = B_BACULA_LABEL \<and> can_store (set_append (ls_dev st)) \<and> block_wf (ls_block st) \<and>
     1043 \<le> unat (buf_len (ls_block st)) \<and> label_ok (ls_hdr st)"

lemma terminated_bstrncpy: "0 < n \<Longrightarrow> terminated n (bstrncpy n s)"
  by (simp add: terminated_def bstrncpy_def)

lemma sprintf_terminated: "length s < n \<Longrightarrow> length a = n \<Longrightarrow> \<exists>a'. sprintf_string a s = Some a' \<and> terminated n a'"
  by (simp add: sprintf_string_def terminated_def)

lemma bacula_id_copy: "cstr (bstrncpy 32 BaculaId) = BaculaId"
  by (rule cstr_bstrncpy) (simp_all add: bacula_id)

lemma header_created:
  assumes "disk_env le" and "label_ok (ls_hdr st)" and "dev_type (ls_dev st) = B_FILE_DEV"
    and name: "VolName \<noteq> []" "0 \<notin> set VolName" "length VolName < MAX_NAME_LENGTH"
  shows "\<exists>vl. create_volume_header le job VolName PoolName no_prelabel st = Ret (in_dcr (on_dev set_labeled) (st\<lparr>ls_hdr := vl\<rparr>)) \<and> label_ok vl \<and>
     cstr (vl_Id vl) = BaculaId \<and> vl_VerNum vl = BaculaTapeVersion \<and> cstr (vl_VolumeName vl) = VolName \<and>
     (vl_LabelType vl = VOL_LABEL \<or> vl_LabelType vl = PRE_LABEL)"
proof -
  let ?vl = "header_by_type le (ls_dev st) (ls_hdr st)"
  have h: "?vl = (ls_hdr st)\<lparr>vl_Id := bstrncpy 32 BaculaId, vl_VerNum := BaculaTapeVersion, vl_BlockSize := max_block_size (ls_dev st)\<rparr>"
    using assms(3) by (simp add: header_by_type_def Let_def is_aligned_def)
  have l: "length (vl_ProgVersion ?vl) = 50" "length (vl_ProgDate ?vl) = 50" "length (vl_HostName ?vl) = 128"
    using assms(2) by (simp_all add: h label_ok_def terminated_def MAX_NAME_LENGTH_def)
  obtain v where v: "sprintf_string (vl_ProgVersion ?vl) (le_version le) = Some v" "terminated 50 v"
    using sprintf_terminated [OF _ l(1), of "le_version le"] assms(1) unfolding disk_env_def by blast
  obtain t where t: "sprintf_string (vl_ProgDate ?vl) (le_build_date le) = Some t" "terminated 50 t"
    using sprintf_terminated [OF _ l(2), of "le_build_date le"] assms(1) unfolding disk_env_def by blast
  have host: "terminated 128 ((vl_HostName ?vl)[0 := 0])"
    using l(3) by (cases "vl_HostName ?vl") (simp_all add: terminated_def)
  show ?thesis
    unfolding create_volume_header_def Let_def v t
    using assms(2) v(2) t(2) host cstr_bstrncpy [OF name(2,3)]
    by (auto simp: label_ok_def terminated_bstrncpy bacula_id_copy MAX_NAME_LENGTH_def h split: option.split)
qed

text \<open>The record of a label in an empty block.\<close>

lemma label_put:
  assumes "block_wf (ls_block st)" and "payload (ls_block st) = []" and "1019 \<le> room (ls_block st)" and v: "label_ok v" "cstr (vl_AlignedVolumeName v) = []"
  shows "\<exists>b'. put_label_record st ((label_record job dcr v new_record)\<lparr>Stream := 0, maskedStream := 0\<rparr>) = Some (Ret (True, st\<lparr>ls_block := b'\<rparr>)) \<and>
     block_wf b' \<and> payload b' = enc_chunk (vl_LabelType v, 0, of_nat (length (label_bytes v)), label_bytes v)"
proof -
  let ?r = "(label_record job dcr v new_record)\<lparr>Stream := 0, maskedStream := 0\<rparr>"
  have n: "length (label_bytes v) \<le> 1007" by (rule label_bytes_room [OF v])
  have "rec_ok ?r" using n by (simp add: rec_ok_def label_record_def unat_of_nat_small MAX_BLOCK_LENGTH_def word_less_nat_alt)
  moreover have "\<not> bit (state_bits ?r) 7" "wstate ?r = st_none" by (simp_all add: label_record_def new_record_def)
  ultimately have "header_result (ls_block st) ?r (Stream ?r) (data_len ?r) (rec_data ?r) (write_record_to_block False (ls_block st) ?r)"
    using assms(1,3) by (intro fresh_call) simp_all
  moreover have "Stream ?r = 0" "data_len ?r = of_nat (length (label_bytes v))" "rec_data ?r = label_bytes v" "FileIndex ?r = vl_LabelType v"
    by (simp_all add: label_record_def)
  ultimately obtain b' r' where "write_record_to_block False (ls_block st) ?r = Some (Ret (True, b', r'))"
      "wrote (ls_block st) (enc_chunk (vl_LabelType v, 0, of_nat (length (label_bytes v)), label_bytes v)) b'"
    using n assms(3) unfolding header_result_def by auto
  then show ?thesis using assms(2) unfolding put_label_record_def by (auto simp: wrote_def)
qed

lemma label_block_put:
  assumes "willing env" and "vol_ready [] (ls_dcr st)" and "volume (ls_dcr st) = []" and "block_wf (ls_block st)" and "payload (ls_block st) \<noteq> []"
  shows "\<exists>st' s. put_label_block env forge_on st = Some (Ret (True, st')) \<and> ls_hdr st' = ls_hdr st \<and>
     first_block (do_checksum (ls_dev st)) (volume (ls_dcr st')) = Some ((s, payload (ls_block st)), [])"
proof -
  obtain c' b' where w: "write_block_to_dev env forge_on (ls_dcr st) (ls_block st) = Some (Ret (True, c', b'))" "vol_ready [] c'"
      "volume_images [] c' = volume_images [] (ls_dcr st) @ [image_of (ls_block st)]" "capabilities (dev c') = capabilities (ls_dev st)"
    using write_block_ready [OF assms(1,2,4) payload_not_empty [OF assms(4,5)], of forge_on] by blast
  have ck: "do_checksum (dev c') = do_checksum (ls_dev st)" using w(4) by (simp add: do_checksum_def)
  have "volume_images [] c' = [image_of (ls_block st)]" using w(3) assms(3) by (simp add: volume_images_def)
  then have "parse_volume (do_checksum (ls_dev st)) (volume c') = Some [image_of (ls_block st)]"
    unfolding volume_images_def ck by (auto split: option.splits)
  then obtain rest where "first_block (do_checksum (ls_dev st)) (volume c') = Some (image_of (ls_block st), rest)"
      "parse_volume (do_checksum (ls_dev st)) rest = Some []"
    using parse_volume_SomeD by blast
  then have "first_block (do_checksum (ls_dev st)) (volume c') = Some (image_of (ls_block st), [])"
    using parse_volume_SomeD by blast
  moreover have "put_label_block env forge_on st = Some (Ret (True, st\<lparr>ls_dcr := c', ls_block := b'\<rparr>))"
    unfolding put_label_block_def using w(1) by simp
  ultimately show ?thesis unfolding image_of_def
    by (intro exI [of _ "st\<lparr>ls_dcr := c', ls_block := b'\<rparr>"] exI [of _ "(VolSessionId (ls_block st), VolSessionTime (ls_block st))"]) simp
qed

lemma rewound_ready:
  assumes "volume c = []" and "write_script c = []" and "\<not> job_canceled c" and "can_store (set_append (dev c))"
    and d: "d = set_labeled (set_append (rewound (dev c)))"
  shows "vol_ready [] (c\<lparr>dev := d, fpos := 0, dcr_VolumeName := n\<rparr>)" "do_checksum d = do_checksum (dev c)" "label_type d = label_type (dev c)"
proof -
  have "can_store d"
    using assms(4) by (simp add: d can_store_def is_open_def is_tape_def flag_simps rewound_def set_append_def set_labeled_def Let_def)
  then show "vol_ready [] (c\<lparr>dev := d, fpos := 0, dcr_VolumeName := n\<rparr>)"
    using assms(1-3) by (simp add: vol_ready_def able_def job_canceled_def)
  show "do_checksum d = do_checksum (dev c)" "label_type d = label_type (dev c)"
    by (simp_all add: d do_checksum_def rewound_def set_append_def set_labeled_def Let_def)
qed

lemma label_is_written:
  assumes "willing env" and le: "disk_env le" and st: "blank_disk st" and name: "VolName \<noteq> []" "0 \<notin> set VolName" "length VolName < MAX_NAME_LENGTH"
  shows "\<exists>st' v. write_volume_label_to_dev le env forge_on job VolName PoolName no_prelabel st = Some (Ret (True, st')) \<and>
     volume_labelled (do_checksum (ls_dev st)) v (volume (ls_dcr st')) \<and> cstr (vl_VolumeName v) = VolName"
proof -
  define b where "b = empty_block (ls_block st)"
  let ?c = "ls_dcr st" and ?d = "set_append (rewound (ls_dev st))"
  let ?st1 = "st\<lparr>ls_block := b, ls_dcr := ?c\<lparr>dev := rewound (dev ?c), fpos := 0\<rparr>\<rparr>"
  let ?st2 = "in_dcr (on_dev set_append) ?st1"
  have s: "volume ?c = []" "write_script ?c = []" "\<not> job_canceled ?c" "dev_type (dev ?c) = B_FILE_DEV" "label_type (dev ?c) = B_BACULA_LABEL"
      "can_store (set_append (dev ?c))" "block_wf (ls_block st)" "1043 \<le> unat (buf_len (ls_block st))" "label_ok (ls_hdr st)"
    using st by (simp_all add: blank_disk_def)
  have opn: "is_open (dev ?c)" using s(6) by (simp add: can_store_def is_open_def set_append_def Let_def)
  have b: "block_wf b" "payload b = []" "1019 \<le> room b" "\<not> adata b"
    using empty_block_wf(1) [OF s(7)] s(8) block_wfD(1) [OF s(7)]
    by (simp_all add: b_def) (simp_all add: empty_block_def Let_def payload_def room_def block_consts)
  have rew: "dcr_call (dev_rewind le) (st\<lparr>ls_block := b\<rparr>) = (True, ?st1)"
    using dev_rewind_disk [of le ?c] le s(4) opn by (simp add: dcr_call_def disk_env_def)
  have "dev_type (ls_dev ?st2) = B_FILE_DEV" using s(4) by (simp add: rewound_def set_append_def Let_def)
  then obtain vl where vl: "create_volume_header le job VolName PoolName no_prelabel ?st2 = Ret (in_dcr (on_dev set_labeled) (?st2\<lparr>ls_hdr := vl\<rparr>))"
      "label_ok vl" "cstr (vl_Id vl) = BaculaId" "vl_VerNum vl = BaculaTapeVersion" "cstr (vl_VolumeName vl) = VolName"
      "vl_LabelType vl = VOL_LABEL \<or> vl_LabelType vl = PRE_LABEL"
    using header_created [OF le _ _ name, of ?st2 job PoolName no_prelabel] s(9) by auto
  define c3 where "c3 = ?c\<lparr>dev := set_labeled ?d, fpos := 0\<rparr>"
  define st3 where "st3 = st\<lparr>ls_block := b, ls_hdr := vl, ls_dcr := c3\<rparr>"
  have st3: "in_dcr (on_dev set_labeled) (?st2\<lparr>ls_hdr := vl\<rparr>) = st3" by (simp add: st3_def c3_def in_dcr_def on_dev_def)
  define c4 where "c4 = c3\<lparr>dcr_VolumeName := string_of VolName\<rparr>"
  note ready = rewound_ready [OF s(1,2,3,6) refl]
  have c4: "vol_ready [] c4" "volume c4 = []" "do_checksum (dev c4) = do_checksum (dev ?c)" using ready(1) [of "string_of VolName"] ready(2) s(1) by (simp_all add: c4_def c3_def)
  have ansi: "skip_or_write_ansi le st3 = (True, st3)"
    using le ready(3) s(5) by (simp add: skip_or_write_ansi_def dcr_call_def st3_def c3_def disk_env_def)
  define v where "v = stamp_label job vl"
  have v: "label_ok v" "cstr (vl_AlignedVolumeName v) = []" using stamp_label_ok [OF vl(2)] by (simp_all add: v_def)
  have v': "vl_LabelType v = vl_LabelType vl" "vl_VolumeName v = vl_VolumeName vl" "vl_Id v = vl_Id vl" "vl_VerNum v = vl_VerNum vl"
    by (simp_all add: v_def stamp_label_def Let_def)
  have rec: "create_volume_label_record job (adata (ls_block st3)) (ls_dcr st3) (ls_hdr st3) new_record = Ret (c4, v, label_record job c3 v new_record)"
    using create_label_record [OF vl(2), of job c3 new_record] name(1) vl(5) b(4) by (simp add: st3_def c4_def v_def)
  let ?st4 = "st3\<lparr>ls_dcr := c4, ls_hdr := v\<rparr>"
  obtain b' where put: "put_label_record ?st4 ((label_record job c3 v new_record)\<lparr>Stream := 0, maskedStream := 0\<rparr>) = Some (Ret (True, ?st4\<lparr>ls_block := b'\<rparr>))"
      "block_wf b'" "payload b' = enc_chunk (vl_LabelType v, 0, of_nat (length (label_bytes v)), label_bytes v)"
    using label_put [OF _ _ _ v, of ?st4 job c3] b(1-3) by (auto simp: st3_def)
  have "payload b' \<noteq> []" unfolding put(3) using length_rechdr_bytes by (metis append_is_Nil_conv enc_chunk.simps list.size(3) zero_neq_numeral)
  then obtain st5 s5 where out: "put_label_block env forge_on (?st4\<lparr>ls_block := b'\<rparr>) = Some (Ret (True, st5))"
      "first_block (do_checksum (dev ?c)) (volume (ls_dcr st5)) = Some ((s5, payload b'), [])"
    using label_block_put [OF assms(1), of "?st4\<lparr>ls_block := b'\<rparr>" forge_on] c4 put(2) by auto
  have "write_volume_label_to_dev le env forge_on job VolName PoolName no_prelabel st = Some (Ret (True, st5))"
    unfolding write_volume_label_to_dev_def b_def [symmetric] rew prod.case bool.case vl(1) outcome.case st3
    using ansi rec put(1) out(1) b(4) block_wfD(1) [OF put(2)] by (simp add: st3_def)
  moreover have "volume_labelled (do_checksum (ls_dev st)) v (volume (ls_dcr st5))"
    using v v' vl(3,4,6) out(2) put(3) unfolding volume_labelled_def by auto
  ultimately show ?thesis using v'(2) vl(5) by auto
qed

subsection \<open>Reading\<close>

text \<open>A disk that is open, without ANSI labels, and a list of volumes that has no other use for the volume.\<close>

definition disk_reader :: "label_env \<Rightarrow> label_state \<Rightarrow> bool" where
  "disk_reader le st \<longleftrightarrow> (\<forall>c. le_seek le c = None) \<and> (\<forall>n c. fst (le_reserve le n c)) \<and> le_device_label_type le = B_BACULA_LABEL \<and>
     \<not> job_canceled (ls_dcr st) \<and> read_script (ls_dcr st) = [] \<and> LabelType (dcr_VolCatInfo (ls_dcr st)) = B_BACULA_LABEL \<and>
     is_open (ls_dev st) \<and> enabled (ls_dev st) \<and> \<not> dev_adata (ls_dev st) \<and> dev_type (ls_dev st) = B_FILE_DEV \<and>
     \<not> has_cap (ls_dev st) CAP_CHECKLABELS \<and> \<not> has_cap (ls_dev st) CAP_STREAM \<and>
     read_buffer (ls_block st) \<and> 1043 \<le> unat (buf_len (ls_block st)) \<and> label_ok (ls_hdr st)"

lemma read_buffer_empty: "read_buffer b \<Longrightarrow> read_buffer (empty_block b)" "buf_len (empty_block b) = buf_len b"
  by (simp_all add: read_buffer_def empty_block_def Let_def)

lemma label_record_found:
  assumes ld: "can_load (ls_dcr st)" and b: "read_buffer (ls_block st)" "1043 \<le> unat (buf_len (ls_block st))" and hdr: "label_ok (ls_hdr st)"
    and vol: "volume_labelled chk v (volume (ls_dcr st))" and pos: "fpos (ls_dcr st) = 0" and sums: "do_checksum (ls_dev st) \<longrightarrow> chk"
  shows "\<exists>st'. read_label_record env forge_on st = Some (Ret (True, st')) \<and> same_label v (ls_hdr st') \<and> vl_LabelType (ls_hdr st') = vl_LabelType v \<and>
     can_load (ls_dcr st') \<and> dcr_VolumeName (ls_dcr st') = dcr_VolumeName (ls_dcr st) \<and> dev_type (ls_dev st') = dev_type (ls_dev st) \<and>
     capabilities (ls_dev st') = capabilities (ls_dev st)"
proof -
  let ?c = "(ls_dcr st)\<lparr>reading_label := True\<rparr>" and ?b = "empty_block (ls_block st)"
  let ?ch = "(vl_LabelType v, 0 :: int32_t, of_nat (length (label_bytes v)) :: uint32_t, label_bytes v)"
  obtain s rest where v: "label_ok v" "cstr (vl_AlignedVolumeName v) = []" "cstr (vl_Id v) = BaculaId"
      "vl_LabelType v = VOL_LABEL \<or> vl_LabelType v = PRE_LABEL" "first_block chk (volume (ls_dcr st)) = Some ((s, enc_chunk ?ch), rest)"
    using vol unfolding volume_labelled_def by blast
  have n: "length (label_bytes v) \<le> 1007" by (rule label_bytes_room [OF v(1,2)])
  have ld': "can_load ?c" using ld by (simp add: can_load_def job_canceled_def)
  have "first_block chk (drop (fpos ?c) (volume ?c)) = Some ((s, enc_chunk ?ch), rest)" using v(5) pos by simp
  moreover have "24 + length (enc_chunk ?ch) \<le> unat (buf_len ?b)" using n b(2) by (simp add: read_buffer_empty)
  ultimately obtain c' b' where r: "read_block_from_dev env forge_on ?c ?b = Some (Ret (True, c', b'))" "readable s b'" "unread b' = enc_chunk ?ch"
      "can_load c'" "dcr_VolumeName c' = dcr_VolumeName ?c" "dev_type (dev c') = dev_type (dev ?c)" "capabilities (dev c') = capabilities (dev ?c)"
    using read_next_block [OF ld' read_buffer_empty(1) [OF b(1)], of chk s "enc_chunk ?ch" rest env forge_on] sums by auto
  have u: "unat (of_nat (length (label_bytes v)) :: uint32_t) = length (label_bytes v)" using n by (simp add: unat_of_nat_small)
  have "decode_chunk None ?ch = Some ([(vl_LabelType v, 0, label_bytes v)], None)" using n u by (simp add: MAX_BLOCK_LENGTH_def)
  moreover have "holds_pending s None new_record" by (simp add: holds_pending_def new_record_def)
  moreover have "within ?ch" "complete ?ch" using u by simp_all
  ultimately obtain b2 r2 where rr: "read_record_from_block (dev c') (dcr_VolumeName c') b' new_record = Ret (True, b2, r2)"
      "[(vl_LabelType v, 0, label_bytes v)] = [app_view r2]"
    using read_chunk [OF r(2), of ?ch "[]" None new_record "[(vl_LabelType v, 0, label_bytes v)]" None "dev c'" "dcr_VolumeName c'"] r(3) by auto
  have r2: "FileIndex r2 = vl_LabelType v" "take (unat (data_len r2)) (rec_data r2) = label_bytes v" using rr(2) by (simp_all add: app_view_def)
  then have "take (length (label_bytes v)) (rec_data r2) = label_bytes v" by (metis length_take min.commute take_all_iff take_take nle_le)
  then obtain vl' r3 where un: "unser_volume_label forge_on (ls_hdr st) r2 = Ret (True, vl', r3)" "same_label v vl'" "vl_LabelType vl' = vl_LabelType v"
    using unser_label_record [OF v(1,2) hdr, of r2 forge_on] v(4) r2(1) by auto
  have "cstr (vl_Id vl') \<in> set known_ids" using un(2) v(3) by (simp add: same_label_def known_ids_def)
  then have "read_label_record env forge_on st = Some (Ret (True, st\<lparr>ls_dcr := c', ls_block := b2, ls_hdr := vl'\<rparr>))"
    unfolding read_label_record_def Let_def using r(1) rr(1) un(1) by simp
  then show ?thesis using un r by (intro exI [of _ "st\<lparr>ls_dcr := c', ls_block := b2, ls_hdr := vl'\<rparr>"]) simp
qed

lemma label_checked:
  assumes "same_label v (ls_hdr st)" and "cstr (vl_Id v) = BaculaId" and "vl_VerNum v = BaculaTapeVersion"
    and "vl_LabelType (ls_hdr st) = VOL_LABEL \<or> vl_LabelType (ls_hdr st) = PRE_LABEL" and "dev_type (ls_dev st) = B_FILE_DEV"
  shows "check_label_header le st =
     (let st' = in_dcr (on_dev set_labeled) st
      in if asks_for (dcr_VolumeName (ls_dcr st)) (string_of (cstr (vl_VolumeName v))) then (VOL_OK, st') else (VOL_NAME_ERROR, count_label_error le st'))"
proof -
  have l: "cstr (vl_Id (ls_hdr st)) = BaculaId" "vl_VerNum (ls_hdr st) \<in> set known_versions" "cstr (vl_VolumeName (ls_hdr st)) = cstr (vl_VolumeName v)"
    using assms(1-3) by (simp_all add: same_label_def known_versions_def)
  have "other_volume (in_dcr (on_dev set_labeled) st) \<longleftrightarrow> \<not> asks_for (dcr_VolumeName (ls_dcr st)) (string_of (cstr (vl_VolumeName v)))"
    using l(3) by (simp add: other_volume_iff on_dev_def)
  moreover have "wanted_id (dev_type (ls_dev (in_dcr (on_dev set_labeled) st))) = Some BaculaId"
    using assms(5) by (simp add: wanted_id_def set_labeled_def)
  ultimately show ?thesis using l(1,2) assms(4) by (auto simp: check_label_header_def Let_def)
qed

lemma bail_out_fields: "\<exists>st'. bail_out le stat st = (stat, st') \<and> ls_hdr st' = ls_hdr st"
  by (auto simp: bail_out_def dcr_call_def split: prod.split)

lemma label_accepted:
  assumes "\<not> has_cap (ls_dev st) CAP_STREAM" and "\<forall>n c. fst (le_reserve le n c)"
  shows "\<exists>st'. accept_label le False st = (VOL_OK, st') \<and> ls_hdr st' = ls_hdr st"
proof -
  obtain x c where "dev_rewind le (ls_dcr st) = (x, c)" by (cases "dev_rewind le (ls_dcr st)")
  then have c: "dcr_call (dev_rewind le) st = (x, st\<lparr>ls_dcr := c\<rparr>)" by (simp add: dcr_call_def)
  let ?n = "string_of (cstr (vl_VolumeName (ls_hdr st)))"
  have "fst (le_reserve le ?n c)" using assms(2) by blast
  then obtain c' where "le_reserve le ?n c = (True, c')" by (cases "le_reserve le ?n c") auto
  then have "dcr_call (le_reserve le (string_of (cstr (vl_VolumeName (ls_hdr (st\<lparr>ls_dcr := c\<rparr>)))))) (st\<lparr>ls_dcr := c\<rparr>) = (True, st\<lparr>ls_dcr := c'\<rparr>)"
    by (simp add: dcr_call_def)
  then show ?thesis using assms(1) c unfolding accept_label_def by simp
qed

lemma reader_loads:
  fixes w :: bool
  assumes "disk_reader le st"
  defines "c \<equiv> on_dev (\<lambda>d. d\<lparr>is_worm := w\<rparr>) (on_dev (begin_label_read le) (ls_dcr st))"
  shows "dev_rewind le c = (True, c\<lparr>dev := rewound (dev c), fpos := 0\<rparr>)" "can_load (c\<lparr>dev := rewound (dev c), fpos := 0\<rparr>)"
    "capabilities (rewound (dev c)) = capabilities (ls_dev st)" "dev_type (rewound (dev c)) = B_FILE_DEV" "dcr_VolumeName c = dcr_VolumeName (ls_dcr st)"
    "volume c = volume (ls_dcr st)" "LabelType (dcr_VolCatInfo c) = B_BACULA_LABEL"
proof -
  note defs = c_def begin_label_read_def rewound_def on_dev_def clear_read_def clear_append_def clear_labeled_def
  show "dev_rewind le c = (True, c\<lparr>dev := rewound (dev c), fpos := 0\<rparr>)"
    using assms(1) by (intro dev_rewind_disk) (simp_all add: disk_reader_def c_def begin_label_read_def on_dev_def clear_read_def clear_append_def clear_labeled_def is_open_def)
  show "can_load (c\<lparr>dev := rewound (dev c), fpos := 0\<rparr>)"
    using assms(1) by (simp add: disk_reader_def can_load_def defs is_open_def is_tape_def flag_simps job_canceled_def)
  show "capabilities (rewound (dev c)) = capabilities (ls_dev st)" "dev_type (rewound (dev c)) = B_FILE_DEV" "dcr_VolumeName c = dcr_VolumeName (ls_dcr st)"
      "volume c = volume (ls_dcr st)" "LabelType (dcr_VolCatInfo c) = B_BACULA_LABEL"
    using assms(1) by (simp_all add: disk_reader_def defs)
qed

lemma error_id_ok: "label_ok vl \<Longrightarrow> label_ok (vl\<lparr>vl_Id := bstrncpy 32 s\<rparr>)"
  by (simp add: label_ok_def terminated_bstrncpy)

lemma label_is_read:
  assumes rd: "disk_reader le st" and vol: "volume_labelled chk v (volume (ls_dcr st))" and sums: "do_checksum (ls_dev st) \<longrightarrow> chk"
  shows "\<exists>st'. read_dev_volume_label le env forge_on st = Some (Ret
     (if asks_for (dcr_VolumeName (ls_dcr st)) (string_of (cstr (vl_VolumeName v))) then VOL_OK else VOL_NAME_ERROR, st')) \<and> same_label v (ls_hdr st')"
proof -
  define c where "c = on_dev (\<lambda>d. d\<lparr>is_worm := le_tape_worm le (on_dev (begin_label_read le) (ls_dcr st))\<rparr>) (on_dev (begin_label_read le) (ls_dcr st))"
  note ld = reader_loads [OF rd, where w = "le_tape_worm le (on_dev (begin_label_read le) (ls_dcr st))", folded c_def]
  define st2 where "st2 = st\<lparr>ls_dcr := c\<lparr>dev := rewound (dev c), fpos := 0\<rparr>, ls_hdr := (ls_hdr st)\<lparr>vl_Id := bstrncpy 32 (bytes_of ''**error**'')\<rparr>\<rparr>"
  have r: "is_open (ls_dev st)" "le_device_label_type le = B_BACULA_LABEL" "\<not> has_cap (ls_dev st) CAP_CHECKLABELS" "\<not> has_cap (ls_dev st) CAP_STREAM"
      "read_buffer (ls_block st)" "1043 \<le> unat (buf_len (ls_block st))" "label_ok (ls_hdr st)" "\<forall>n c. fst (le_reserve le n c)"
    using rd by (simp_all add: disk_reader_def)
  have ansi: "read_ansi_part le st2 = (Inr False, st2)"
    using r(2,3) ld(3,7) by (simp add: read_ansi_part_def Let_def st2_def has_cap_def)
  obtain st3 where st3: "read_label_record env forge_on st2 = Some (Ret (True, st3))" "same_label v (ls_hdr st3)" "vl_LabelType (ls_hdr st3) = vl_LabelType v"
      "dcr_VolumeName (ls_dcr st3) = dcr_VolumeName c" "dev_type (ls_dev st3) = B_FILE_DEV" "capabilities (ls_dev st3) = capabilities (ls_dev st)"
    using label_record_found [of st2 chk v env forge_on] ld r(5-7) vol sums error_id_ok by (auto simp: st2_def do_checksum_def)
  define st4 where "st4 = in_dcr (\<lambda>dcr. dcr\<lparr>reading_label := False\<rparr>) st3"
  have st4: "ls_hdr st4 = ls_hdr st3" "dcr_VolumeName (ls_dcr st4) = dcr_VolumeName (ls_dcr st)" "dev_type (ls_dev st4) = B_FILE_DEV"
      "capabilities (ls_dev st4) = capabilities (ls_dev st)"
    using st3(4-6) ld(5) by (simp_all add: st4_def)
  let ?ask = "asks_for (dcr_VolumeName (ls_dcr st)) (string_of (cstr (vl_VolumeName v)))" and ?st5 = "in_dcr (on_dev set_labeled) st4"
  have v: "cstr (vl_Id v) = BaculaId" "vl_VerNum v = BaculaTapeVersion" "vl_LabelType v = VOL_LABEL \<or> vl_LabelType v = PRE_LABEL"
    using vol by (simp_all add: volume_labelled_def)
  have chk: "check_label_header le st4 = (if ?ask then (VOL_OK, ?st5) else (VOL_NAME_ERROR, count_label_error le ?st5))"
    using label_checked [of v st4 le] st3(2,3) st4 v by (simp add: Let_def)
  obtain st6 where 6: "accept_label le False ?st5 = (VOL_OK, st6)" "ls_hdr st6 = ls_hdr st3"
    using label_accepted [of ?st5 le] r(4,8) st4 by (auto simp: has_cap_def on_dev_def set_labeled_def)
  obtain st7 where 7: "bail_out le VOL_NAME_ERROR (count_label_error le ?st5) = (VOL_NAME_ERROR, st7)" "ls_hdr st7 = ls_hdr st3"
    using bail_out_fields [of le VOL_NAME_ERROR "count_label_error le ?st5"] st4(1) by (auto simp: count_label_error_def Let_def)
  have "read_dev_volume_label le env forge_on st = Some (Ret (if ?ask then (VOL_OK, st6) else (VOL_NAME_ERROR, st7)))"
  proof -
    have 1: "in_dcr (\<lambda>dcr. on_dev (\<lambda>d. d\<lparr>is_worm := le_tape_worm le dcr\<rparr>) dcr) (in_dcr (on_dev (begin_label_read le)) st) = st\<lparr>ls_dcr := c\<rparr>"
      by (simp add: in_dcr_def c_def)
    have 2: "dcr_call (dev_rewind le) (st\<lparr>ls_dcr := c\<rparr>) = (True, st\<lparr>ls_dcr := c\<lparr>dev := rewound (dev c), fpos := 0\<rparr>\<rparr>)"
      using ld(1) by (simp add: dcr_call_def)
    have 3: "(st\<lparr>ls_dcr := c\<lparr>dev := rewound (dev c), fpos := 0\<rparr>\<rparr>)\<lparr>ls_hdr := (ls_hdr (st\<lparr>ls_dcr := c\<lparr>dev := rewound (dev c), fpos := 0\<rparr>\<rparr>))
        \<lparr>vl_Id := bstrncpy 32 (bytes_of ''**error**'')\<rparr>\<rparr> = st2" by (simp add: st2_def)
    show ?thesis
      unfolding read_dev_volume_label_def Let_def if_P [OF r(1)] prod.case bool.case 1 2 3 ansi sum.case st3(1) option.case outcome.case st4_def [symmetric] chk
      using 6(1) 7(1) by simp
  qed
  then show ?thesis using 6(2) 7(2) st3(2) by (cases ?ask) auto
qed

text \<open>
  C16: A labelled volume is recognised under its name and under no other. Writing a label to an empty disk volume succeeds, and whoever opens the
  volume afterwards is told that it is the right one if it asks for that name, for any name or for none, and that it
  is another volume if it asks for another name.
\<close>

theorem labelled_volume_recognised:
  assumes "willing env" and "disk_env le" and "blank_disk st" and "VolName \<noteq> []" "0 \<notin> set VolName" "length VolName < MAX_NAME_LENGTH"
  shows "\<exists>st1. write_volume_label_to_dev le env forge_on job VolName PoolName no_prelabel st = Some (Ret (True, st1)) \<and>
     (\<forall>le' env' forge_on' st'. disk_reader le' st' \<longrightarrow> volume (ls_dcr st') = volume (ls_dcr st1) \<longrightarrow>
        (do_checksum (ls_dev st') \<longrightarrow> do_checksum (ls_dev st)) \<longrightarrow>
        (\<exists>st2. read_dev_volume_label le' env' forge_on' st' = Some (Ret
            (if asks_for (dcr_VolumeName (ls_dcr st')) (string_of VolName) then VOL_OK else VOL_NAME_ERROR, st2)) \<and>
          cstr (vl_VolumeName (ls_hdr st2)) = VolName))"
proof -
  obtain st1 v where w: "write_volume_label_to_dev le env forge_on job VolName PoolName no_prelabel st = Some (Ret (True, st1))"
      "volume_labelled (do_checksum (ls_dev st)) v (volume (ls_dcr st1))" "cstr (vl_VolumeName v) = VolName"
    using label_is_written [OF assms(1-3) assms(4-6), of forge_on job PoolName no_prelabel] by blast
  show ?thesis
  proof (rule exI [of _ st1], rule conjI [OF w(1)], intro allI impI)
    fix le' env' forge_on' st'
    assume a: "disk_reader le' st'" "volume (ls_dcr st') = volume (ls_dcr st1)" "do_checksum (ls_dev st') \<longrightarrow> do_checksum (ls_dev st)"
    obtain st2 where "read_dev_volume_label le' env' forge_on' st' = Some (Ret
        (if asks_for (dcr_VolumeName (ls_dcr st')) (string_of VolName) then VOL_OK else VOL_NAME_ERROR, st2))" "same_label v (ls_hdr st2)"
      using label_is_read [OF a(1) _ a(3), of v env' forge_on'] w(2,3) a(2) by auto
    then show "\<exists>st2. read_dev_volume_label le' env' forge_on' st' = Some (Ret
            (if asks_for (dcr_VolumeName (ls_dcr st')) (string_of VolName) then VOL_OK else VOL_NAME_ERROR, st2)) \<and>
          cstr (vl_VolumeName (ls_hdr st2)) = VolName"
      using w(3) by (auto simp: same_label_def)
  qed
qed

text \<open>A build and a device whose surroundings do nothing, an empty disk, and the same disk with a reader that asks for a name.\<close>

definition sample_label_env :: label_env where
  "sample_label_env =
     \<lparr>le_open = (\<lambda>_ c. (True, c)), le_truncate = (\<lambda>c. (True, c)), le_seek = (\<lambda>_. None), le_tape_rewind = (\<lambda>c. (True, c)), le_tape_worm = (\<lambda>_. False),
      le_read_ansi = (\<lambda>c. (VOL_NO_LABEL, c)), le_write_ansi = (\<lambda>c. (True, c)), le_reserve = (\<lambda>_ c. (True, c)), le_unused = (\<lambda>c. c),
      le_volume_info = (\<lambda>_ c. (True, c)), le_device_label_type = B_BACULA_LABEL, le_poll = False, le_ignore_label_errors = False,
      le_is_writing = False, le_file_alignment = 0, le_adata_size = 0, le_max_part_size = 0, le_media_type = bytes_of ''File'',
      le_hostname = None, le_my_name = bytes_of ''sd'', le_version = bytes_of ''15.0'', le_build_date = bytes_of ''2024''\<rparr>"

definition sample_label_state :: "byte list \<Rightarrow> string \<Rightarrow> label_state" where
  "sample_label_state vol want =
     \<lparr>ls_dcr = sample_dcr\<lparr>volume := vol, dcr_VolumeName := want\<rparr>, ls_hdr = sample_label, ls_block = new_block 2048 0 (\<lambda>n. replicate n 0), ls_errors = 0\<rparr>"

lemma sample_label_block:
  "block_wf (new_block 2048 0 (\<lambda>n. replicate n 0))" "buf_len (new_block 2048 0 (\<lambda>n. replicate n 0)) = 2048" "read_buffer (new_block 2048 0 (\<lambda>n. replicate n 0))"
proof -
  show "block_wf (new_block 2048 0 (\<lambda>n. replicate n 0))" by (rule conjunct1 [OF new_block_wf]) (simp_all add: MAX_BLOCK_LENGTH_def)
  show "buf_len (new_block 2048 0 (\<lambda>n. replicate n 0)) = 2048" "read_buffer (new_block 2048 0 (\<lambda>n. replicate n 0))"
    by (simp_all add: new_block_def empty_block_def Let_def read_buffer_def)
qed

lemma sample_label_disk: "disk_env sample_label_env" "blank_disk (sample_label_state [] want)" "disk_reader sample_label_env (sample_label_state vol want)"
proof -
  show "disk_env sample_label_env" by (simp add: disk_env_def sample_label_env_def bytes_of_def)
  show "blank_disk (sample_label_state [] want)"
    using sample_label_block sample_label_ok(1)
    by (simp add: blank_disk_def sample_label_state_def sample_dcr_def job_canceled_def job_canceled_status_def can_store_def flag_simps
        is_open_def is_tape_def zero_device_def zero_volcat_def set_append_def B_BACULA_LABEL_def)
  show "disk_reader sample_label_env (sample_label_state vol want)"
    using sample_label_block sample_label_ok(1)
    by (simp add: disk_reader_def sample_label_env_def sample_label_state_def sample_dcr_def job_canceled_def job_canceled_status_def
        is_open_def zero_device_def zero_volcat_def has_cap_def CAP_CHECKLABELS_def CAP_STREAM_def cap_defs mask_test bit_push_one B_BACULA_LABEL_def)
qed

theorem labelled_volume_recognised_witness:
  "\<exists>st1 st2 st3. write_volume_label_to_dev sample_label_env sample_env False sample_job (bytes_of ''Vol2'') (bytes_of ''Default'') False
       (sample_label_state [] ''Vol2'') = Some (Ret (True, st1)) \<and>
     read_dev_volume_label sample_label_env sample_env False (sample_label_state (volume (ls_dcr st1)) ''Vol2'') = Some (Ret (VOL_OK, st2)) \<and>
     read_dev_volume_label sample_label_env sample_env False (sample_label_state (volume (ls_dcr st1)) ''Vol3'') = Some (Ret (VOL_NAME_ERROR, st3))"
proof -
  let ?st = "sample_label_state [] ''Vol2''"
  have n: "bytes_of ''Vol2'' \<noteq> []" "0 \<notin> set (bytes_of ''Vol2'')" "length (bytes_of ''Vol2'') < MAX_NAME_LENGTH" "string_of (bytes_of ''Vol2'') = ''Vol2''"
    by code_simp+
  have s: "volume (ls_dcr (sample_label_state v w)) = v" "dcr_VolumeName (ls_dcr (sample_label_state v w)) = w"
      "ls_dev (sample_label_state v w) = dev sample_dcr" for v w
    by (simp_all add: sample_label_state_def)
  obtain st1 where w: "write_volume_label_to_dev sample_label_env sample_env False sample_job (bytes_of ''Vol2'') (bytes_of ''Default'') False ?st = Some (Ret (True, st1))"
    and r: "\<forall>le' env' forge_on' st'. disk_reader le' st' \<longrightarrow> volume (ls_dcr st') = volume (ls_dcr st1) \<longrightarrow>
        (do_checksum (ls_dev st') \<longrightarrow> do_checksum (ls_dev ?st)) \<longrightarrow>
        (\<exists>st2. read_dev_volume_label le' env' forge_on' st' = Some (Ret
            (if asks_for (dcr_VolumeName (ls_dcr st')) (string_of (bytes_of ''Vol2'')) then VOL_OK else VOL_NAME_ERROR, st2)) \<and>
          cstr (vl_VolumeName (ls_hdr st2)) = bytes_of ''Vol2'')"
    using labelled_volume_recognised [OF sample_env_willing sample_label_disk(1,2) n(1-3), of False sample_job "bytes_of ''Default''" False] by blast
  have rd: "\<exists>st2. read_dev_volume_label sample_label_env sample_env False (sample_label_state (volume (ls_dcr st1)) want) = Some (Ret
            (if asks_for want ''Vol2'' then VOL_OK else VOL_NAME_ERROR, st2))" for want
    using r [rule_format, OF sample_label_disk(3), of "volume (ls_dcr st1)" want sample_env False] by (auto simp: s n(4))
  show ?thesis using w rd [of "''Vol2''"] rd [of "''Vol3''"] by (auto simp: asks_for_def)
qed


end
