(* ===== verification/Attribs.thy ===== *)
theory Attribs
  imports Base64
begin

text \<open>
  \<^verbatim>\<open>findlib/attribs.c\<close>: the attributes of a file as text (\<open>encode_stat\<close>, \<open>decode_stat\<close>, \<open>decode_LinkFI\<close>).
  Text is a byte list that ends with a zero, and an access outside of it is \<open>None\<close>.
\<close>

section \<open>The stat packet\<close>

text \<open>\<open>struct stat\<close> with the widths of a 64-bit Linux host.\<close>

record stat_t =
  st_dev :: uint64_t
  st_ino :: uint64_t
  st_mode :: uint32_t
  st_nlink :: uint64_t
  st_uid :: uint32_t
  st_gid :: uint32_t
  st_rdev :: uint64_t
  st_size :: int64_t
  st_blksize :: int64_t
  st_blocks :: int64_t
  st_atime :: int64_t
  st_mtime :: int64_t
  st_ctime :: int64_t

text \<open>\<open>p += to_base64(v, p); *p++ = ' ';\<close> for each value.\<close>

fun put_fields :: "int64_t list \<Rightarrow> nat \<Rightarrow> byte list \<Rightarrow> (nat \<times> byte list) option" where
  "put_fields [] p buf = Some (p, buf)"
| "put_fields (v # vs) p buf = do {
     (n, buf) \<leftarrow> to_base64 v p buf;
     buf \<leftarrow> mem_write buf (p + n) [of_char CHR '' ''];
     put_fields vs (p + n + 1) buf
   }"

definition encode_stat :: "byte list \<Rightarrow> stat_t \<Rightarrow> int32_t \<Rightarrow> int32_t \<Rightarrow> byte list option" where
  "encode_stat buf statp LinkFI data_stream = do {
     (p, buf) \<leftarrow> put_fields
       [st_dev statp, st_ino statp, ucast (st_mode statp), st_nlink statp, ucast (st_uid statp), ucast (st_gid statp),
        st_rdev statp, st_size statp, st_blksize statp, st_blocks statp, st_atime statp, st_mtime statp, st_ctime statp,
        scast LinkFI, 0] 0 buf;
     (n, buf) \<leftarrow> to_base64 (scast data_stream) p buf;
     mem_write buf (p + n) [0]
   }"

text \<open>\<open>p += from_base64(&val, p);\<close>\<close>

definition get_field :: "nat \<Rightarrow> byte list \<Rightarrow> (int64_t \<times> nat) option" where
  "get_field p buf = map_option (\<lambda>(v, n). (v, p + n)) (from_base64 p buf)"

text \<open>\<open>*p == ' ' || (*p != 0 && *(p+1) == ' ')\<close>\<close>

definition more_fields :: "nat \<Rightarrow> byte list \<Rightarrow> bool option" where
  "more_fields p buf =
     (if length buf \<le> p then None
      else if buf ! p = of_char CHR '' '' then Some True
      else if buf ! p = 0 then Some False
      else if length buf \<le> p + 1 then None
      else Some (buf ! (p + 1) = of_char CHR '' ''))"

text \<open>\<open>decode_stat\<close> returns the packet, the \<open>LinkFI\<close> and the data stream.\<close>

definition decode_stat :: "byte list \<Rightarrow> (stat_t \<times> int32_t \<times> int32_t) option" where
  "decode_stat buf = do {
     (dev, p) \<leftarrow> get_field 0 buf;
     (ino, p) \<leftarrow> get_field (p + 1) buf;
     (mode, p) \<leftarrow> get_field (p + 1) buf;
     (nlink, p) \<leftarrow> get_field (p + 1) buf;
     (uid, p) \<leftarrow> get_field (p + 1) buf;
     (gid, p) \<leftarrow> get_field (p + 1) buf;
     (rdev, p) \<leftarrow> get_field (p + 1) buf;
     (size, p) \<leftarrow> get_field (p + 1) buf;
     (blksize, p) \<leftarrow> get_field (p + 1) buf;
     (blocks, p) \<leftarrow> get_field (p + 1) buf;
     (atime, p) \<leftarrow> get_field (p + 1) buf;
     (mtime, p) \<leftarrow> get_field (p + 1) buf;
     (ctime, p) \<leftarrow> get_field (p + 1) buf;
     let s = \<lparr>st_dev = dev, st_ino = ino, st_mode = ucast mode, st_nlink = nlink, st_uid = ucast uid, st_gid = ucast gid,
              st_rdev = rdev, st_size = size, st_blksize = blksize, st_blocks = blocks, st_atime = atime,
              st_mtime = mtime, st_ctime = ctime\<rparr>;
     more \<leftarrow> more_fields p buf;
     if \<not> more then Some (s, 0, 0)
     else do {
       (LinkFI, p) \<leftarrow> get_field (p + 1) buf;
       more \<leftarrow> more_fields p buf;
       (_, p) \<leftarrow> (if more then get_field (p + 1) buf else Some (0, p));
       more \<leftarrow> more_fields p buf;
       (data_stream, p) \<leftarrow> (if more then get_field (p + 1) buf else Some (0, p));
       Some (s, ucast LinkFI, ucast data_stream)
     }
   }"

text \<open>\<open>skip_nonspaces\<close> of \<^verbatim>\<open>lib/scan.c\<close>; \<open>B_ISSPACE\<close> is \<open>isspace\<close>.\<close>

definition is_space :: "byte \<Rightarrow> bool" where
  "is_space c \<longleftrightarrow> c = 32 \<or> (9 \<le> c \<and> c \<le> 13)"

function skip_nonspaces :: "nat \<Rightarrow> byte list \<Rightarrow> nat option" where
  "skip_nonspaces p buf =
     (if length buf \<le> p then None
      else if buf ! p \<noteq> 0 \<and> \<not> is_space (buf ! p) then skip_nonspaces (p + 1) buf
      else Some p)"
  by pat_completeness auto
termination by (relation "measure (\<lambda>(p, buf). length buf - p)") auto

declare skip_nonspaces.simps [simp del]

text \<open>\<open>skip_nonspaces(&p); p++;\<close> \<open>n\<close> times.\<close>

fun skip_fields :: "nat \<Rightarrow> nat \<Rightarrow> byte list \<Rightarrow> nat option" where
  "skip_fields 0 p buf = Some p"
| "skip_fields (Suc n) p buf = do { p \<leftarrow> skip_nonspaces p buf; skip_fields n (p + 1) buf }"

text \<open>\<open>decode_LinkFI\<close> returns the \<open>LinkFI\<close> and stores \<open>st_mode\<close>.\<close>

definition decode_LinkFI :: "byte list \<Rightarrow> (int32_t \<times> uint32_t) option" where
  "decode_LinkFI buf = do {
     p \<leftarrow> skip_fields 2 0 buf;
     (mode, p) \<leftarrow> get_field p buf;
     p \<leftarrow> skip_fields 9 (p + 1) buf;
     p \<leftarrow> skip_nonspaces p buf;
     more \<leftarrow> more_fields p buf;
     if more then do {
       (v, p) \<leftarrow> get_field (p + 1) buf;
       Some (ucast v, ucast mode)
     }
     else Some (0, ucast mode)
   }"

section \<open>The text of a packet\<close>

definition fields_text :: "int64_t list \<Rightarrow> byte list" where
  "fields_text vs = concat (map (\<lambda>v. text_of v @ [of_char CHR '' '']) vs)"

lemma fields_text_Cons: "fields_text (v # vs) = text_of v @ of_char CHR '' '' # fields_text vs"
  by (simp add: fields_text_def)

lemma fields_text_length: "length (fields_text vs) \<le> 13 * length vs"
proof (induction vs)
  case (Cons v vs)
  then show ?case using text_of_length [of v] by (simp add: fields_text_Cons)
qed (simp add: fields_text_def)

lemma put_fields_text:
  assumes "p + length (fields_text vs) \<le> length buf"
  shows "put_fields vs p buf = map_option (Pair (p + length (fields_text vs))) (mem_write buf p (fields_text vs))"
  using assms
proof (induction vs arbitrary: p buf)
  case Nil
  then show ?case by (simp add: fields_text_def)
next
  case (Cons v vs)
  let ?n = "length (text_of v)" and ?ft = "fields_text vs"
  have room: "p + ?n + 1 + length ?ft \<le> length buf" using Cons.prems by (simp add: fields_text_Cons)
  obtain b1 where b1: "mem_write buf p (text_of v @ [0]) = Some b1"
    using mem_write_SomeI [of p "text_of v @ [0]" buf] room by simp
  have b2: "mem_write b1 (p + ?n) [of_char CHR '' ''] = mem_write buf p (text_of v @ [of_char CHR '' ''])"
    using b1 room by (auto simp: mem_write_def split: if_splits)
  obtain b3 where b3: "mem_write buf p (text_of v @ [of_char CHR '' '']) = Some b3"
    using mem_write_SomeI [of p "text_of v @ [of_char CHR '' '']" buf] room by simp
  have "to_base64 v p buf = Some (?n, b1)" using to_base64_text [of p v buf] b1 room by simp
  then have "put_fields (v # vs) p buf = put_fields vs (p + ?n + 1) b3" using b2 b3 by simp
  also have "\<dots> = map_option (Pair (p + ?n + 1 + length ?ft)) (mem_write b3 (p + ?n + 1) ?ft)"
    using room mem_write_length [OF b3] by (intro Cons.IH) simp
  also have "mem_write b3 (p + ?n + 1) ?ft = mem_write buf p (fields_text (v # vs))"
    using mem_write_append [of buf p "text_of v @ [of_char CHR '' '']" ?ft] b3 by (simp add: fields_text_Cons)
  finally show ?case by (simp add: fields_text_Cons add.assoc)
qed

definition stat_fields :: "stat_t \<Rightarrow> int32_t \<Rightarrow> int64_t list" where
  "stat_fields s LinkFI =
     [st_dev s, st_ino s, ucast (st_mode s), st_nlink s, ucast (st_uid s), ucast (st_gid s),
      st_rdev s, st_size s, st_blksize s, st_blocks s, st_atime s, st_mtime s, st_ctime s, scast LinkFI, 0]"

lemma encode_stat_text:
  assumes "208 \<le> length buf"
  shows "encode_stat buf s LinkFI ds = mem_write buf 0 (fields_text (stat_fields s LinkFI) @ text_of (scast ds) @ [0])"
proof -
  let ?ft = "fields_text (stat_fields s LinkFI)" and ?t = "text_of (scast ds)"
  have room: "length ?ft + length ?t + 1 \<le> length buf"
    using assms fields_text_length [of "stat_fields s LinkFI"] text_of_length [of "scast ds"] by (simp add: stat_fields_def)
  obtain b1 where b1: "mem_write buf 0 ?ft = Some b1" using mem_write_SomeI [of 0 ?ft buf] room by simp
  obtain b2 where b2: "mem_write b1 (length ?ft) (?t @ [0]) = Some b2"
    using mem_write_SomeI [of "length ?ft" "?t @ [0]" b1] room mem_write_length [OF b1] by simp
  have "put_fields (stat_fields s LinkFI) 0 buf = Some (length ?ft, b1)"
    using put_fields_text [of 0 "stat_fields s LinkFI" buf] b1 room by simp
  moreover have "to_base64 (scast ds) (length ?ft) b1 = Some (length ?t, b2)"
    using to_base64_text [of "length ?ft" "scast ds" b1] b2 room mem_write_length [OF b1] by simp
  moreover have "mem_write b2 (length ?ft + length ?t) [0] = Some b2"
    using b2 by (auto simp: mem_write_def split: if_splits)
  moreover have "mem_write buf 0 (?ft @ ?t @ [0]) = Some b2" using mem_write_append [of buf 0 ?ft "?t @ [0]"] b1 b2 by simp
  ultimately show ?thesis unfolding encode_stat_def stat_fields_def by simp
qed

section \<open>Reading the text\<close>

lemma get_field_text:
  assumes "drop p buf = text_of v @ c # rest" and "c = 0 \<or> c = of_char CHR '' ''"
  shows "get_field p buf = Some (v, p + length (text_of v))"
  using from_base64_text [OF assms] by (simp add: get_field_def)

lemma read_field:
  assumes "drop p buf = fields_text (v # vs) @ rest"
  shows "get_field p buf = Some (v, p + length (text_of v))"
    and "drop (p + length (text_of v)) buf = of_char CHR '' '' # fields_text vs @ rest"
    and "drop (p + length (text_of v) + 1) buf = fields_text vs @ rest"
proof -
  have d: "drop p buf = text_of v @ of_char CHR '' '' # fields_text vs @ rest" using assms by (simp add: fields_text_Cons)
  then show "get_field p buf = Some (v, p + length (text_of v))" by (rule get_field_text) simp
  show "drop (p + length (text_of v)) buf = of_char CHR '' '' # fields_text vs @ rest"
    using arg_cong [OF d, of "drop (length (text_of v))"] by (simp add: add.commute)
  then show "drop (p + length (text_of v) + 1) buf = fields_text vs @ rest"
    using arg_cong [of _ _ "drop 1"] by (metis drop_drop drop0 drop_Suc_Cons One_nat_def add.commute)
qed

lemma more_fields_space: "drop p buf = of_char CHR '' '' # rest \<Longrightarrow> more_fields p buf = Some True"
  by (cases "p < length buf") (auto simp: more_fields_def Cons_nth_drop_Suc [symmetric])

lemma text_of_no_space: "list_all (\<lambda>c. c \<noteq> 0 \<and> \<not> is_space c) (text_of v)"
proof -
  have "list_all (\<lambda>c. c \<noteq> 0 \<and> \<not> is_space c) base64_digits" by (simp add: digits_numerals is_space_def)
  then have "digit w \<noteq> 0 \<and> \<not> is_space (digit w)" for w
    unfolding digit_def using and_63_less [of w] by (simp add: list_all_length digits_distinct(2))
  then have "list_all (\<lambda>c. c \<noteq> 0 \<and> \<not> is_space c) (digits_of w)" for w
    by (induction w rule: digits_of.induct) (subst digits_of.simps, simp)
  then show ?thesis by (simp add: text_of_def is_space_def)
qed

lemma skip_nonspaces_text:
  assumes "drop p buf = cs @ of_char CHR '' '' # rest" and "list_all (\<lambda>c. c \<noteq> 0 \<and> \<not> is_space c) cs"
  shows "skip_nonspaces p buf = Some (p + length cs)"
  using assms
proof (induction cs arbitrary: p)
  case Nil
  then show ?case
    by (cases "p < length buf") (auto simp: skip_nonspaces.simps [of p] Cons_nth_drop_Suc [symmetric] is_space_def)
next
  case (Cons c cs)
  then have "p < length buf" "buf ! p = c" "drop (p + 1) buf = cs @ of_char CHR '' '' # rest"
    by (cases "p < length buf"; auto simp: Cons_nth_drop_Suc [symmetric])+
  then show ?case using Cons.IH [of "p + 1"] Cons.prems(2) by (simp add: skip_nonspaces.simps [of p])
qed

lemma skip_field:
  assumes "drop p buf = fields_text (v # vs) @ rest"
  shows "skip_nonspaces p buf = Some (p + length (text_of v))"
  using skip_nonspaces_text [of p buf "text_of v", OF _ text_of_no_space] assms by (simp add: fields_text_Cons)

lemma skip_fields_text:
  assumes "drop p buf = fields_text (vs @ ws) @ rest"
  shows "skip_fields (length vs) p buf = Some (p + length (fields_text vs)) \<and> drop (p + length (fields_text vs)) buf = fields_text ws @ rest"
  using assms
proof (induction vs arbitrary: p)
  case (Cons v vs)
  then have d: "drop p buf = fields_text (v # (vs @ ws)) @ rest" by simp
  show ?case using Cons.IH [OF read_field(3) [OF d]] skip_field [OF d] by (simp add: fields_text_Cons add.assoc)
qed (simp add: fields_text_def)

lemma casts: "ucast (ucast x :: int64_t) = x" "ucast (scast x :: int64_t) = x" for x :: "32 word"
  by (rule bit_word_eqI; auto simp: bit_ucast_iff bit_word_scast_iff)+

lemma stat_text_decoded:
  assumes "buf = fields_text (stat_fields s LinkFI) @ text_of (scast ds) @ 0 # rest"
  shows "decode_stat buf = Some (s, LinkFI, ds)"
proof -
  have d0: "drop 0 buf = fields_text (stat_fields s LinkFI) @ text_of (scast ds) @ 0 # rest" using assms by simp
  note d1 = read_field [OF d0 [unfolded stat_fields_def]]
  note d2 = read_field [OF d1(3)]
  note d3 = read_field [OF d2(3)]
  note d4 = read_field [OF d3(3)]
  note d5 = read_field [OF d4(3)]
  note d6 = read_field [OF d5(3)]
  note d7 = read_field [OF d6(3)]
  note d8 = read_field [OF d7(3)]
  note d9 = read_field [OF d8(3)]
  note d10 = read_field [OF d9(3)]
  note d11 = read_field [OF d10(3)]
  note d12 = read_field [OF d11(3)]
  note d13 = read_field [OF d12(3)]
  note d14 = read_field [OF d13(3)]
  note d15 = read_field [OF d14(3)]
  note fields = d1(1) d2(1) d3(1) d4(1) d5(1) d6(1) d7(1) d8(1) d9(1) d10(1) d11(1) d12(1) d13(1) d14(1) d15(1)
  note more = more_fields_space [OF d13(2)] more_fields_space [OF d14(2)] more_fields_space [OF d15(2)]
  have "fields_text [] = []" by (simp add: fields_text_def)
  note d16 = get_field_text [OF d15(3) [unfolded this append_Nil] disjI1 [OF refl]]
  show ?thesis
    unfolding decode_stat_def
    by (simp only: fields more d16 Option.bind.simps prod.case Let_def if_True not_True_eq_False if_False)
      (simp add: casts)
qed

lemma LinkFI_decoded:
  assumes "buf = fields_text (stat_fields s LinkFI) @ text_of (scast ds) @ 0 # rest"
  shows "decode_LinkFI buf = Some (LinkFI, st_mode s)"
proof -
  let ?tl = "text_of (scast ds) @ 0 # rest"
  let ?a = "[st_dev s, st_ino s]" and ?m = "ucast (st_mode s) :: int64_t"
    and ?b = "[st_nlink s, ucast (st_uid s), ucast (st_gid s), st_rdev s, st_size s, st_blksize s, st_blocks s, st_atime s, st_mtime s]"
    and ?c = "[st_ctime s, scast LinkFI, 0]"
  have "drop 0 buf = fields_text (?a @ ?m # ?b @ ?c) @ ?tl" using assms by (simp add: stat_fields_def)
  from skip_fields_text [OF this] obtain p where p: "skip_fields 2 0 buf = Some p" "drop p buf = fields_text (?m # ?b @ ?c) @ ?tl"
    by (simp add: numeral_2_eq_2 del: skip_fields.simps)
  note mode = read_field [OF p(2)]
  from skip_fields_text [OF mode(3)] obtain q where q: "skip_fields 9 (p + length (text_of ?m) + 1) buf = Some q"
      "drop q buf = fields_text ?c @ ?tl"
    by (auto simp: numeral_eq_Suc simp del: skip_fields.simps)
  note ctime = read_field [OF q(2)]
  note link = read_field [OF ctime(3)]
  show ?thesis
    unfolding decode_LinkFI_def
    by (simp only: p(1) mode(1) q(1) skip_field [OF q(2)] more_fields_space [OF ctime(2)] link(1)
        Option.bind.simps prod.case if_True) (simp add: casts)
qed

text \<open>
  C14: The attributes of a file survive the text of the attribute record. In a buffer of 208 bytes
  \<open>encode_stat\<close> succeeds for every packet, \<open>LinkFI\<close> and data stream, \<open>decode_stat\<close> gets all of them back,
  and \<open>decode_LinkFI\<close>, which skips over most of the text, gets the same \<open>LinkFI\<close> and mode.
\<close>

theorem stat_roundtrip:
  assumes "208 \<le> length buf"
  shows "\<exists>buf'. encode_stat buf s LinkFI data_stream = Some buf' \<and> decode_stat buf' = Some (s, LinkFI, data_stream) \<and>
     decode_LinkFI buf' = Some (LinkFI, st_mode s)"
proof -
  let ?cs = "fields_text (stat_fields s LinkFI) @ text_of (scast data_stream) @ [0]"
  have room: "length ?cs \<le> length buf"
    using assms fields_text_length [of "stat_fields s LinkFI"] text_of_length [of "scast data_stream"]
    by (simp add: stat_fields_def)
  then obtain buf' where b: "encode_stat buf s LinkFI data_stream = Some buf'" "mem_write buf 0 ?cs = Some buf'"
    using encode_stat_text [OF assms] mem_write_SomeI [of 0 ?cs buf] by auto
  then have t: "buf' = fields_text (stat_fields s LinkFI) @ text_of (scast data_stream) @ 0 # drop (length ?cs) buf"
    using mem_write_SomeI [of 0 ?cs buf] room by simp
  show ?thesis using b(1) stat_text_decoded [OF t] LinkFI_decoded [OF t] by blast
qed

theorem stat_roundtrip_witness:
  "\<exists>buf'. encode_stat (replicate 300 7)
       \<lparr>st_dev = 2049, st_ino = 131074, st_mode = 33188, st_nlink = 1, st_uid = 1000, st_gid = 100, st_rdev = 0,
        st_size = 5000000000, st_blksize = 4096, st_blocks = 9765632, st_atime = 1700000000, st_mtime = - 5, st_ctime = 17\<rparr>
       3 2 = Some buf' \<and> decode_LinkFI buf' = Some (3, 33188)"
proof -
  have "208 \<le> length (replicate 300 (7 :: byte))" by simp
  from stat_roundtrip [OF this] show ?thesis by (metis stat_t.select_convs(3))
qed

section \<open>Damaged packets\<close>

text \<open>The spaces of a text from a position on.\<close>

definition spaces :: "nat \<Rightarrow> byte list \<Rightarrow> nat" where
  "spaces p buf = length (filter (\<lambda>c. c = of_char CHR '' '') (drop p buf))"

lemma from_loop_stops:
  assumes "from_loop p v buf = Some (w, q)"
  shows "p \<le> q \<and> q < length buf \<and> (buf ! q = 0 \<or> buf ! q = of_char CHR '' '')"
  using assms
proof (induction p v buf rule: from_loop.induct)
  case (1 p v buf)
  then show ?case
    by (cases "length buf \<le> p"; cases "buf ! p \<noteq> 0 \<and> buf ! p \<noteq> of_char CHR '' ''") (auto simp: from_loop.simps [of p v buf])
qed

lemma get_field_stops:
  assumes "get_field p buf = Some (v, q)"
  shows "p \<le> q \<and> q < length buf \<and> (buf ! q = 0 \<or> buf ! q = of_char CHR '' '')"
proof -
  obtain i w e where "i \<ge> p" "from_loop i 0 buf = Some (w, e)" "q = p + (e - p)"
    using assms that [of "p + 1"] that [of p]
    by (auto simp: get_field_def from_base64_def Let_def split: if_splits option.splits)
  then show ?thesis using from_loop_stops [of i 0 buf w e] by auto
qed

lemma field_takes_space:
  assumes "get_field p buf = Some (v, q)" and "get_field (q + 1) buf = Some w" and "buf = cs @ [0]" and "0 \<notin> set cs"
  shows "spaces (q + 1) buf < spaces p buf"
proof -
  obtain v' q' where "w = (v', q')" by (cases w)
  then have q: "q + 1 < length buf" using get_field_stops [of "q + 1" buf v' q'] assms(2) by simp
  then have "buf ! q \<noteq> 0" using assms(3,4) by (auto simp: nth_append in_set_conv_nth)
  then have sp: "buf ! q = of_char CHR '' ''" "p \<le> q" using get_field_stops [OF assms(1)] by auto
  have "drop p buf = take (q - p) (drop p buf) @ buf ! q # drop (q + 1) buf"
    using q sp(2) append_take_drop_id [of "q - p" "drop p buf"] by (simp add: Cons_nth_drop_Suc)
  from arg_cong [OF this, of "\<lambda>l. length (filter (\<lambda>c. c = of_char CHR '' '') l)"] show ?thesis
    using sp(1) by (simp add: spaces_def)
qed

lemma get_field_bindE:
  assumes "Option.bind (get_field p buf) (\<lambda>(v, q). f v q) = Some r"
  obtains v q where "get_field p buf = Some (v, q)" and "f v q = Some r"
  using assms by (cases "get_field p buf") auto

text \<open>
  \<open>decode_stat\<close> moves over the separator of a field without looking at it. A text with fewer than
  twelve separators, as it comes from a damaged record, makes it read behind the zero at the end.
\<close>

lemma decode_stat_overruns:
  assumes "0 \<notin> set cs" and "length (filter (\<lambda>c. c = of_char CHR '' '') cs) < 12"
  shows "decode_stat (cs @ [0]) = None"
proof (rule ccontr)
  let ?b = "cs @ [0]"
  assume "decode_stat ?b \<noteq> None"
  then obtain r where "decode_stat ?b = Some r" by blast
  then obtain v1 p1 v2 p2 v3 p3 v4 p4 v5 p5 v6 p6 v7 p7 v8 p8 v9 p9 v10 p10 v11 p11 v12 p12 v13 p13
    where g: "get_field 0 ?b = Some (v1, p1)" "get_field (p1 + 1) ?b = Some (v2, p2)"
      "get_field (p2 + 1) ?b = Some (v3, p3)" "get_field (p3 + 1) ?b = Some (v4, p4)"
      "get_field (p4 + 1) ?b = Some (v5, p5)" "get_field (p5 + 1) ?b = Some (v6, p6)"
      "get_field (p6 + 1) ?b = Some (v7, p7)" "get_field (p7 + 1) ?b = Some (v8, p8)"
      "get_field (p8 + 1) ?b = Some (v9, p9)" "get_field (p9 + 1) ?b = Some (v10, p10)"
      "get_field (p10 + 1) ?b = Some (v11, p11)" "get_field (p11 + 1) ?b = Some (v12, p12)"
      "get_field (p12 + 1) ?b = Some (v13, p13)"
    unfolding decode_stat_def by (elim get_field_bindE) (rule that; assumption)
  note step = field_takes_space [OF _ _ refl assms(1)]
  have "12 \<le> spaces 0 ?b"
    using step [OF g(1,2)] step [OF g(2,3)] step [OF g(3,4)] step [OF g(4,5)] step [OF g(5,6)] step [OF g(6,7)]
      step [OF g(7,8)] step [OF g(8,9)] step [OF g(9,10)] step [OF g(10,11)] step [OF g(11,12)] step [OF g(12,13)]
    by linarith
  then show False using assms(2) by (simp add: spaces_def)
qed

lemma decode_stat_overruns_example: "decode_stat (map of_char ''gB IAB IHk'' @ [0]) = None"
  by (rule decode_stat_overruns) simp_all

end
