(* ===== verification/Win32Filter.thy ===== *)
theory Win32Filter
  imports Prelude
begin

text \<open>
  \<^verbatim>\<open>findlib/win32filter.c\<close> and \<open>processWin32BackupAPIBlock\<close> of \<^verbatim>\<open>findlib/bfile.c\<close>: the data of a file that was
  saved by the Windows backup interface is a sequence of streams, each behind a header of twenty
  bytes and a name. The filter takes it in records that are cut anywhere and passes on the
  bytes of the data streams. The host is little-endian, like the headers.
\<close>

section \<open>The filter\<close>

definition WIN32_STREAM_HEADER_SIZE :: nat where "WIN32_STREAM_HEADER_SIZE = 20"
definition WIN32_BACKUP_DATA :: int32_t where "WIN32_BACKUP_DATA = 1"

text \<open>The header is the memory of a \<open>BWIN32_STREAM_ID\<close>.\<close>

record Win32Filter =
  wf_error :: bool
  initialized :: bool
  skip_size :: int
  data_size :: int
  header_pos :: nat
  header :: "byte list"

definition wf_init :: "byte list \<Rightarrow> Win32Filter" where
  "wf_init h = \<lparr>wf_error = False, initialized = False, skip_size = 0, data_size = 0, header_pos = 0, header = h\<rparr>"

definition dwStreamId :: "byte list \<Rightarrow> int32_t" where
  "dwStreamId h = of_le_bytes (take 4 h)"

definition stream_Size :: "byte list \<Rightarrow> int64_t" where
  "stream_Size h = of_le_bytes (take 8 (drop 8 h))"

definition dwStreamNameSize :: "byte list \<Rightarrow> int32_t" where
  "dwStreamNameSize h = of_le_bytes (take 4 (drop 16 h))"

text \<open>What the previous header told to skip.\<close>

definition skip_part :: "Win32Filter \<Rightarrow> byte list \<Rightarrow> Win32Filter \<times> byte list" where
  "skip_part f raw =
     (if 0 < skip_size f then
        (let size = min (int (length raw)) (skip_size f)
         in (f\<lparr>skip_size := skip_size f - size\<rparr>, drop (nat size) raw))
      else (f, raw))"

text \<open>The fields of a complete header; sizes are 64-bit integers and their sum wraps.\<close>

definition header_done :: "Win32Filter \<Rightarrow> Win32Filter" where
  "header_done f =
     (let h = header f in
      if sint (dwStreamNameSize h) < 0 \<or> sint (stream_Size h) < 0 then f\<lparr>wf_error := True\<rparr>
      else
        (let f = f\<lparr>header_pos := 0, skip_size := sint (dwStreamNameSize h)\<rparr>
         in if dwStreamId h = WIN32_BACKUP_DATA then f\<lparr>data_size := sint (stream_Size h)\<rparr>
            else f\<lparr>skip_size := sint (word_of_int (skip_size f + sint (stream_Size h)) :: int64_t)\<rparr>))"

definition header_part :: "Win32Filter \<Rightarrow> byte list \<Rightarrow> Win32Filter \<times> byte list" where
  "header_part f raw =
     (if data_size f = 0 \<and> skip_size f = 0 \<and> raw \<noteq> [] then
        (let size = min (WIN32_STREAM_HEADER_SIZE - header_pos f) (length raw);
             f = f\<lparr>header := take (header_pos f) (header f) @ take size raw @ drop (header_pos f + size) (header f),
                   header_pos := header_pos f + size\<rparr>
         in (if header_pos f = WIN32_STREAM_HEADER_SIZE then header_done f else f, drop size raw))
      else (f, raw))"

text \<open>
  The loop of \<open>have_data\<close>. The results are its result, the data that \<open>*raw\<close> points to, and what stands
  behind them in the record.
\<close>

partial_function (option) have_data_loop :: "Win32Filter \<Rightarrow> byte list \<Rightarrow> (bool \<times> Win32Filter \<times> byte list \<times> byte list) option" where
  "have_data_loop f raw =
     (if wf_error f then Some (False, f, [], [])
      else if raw = [] then Some (False, f, [], [])
      else case skip_part f raw of
        (f, raw) \<Rightarrow>
          (case header_part f raw of
             (f, raw) \<Rightarrow>
               if wf_error f then Some (False, f, [], [])
               else if 0 < data_size f \<and> skip_size f = 0 \<and> raw \<noteq> [] then
                 (let size = min (int (length raw)) (data_size f)
                  in Some (True, f\<lparr>data_size := data_size f - size\<rparr>, take (nat size) raw, drop (nat size) raw))
               else have_data_loop f raw))"

definition have_data :: "Win32Filter \<Rightarrow> byte list \<Rightarrow> (bool \<times> Win32Filter \<times> byte list \<times> byte list) option" where
  "have_data f raw = have_data_loop (f\<lparr>initialized := True\<rparr>) raw"

text \<open>\<open>processWin32BackupAPIBlock\<close>; \<open>wr\<close> is \<open>bwrite\<close> to the file \<open>out\<close>, \<open>None\<close> when it fails.\<close>

partial_function (option) processWin32BackupAPIBlock ::
    "('o \<Rightarrow> byte list \<Rightarrow> 'o option) \<Rightarrow> Win32Filter \<Rightarrow> byte list \<Rightarrow> 'o \<Rightarrow> (bool \<times> Win32Filter \<times> 'o) option" where
  "processWin32BackupAPIBlock wr f dat out =
     (if dat = [] then Some (True, f, out)
      else case have_data f dat of
        None \<Rightarrow> None
      | Some (found, f, use, rest) \<Rightarrow>
          if \<not> found then Some (True, f, out)
          else case wr out use of
            None \<Rightarrow> Some (False, f, out)
          | Some out \<Rightarrow> processWin32BackupAPIBlock wr f rest out)"

section \<open>One byte at a time\<close>

text \<open>A filter that takes single bytes: the next state, and the byte when it is passed on.\<close>

definition wf_step :: "Win32Filter \<Rightarrow> byte \<Rightarrow> Win32Filter \<times> byte list" where
  "wf_step f b =
     (if wf_error f then (f, [])
      else if 0 < skip_size f then (f\<lparr>skip_size := skip_size f - 1\<rparr>, [])
      else if 0 < data_size f then (f\<lparr>data_size := data_size f - 1\<rparr>, [b])
      else
        (let f = f\<lparr>header := (header f)[header_pos f := b], header_pos := header_pos f + 1\<rparr>
         in (if header_pos f = WIN32_STREAM_HEADER_SIZE then header_done f else f, [])))"

fun wf_run :: "Win32Filter \<Rightarrow> byte list \<Rightarrow> Win32Filter \<times> byte list" where
  "wf_run f [] = (f, [])"
| "wf_run f (b # bs) = (case wf_step f b of (f, d) \<Rightarrow> case wf_run f bs of (f, ds) \<Rightarrow> (f, d @ ds))"

lemma wf_run_append:
  "wf_run f (xs @ ys) = (case wf_run f xs of (f, d) \<Rightarrow> case wf_run f ys of (f, e) \<Rightarrow> (f, d @ e))"
  by (induction xs arbitrary: f) (auto split: prod.splits)

text \<open>A state that the filter cannot get stuck in.\<close>

definition wf_ok :: "Win32Filter \<Rightarrow> bool" where
  "wf_ok f \<longleftrightarrow> \<not> wf_error f \<and> 0 \<le> skip_size f \<and> 0 \<le> data_size f \<and> header_pos f < WIN32_STREAM_HEADER_SIZE \<and>
     length (header f) = WIN32_STREAM_HEADER_SIZE"

lemma run_skip: "\<not> wf_error f \<Longrightarrow> int (length bs) \<le> skip_size f \<Longrightarrow> wf_run f bs = (f\<lparr>skip_size := skip_size f - int (length bs)\<rparr>, [])"
  by (induction bs arbitrary: f) (simp_all add: wf_step_def)

lemma run_data:
  "\<not> wf_error f \<Longrightarrow> skip_size f = 0 \<Longrightarrow> int (length bs) \<le> data_size f \<Longrightarrow> wf_run f bs = (f\<lparr>data_size := data_size f - int (length bs)\<rparr>, bs)"
  by (induction bs arbitrary: f) (simp_all add: wf_step_def)

definition fill_header :: "Win32Filter \<Rightarrow> byte list \<Rightarrow> Win32Filter" where
  "fill_header f bs =
     f\<lparr>header := take (header_pos f) (header f) @ bs @ drop (header_pos f + length bs) (header f), header_pos := header_pos f + length bs\<rparr>"

lemma fill_header_Cons:
  assumes "header_pos f < length (header f)"
  shows "fill_header f (b # bs) = fill_header (f\<lparr>header := (header f)[header_pos f := b], header_pos := header_pos f + 1\<rparr>) bs"
  using assms by (simp add: fill_header_def upd_conv_take_nth_drop add.commute)

lemma fill_header_Nil: "fill_header f [] = f"
  by (simp add: fill_header_def)

lemma run_header:
  assumes "\<not> wf_error f" and "skip_size f = 0" and "data_size f = 0" and "length (header f) = WIN32_STREAM_HEADER_SIZE"
    and "header_pos f + length bs \<le> WIN32_STREAM_HEADER_SIZE" and "bs \<noteq> []"
  shows "wf_run f bs =
     (if header_pos f + length bs = WIN32_STREAM_HEADER_SIZE then header_done (fill_header f bs) else fill_header f bs, [])"
  using assms
proof (induction bs arbitrary: f)
  case (Cons b bs)
  let ?f = "f\<lparr>header := (header f)[header_pos f := b], header_pos := header_pos f + 1\<rparr>"
  have fill: "fill_header f (b # bs) = fill_header ?f bs" using Cons.prems by (intro fill_header_Cons) simp
  show ?case
  proof (cases bs)
    case Nil
    then show ?thesis using Cons.prems fill by (simp add: wf_step_def Let_def fill_header_Nil)
  next
    case (Cons c cs)
    then have "header_pos ?f \<noteq> WIN32_STREAM_HEADER_SIZE" using Cons.prems(5) by simp
    then have "wf_run f (b # bs) = wf_run ?f bs" using Cons.prems(1-3) by (simp add: wf_step_def Let_def split: prod.splits)
    then show ?thesis using Cons.IH [of ?f] Cons.prems fill local.Cons by simp
  qed
qed simp

section \<open>The filter takes bytes in bulk\<close>

definition run_ok :: "Win32Filter \<Rightarrow> byte list \<Rightarrow> bool" where
  "run_ok f raw \<longleftrightarrow> (\<forall>n. wf_ok (fst (wf_run f (take n raw))))"

lemma run_ok_now: "run_ok f raw \<Longrightarrow> wf_ok f"
  by (metis fst_conv run_ok_def take_0 wf_run.simps(1))

lemma run_ok_end: "run_ok f raw \<Longrightarrow> wf_run f raw = (f', d) \<Longrightarrow> wf_ok f'"
  by (metis fst_conv order_refl run_ok_def take_all)

lemma run_ok_drop:
  assumes "run_ok f raw" and "wf_run f (take k raw) = (f', d)"
  shows "run_ok f' (drop k raw)"
proof -
  have "wf_ok (fst (wf_run f' (take n (drop k raw))))" for n
  proof -
    have "fst (wf_run f (take (k + n) raw)) = fst (wf_run f' (take n (drop k raw)))"
      using assms(2) by (simp add: take_add wf_run_append split: prod.splits)
    then show ?thesis using assms(1) unfolding run_ok_def by metis
  qed
  then show ?thesis by (simp add: run_ok_def)
qed

lemma skip_part_run:
  assumes "wf_ok f" and "raw \<noteq> []"
  obtains s f' where "skip_part f raw = (f', drop s raw)" and "wf_run f (take s raw) = (f', [])"
    and "skip_size f' = 0 \<or> drop s raw = []" and "0 < skip_size f \<longleftrightarrow> 0 < s" and "data_size f' = data_size f"
    and "s \<le> length raw"
proof (cases "0 < skip_size f")
  case True
  define n where "n = nat (min (int (length raw)) (skip_size f))"
  have n: "int n = min (int (length raw)) (skip_size f)" "n \<le> length raw" "int n \<le> skip_size f" "0 < n" "length (take n raw) = n"
    using True assms(2) by (auto simp: n_def)
  show ?thesis
  proof (rule that [of "f\<lparr>skip_size := skip_size f - int n\<rparr>" n])
    show "skip_part f raw = (f\<lparr>skip_size := skip_size f - int n\<rparr>, drop n raw)"
      using True by (simp add: skip_part_def Let_def n(1) [symmetric])
    show "wf_run f (take n raw) = (f\<lparr>skip_size := skip_size f - int n\<rparr>, [])"
      using run_skip [of f "take n raw"] assms(1) n(3) unfolding n(5) by (simp add: wf_ok_def)
    show "skip_size (f\<lparr>skip_size := skip_size f - int n\<rparr>) = 0 \<or> drop n raw = []" using n(1) by (simp add: min_def split: if_splits)
  qed (use True n in simp_all)
next
  case False
  then show ?thesis using that [of f 0] assms(1) by (simp add: skip_part_def wf_ok_def)
qed

lemma header_part_run:
  assumes "wf_ok f" and "skip_size f = 0 \<or> raw = []"
  obtains h f' where "header_part f raw = (f', drop h raw)" and "wf_run f (take h raw) = (f', [])"
    and "raw \<noteq> [] \<and> data_size f = 0 \<longleftrightarrow> 0 < h" and "h \<le> length raw"
proof (cases "data_size f = 0 \<and> raw \<noteq> []")
  case True
  define h where "h = min (WIN32_STREAM_HEADER_SIZE - header_pos f) (length raw)"
  have h: "0 < h" "length (take h raw) = h" "header_pos f + h \<le> WIN32_STREAM_HEADER_SIZE" "h \<le> length raw"
    using assms(1) True by (auto simp: wf_ok_def h_def)
  have skip: "skip_size f = 0" using assms(2) True by blast
  define g where "g = fill_header f (take h raw)"
  have g: "header_pos g = header_pos f + h"
    "g = f\<lparr>header := take (header_pos f) (header f) @ take h raw @ drop (header_pos f + h) (header f), header_pos := header_pos f + h\<rparr>"
    unfolding g_def fill_header_def h(2) by simp_all
  let ?f' = "if header_pos g = WIN32_STREAM_HEADER_SIZE then header_done g else g"
  show ?thesis
  proof (rule that [of ?f' h])
    have "take h raw \<noteq> []" using h(1,2) by auto
    then show "wf_run f (take h raw) = (?f', [])"
      using run_header [of f "take h raw"] assms(1) True skip h(3) unfolding g(1) h(2) g_def [symmetric] by (simp add: wf_ok_def)
    show "header_part f raw = (?f', drop h raw)"
      unfolding header_part_def Let_def h_def [symmetric] g(2) [symmetric] using True skip by simp
  qed (use True h in simp_all)
next
  case False
  then show ?thesis using that [of f 0] assms by (auto simp: header_part_def)
qed

lemma have_data_run:
  assumes "run_ok f raw"
  shows "\<exists>found f' d rest. have_data_loop f raw = Some (found, f', d, rest) \<and>
     (if found then \<exists>k. k \<le> length raw \<and> rest = drop k raw \<and> 0 < k \<and> wf_run f (take k raw) = (f', d)
      else wf_run f raw = (f', []))"
  using assms
proof (induction raw arbitrary: f rule: length_induct)
  case (1 raw)
  show ?case
  proof (cases "raw = []")
    case True
    then show ?thesis by (auto simp: have_data_loop.simps [of f])
  next
    case False
    have ok: "wf_ok f" using 1(2) by (rule run_ok_now)
    obtain s f1 where s: "skip_part f raw = (f1, drop s raw)" "wf_run f (take s raw) = (f1, [])"
        "skip_size f1 = 0 \<or> drop s raw = []" "0 < skip_size f \<longleftrightarrow> 0 < s" "data_size f1 = data_size f" "s \<le> length raw"
      by (rule skip_part_run [OF ok False])
    have ok1: "run_ok f1 (drop s raw)" by (rule run_ok_drop [OF 1(2) s(2)])
    obtain h f2 where h: "header_part f1 (drop s raw) = (f2, drop h (drop s raw))" "wf_run f1 (take h (drop s raw)) = (f2, [])"
        "drop s raw \<noteq> [] \<and> data_size f1 = 0 \<longleftrightarrow> 0 < h" "h \<le> length (drop s raw)"
      by (rule header_part_run [OF run_ok_now [OF ok1] s(3)])
    let ?k = "s + h" and ?raw = "drop (s + h) raw"
    have ok2: "run_ok f2 ?raw" using run_ok_drop [OF ok1 h(2)] by (simp add: add.commute)
    have run: "wf_run f (take ?k raw) = (f2, [])" using s(2) h(2) by (simp add: take_add wf_run_append)
    have k: "?k \<le> length raw" using h(4) s(6) by simp
    have unf: "have_data_loop f raw =
       (if 0 < data_size f2 \<and> skip_size f2 = 0 \<and> ?raw \<noteq> [] then
          (let size = min (int (length ?raw)) (data_size f2)
           in Some (True, f2\<lparr>data_size := data_size f2 - size\<rparr>, take (nat size) ?raw, drop (nat size) ?raw))
        else have_data_loop f2 ?raw)"
    proof -
      have e: "\<not> wf_error f" "\<not> wf_error f2" "drop h (drop s raw) = ?raw"
        using ok run_ok_now [OF ok2] by (simp_all add: wf_ok_def add.commute)
      show ?thesis
        by (subst have_data_loop.simps) (simp only: e(1,2) False s(1) h(1) prod.case if_False e(3))
    qed
    show ?thesis
    proof (cases "0 < data_size f2 \<and> skip_size f2 = 0 \<and> ?raw \<noteq> []")
      case True
      let ?n = "nat (min (int (length ?raw)) (data_size f2))"
      have n: "?n \<le> length ?raw" "0 < ?n" "int ?n \<le> data_size f2" "int ?n = min (int (length ?raw)) (data_size f2)" using True by auto
      have "wf_run f2 (take ?n ?raw) = (f2\<lparr>data_size := data_size f2 - int ?n\<rparr>, take ?n ?raw)"
        using run_data [of f2 "take ?n ?raw"] True n run_ok_now [OF ok2] by (simp add: wf_ok_def)
      then have "wf_run f (take (?k + ?n) raw) = (f2\<lparr>data_size := data_size f2 - int ?n\<rparr>, take ?n ?raw)"
        using run by (simp add: take_add [of ?k] wf_run_append)
      moreover have "have_data_loop f raw = Some (True, f2\<lparr>data_size := data_size f2 - int ?n\<rparr>, take ?n ?raw, drop (?k + ?n) raw)"
        using unf True n(4) by (simp add: Let_def add.commute)
      ultimately show ?thesis using n(1,2) k by (intro exI conjI) (auto intro!: exI [of _ "?k + ?n"])
    next
      case F: False
      have "length ?raw < length raw"
      proof (cases "s = 0 \<and> h = 0")
        case True
        then show ?thesis using F s h run_ok_now [OF ok2] False by (auto simp: wf_ok_def)
      qed (use k False in auto)
      then obtain found f' d rest where r: "have_data_loop f2 ?raw = Some (found, f', d, rest)"
          "if found then \<exists>k. k \<le> length ?raw \<and> rest = drop k ?raw \<and> 0 < k \<and> wf_run f2 (take k ?raw) = (f', d)
           else wf_run f2 ?raw = (f', [])"
        using 1(1) ok2 by metis
      have loop: "have_data_loop f raw = Some (found, f', d, rest)" using unf [unfolded if_not_P [OF F]] r(1) by simp
      show ?thesis
      proof (cases found)
        case True
        then obtain j where j: "j \<le> length ?raw" "rest = drop j ?raw" "0 < j" "wf_run f2 (take j ?raw) = (f', d)" using r(2) by auto
        have "wf_run f (take (?k + j) raw) = (f', d)" unfolding take_add [of ?k j] using run j(4) by (simp add: wf_run_append)
        then have "?k + j \<le> length raw \<and> rest = drop (?k + j) raw \<and> 0 < ?k + j \<and> wf_run f (take (?k + j) raw) = (f', d)"
          using j(1-3) k by (simp add: add.commute)
        then show ?thesis using loop True by auto
      next
        case False
        have "wf_run f raw = wf_run f (take ?k raw @ ?raw)" by simp
        then show ?thesis using loop False r(2) run by (auto simp: wf_run_append simp del: append_take_drop_id)
      qed
    qed
  qed
qed

section \<open>Records cut anywhere\<close>

lemma wf_step_initialized:
  "wf_step (f\<lparr>initialized := x\<rparr>) b = (case wf_step f b of (f, d) \<Rightarrow> (f\<lparr>initialized := x\<rparr>, d))"
  by (simp add: wf_step_def header_done_def Let_def)

lemma wf_run_initialized:
  "wf_run (f\<lparr>initialized := x\<rparr>) bs = (case wf_run f bs of (f, d) \<Rightarrow> (f\<lparr>initialized := x\<rparr>, d))"
  by (induction bs arbitrary: f) (simp_all add: wf_step_initialized split: prod.splits)

lemma run_ok_initialized: "run_ok f bs \<Longrightarrow> run_ok (f\<lparr>initialized := x\<rparr>) bs"
  by (simp add: run_ok_def wf_run_initialized wf_ok_def case_prod_beta)

text \<open>\<open>processWin32BackupAPIBlock\<close> takes a record as the bytewise filter does.\<close>

lemma process_run:
  assumes "run_ok f raw"
  shows "\<exists>x f' d. wf_run f raw = (f', d) \<and>
     processWin32BackupAPIBlock (\<lambda>out d. Some (out @ d)) f raw out = Some (True, f'\<lparr>initialized := x\<rparr>, out @ d)"
  using assms
proof (induction raw arbitrary: f out rule: length_induct)
  case (1 raw)
  let ?wr = "\<lambda>out d. Some (out @ d) :: byte list option"
  show ?case
  proof (cases "raw = []")
    case True
    then show ?thesis by (auto simp: processWin32BackupAPIBlock.simps [of _ f] intro: exI [of _ "initialized f"])
  next
    case False
    let ?f = "f\<lparr>initialized := True\<rparr>"
    obtain found f1 d1 rest where h: "have_data f raw = Some (found, f1, d1, rest)"
        "if found then \<exists>k. k \<le> length raw \<and> rest = drop k raw \<and> 0 < k \<and> wf_run ?f (take k raw) = (f1, d1)
         else wf_run ?f raw = (f1, [])"
      using have_data_run [OF run_ok_initialized [OF 1(2)]] unfolding have_data_def by blast
    show ?thesis
    proof (cases found)
      case True
      then obtain k where k: "k \<le> length raw" "rest = drop k raw" "0 < k" "wf_run ?f (take k raw) = (f1, d1)" using h(2) by auto
      have "length rest < length raw" using k(1-3) False by simp
      moreover have "run_ok f1 rest" using run_ok_drop [OF run_ok_initialized [OF 1(2)] k(4)] k(2) by simp
      ultimately obtain x f' d where r: "wf_run f1 rest = (f', d)"
          "processWin32BackupAPIBlock ?wr f1 rest (out @ d1) = Some (True, f'\<lparr>initialized := x\<rparr>, (out @ d1) @ d)"
        using 1(1) by blast
      have whole: "wf_run ?f raw = (f', d1 @ d)"
        using wf_run_append [of ?f "take k raw" "drop k raw"] k(2,4) r(1) by simp
      obtain g e where g: "wf_run f raw = (g, e)" by (cases "wf_run f raw")
      then have "f' = g\<lparr>initialized := True\<rparr>" "e = d1 @ d" using whole by (simp_all add: wf_run_initialized)
      moreover have "processWin32BackupAPIBlock ?wr f raw out = Some (True, f'\<lparr>initialized := x\<rparr>, out @ d1 @ d)"
        using r(2) h(1) True False by (simp add: processWin32BackupAPIBlock.simps [of _ f])
      ultimately show ?thesis using g by (intro exI [of _ x] exI [of _ g] exI [of _ e]) simp
    next
      case nf: False
      obtain g e where g: "wf_run f raw = (g, e)" by (cases "wf_run f raw")
      then have "f1 = g\<lparr>initialized := True\<rparr>" "e = []" using h(2) nf by (auto simp: wf_run_initialized)
      then show ?thesis
        using g h(1) nf False by (intro exI [of _ True] exI [of _ g] exI [of _ e]) (simp add: processWin32BackupAPIBlock.simps [of _ f])
    qed
  qed
qed

text \<open>The records of a file, one after the other.\<close>

fun process_records :: "Win32Filter \<Rightarrow> byte list list \<Rightarrow> byte list \<Rightarrow> (Win32Filter \<times> byte list) option" where
  "process_records f [] out = Some (f, out)"
| "process_records f (r # rs) out =
     (case processWin32BackupAPIBlock (\<lambda>out d. Some (out @ d)) f r out of
        Some (True, f, out) \<Rightarrow> process_records f rs out
      | _ \<Rightarrow> None)"

lemma process_records_run:
  assumes "run_ok f (concat rs)"
  shows "\<exists>x f' d. wf_run f (concat rs) = (f', d) \<and> process_records f rs out = Some (f'\<lparr>initialized := x\<rparr>, out @ d)"
  using assms
proof (induction rs arbitrary: f out)
  case Nil
  then show ?case by (auto intro: exI [of _ "initialized f"])
next
  case (Cons r rs)
  have run: "run_ok f (r @ concat rs)" using Cons.prems by simp
  have "run_ok f r" using run unfolding run_ok_def by (metis (no_types, opaque_lifting) append.right_neutral diff_is_0_eq' nle_le take0 take_all take_append)
  then obtain x g d where g: "wf_run f r = (g, d)"
      "processWin32BackupAPIBlock (\<lambda>out d. Some (out @ d)) f r out = Some (True, g\<lparr>initialized := x\<rparr>, out @ d)"
    using process_run by blast
  have "run_ok g (concat rs)" using run_ok_drop [OF run, of "length r"] g(1) by simp
  from Cons.IH [OF run_ok_initialized [OF this], of x "out @ d"] obtain y f' e where
      "wf_run (g\<lparr>initialized := x\<rparr>) (concat rs) = (f', e)" "process_records (g\<lparr>initialized := x\<rparr>) rs (out @ d) = Some (f'\<lparr>initialized := y\<rparr>, out @ d @ e)"
    by auto
  moreover obtain g' e' where "wf_run g (concat rs) = (g', e')" by (cases "wf_run g (concat rs)")
  ultimately show ?case
    using g by (intro exI [of _ y] exI [of _ g'] exI [of _ "d @ e'"]) (auto simp: wf_run_append wf_run_initialized)
qed

section \<open>Well-formed streams\<close>

record bstream =
  bs_id :: int32_t
  bs_attr :: int32_t
  bs_name :: "byte list"
  bs_data :: "byte list"

definition stream_header :: "bstream \<Rightarrow> byte list" where
  "stream_header b =
     le_bytes 4 (bs_id b) @ le_bytes 4 (bs_attr b) @ le_bytes 8 (of_nat (length (bs_data b)) :: int64_t) @
     le_bytes 4 (of_nat (length (bs_name b)) :: int32_t)"

definition stream_bytes :: "bstream \<Rightarrow> byte list" where
  "stream_bytes b = stream_header b @ bs_name b @ bs_data b"

definition stream_content :: "bstream \<Rightarrow> byte list" where
  "stream_content b = (if bs_id b = WIN32_BACKUP_DATA then bs_data b else [])"

definition stream_fits :: "bstream \<Rightarrow> bool" where
  "stream_fits b \<longleftrightarrow> length (bs_name b) < 2 ^ 31 \<and> length (bs_name b) + length (bs_data b) < 2 ^ 63"

text \<open>The filter in front of a header.\<close>

definition at_header :: "Win32Filter \<Rightarrow> bool" where
  "at_header f \<longleftrightarrow> wf_ok f \<and> skip_size f = 0 \<and> data_size f = 0 \<and> header_pos f = 0"

lemma run_ok_append:
  assumes "run_ok f xs" and "wf_run f xs = (f', d)" and "run_ok f' ys"
  shows "run_ok f (xs @ ys)"
  unfolding run_ok_def
proof
  fix n
  show "wf_ok (fst (wf_run f (take n (xs @ ys))))"
  proof (cases "n \<le> length xs")
    case True
    then show ?thesis using assms(1) by (simp add: run_ok_def)
  next
    case False
    then have "fst (wf_run f (take n (xs @ ys))) = fst (wf_run f' (take (n - length xs) ys))"
      using assms(2) by (simp add: wf_run_append case_prod_beta)
    then show ?thesis using assms(3) unfolding run_ok_def by metis
  qed
qed

lemma run_ok_skip: "wf_ok f \<Longrightarrow> int (length bs) \<le> skip_size f \<Longrightarrow> run_ok f bs"
  unfolding run_ok_def using run_skip [of f] by (auto simp: wf_ok_def)

lemma run_ok_data: "wf_ok f \<Longrightarrow> skip_size f = 0 \<Longrightarrow> int (length bs) \<le> data_size f \<Longrightarrow> run_ok f bs"
  unfolding run_ok_def using run_data [of f] by (auto simp: wf_ok_def)

lemma signed_length:
  "n < 2 ^ 31 \<Longrightarrow> sint (of_nat n :: int32_t) = int n" "n < 2 ^ 63 \<Longrightarrow> sint (of_nat n :: int64_t) = int n"
  by (simp_all add: signed_of_nat signed_take_bit_int_eq_self)

lemma header_fields:
  assumes "stream_fits b"
  shows "length (stream_header b) = WIN32_STREAM_HEADER_SIZE" and "dwStreamId (stream_header b) = bs_id b"
    and "sint (stream_Size (stream_header b)) = int (length (bs_data b))"
    and "sint (dwStreamNameSize (stream_header b)) = int (length (bs_name b))"
  using assms signed_length
  by (simp_all add: stream_header_def WIN32_STREAM_HEADER_SIZE_def dwStreamId_def stream_Size_def dwStreamNameSize_def
      of_le_bytes_le_bytes stream_fits_def)

lemma run_stream_header:
  assumes "at_header f" and "stream_fits b"
  shows "run_ok f (stream_header b)" and "\<exists>f'. wf_run f (stream_header b) = (f', []) \<and> wf_ok f' \<and> header_pos f' = 0 \<and>
     skip_size f' = int (length (bs_name b)) + (if bs_id b = WIN32_BACKUP_DATA then 0 else int (length (bs_data b))) \<and>
     data_size f' = (if bs_id b = WIN32_BACKUP_DATA then int (length (bs_data b)) else 0)"
proof -
  let ?h = "stream_header b"
  note h = header_fields [OF assms(2)]
  have f: "\<not> wf_error f" "skip_size f = 0" "data_size f = 0" "header_pos f = 0" "length (header f) = WIN32_STREAM_HEADER_SIZE"
    using assms(1) by (auto simp: at_header_def wf_ok_def)
  have ne: "?h \<noteq> []" using h(1) by (auto simp: WIN32_STREAM_HEADER_SIZE_def)
  have full: "fill_header f ?h = f\<lparr>header := ?h, header_pos := WIN32_STREAM_HEADER_SIZE\<rparr>" using f h(1) by (simp add: fill_header_def)
  have sum: "sint (word_of_int (int (length (bs_name b)) + int (length (bs_data b))) :: int64_t) = int (length (bs_name b)) + int (length (bs_data b))"
    using signed_length(2) [of "length (bs_name b) + length (bs_data b)"] assms(2) by (simp add: stream_fits_def)
  have run: "wf_run f ?h = (header_done (fill_header f ?h), [])" using run_header [of f ?h] f h(1) ne by simp
  show res: "\<exists>f'. wf_run f ?h = (f', []) \<and> wf_ok f' \<and> header_pos f' = 0 \<and>
     skip_size f' = int (length (bs_name b)) + (if bs_id b = WIN32_BACKUP_DATA then 0 else int (length (bs_data b))) \<and>
     data_size f' = (if bs_id b = WIN32_BACKUP_DATA then int (length (bs_data b)) else 0)"
    unfolding run full using f h sum by (simp add: header_done_def Let_def wf_ok_def WIN32_STREAM_HEADER_SIZE_def)
  show "run_ok f ?h"
    unfolding run_ok_def
  proof
    fix n
    consider "n = 0" | "0 < n" "n < WIN32_STREAM_HEADER_SIZE" | "WIN32_STREAM_HEADER_SIZE \<le> n" by linarith
    then show "wf_ok (fst (wf_run f (take n ?h)))"
    proof cases
      case 1
      then show ?thesis using assms(1) by (simp add: at_header_def)
    next
      case 2
      then have "wf_run f (take n ?h) = (fill_header f (take n ?h), [])" using run_header [of f "take n ?h"] f h(1) ne by simp
      then show ?thesis using 2 f h(1) by (simp add: wf_ok_def fill_header_def)
    next
      case 3
      then show ?thesis using res h(1) by auto
    qed
  qed
qed

lemma run_stream:
  assumes "at_header f" and "stream_fits b"
  shows "run_ok f (stream_bytes b) \<and> (\<exists>f'. wf_run f (stream_bytes b) = (f', stream_content b) \<and> at_header f')"
proof -
  obtain f1 where f1: "wf_run f (stream_header b) = (f1, [])" "wf_ok f1" "header_pos f1 = 0"
      "skip_size f1 = int (length (bs_name b)) + (if bs_id b = WIN32_BACKUP_DATA then 0 else int (length (bs_data b)))"
      "data_size f1 = (if bs_id b = WIN32_BACKUP_DATA then int (length (bs_data b)) else 0)"
    using run_stream_header(2) [OF assms] by blast
  have "run_ok f1 (bs_name b @ bs_data b) \<and> (\<exists>f'. wf_run f1 (bs_name b @ bs_data b) = (f', stream_content b) \<and> at_header f')"
  proof (cases "bs_id b = WIN32_BACKUP_DATA")
    case True
    let ?f2 = "f1\<lparr>skip_size := 0\<rparr>"
    have r1: "wf_run f1 (bs_name b) = (?f2, [])" using run_skip [of f1 "bs_name b"] f1 True by (simp add: wf_ok_def)
    have r2: "wf_run ?f2 (bs_data b) = (?f2\<lparr>data_size := 0\<rparr>, bs_data b)" using run_data [of ?f2 "bs_data b"] f1 True by (simp add: wf_ok_def)
    have "run_ok f1 (bs_name b)" using run_ok_skip f1 True by simp
    moreover have "run_ok ?f2 (bs_data b)" using run_ok_data [of ?f2 "bs_data b"] f1 True by (simp add: wf_ok_def)
    ultimately have "run_ok f1 (bs_name b @ bs_data b)" using run_ok_append [OF _ r1] by blast
    then show ?thesis using r1 r2 f1 True by (simp add: wf_run_append at_header_def wf_ok_def stream_content_def)
  next
    case False
    have "wf_run f1 (bs_name b @ bs_data b) = (f1\<lparr>skip_size := 0\<rparr>, [])"
      using run_skip [of f1 "bs_name b @ bs_data b"] f1 False by (simp add: wf_ok_def)
    then show ?thesis using run_ok_skip [OF f1(2), of "bs_name b @ bs_data b"] f1 False
      by (simp add: at_header_def wf_ok_def stream_content_def)
  qed
  then show ?thesis
    using run_ok_append [OF run_stream_header(1) [OF assms] f1(1)] f1(1) by (auto simp: stream_bytes_def wf_run_append)
qed

lemma run_streams:
  assumes "at_header f" and "list_all stream_fits ss"
  shows "run_ok f (concat (map stream_bytes ss)) \<and>
     (\<exists>f'. wf_run f (concat (map stream_bytes ss)) = (f', concat (map stream_content ss)) \<and> at_header f')"
  using assms
proof (induction ss arbitrary: f)
  case Nil
  then show ?case by (simp add: run_ok_def at_header_def)
next
  case (Cons b ss)
  then obtain f1 where b: "run_ok f (stream_bytes b)" "wf_run f (stream_bytes b) = (f1, stream_content b)" "at_header f1"
    using run_stream by fastforce
  then obtain f' where "run_ok f1 (concat (map stream_bytes ss))"
      "wf_run f1 (concat (map stream_bytes ss)) = (f', concat (map stream_content ss))" "at_header f'"
    using Cons.IH [of f1] Cons.prems(2) by auto
  then show ?case using run_ok_append [OF b(1,2)] b(2) by (simp add: wf_run_append)
qed

text \<open>
  C22: However the saved data of a file are cut into records, even in the middle of a header, the filter
  passes on exactly the bytes of the data streams, in order, and stands in front of a header at
  the end. All other streams and the names are dropped, and every call returns.
\<close>

theorem win32_filter_any_cut:
  assumes "list_all stream_fits ss" and "concat rs = concat (map stream_bytes ss)" and "length h = WIN32_STREAM_HEADER_SIZE"
  shows "\<exists>f'. process_records (wf_init h) rs [] = Some (f', concat (map stream_content ss)) \<and> at_header f'"
proof -
  have "at_header (wf_init h)" using assms(3) by (simp add: at_header_def wf_ok_def wf_init_def WIN32_STREAM_HEADER_SIZE_def)
  then obtain f' where f': "run_ok (wf_init h) (concat rs)" "wf_run (wf_init h) (concat rs) = (f', concat (map stream_content ss))" "at_header f'"
    using run_streams [OF _ assms(1)] unfolding assms(2) by blast
  then obtain x where "process_records (wf_init h) rs [] = Some (f'\<lparr>initialized := x\<rparr>, concat (map stream_content ss))"
    using process_records_run [OF f'(1), of "[]"] by auto
  then show ?thesis using f'(3) by (auto simp: at_header_def wf_ok_def)
qed

theorem win32_filter_any_cut_witness:
  "\<exists>f'. process_records (wf_init (replicate 20 0))
       [[3, 0, 0, 0, 0, 0], [0, 0, 2, 0, 0, 0, 0, 0, 0, 0, 0, 0, 0, 0, 9, 9, 1, 0],
        [0, 0, 0, 0, 0, 0, 3, 0, 0, 0, 0, 0, 0, 0, 1, 0, 0, 0, 77, 5, 6], [7]] [] = Some (f', [5, 6, 7]) \<and> at_header f'"
proof -
  let ?a = "\<lparr>bs_id = 3, bs_attr = 0, bs_name = [], bs_data = [9, 9]\<rparr>"
    and ?b = "\<lparr>bs_id = 1, bs_attr = 0, bs_name = [77], bs_data = [5, 6, 7]\<rparr>"
  have "list_all stream_fits [?a, ?b]" by (simp add: stream_fits_def)
  moreover have "concat [[3, 0, 0, 0, 0, 0], [0, 0, 2, 0, 0, 0, 0, 0, 0, 0, 0, 0, 0, 0, 9, 9, 1, 0],
        [0, 0, 0, 0, 0, 0, 3, 0, 0, 0, 0, 0, 0, 0, 1, 0, 0, 0, 77, 5, 6], [7]] = concat (map stream_bytes [?a, ?b])"
    by (simp add: stream_bytes_def stream_header_def le_bytes_def upt_rec)
  moreover have "length (replicate 20 (0 :: byte)) = WIN32_STREAM_HEADER_SIZE" by (simp add: WIN32_STREAM_HEADER_SIZE_def)
  moreover have "concat (map stream_content [?a, ?b]) = [5, 6, 7]" by (simp add: stream_content_def WIN32_BACKUP_DATA_def)
  ultimately show ?thesis using win32_filter_any_cut by metis
qed

section \<open>A header that the filter does not survive\<close>

lemma stuck_never_returns:
  assumes "have_data_loop f raw = Some r"
  shows "\<not> (\<not> wf_error f \<and> skip_size f < 0 \<and> data_size f = 0 \<and> raw \<noteq> [])"
proof (rule have_data_loop.raw_induct [OF _ assms, where P = "\<lambda>f raw r. \<not> (\<not> wf_error f \<and> skip_size f < 0 \<and> data_size f = 0 \<and> raw \<noteq> [])"])
  fix loop f raw r
  assume ih: "\<And>f raw r. loop f raw = Some r \<Longrightarrow> \<not> (\<not> wf_error f \<and> skip_size f < 0 \<and> data_size f = 0 \<and> raw \<noteq> [])"
    and eq: "(if wf_error f then Some (False, f, [], [])
      else if raw = [] then Some (False, f, [], [])
      else case skip_part f raw of
        (f, raw) \<Rightarrow>
          (case header_part f raw of
             (f, raw) \<Rightarrow>
               if wf_error f then Some (False, f, [], [])
               else if 0 < data_size f \<and> skip_size f = 0 \<and> raw \<noteq> [] then
                 (let size = min (int (length raw)) (data_size f)
                  in Some (True, f\<lparr>data_size := data_size f - size\<rparr>, take (nat size) raw, drop (nat size) raw))
               else loop f raw)) = Some r"
  show "\<not> (\<not> wf_error f \<and> skip_size f < 0 \<and> data_size f = 0 \<and> raw \<noteq> [])"
  proof
    assume stuck: "\<not> wf_error f \<and> skip_size f < 0 \<and> data_size f = 0 \<and> raw \<noteq> []"
    then have "skip_part f raw = (f, raw)" "header_part f raw = (f, raw)" by (simp_all add: skip_part_def header_part_def)
    then show False using ih [of f raw r] eq stuck by simp
  qed
qed

lemma wraps_negative: "2 ^ 63 \<le> x \<Longrightarrow> x < 2 ^ 64 \<Longrightarrow> sint (word_of_int x :: int64_t) = x - 2 ^ 64"
proof -
  assume x: "2 ^ 63 \<le> x" "x < 2 ^ 64"
  have "(x + 2 ^ 63) mod 2 ^ 64 = (x - 2 ^ 63 + 2 ^ 64 * 1) mod 2 ^ 64" by (simp add: add.commute)
  also have "\<dots> = x - 2 ^ 63" using x unfolding mod_mult_self2 by (intro mod_pos_pos_trivial) simp_all
  finally show ?thesis by (simp add: signed_of_int signed_take_bit_eq_take_bit_shift take_bit_eq_mod)
qed

text \<open>
  C36: A damaged header can hang the restore. When the sizes in the header of a stream that is to be skipped
  add up to more than a signed 64-bit integer holds, the sum wraps to a negative number, and
  with one more byte in the record \<open>have_data\<close> does not return.
\<close>

theorem win32_filter_hangs:
  assumes "at_header f" and "length h = WIN32_STREAM_HEADER_SIZE" and "dwStreamId h \<noteq> WIN32_BACKUP_DATA"
    and "0 \<le> sint (dwStreamNameSize h)" and "0 \<le> sint (stream_Size h)"
    and "2 ^ 63 \<le> sint (dwStreamNameSize h) + sint (stream_Size h)" and "rest \<noteq> []"
  shows "have_data f (h @ rest) = None"
proof (rule ccontr)
  let ?f = "f\<lparr>initialized := True\<rparr>"
  assume "have_data f (h @ rest) \<noteq> None"
  then obtain r where r: "have_data_loop ?f (h @ rest) = Some r" unfolding have_data_def by blast
  have f: "\<not> wf_error ?f" "skip_size ?f = 0" "data_size ?f = 0" "header_pos ?f = 0" "length (header ?f) = WIN32_STREAM_HEADER_SIZE"
    using assms(1) by (auto simp: at_header_def wf_ok_def)
  let ?x = "sint (dwStreamNameSize h) + sint (stream_Size h)"
  let ?g = "header_done (?f\<lparr>header := h, header_pos := WIN32_STREAM_HEADER_SIZE\<rparr>)"
  have "sint (dwStreamNameSize h) < 2 ^ 31" "sint (stream_Size h) < 2 ^ 63"
    using sint_lt [of "dwStreamNameSize h"] sint_lt [of "stream_Size h"] by simp_all
  then have "sint (word_of_int ?x :: int64_t) = ?x - 2 ^ 64"
    using assms(6) by (intro wraps_negative) simp_all
  then have neg: "sint (word_of_int ?x :: int64_t) < 0" using \<open>sint (dwStreamNameSize h) < 2 ^ 31\<close> \<open>sint (stream_Size h) < 2 ^ 63\<close> by simp
  have g: "\<not> wf_error ?g" "skip_size ?g < 0" "data_size ?g = 0" using f neg assms(3-5) by (simp_all add: header_done_def Let_def)
  have "header_part ?f (h @ rest) = (?g, rest)"
    using f assms(2) by (auto simp: header_part_def Let_def WIN32_STREAM_HEADER_SIZE_def)
  moreover have "skip_part ?f (h @ rest) = (?f, h @ rest)" using f by (simp add: skip_part_def)
  moreover have "h @ rest \<noteq> []" using assms(7) by simp
  ultimately have "have_data_loop ?f (h @ rest) = have_data_loop ?g rest"
    using f(1) g by (subst have_data_loop.simps) (simp only: prod.case if_False, simp)
  then show False using stuck_never_returns [of ?g rest r] r g assms(7) by simp
qed

theorem win32_filter_hangs_witness:
  "have_data (wf_init (replicate 20 0)) ([2, 0, 0, 0, 0, 0, 0, 0, 255, 255, 255, 255, 255, 255, 255, 127, 1, 0, 0, 0] @ [65]) = None"
  by (rule win32_filter_hangs)
    (simp_all add: at_header_def wf_ok_def wf_init_def WIN32_STREAM_HEADER_SIZE_def WIN32_BACKUP_DATA_def dwStreamId_def
      dwStreamNameSize_def stream_Size_def)

end
