(* ===== verification/FileData.thy ===== *)
theory FileData
  imports Attribs Serial Win32Filter VolRecord
begin

text \<open>
  The data of a file between the File daemon and the Storage daemon. The choice of the data stream
  (\<open>select_data_stream\<close> of \<^verbatim>\<open>findlib/attribs.c\<close>); the filters of a backup, which leave out blocks of zeros, compress and
  encrypt (\<^verbatim>\<open>filed/backup.c\<close>, \<open>crypto_allocate_ctx\<close> of \<^verbatim>\<open>filed/crypto.c\<close>); and those of a restore, which undo it
  (\<^verbatim>\<open>filed/restore.c\<close>). zlib, LZO and the EVP cipher of OpenSSL are fields of \<open>fd_env\<close>.

  A message or a buffer is the list of the bytes in use. The pointers of the C code (\<open>rbuf\<close>, \<open>wbuf\<close>, \<open>cbuf\<close>,
  \<open>cipher_input\<close>) select one of these buffers and leave eight bytes in front for the file address; in
  the model the address is put in front of the bytes. Client-side deduplication, debugging hooks and
  Windows EFS files are not modelled.
\<close>

section \<open>The data stream of a file\<close>

definition FO_COMPRESS :: uint64_t where "FO_COMPRESS = push_bit 2 1"
definition FO_SPARSE :: uint64_t where "FO_SPARSE = push_bit 5 1"
definition FO_WIN32DECOMP :: uint64_t where "FO_WIN32DECOMP = push_bit 18 1"
definition FO_ENCRYPT :: uint64_t where "FO_ENCRYPT = push_bit 21 1"
definition FO_OFFSETS :: uint64_t where "FO_OFFSETS = push_bit 30 1"
definition FO_DEDUPLICATION :: uint64_t where "FO_DEDUPLICATION = push_bit 31 1"

definition COMPRESS_GZIP :: uint32_t where "COMPRESS_GZIP = 0x475a4950"
definition COMPRESS_LZO1X :: uint32_t where "COMPRESS_LZO1X = 0x4c5a4f58"

definition FT_RAW :: int32_t where "FT_RAW = 16"
definition FT_FIFO :: int32_t where "FT_FIFO = 17"
definition FT_RESTORE_FIRST :: int32_t where "FT_RESTORE_FIRST = 25"

definition STREAM_NONE :: int32_t where "STREAM_NONE = 0"
definition STREAM_FILE_DATA :: int32_t where "STREAM_FILE_DATA = 2"
definition STREAM_GZIP_DATA :: int32_t where "STREAM_GZIP_DATA = 4"
definition STREAM_SPARSE_DATA :: int32_t where "STREAM_SPARSE_DATA = 6"
definition STREAM_SPARSE_GZIP_DATA :: int32_t where "STREAM_SPARSE_GZIP_DATA = 7"
definition STREAM_WIN32_DATA :: int32_t where "STREAM_WIN32_DATA = 11"
definition STREAM_WIN32_GZIP_DATA :: int32_t where "STREAM_WIN32_GZIP_DATA = 12"
definition STREAM_MACOS_FORK_DATA :: int32_t where "STREAM_MACOS_FORK_DATA = 13"
definition STREAM_ENCRYPTED_FILE_DATA :: int32_t where "STREAM_ENCRYPTED_FILE_DATA = 20"
definition STREAM_ENCRYPTED_WIN32_DATA :: int32_t where "STREAM_ENCRYPTED_WIN32_DATA = 21"
definition STREAM_ENCRYPTED_FILE_GZIP_DATA :: int32_t where "STREAM_ENCRYPTED_FILE_GZIP_DATA = 23"
definition STREAM_ENCRYPTED_WIN32_GZIP_DATA :: int32_t where "STREAM_ENCRYPTED_WIN32_GZIP_DATA = 24"
definition STREAM_COMPRESSED_DATA :: int32_t where "STREAM_COMPRESSED_DATA = 29"
definition STREAM_SPARSE_COMPRESSED_DATA :: int32_t where "STREAM_SPARSE_COMPRESSED_DATA = 30"
definition STREAM_WIN32_COMPRESSED_DATA :: int32_t where "STREAM_WIN32_COMPRESSED_DATA = 31"
definition STREAM_ENCRYPTED_FILE_COMPRESSED_DATA :: int32_t where "STREAM_ENCRYPTED_FILE_COMPRESSED_DATA = 32"
definition STREAM_ENCRYPTED_WIN32_COMPRESSED_DATA :: int32_t where "STREAM_ENCRYPTED_WIN32_COMPRESSED_DATA = 33"

lemmas stream_defs = STREAM_NONE_def STREAM_FILE_DATA_def STREAM_GZIP_DATA_def STREAM_SPARSE_DATA_def
  STREAM_SPARSE_GZIP_DATA_def STREAM_WIN32_DATA_def STREAM_WIN32_GZIP_DATA_def STREAM_MACOS_FORK_DATA_def
  STREAM_ENCRYPTED_FILE_DATA_def STREAM_ENCRYPTED_WIN32_DATA_def STREAM_ENCRYPTED_FILE_GZIP_DATA_def
  STREAM_ENCRYPTED_WIN32_GZIP_DATA_def STREAM_COMPRESSED_DATA_def STREAM_SPARSE_COMPRESSED_DATA_def
  STREAM_WIN32_COMPRESSED_DATA_def STREAM_ENCRYPTED_FILE_COMPRESSED_DATA_def STREAM_ENCRYPTED_WIN32_COMPRESSED_DATA_def

text \<open>What was compiled in, and the fields of \<open>FF_PKT\<close> that matter for the data of a file.\<close>

record build =
  HAVE_LIBZ :: bool
  HAVE_LZO :: bool
  HAVE_CRYPTO :: bool

record FF_PKT =
  ff_type :: int32_t
  ff_flags :: uint64_t
  Compress_algo :: uint32_t
  ff_size :: int64_t

abbreviation has_flag :: "uint64_t \<Rightarrow> uint64_t \<Rightarrow> bool" where
  "has_flag fl f \<equiv> fl AND f \<noteq> 0"

text \<open>The three steps of \<open>select_data_stream\<close>; \<open>portable\<close> is \<open>is_portable_backup(&ff_pkt->bfd)\<close>.\<close>

definition plain_stream :: "bool \<Rightarrow> uint64_t \<Rightarrow> int32_t \<times> uint64_t" where
  "plain_stream portable fl =
     (let fl = (if has_flag fl FO_ENCRYPT then fl AND NOT FO_SPARSE else fl);
          (stream, fl) =
            (if \<not> portable then (STREAM_WIN32_DATA, fl AND NOT FO_SPARSE)
             else if has_flag fl FO_SPARSE then (STREAM_SPARSE_DATA, fl)
             else (STREAM_FILE_DATA, fl));
          fl = (if stream \<noteq> STREAM_FILE_DATA \<and> stream \<noteq> STREAM_WIN32_DATA \<and> stream \<noteq> STREAM_MACOS_FORK_DATA
                then fl AND NOT FO_ENCRYPT else fl);
          fl = (if stream = STREAM_MACOS_FORK_DATA then fl AND NOT FO_COMPRESS else fl)
      in (stream, fl))"

definition gzip_stream :: "int32_t \<Rightarrow> int32_t option" where
  "gzip_stream stream =
     (if stream = STREAM_WIN32_DATA then Some STREAM_WIN32_GZIP_DATA
      else if stream = STREAM_SPARSE_DATA then Some STREAM_SPARSE_GZIP_DATA
      else if stream = STREAM_FILE_DATA then Some STREAM_GZIP_DATA else None)"

definition lzo_stream :: "int32_t \<Rightarrow> int32_t option" where
  "lzo_stream stream =
     (if stream = STREAM_WIN32_DATA then Some STREAM_WIN32_COMPRESSED_DATA
      else if stream = STREAM_SPARSE_DATA then Some STREAM_SPARSE_COMPRESSED_DATA
      else if stream = STREAM_FILE_DATA then Some STREAM_COMPRESSED_DATA else None)"

definition encrypted_stream :: "int32_t \<Rightarrow> int32_t option" where
  "encrypted_stream stream =
     (if stream = STREAM_WIN32_DATA then Some STREAM_ENCRYPTED_WIN32_DATA
      else if stream = STREAM_WIN32_GZIP_DATA then Some STREAM_ENCRYPTED_WIN32_GZIP_DATA
      else if stream = STREAM_WIN32_COMPRESSED_DATA then Some STREAM_ENCRYPTED_WIN32_COMPRESSED_DATA
      else if stream = STREAM_FILE_DATA then Some STREAM_ENCRYPTED_FILE_DATA
      else if stream = STREAM_GZIP_DATA then Some STREAM_ENCRYPTED_FILE_GZIP_DATA
      else if stream = STREAM_COMPRESSED_DATA then Some STREAM_ENCRYPTED_FILE_COMPRESSED_DATA else None)"

text \<open>A stream that the switch does not list ends in \<open>ASSERT\<close>, as the flag is set.\<close>

definition switch_stream :: "bool \<Rightarrow> (int32_t \<Rightarrow> int32_t option) \<Rightarrow> int32_t \<Rightarrow> int32_t outcome" where
  "switch_stream on f stream = (if on then from_option Assert_failed (f stream) else Ret stream)"

definition ff_select_data_stream :: "build \<Rightarrow> bool \<Rightarrow> FF_PKT \<Rightarrow> (int32_t \<times> FF_PKT) outcome" where
  "ff_select_data_stream cfg portable ff =
     (if ff_type ff = FT_RESTORE_FIRST then Ret (STREAM_FILE_DATA, ff\<lparr>ff_flags := 0\<rparr>)
      else case plain_stream portable (ff_flags ff) of
        (stream, fl) \<Rightarrow>
          bind_outcome (switch_stream (has_flag fl FO_COMPRESS \<and> HAVE_LIBZ cfg \<and> Compress_algo ff = COMPRESS_GZIP) gzip_stream stream) (\<lambda>stream.
          bind_outcome (switch_stream (has_flag fl FO_COMPRESS \<and> HAVE_LZO cfg \<and> Compress_algo ff = COMPRESS_LZO1X) lzo_stream stream) (\<lambda>stream.
          bind_outcome (switch_stream (HAVE_CRYPTO cfg \<and> has_flag fl FO_ENCRYPT) encrypted_stream stream) (\<lambda>stream.
          Ret (stream, ff\<lparr>ff_flags := fl\<rparr>)))))"

text \<open>
  The flags that \<open>do_restore\<close> derives from the stream of a data record; \<open>decomp\<close> is
  \<open>win32decomp || !have_win32_api()\<close>.
\<close>

definition STREAM_BIT_OFFSETS :: int32_t where "STREAM_BIT_OFFSETS = push_bit 26 1"

definition is_win32_stream :: "int32_t \<Rightarrow> bool" where
  "is_win32_stream stream \<longleftrightarrow>
     stream AND STREAMMASK_TYPE \<in> {STREAM_WIN32_DATA, STREAM_WIN32_GZIP_DATA, STREAM_WIN32_COMPRESSED_DATA,
       STREAM_ENCRYPTED_WIN32_DATA, STREAM_ENCRYPTED_WIN32_GZIP_DATA, STREAM_ENCRYPTED_WIN32_COMPRESSED_DATA}"

definition is_sparse_stream :: "int32_t \<Rightarrow> bool" where
  "is_sparse_stream stream \<longleftrightarrow> stream = STREAM_SPARSE_DATA \<or> stream = STREAM_SPARSE_COMPRESSED_DATA \<or> stream = STREAM_SPARSE_GZIP_DATA"

definition is_lzo_stream :: "int32_t \<Rightarrow> bool" where
  "is_lzo_stream stream \<longleftrightarrow> stream = STREAM_COMPRESSED_DATA \<or> stream = STREAM_SPARSE_COMPRESSED_DATA \<or>
     stream = STREAM_WIN32_COMPRESSED_DATA \<or> stream = STREAM_ENCRYPTED_FILE_COMPRESSED_DATA \<or> stream = STREAM_ENCRYPTED_WIN32_COMPRESSED_DATA"

definition is_compressed_stream :: "int32_t \<Rightarrow> bool" where
  "is_compressed_stream stream \<longleftrightarrow> stream = STREAM_GZIP_DATA \<or> stream = STREAM_SPARSE_GZIP_DATA \<or> stream = STREAM_WIN32_GZIP_DATA \<or>
     stream = STREAM_ENCRYPTED_FILE_GZIP_DATA \<or> stream = STREAM_ENCRYPTED_WIN32_GZIP_DATA \<or> is_lzo_stream stream"

definition is_encrypted_stream :: "int32_t \<Rightarrow> bool" where
  "is_encrypted_stream stream \<longleftrightarrow> stream = STREAM_ENCRYPTED_FILE_DATA \<or> stream = STREAM_ENCRYPTED_FILE_GZIP_DATA \<or>
     stream = STREAM_ENCRYPTED_WIN32_DATA \<or> stream = STREAM_ENCRYPTED_FILE_COMPRESSED_DATA \<or>
     stream = STREAM_ENCRYPTED_WIN32_COMPRESSED_DATA \<or> stream = STREAM_ENCRYPTED_WIN32_GZIP_DATA"

definition restore_flags :: "bool \<Rightarrow> int32_t \<Rightarrow> uint64_t" where
  "restore_flags decomp full_stream =
     (let stream = full_stream AND STREAMMASK_TYPE
      in (if full_stream AND STREAM_BIT_DEDUPLICATION_DATA \<noteq> 0 then FO_DEDUPLICATION else 0)
         OR (if is_sparse_stream stream then FO_SPARSE else 0)
         OR (if full_stream AND STREAM_BIT_OFFSETS \<noteq> 0 then FO_OFFSETS else 0)
         OR (if is_compressed_stream stream then FO_COMPRESS else 0)
         OR (if is_encrypted_stream stream then FO_ENCRYPT else 0)
         OR (if is_win32_stream stream \<and> decomp then FO_WIN32DECOMP else 0))"

section \<open>The stream tells which filters were used\<close>

lemma and_flag_iff: "v AND push_bit n 1 \<noteq> 0 \<longleftrightarrow> bit v n" for v :: "'a::len word"
  by (simp add: push_bit_of_1 and_exp_eq_0_iff_not_bit)

lemma and_not_flag_iff: "bit (v AND NOT (push_bit k 1)) n \<longleftrightarrow> bit v n \<and> n \<noteq> k" for v :: "'a::len word"
  using bit_imp_le_length [of v n] by (auto simp: push_bit_of_1 bit_and_iff bit_not_iff bit_exp_iff)

lemmas flag_defs = FO_COMPRESS_def FO_SPARSE_def FO_WIN32DECOMP_def FO_ENCRYPT_def FO_OFFSETS_def FO_DEDUPLICATION_def

lemma fo_bits:
  "has_flag v FO_COMPRESS \<longleftrightarrow> bit v 2" "has_flag v FO_SPARSE \<longleftrightarrow> bit v 5" "has_flag v FO_WIN32DECOMP \<longleftrightarrow> bit v 18"
  "has_flag v FO_ENCRYPT \<longleftrightarrow> bit v 21" "has_flag v FO_OFFSETS \<longleftrightarrow> bit v 30"
  unfolding flag_defs by (rule and_flag_iff)+

lemma cleared_bits:
  "bit (v AND NOT FO_SPARSE) n \<longleftrightarrow> bit v n \<and> n \<noteq> 5" "bit (v AND NOT FO_ENCRYPT) n \<longleftrightarrow> bit v n \<and> n \<noteq> 21"
  "bit (v AND NOT FO_COMPRESS) n \<longleftrightarrow> bit v n \<and> n \<noteq> 2"
  unfolding flag_defs by (rule and_not_flag_iff)+

lemma restore_flag_bits:
  "has_flag (restore_flags decomp st) FO_SPARSE \<longleftrightarrow> is_sparse_stream (st AND STREAMMASK_TYPE)"
  "has_flag (restore_flags decomp st) FO_OFFSETS \<longleftrightarrow> st AND STREAM_BIT_OFFSETS \<noteq> 0"
  "has_flag (restore_flags decomp st) FO_COMPRESS \<longleftrightarrow> is_compressed_stream (st AND STREAMMASK_TYPE)"
  "has_flag (restore_flags decomp st) FO_ENCRYPT \<longleftrightarrow> is_encrypted_stream (st AND STREAMMASK_TYPE)"
  "has_flag (restore_flags decomp st) FO_WIN32DECOMP \<longleftrightarrow> is_win32_stream st \<and> decomp"
  unfolding fo_bits by (simp_all add: restore_flags_def Let_def flag_defs bit_or_iff bit_push_bit_iff bit_1_iff is_win32_stream_def and.assoc)

lemmas stream_predicates = is_sparse_stream_def is_lzo_stream_def is_compressed_stream_def is_encrypted_stream_def

lemma stream_mask: "STREAMMASK_TYPE = 0x7FF"
  by (simp add: STREAMMASK_TYPE_def mask_eq_exp_minus_1)

lemma plain_stream_cases:
  assumes "plain_stream portable v = (stream, w)"
  shows "\<not> (bit w 5 \<and> bit w 21) \<and> (bit w 2 \<longleftrightarrow> bit v 2) \<and>
     stream = (if \<not> portable then STREAM_WIN32_DATA else if bit w 5 then STREAM_SPARSE_DATA else STREAM_FILE_DATA) \<and> (bit w 5 \<longrightarrow> portable)"
  using assms unfolding plain_stream_def fo_bits Let_def
  by (auto simp: cleared_bits stream_defs split: if_splits)


lemma select_filters:
  "\<exists>stream ff'. ff' = ff\<lparr>ff_flags := ff_flags ff'\<rparr> \<and> (is_win32_stream stream \<longrightarrow> \<not> portable) \<and> stream AND STREAMMASK_TYPE = stream \<and> ff_select_data_stream cfg portable ff = Ret (stream, ff') \<and> stream \<noteq> STREAM_NONE \<and>
     (has_flag (restore_flags decomp stream) FO_SPARSE \<longleftrightarrow> has_flag (ff_flags ff') FO_SPARSE) \<and>
     (has_flag (restore_flags decomp stream) FO_ENCRYPT \<longleftrightarrow> HAVE_CRYPTO cfg \<and> has_flag (ff_flags ff') FO_ENCRYPT) \<and>
     (has_flag (restore_flags decomp stream) FO_COMPRESS \<longleftrightarrow> has_flag (ff_flags ff') FO_COMPRESS \<and>
        (HAVE_LIBZ cfg \<and> Compress_algo ff = COMPRESS_GZIP \<or> HAVE_LZO cfg \<and> Compress_algo ff = COMPRESS_LZO1X)) \<and>
     (is_lzo_stream stream \<longleftrightarrow> has_flag (ff_flags ff') FO_COMPRESS \<and> HAVE_LZO cfg \<and> Compress_algo ff = COMPRESS_LZO1X) \<and>
     \<not> (has_flag (ff_flags ff') FO_SPARSE \<and> has_flag (ff_flags ff') FO_ENCRYPT)"
proof (cases "ff_type ff = FT_RESTORE_FIRST")
  case True
  then show ?thesis
    unfolding restore_flag_bits unfolding fo_bits
    by (simp add: ff_select_data_stream_def stream_predicates is_win32_stream_def stream_defs stream_mask)
next
  case False
  obtain stream w where p: "plain_stream portable (ff_flags ff) = (stream, w)" by fastforce
  note c = plain_stream_cases [OF p]
  have ne: "COMPRESS_GZIP \<noteq> COMPRESS_LZO1X" by (simp add: COMPRESS_GZIP_def COMPRESS_LZO1X_def)
  show ?thesis
    using c ne False p unfolding restore_flag_bits unfolding fo_bits ff_select_data_stream_def
    by (cases "bit w 2"; cases "bit w 5"; cases "bit w 21"; cases "Compress_algo ff = COMPRESS_GZIP";
        cases "Compress_algo ff = COMPRESS_LZO1X"; cases "HAVE_LIBZ cfg"; cases "HAVE_LZO cfg"; cases "HAVE_CRYPTO cfg"; cases portable)
      (simp_all add: switch_stream_def gzip_stream_def lzo_stream_def encrypted_stream_def stream_predicates is_win32_stream_def stream_defs stream_mask)
qed

text \<open>
  C21: The data stream of a file tells a restore which filters were used. For every combination of
  options and libraries \<open>select_data_stream\<close> returns a stream, without running into its assertions, and
  leaves in the options of the file exactly the filters that \<open>do_restore\<close> derives from that stream. Blocks are
  never both left out as zeros and encrypted.
\<close>

theorem stream_tells_filters:
  "\<exists>stream ff'. ff_select_data_stream cfg portable ff = Ret (stream, ff') \<and> stream \<noteq> STREAM_NONE \<and>
     (has_flag (restore_flags decomp stream) FO_SPARSE \<longleftrightarrow> has_flag (ff_flags ff') FO_SPARSE) \<and>
     (has_flag (restore_flags decomp stream) FO_ENCRYPT \<longleftrightarrow> HAVE_CRYPTO cfg \<and> has_flag (ff_flags ff') FO_ENCRYPT) \<and>
     (has_flag (restore_flags decomp stream) FO_COMPRESS \<longleftrightarrow> has_flag (ff_flags ff') FO_COMPRESS \<and>
        (HAVE_LIBZ cfg \<and> Compress_algo ff = COMPRESS_GZIP \<or> HAVE_LZO cfg \<and> Compress_algo ff = COMPRESS_LZO1X)) \<and>
     (is_lzo_stream stream \<longleftrightarrow> has_flag (ff_flags ff') FO_COMPRESS \<and> HAVE_LZO cfg \<and> Compress_algo ff = COMPRESS_LZO1X) \<and>
     \<not> (has_flag (ff_flags ff') FO_SPARSE \<and> has_flag (ff_flags ff') FO_ENCRYPT)"
  using select_filters [of ff portable cfg decomp] by blast

end
