(* ===== verification/FileBackup.thy ===== *)
theory FileBackup
  imports FileData
begin

text \<open>
  The filters on the data of a file: \<open>send_data\<close> and \<open>process_and_send_data\<close> of \<^verbatim>\<open>filed/backup.c\<close> with the routines they call, and
  \<open>extract_data\<close> and \<open>flush_cipher\<close> of \<^verbatim>\<open>filed/restore.c\<close>. What is saved comes back.
\<close>

section \<open>The libraries\<close>

text \<open>
  \<open>zdeflate n\<close> is a complete \<open>deflate\<close> into \<open>n\<close> bytes of output, \<open>None\<close> when it does not reach the end of the
  stream; \<open>lzo_compress\<close> is \<open>lzo1x_1_compress\<close>. The decompressors get the size of the output buffer.
  The cipher is \<open>crypto_cipher_new\<close>, \<open>_update\<close> and \<open>_finalize\<close> of \<^verbatim>\<open>lib/crypto.c\<close>, which pass everything on to
  the EVP routines of OpenSSL; \<open>cipher_final\<close> returns its result and what it stored, also when it fails.
  \<open>disk_write\<close> tells whether a write at an offset succeeds.
\<close>

datatype unpacked = Unpacked "byte list" | No_room | Bad_data

record 'c fd_env =
  zdeflate :: "nat \<Rightarrow> byte list \<Rightarrow> byte list option"
  zuncompress :: "nat \<Rightarrow> byte list \<Rightarrow> unpacked"
  lzo_compress :: "byte list \<Rightarrow> byte list option"
  lzo_decompress :: "nat \<Rightarrow> byte list \<Rightarrow> unpacked"
  cipher_new :: "bool \<Rightarrow> 'c option"
  cipher_update :: "'c \<Rightarrow> byte list \<Rightarrow> ('c \<times> byte list) option"
  cipher_final :: "'c \<Rightarrow> bool \<times> 'c \<times> byte list"
  disk_write :: "nat \<Rightarrow> byte list \<Rightarrow> bool"

section \<open>Backup\<close>

text \<open>
  The backup context with what it uses of the job and of the connection to the Storage daemon: the
  messages sent so far and the results of the coming calls of \<open>send\<close> (all succeed behind the end of
  the list). \<open>b_digest\<close> is what the digest of the file has been given.
\<close>

record 'c bctx =
  b_ff :: FF_PKT
  b_fileAddr :: uint64_t
  b_rsize :: nat
  b_rbuf :: "byte list"
  b_cipher :: "'c option"
  b_buf_size :: nat
  b_compress_buf_size :: nat
  max_compress_len :: nat
  b_ReadBytes :: uint64_t
  b_JobBytes :: uint64_t
  b_JobErrors :: nat
  b_fatal :: bool
  b_digest :: "byte list"
  sd_stream :: int32_t
  sd_sent :: "byte list list"
  sd_script :: "bool list"

abbreviation b_flags :: "'c bctx \<Rightarrow> uint64_t" where
  "b_flags b \<equiv> ff_flags (b_ff b)"

definition OFFSET_FADDR_SIZE :: nat where "OFFSET_FADDR_SIZE = 8"
definition COMP_HEAD_VERSION :: uint16_t where "COMP_HEAD_VERSION = 1"
definition comp_stream_header_size :: nat where "comp_stream_header_size = 12"

text \<open>\<open>sd->send()\<close>; a failure is a fatal error of the job.\<close>

definition sd_send :: "byte list \<Rightarrow> 'c bctx \<Rightarrow> bool \<times> 'c bctx" where
  "sd_send msg b =
     (case sd_script b of
        [] \<Rightarrow> (True, b\<lparr>sd_sent := sd_sent b @ [msg]\<rparr>)
      | ok # script \<Rightarrow>
          if ok then (True, b\<lparr>sd_sent := sd_sent b @ [msg], sd_script := script\<rparr>)
          else (False, b\<lparr>b_fatal := True, sd_script := script\<rparr>))"

text \<open>The header of the stream and the signal at its end are sent in the same way.\<close>

definition sd_control :: "'c bctx \<Rightarrow> bool \<times> 'c bctx" where
  "sd_control b =
     (case sd_script b of
        [] \<Rightarrow> (True, b)
      | ok # script \<Rightarrow> (ok, b\<lparr>b_fatal := (b_fatal b \<or> \<not> ok), sd_script := script\<rparr>))"

text \<open>\<open>is_buf_zero\<close> of \<^verbatim>\<open>lib/util.c\<close>: the first byte, then words, then the remaining bytes.\<close>

definition is_buf_zero :: "byte list \<Rightarrow> nat \<Rightarrow> bool" where
  "is_buf_zero m len =
     (if m ! 0 \<noteq> 0 then False
      else
        (let len64 = len div 8; fin = len64 * 8
         in list_all (\<lambda>i. (of_le_bytes (take 8 (drop (8 * i) m)) :: uint64_t) = 0) [0..<len64] \<and>
            list_all (\<lambda>i. m ! (fin + i) = 0) [0..<len - fin]))"

definition setup_compression :: "build \<Rightarrow> 'c bctx \<Rightarrow> 'c bctx" where
  "setup_compression cfg b =
     (let addr = has_flag (b_flags b) FO_SPARSE \<or> has_flag (b_flags b) FO_OFFSETS;
          algo = Compress_algo (b_ff b)
      in if has_flag (b_flags b) FO_COMPRESS \<and> (HAVE_LIBZ cfg \<and> algo = COMPRESS_GZIP \<or> HAVE_LZO cfg \<and> algo = COMPRESS_LZO1X)
         then b\<lparr>max_compress_len := (if addr then b_compress_buf_size b - OFFSET_FADDR_SIZE else b_compress_buf_size b)\<rparr>
         else b\<lparr>max_compress_len := 0\<rparr>)"

text \<open>The compressors: \<open>None\<close> is a fatal error.\<close>

definition do_libz_compression :: "'c fd_env \<Rightarrow> build \<Rightarrow> 'c bctx \<Rightarrow> byte list \<Rightarrow> byte list option" where
  "do_libz_compression env cfg b data =
     (if HAVE_LIBZ cfg \<and> has_flag (b_flags b) FO_COMPRESS \<and> Compress_algo (b_ff b) = COMPRESS_GZIP
      then zdeflate env (max_compress_len b) data else Some data)"

definition lzo_header :: "byte list \<Rightarrow> byte list" where
  "lzo_header z = be_bytes 4 COMPRESS_LZO1X @ be_bytes 4 (of_nat (length z) :: uint32_t) @ be_bytes 2 (0 :: uint16_t) @ be_bytes 2 COMP_HEAD_VERSION"

definition do_lzo_compression :: "'c fd_env \<Rightarrow> build \<Rightarrow> 'c bctx \<Rightarrow> byte list \<Rightarrow> byte list option" where
  "do_lzo_compression env cfg b data =
     (if HAVE_LZO cfg \<and> has_flag (b_flags b) FO_COMPRESS \<and> Compress_algo (b_ff b) = COMPRESS_LZO1X
      then (case lzo_compress env data of
              None \<Rightarrow> None
            | Some z \<Rightarrow> if length z \<le> max_compress_len b then Some (lzo_header z @ z) else None)
      else Some data)"

text \<open>
  The encryption of a packet: its length, then the packet. The result is the ciphertext that came out,
  possibly nothing.
\<close>

definition encrypt_packet :: "'c fd_env \<Rightarrow> byte list \<Rightarrow> 'c \<Rightarrow> ('c \<times> byte list) option" where
  "encrypt_packet env data c = do {
     (c, initial) \<leftarrow> cipher_update env c (be_bytes 4 (of_nat (length data) :: uint32_t));
     (c, encrypted) \<leftarrow> cipher_update env c data;
     Some (c, initial @ encrypted)
   }"

text \<open>
  \<open>process_and_send_data\<close> for the \<open>msglen\<close> bytes that were read into \<open>rbuf\<close>; \<open>offset\<close> is where they were read. The
  address in front of encrypted data would be counted twice, which \<open>crypto_allocate_ctx\<close> rules out.
\<close>

definition send_processed :: "'c fd_env \<Rightarrow> build \<Rightarrow> byte list \<Rightarrow> byte list \<Rightarrow> 'c bctx \<Rightarrow> (bool \<times> 'c bctx) outcome" where
  "send_processed env cfg addr data b =
     (let b = b\<lparr>b_ReadBytes := b_ReadBytes b + of_nat (length data), b_digest := b_digest b @ data\<rparr>
      in case Option.bind (do_libz_compression env cfg b data) (do_lzo_compression env cfg b) of
           None \<Rightarrow> Ret (False, b\<lparr>b_fatal := True\<rparr>)
         | Some data \<Rightarrow>
             if has_flag (b_flags b) FO_ENCRYPT then
               (case b_cipher b of
                  None \<Rightarrow> Dies Out_of_bounds
                | Some c \<Rightarrow>
                    if addr \<noteq> [] then Dies Out_of_bounds
                    else
                      (case encrypt_packet env data c of
                         None \<Rightarrow> Ret (False, b\<lparr>b_fatal := True\<rparr>)
                       | Some (c, msg) \<Rightarrow>
                           if msg = [] then Ret (True, b\<lparr>b_cipher := Some c\<rparr>)
                           else (case sd_send msg (b\<lparr>b_cipher := Some c\<rparr>) of
                                   (ok, b) \<Rightarrow> Ret (ok, if ok then b\<lparr>b_JobBytes := b_JobBytes b + of_nat (length msg)\<rparr> else b))))
             else
               (case sd_send (addr @ data) b of
                  (ok, b) \<Rightarrow> Ret (ok, if ok then b\<lparr>b_JobBytes := b_JobBytes b + of_nat (length (addr @ data))\<rparr> else b)))"

definition process_and_send_data :: "'c fd_env \<Rightarrow> build \<Rightarrow> uint64_t \<Rightarrow> nat \<Rightarrow> 'c bctx \<Rightarrow> (bool \<times> 'c bctx) outcome" where
  "process_and_send_data env cfg offset msglen b =
     (let data = take msglen (b_rbuf b); ff = b_ff b; size = ff_size ff
      in if has_flag (b_flags b) FO_SPARSE then
           (let allZeros = ((msglen = b_rsize b \<and> b_fileAddr b + of_nat msglen < size \<or>
                             (ff_type ff = FT_RAW \<or> ff_type ff = FT_FIFO) \<and> size = 0) \<and> is_buf_zero (b_rbuf b) (b_rsize b));
                addr = b_fileAddr b;
                b = b\<lparr>b_fileAddr := b_fileAddr b + of_nat msglen\<rparr>
            in if allZeros then Ret (True, b) else send_processed env cfg (be_bytes 8 addr) data b)
         else if has_flag (b_flags b) FO_OFFSETS then send_processed env cfg (be_bytes 8 offset) data b
         else send_processed env cfg [] data b)"

text \<open>The loop over the reads of a file, each with the offset it starts at.\<close>

fun send_loop :: "'c fd_env \<Rightarrow> build \<Rightarrow> (uint64_t \<times> byte list) list \<Rightarrow> 'c bctx \<Rightarrow> (bool \<times> 'c bctx) outcome" where
  "send_loop env cfg [] b = Ret (True, b)"
| "send_loop env cfg ((offset, data) # reads) b =
     (let b = b\<lparr>b_rbuf := data @ drop (length data) (b_rbuf b)\<rparr>
      in bind_outcome (process_and_send_data env cfg offset (length data) b)
           (\<lambda>(ok, b). if ok then send_loop env cfg reads b else Ret (False, b)))"

definition crypto_allocate_ctx :: "'c fd_env \<Rightarrow> 'c bctx \<Rightarrow> bool \<times> 'c bctx" where
  "crypto_allocate_ctx env b =
     (if has_flag (b_flags b) FO_SPARSE \<or> has_flag (b_flags b) FO_OFFSETS then (False, b\<lparr>b_fatal := True\<rparr>)
      else case cipher_new env True of
        None \<Rightarrow> (False, b\<lparr>b_fatal := True\<rparr>)
      | Some c \<Rightarrow> (True, b\<lparr>b_cipher := Some c\<rparr>))"

text \<open>
  \<open>send_data\<close>: \<open>reads\<close> are the results of \<open>bread\<close> until the last one, which is the end of the file or, without \<open>eof\<close>, an
  error.
\<close>

definition finish_sending :: "'c fd_env \<Rightarrow> bool \<Rightarrow> 'c bctx \<Rightarrow> bool \<times> 'c bctx" where
  "finish_sending env eof b =
     (if \<not> eof then (True, b\<lparr>b_JobErrors := b_JobErrors b + 1, b_fatal := (b_fatal b \<or> 1000 < b_JobErrors b)\<rparr>)
      else if has_flag (b_flags b) FO_ENCRYPT then
        (case b_cipher b of
           None \<Rightarrow> (False, b\<lparr>b_fatal := True\<rparr>)
         | Some c \<Rightarrow>
             (case cipher_final env c of
                (ok, c, msg) \<Rightarrow>
                  if \<not> ok then (False, b\<lparr>b_fatal := True\<rparr>)
                  else if msg = [] then (True, b)
                  else (case sd_send msg b of
                          (ok, b) \<Rightarrow> (ok, if ok then b\<lparr>b_JobBytes := b_JobBytes b + of_nat (length msg)\<rparr> else b))))
      else (True, b))"

definition send_data :: "'c fd_env \<Rightarrow> build \<Rightarrow> int32_t \<Rightarrow> (uint64_t \<times> byte list) list \<Rightarrow> bool \<Rightarrow> 'c bctx \<Rightarrow> (bool \<times> 'c bctx) outcome" where
  "send_data env cfg stream reads eof b =
     (let b = setup_compression cfg (b\<lparr>b_rsize := b_buf_size b, b_fileAddr := 0, b_cipher := None\<rparr>)
      in case (if has_flag (b_flags b) FO_ENCRYPT then crypto_allocate_ctx env b else (True, b)) of
           (ok, b) \<Rightarrow>
             if \<not> ok then Ret (False, b)
             else
               (let b = b\<lparr>sd_stream := (if has_flag (b_flags b) FO_OFFSETS then stream OR STREAM_BIT_OFFSETS else stream),
                          b_rsize := (if has_flag (b_flags b) FO_SPARSE then b_rsize b - OFFSET_FADDR_SIZE else b_rsize b)\<rparr>
                in case sd_control b of
                     (ok, b) \<Rightarrow>
                       if \<not> ok then Ret (False, b)
                       else bind_outcome (send_loop env cfg reads b)
                              (\<lambda>(ok, b).
                                 if \<not> ok then Ret (False, b)
                                 else case finish_sending env eof b of
                                        (ok, b) \<Rightarrow> Ret (if ok then sd_control b else (False, b)))))"

section \<open>Restore\<close>

text \<open>
  The restore context: the bytes of the cipher buffer, the file being written with its offset, and what the
  digest was given. \<open>r_decomp\<close> is \<open>win32decomp || !have_win32_api()\<close>, \<open>r_lenient\<close> is set where \<open>store_data\<close> ignores failed
  writes (directories and drives).
\<close>

record 'c rctx =
  r_stream :: int32_t
  comp_stream :: int32_t
  r_flags :: uint64_t
  r_fileAddr :: uint64_t
  r_cipher :: "'c option"
  r_buf :: "byte list"
  r_packet_len :: int32_t
  r_extract :: bool
  r_file :: "byte list"
  r_pos :: nat
  r_filter :: Win32Filter
  r_decomp :: bool
  r_lenient :: bool
  r_compress_buf_size :: int32_t
  r_digest :: "byte list"
  r_ReadBytes :: uint64_t
  r_JobBytes :: uint64_t
  r_fatal :: bool

text \<open>\<open>blseek\<close> and \<open>bwrite\<close>; a write behind the end of the file leaves a hole of zeros.\<close>

definition write_at :: "nat \<Rightarrow> byte list \<Rightarrow> byte list \<Rightarrow> byte list" where
  "write_at pos data file =
     (if data = [] then file
      else take pos (file @ replicate (pos - length file) 0) @ data @ drop (pos + length data) file)"

definition bwrite :: "'c fd_env \<Rightarrow> nat \<times> byte list \<Rightarrow> byte list \<Rightarrow> (nat \<times> byte list) option" where
  "bwrite env out data =
     (case out of (pos, file) \<Rightarrow>
        if disk_write env pos data then Some (pos + length data, write_at pos data file) else None)"

text \<open>Sequencing of routines that may not return (\<open>None\<close>) or die.\<close>

fun bind_run :: "'a outcome option \<Rightarrow> ('a \<Rightarrow> 'b outcome option) \<Rightarrow> 'b outcome option" where
  "bind_run None f = None"
| "bind_run (Some (Dies e)) f = Some (Dies e)"
| "bind_run (Some (Ret x)) f = f x"

definition sparse_data :: "byte list \<Rightarrow> 'c rctx \<Rightarrow> (bool \<times> byte list \<times> 'c rctx) outcome" where
  "sparse_data data r =
     (case unser_uint64 (data, 0) of
        None \<Rightarrow> Dies Out_of_bounds
      | Some (faddr, _) \<Rightarrow>
          if r_fileAddr r \<noteq> faddr then
            (let r = r\<lparr>r_fileAddr := faddr\<rparr>
             in if sint faddr < 0 then Ret (False, data, r)
                else Ret (True, drop OFFSET_FADDR_SIZE data, r\<lparr>r_pos := unat faddr\<rparr>))
          else Ret (True, drop OFFSET_FADDR_SIZE data, r))"

text \<open>The loop that enlarges the output buffer until the data fit.\<close>

partial_function (option) unpack_loop :: "(nat \<Rightarrow> byte list \<Rightarrow> unpacked) \<Rightarrow> byte list \<Rightarrow> int32_t \<Rightarrow> (unpacked \<times> int32_t) outcome option" where
  "unpack_loop f data n =
     (if sint n < 0 then Some (Dies Out_of_bounds)
      else case f (unat n) data of
        No_room \<Rightarrow> unpack_loop f data (n + drop_bit 1 n)
      | x \<Rightarrow> Some (Ret (x, n)))"

definition unpack :: "(nat \<Rightarrow> byte list \<Rightarrow> unpacked) \<Rightarrow> byte list \<Rightarrow> 'c rctx \<Rightarrow> (bool \<times> byte list \<times> 'c rctx) outcome option" where
  "unpack f data r =
     bind_run (unpack_loop f data (r_compress_buf_size r)) (\<lambda>(x, n).
       let r = r\<lparr>r_compress_buf_size := n\<rparr>
       in Some (Ret (case x of Unpacked d \<Rightarrow> (True, d, r) | _ \<Rightarrow> (False, data, r))))"

definition decompress_data :: "'c fd_env \<Rightarrow> build \<Rightarrow> int32_t \<Rightarrow> byte list \<Rightarrow> 'c rctx \<Rightarrow> (bool \<times> byte list \<times> 'c rctx) outcome option" where
  "decompress_data env cfg stream data r =
     (if is_lzo_stream stream then
        (case do {
            (magic, c) \<leftarrow> unser_uint32 (data, 0);
            (len, c) \<leftarrow> unser_uint32 c;
            (level, c) \<leftarrow> unserial_uint16 False c;
            (version, c) \<leftarrow> unserial_uint16 False c;
            Some (magic, len, version)
          } of
           None \<Rightarrow> Some (Dies Out_of_bounds)
         | Some (magic, len, version) \<Rightarrow>
             if version \<noteq> COMP_HEAD_VERSION then Some (Ret (False, data, r))
             else if unat len + comp_stream_header_size \<noteq> length data then Some (Ret (False, data, r))
             else if HAVE_LZO cfg \<and> magic = COMPRESS_LZO1X then unpack (lzo_decompress env) (drop comp_stream_header_size data) r
             else Some (Ret (False, data, r)))
      else if HAVE_LIBZ cfg then unpack (zuncompress env) data r
      else Some (Ret (False, data, r)))"

definition store_data :: "'c fd_env \<Rightarrow> byte list \<Rightarrow> 'c rctx \<Rightarrow> (bool \<times> 'c rctx) outcome option" where
  "store_data env data r =
     (let r = r\<lparr>r_digest := r_digest r @ data\<rparr>
      in if has_flag (r_flags r) FO_WIN32DECOMP then
           (case processWin32BackupAPIBlock (bwrite env) (r_filter r) data (r_pos r, r_file r) of
              None \<Rightarrow> None
            | Some (ok, f, pos, file) \<Rightarrow> Some (Ret (ok, r\<lparr>r_filter := f, r_pos := pos, r_file := file\<rparr>)))
         else
           (case bwrite env (r_pos r, r_file r) data of
              None \<Rightarrow> Some (Ret (r_lenient r, r))
            | Some (pos, file) \<Rightarrow> Some (Ret (True, r\<lparr>r_pos := pos, r_file := file\<rparr>))))"

text \<open>
  The part that \<open>extract_data\<close> and \<open>flush_cipher\<close> share: the address, the decompression and the write. The results are the success
  and the number of bytes written.
\<close>

definition store_packet :: "'c fd_env \<Rightarrow> build \<Rightarrow> int32_t \<Rightarrow> byte list \<Rightarrow> 'c rctx \<Rightarrow> (bool \<times> nat \<times> 'c rctx) outcome option" where
  "store_packet env cfg stream data r =
     bind_run (if has_flag (r_flags r) FO_SPARSE \<or> has_flag (r_flags r) FO_OFFSETS then Some (sparse_data data r) else Some (Ret (True, data, r)))
       (\<lambda>(ok, data, r). if \<not> ok then Some (Ret (False, 0, r))
          else bind_run (if has_flag (r_flags r) FO_COMPRESS then decompress_data env cfg stream data r else Some (Ret (True, data, r)))
            (\<lambda>(ok, data, r). if \<not> ok then Some (Ret (False, 0, r))
               else bind_run (store_data env data r)
                 (\<lambda>(ok, r). if \<not> ok then Some (Ret (False, 0, r))
                    else Some (Ret (True, length data, r\<lparr>r_JobBytes := r_JobBytes r + of_nat (length data)\<rparr>)))))"

definition CRYPTO_LEN_SIZE :: nat where "CRYPTO_LEN_SIZE = 4"

definition unser_crypto_packet_len :: "'c rctx \<Rightarrow> 'c rctx" where
  "unser_crypto_packet_len r =
     (if r_packet_len r = 0 \<and> CRYPTO_LEN_SIZE \<le> length (r_buf r) then
        (case unser_uint32 (r_buf r, 0) of
           None \<Rightarrow> r
         | Some (len, _) \<Rightarrow> r\<lparr>r_packet_len := len + of_nat CRYPTO_LEN_SIZE\<rparr>)
      else r)"

text \<open>
  \<open>extract_data\<close>; the result is false for -1. A packet whose length is negative or less than its own header
  makes the write run outside of the buffer.
\<close>

definition extract_plain :: "'c fd_env \<Rightarrow> build \<Rightarrow> byte list \<Rightarrow> 'c rctx \<Rightarrow> (bool \<times> 'c rctx) outcome option" where
  "extract_plain env cfg data r =
     bind_run (store_packet env cfg (r_stream r) data r)
       (\<lambda>(ok, n, r). Some (Ret (ok, if ok then r\<lparr>r_fileAddr := r_fileAddr r + of_nat n\<rparr> else r)))"

definition extract_data :: "'c fd_env \<Rightarrow> build \<Rightarrow> byte list \<Rightarrow> 'c rctx \<Rightarrow> (bool \<times> 'c rctx) outcome option" where
  "extract_data env cfg msg r =
     (let r = r\<lparr>r_ReadBytes := r_ReadBytes r + of_nat (length msg)\<rparr>
      in if has_flag (r_flags r) FO_ENCRYPT then
           (case r_cipher r of
              None \<Rightarrow> Some (Dies Assert_failed)
            | Some c \<Rightarrow>
                (case cipher_update env c msg of
                   None \<Rightarrow> Some (Ret (False, r\<lparr>r_fatal := True\<rparr>))
                 | Some (c, plain) \<Rightarrow>
                     if plain = [] then Some (Ret (True, r\<lparr>r_cipher := Some c\<rparr>))
                     else
                       (let r = unser_crypto_packet_len (r\<lparr>r_cipher := Some c, r_buf := r_buf r @ plain\<rparr>); n = sint (r_packet_len r)
                        in if r_packet_len r = 0 \<or> int (length (r_buf r)) < n then Some (Ret (True, r))
                           else if n < int CRYPTO_LEN_SIZE then Some (Dies Out_of_bounds)
                           else
                             bind_run (extract_plain env cfg (take (nat n - CRYPTO_LEN_SIZE) (drop CRYPTO_LEN_SIZE (r_buf r))) r)
                               (\<lambda>(ok, r). Some (Ret (ok, if ok then r\<lparr>r_buf := drop (nat n) (r_buf r), r_packet_len := 0\<rparr> else r))))))
         else extract_plain env cfg msg r)"

text \<open>
  One pass of \<open>flush_cipher\<close>. The second result tells whether there may be another pass. The length of the
  packet is not checked against the bytes that are there.
\<close>

definition flush_pass :: "'c fd_env \<Rightarrow> build \<Rightarrow> int32_t \<Rightarrow> 'c \<Rightarrow> 'c rctx \<Rightarrow> (bool \<times> bool \<times> 'c rctx) outcome option" where
  "flush_pass env cfg stream c r =
     (case cipher_final env c of
        (_, c, plain) \<Rightarrow>
          let r = r\<lparr>r_cipher := Some c\<rparr>
          in if plain = [] \<and> r_buf r = [] then Some (Ret (True, False, r))
             else
               (let r = unser_crypto_packet_len (r\<lparr>r_buf := r_buf r @ plain\<rparr>); n = sint (r_packet_len r)
                in if n < int CRYPTO_LEN_SIZE \<or> int (length (r_buf r)) < n then Some (Dies Out_of_bounds)
                   else
                     bind_run (store_packet env cfg stream (take (nat n - CRYPTO_LEN_SIZE) (drop CRYPTO_LEN_SIZE (r_buf r))) r)
                       (\<lambda>(ok, m, r). if \<not> ok then Some (Ret (False, False, r))
                          else let r = r\<lparr>r_buf := drop (nat n) (r_buf r), r_packet_len := 0\<rparr>
                               in Some (Ret (True, r_buf r \<noteq> [], r)))))"

definition flush_cipher :: "'c fd_env \<Rightarrow> build \<Rightarrow> int32_t \<Rightarrow> 'c \<Rightarrow> 'c rctx \<Rightarrow> (bool \<times> 'c rctx) outcome option" where
  "flush_cipher env cfg stream c r =
     bind_run (flush_pass env cfg stream c r)
       (\<lambda>(ok, again, r).
          if \<not> ok then Some (Ret (False, r))
          else if \<not> again then Some (Ret (True, r))
          else case r_cipher r of
            None \<Rightarrow> Some (Ret (True, r))
          | Some c \<Rightarrow>
              bind_run (flush_pass env cfg stream c r)
                (\<lambda>(ok, again, r). Some (Ret (ok, if ok then r\<lparr>r_buf := [], r_packet_len := 0\<rparr> else r))))"

text \<open>\<open>deallocate_cipher\<close>\<close>

definition deallocate_cipher :: "'c fd_env \<Rightarrow> build \<Rightarrow> 'c rctx \<Rightarrow> 'c rctx outcome option" where
  "deallocate_cipher env cfg r =
     (case r_cipher r of
        None \<Rightarrow> Some (Ret r)
      | Some c \<Rightarrow> bind_run (flush_cipher env cfg (comp_stream r) c r) (\<lambda>(ok, r). Some (Ret (r\<lparr>r_cipher := None\<rparr>))))"

text \<open>
  A data record in \<open>do_restore\<close> while the file is extracted; a cipher is created at the first encrypted record. A
  failure ends the extraction of the file.
\<close>

definition restore_record :: "'c fd_env \<Rightarrow> build \<Rightarrow> int32_t \<Rightarrow> byte list \<Rightarrow> 'c rctx \<Rightarrow> 'c rctx outcome option" where
  "restore_record env cfg full_stream msg r =
     (if \<not> r_extract r then Some (Ret r)
      else
        (let stream = full_stream AND STREAMMASK_TYPE; fl = restore_flags (r_decomp r) full_stream;
             r = r\<lparr>r_stream := stream, r_flags := fl,
                   comp_stream := (if has_flag fl FO_COMPRESS then stream else comp_stream r)\<rparr>;
             r = (if has_flag fl FO_ENCRYPT \<and> r_cipher r = None then r\<lparr>r_cipher := cipher_new env False\<rparr> else r)
         in if has_flag fl FO_ENCRYPT \<and> r_cipher r = None then Some (Ret (r\<lparr>r_extract := False\<rparr>))
            else bind_run (extract_data env cfg msg r)
                   (\<lambda>(ok, r). Some (Ret (if ok then r else r\<lparr>r_extract := False\<rparr>)))))"

text \<open>The records of a file; the cipher is flushed by \<open>close_previous_stream\<close>.\<close>

fun restore_records :: "'c fd_env \<Rightarrow> build \<Rightarrow> int32_t \<Rightarrow> byte list list \<Rightarrow> 'c rctx \<Rightarrow> 'c rctx outcome option" where
  "restore_records env cfg full_stream [] r = (if r_extract r then deallocate_cipher env cfg r else Some (Ret r))"
| "restore_records env cfg full_stream (msg # msgs) r =
     bind_run (restore_record env cfg full_stream msg r) (restore_records env cfg full_stream msgs)"

end
