(* ===== verification/FilePackets.thy ===== *)
theory FilePackets
  imports FileBackup
begin

text \<open>
  What is documented of the compression and cipher libraries, and the restore of packets that are not encrypted.
\<close>

section \<open>What is documented of the libraries\<close>

text \<open>
  zlib: \<open>deflate\<close> reaches the end of the stream when the output has room for 0.1 percent and 12 bytes more than the
  input, and \<open>uncompress\<close> returns the input or reports that its buffer is too small. LZO expands by a
  sixteenth and 67 bytes at most.
\<close>

definition unpacks :: "(nat \<Rightarrow> byte list \<Rightarrow> unpacked) \<Rightarrow> byte list \<Rightarrow> byte list \<Rightarrow> bool" where
  "unpacks f z data \<longleftrightarrow> (\<forall>n. f n z = (if length data \<le> n then Unpacked data else No_room))"

definition zlib_ok :: "'c fd_env \<Rightarrow> bool" where
  "zlib_ok env \<longleftrightarrow>
     (\<forall>room data. length data + (length data + 999) div 1000 + 12 \<le> room \<longrightarrow>
        (\<exists>z. zdeflate env room data = Some z \<and> length z \<le> room \<and> unpacks (zuncompress env) z data))"

definition lzo_ok :: "'c fd_env \<Rightarrow> bool" where
  "lzo_ok env \<longleftrightarrow>
     (\<forall>data. \<exists>z. lzo_compress env data = Some z \<and> length z \<le> length data + length data div 16 + 67 \<and> unpacks (lzo_decompress env) z data)"

text \<open>
  A block cipher of OpenSSL with padding: what comes out depends on the bytes put in so far and not on how
  they were cut. Encryption passes on all full blocks and adds one block at the end; decryption holds the last
  block back until it knows that it is not the padded one.
\<close>

definition released :: "nat \<Rightarrow> nat \<Rightarrow> nat" where
  "released bs n = (n - 1) div bs * bs"

definition cipher_laws :: "'c fd_env \<Rightarrow> nat \<Rightarrow> (byte list \<Rightarrow> 'c) \<Rightarrow> (byte list \<Rightarrow> 'c) \<Rightarrow> (byte list \<Rightarrow> byte list) \<Rightarrow> (byte list \<Rightarrow> byte list) \<Rightarrow> bool" where
  "cipher_laws env bs encst decst S F \<longleftrightarrow>
     0 < bs \<and> cipher_new env True = Some (encst []) \<and> cipher_new env False = Some (decst []) \<and>
     (\<forall>P d. \<exists>out. cipher_update env (encst P) d = Some (encst (P @ d), out) \<and> S (P @ d) = S P @ out) \<and>
     (\<forall>P. length (S P) = length P div bs * bs \<and> length (F P) = bs \<and> (\<exists>c. cipher_final env (encst P) = (True, c, F P))) \<and>
     (\<forall>P C d. take (length (C @ d)) (S P @ F P) = C @ d \<longrightarrow>
        cipher_update env (decst C) d = Some (decst (C @ d), drop (released bs (length C)) (take (released bs (length (C @ d))) P))) \<and>
     (\<forall>P. \<exists>c. cipher_final env (decst (S P @ F P)) = (True, c, drop (length P div bs * bs) P))"

definition cipher_ok :: "'c fd_env \<Rightarrow> nat \<Rightarrow> bool" where
  "cipher_ok env bs \<longleftrightarrow> (\<exists>encst decst S F. cipher_laws env bs encst decst S F)"

definition libs_ok :: "'c fd_env \<Rightarrow> nat \<Rightarrow> bool" where
  "libs_ok env bs \<longleftrightarrow> zlib_ok env \<and> lzo_ok env \<and> cipher_ok env bs \<and> (\<forall>pos data. disk_write env pos data)"

section \<open>Decompression\<close>

lemma unpack_loop_returns:
  assumes "unpacks f z data" and "2 \<le> sint n" and "length data < 2 ^ 30"
  shows "\<exists>n'. unpack_loop f z n = Some (Ret (Unpacked data, n')) \<and> 2 \<le> sint n'"
  using assms(2)
proof (induction "length data - unat n" arbitrary: n rule: less_induct)
  case less
  have s: "sint n = int (unat n)" "2 \<le> unat n"
  proof -
    have "int (unat n) < 2 ^ 32" using unsigned_less [of n, where 'a = int] by simp
    then show "sint n = int (unat n)" using less.prems unfolding sint_cases [of n] by (auto split: if_splits)
    then show "2 \<le> unat n" using less.prems by linarith
  qed
  show ?case
  proof (cases "length data \<le> unat n")
    case True
    then show ?thesis using assms(1) less.prems by (simp add: unpacks_def unpack_loop.simps [of f z n])
  next
    case False
    let ?m = "n + drop_bit 1 n"
    have u: "unat ?m = unat n + unat n div 2"
    proof -
      have "unat n + unat n div 2 < 2 ^ LENGTH(32)" using False assms(3) by simp
      moreover have "unat (drop_bit 1 n) = unat n div 2" by (simp add: drop_bit_eq_div unat_div)
      ultimately show ?thesis by (simp add: unat_add_lem [THEN iffD1])
    qed
    have "unat ?m < 2 ^ 31" using u False assms(3) by simp
    then have "sint ?m = int (unat ?m)" unfolding sint_cases [of ?m] by simp
    moreover have "2 \<le> int (unat ?m)" unfolding u using s(2) by linarith
    ultimately have sm: "2 \<le> sint ?m" by simp
    have "length data - unat ?m < length data - unat n" using u False s(2) by simp
    from less.hyps [OF this sm] show ?thesis
      using False assms(1) less.prems by (simp add: unpacks_def unpack_loop.simps [of f z n])
  qed
qed

section \<open>One packet\<close>

text \<open>The filters that are on for a file, and what becomes of the bytes of a read.\<close>

definition gzip_on :: "build \<Rightarrow> FF_PKT \<Rightarrow> bool" where
  "gzip_on cfg ff \<longleftrightarrow> HAVE_LIBZ cfg \<and> has_flag (ff_flags ff) FO_COMPRESS \<and> Compress_algo ff = COMPRESS_GZIP"

definition lzo_on :: "build \<Rightarrow> FF_PKT \<Rightarrow> bool" where
  "lzo_on cfg ff \<longleftrightarrow> HAVE_LZO cfg \<and> has_flag (ff_flags ff) FO_COMPRESS \<and> Compress_algo ff = COMPRESS_LZO1X"

definition addr_on :: "FF_PKT \<Rightarrow> bool" where
  "addr_on ff \<longleftrightarrow> has_flag (ff_flags ff) FO_SPARSE \<or> has_flag (ff_flags ff) FO_OFFSETS"

definition compressed :: "'c fd_env \<Rightarrow> build \<Rightarrow> 'c bctx \<Rightarrow> byte list \<Rightarrow> byte list option" where
  "compressed env cfg b data = Option.bind (do_libz_compression env cfg b data) (do_lzo_compression env cfg b)"

text \<open>The restore runs with the filters of the backup.\<close>

definition same_filters :: "build \<Rightarrow> FF_PKT \<Rightarrow> int32_t \<Rightarrow> uint64_t \<Rightarrow> bool" where
  "same_filters cfg ff stream v \<longleftrightarrow>
     (has_flag v FO_SPARSE \<longleftrightarrow> has_flag (ff_flags ff) FO_SPARSE) \<and> (has_flag v FO_OFFSETS \<longleftrightarrow> has_flag (ff_flags ff) FO_OFFSETS) \<and>
     (has_flag v FO_COMPRESS \<longleftrightarrow> gzip_on cfg ff \<or> lzo_on cfg ff) \<and> (is_lzo_stream stream \<longleftrightarrow> lzo_on cfg ff) \<and>
     (has_flag v FO_ENCRYPT \<longleftrightarrow> has_flag (ff_flags ff) FO_ENCRYPT) \<and> \<not> has_flag v FO_WIN32DECOMP"

lemma not_both_on: "\<not> (gzip_on cfg ff \<and> lzo_on cfg ff)"
  by (simp add: gzip_on_def lzo_on_def COMPRESS_GZIP_def COMPRESS_LZO1X_def)

lemma unser_64: "unser_uint64 (be_bytes 8 v @ z, 0) = Some (v, (be_bytes 8 v @ z, 8))"
  by (simp add: codec_simps get_be_at)

lemma unser_lzo_header:
  "do { (magic, c) \<leftarrow> unser_uint32 (lzo_header z @ z', 0); (len, c) \<leftarrow> unser_uint32 c; (level, c) \<leftarrow> unserial_uint16 False c;
        (version, c) \<leftarrow> unserial_uint16 False c; Some (magic, len, version) } =
     Some (COMPRESS_LZO1X, of_nat (length z), COMP_HEAD_VERSION)"
  by (simp add: codec_simps lzo_header_def get_be_at [where v = COMPRESS_LZO1X] get_be_at [where v = "of_nat (length z) :: uint32_t"]
      get_be_at [where v = "0 :: uint16_t"] get_be_at [where v = COMP_HEAD_VERSION])

lemma length_lzo_header: "length (lzo_header z) = comp_stream_header_size"
  by (simp add: lzo_header_def comp_stream_header_size_def)

lemma unpack_data:
  assumes "unpacks f z data" and "2 \<le> sint (r_compress_buf_size r)" and "length data < 2 ^ 30"
  shows "\<exists>n. unpack f z r = Some (Ret (True, data, r\<lparr>r_compress_buf_size := n\<rparr>)) \<and> 2 \<le> sint n"
  using unpack_loop_returns [OF assms] by (auto simp: unpack_def)

text \<open>Room in the compression buffer, as \<open>blast_data_to_storage_daemon\<close> allocates it.\<close>

definition room_ok :: "build \<Rightarrow> 'c bctx \<Rightarrow> nat \<Rightarrow> bool" where
  "room_ok cfg b n \<longleftrightarrow>
     (gzip_on cfg (b_ff b) \<longrightarrow> n + (n + 999) div 1000 + 12 \<le> max_compress_len b) \<and>
     (lzo_on cfg (b_ff b) \<longrightarrow> n + n div 16 + 67 \<le> max_compress_len b) \<and> n < 2 ^ 30 \<and> max_compress_len b < 2 ^ 30"

lemma compress_decompress:
  assumes "zlib_ok env" and "lzo_ok env" and "room_ok cfg b (length data)"
  shows "\<exists>z. compressed env cfg b data = Some z \<and> length z < 2 ^ 31 - 4 \<and>
     (if gzip_on cfg (b_ff b) \<or> lzo_on cfg (b_ff b)
      then \<forall>r :: 'd rctx. \<forall>stream. 2 \<le> sint (r_compress_buf_size r) \<longrightarrow> (is_lzo_stream stream \<longleftrightarrow> lzo_on cfg (b_ff b)) \<longrightarrow>
        (\<exists>n. decompress_data env cfg stream z r = Some (Ret (True, data, r\<lparr>r_compress_buf_size := n\<rparr>)) \<and> 2 \<le> sint n)
      else z = data)"
proof -
  let ?ff = "b_ff b"
  have len: "length data < 2 ^ 30" "max_compress_len b < 2 ^ 30" using assms(3) by (auto simp: room_ok_def)
  consider "gzip_on cfg ?ff" "\<not> lzo_on cfg ?ff" | "lzo_on cfg ?ff" "\<not> gzip_on cfg ?ff" | "\<not> gzip_on cfg ?ff" "\<not> lzo_on cfg ?ff"
    using not_both_on by blast
  then show ?thesis
  proof cases
    case 1
    then obtain z where z: "zdeflate env (max_compress_len b) data = Some z" "length z \<le> max_compress_len b" "unpacks (zuncompress env) z data"
      using assms(1,3) unfolding zlib_ok_def room_ok_def by blast
    have "compressed env cfg b data = Some z"
      using 1 z(1) by (auto simp: compressed_def do_libz_compression_def do_lzo_compression_def gzip_on_def lzo_on_def)
    moreover have "HAVE_LIBZ cfg" using 1 by (simp add: gzip_on_def)
    moreover have "\<exists>n. unpack (zuncompress env) z r = Some (Ret (True, data, r\<lparr>r_compress_buf_size := n\<rparr>)) \<and> 2 \<le> sint n"
      if "2 \<le> sint (r_compress_buf_size r)" for r :: "'d rctx" by (rule unpack_data [OF z(3) that len(1)])
    ultimately show ?thesis using 1 z(2) len by (simp add: decompress_data_def)
  next
    case 2
    obtain z where z: "lzo_compress env data = Some z" "length z \<le> length data + length data div 16 + 67" "unpacks (lzo_decompress env) z data"
      using assms(2) unfolding lzo_ok_def by blast
    then have fit: "length z \<le> max_compress_len b" using 2 assms(3) by (auto simp: room_ok_def)
    have "compressed env cfg b data = Some (lzo_header z @ z)"
      using 2 z(1) fit by (auto simp: compressed_def do_libz_compression_def do_lzo_compression_def gzip_on_def lzo_on_def)
    moreover have "HAVE_LZO cfg" using 2 by (simp add: lzo_on_def)
    moreover have "unat (of_nat (length z) :: uint32_t) = length z" using fit len by (intro unat_of_nat_small) simp
    moreover have "\<exists>n. unpack (lzo_decompress env) z r = Some (Ret (True, data, r\<lparr>r_compress_buf_size := n\<rparr>)) \<and> 2 \<le> sint n"
      if "2 \<le> sint (r_compress_buf_size r)" for r :: "'d rctx" by (rule unpack_data [OF z(3) that len(1)])
    ultimately show ?thesis
      using 2 len fit
      by (simp add: decompress_data_def unser_lzo_header length_lzo_header comp_stream_header_size_def)
  next
    case 3
    then have "compressed env cfg b data = Some data"
      by (auto simp: compressed_def do_libz_compression_def do_lzo_compression_def gzip_on_def lzo_on_def)
    then show ?thesis using 3 len by simp
  qed
qed

section \<open>Storing a packet\<close>

text \<open>
  The file in a restore: what was saved so far is the file and, with sparse blocks, zeros that will follow as a
  hole.
\<close>

definition restored :: "byte list \<Rightarrow> byte list \<Rightarrow> 'c rctx \<Rightarrow> bool" where
  "restored content dig r \<longleftrightarrow>
     (\<exists>k. content = r_file r @ replicate k 0 \<and> (0 < k \<longrightarrow> has_flag (r_flags r) FO_SPARSE)) \<and> r_pos r = length (r_file r) \<and>
     (has_flag (r_flags r) FO_SPARSE \<or> has_flag (r_flags r) FO_OFFSETS \<longrightarrow> r_fileAddr r = of_nat (length (r_file r))) \<and>
     r_digest r = dig \<and> 2 \<le> sint (r_compress_buf_size r)"

definition same_frame :: "'c rctx \<Rightarrow> 'c rctx \<Rightarrow> bool" where
  "same_frame r r' \<longleftrightarrow>
     r_flags r' = r_flags r \<and> r_stream r' = r_stream r \<and> comp_stream r' = comp_stream r \<and> r_cipher r' = r_cipher r \<and>
     r_buf r' = r_buf r \<and> r_packet_len r' = r_packet_len r \<and> r_extract r' = r_extract r \<and> r_decomp r' = r_decomp r"

definition packet_of :: "FF_PKT \<Rightarrow> nat \<Rightarrow> byte list \<Rightarrow> byte list" where
  "packet_of ff at z = (if addr_on ff then be_bytes 8 (of_nat at :: uint64_t) else []) @ z"

lemma of_nat_64_inj: "m < 2 ^ 64 \<Longrightarrow> n < 2 ^ 64 \<Longrightarrow> (of_nat m :: uint64_t) = of_nat n \<longleftrightarrow> m = n"
proof -
  assume "m < 2 ^ 64" "n < 2 ^ 64"
  then have "unat (of_nat m :: uint64_t) = m" "unat (of_nat n :: uint64_t) = n" by (simp_all add: unat_of_nat_small)
  then show ?thesis by metis
qed

lemma sparse_step:
  assumes "restored content dig r" and "length content < 2 ^ 63" and "has_flag (r_flags r) FO_SPARSE \<or> has_flag (r_flags r) FO_OFFSETS"
  shows "sparse_data (be_bytes 8 (of_nat (length content) :: uint64_t) @ z) r =
     Ret (True, z, r\<lparr>r_fileAddr := of_nat (length content), r_pos := length content\<rparr>)"
proof -
  obtain k where k: "content = r_file r @ replicate k 0" "r_pos r = length (r_file r)" "r_fileAddr r = of_nat (length (r_file r))"
    using assms(1,3) by (auto simp: restored_def)
  have len: "length (r_file r) \<le> length content" using k(1) by simp
  have unat: "unat (of_nat (length content) :: uint64_t) = length content" using assms(2) by (intro unat_of_nat_small) simp
  have pos: "\<not> sint (of_nat (length content) :: uint64_t) < 0" using signed_length(2) [OF assms(2)] by simp
  show ?thesis
  proof (cases "length (r_file r) = length content")
    case True
    then show ?thesis using k by (simp add: sparse_data_def unser_64 OFFSET_FADDR_SIZE_def)
  next
    case False
    then have "r_fileAddr r \<noteq> of_nat (length content)" using k(3) of_nat_64_inj len assms(2) by simp
    then show ?thesis using pos unat by (simp add: sparse_data_def unser_64 OFFSET_FADDR_SIZE_def Let_def)
  qed
qed

lemma store_step:
  assumes "\<forall>pos data. disk_write env pos data" and "\<not> has_flag (r_flags r) FO_WIN32DECOMP"
  shows "store_data env data r = Some (Ret (True, r\<lparr>r_digest := r_digest r @ data, r_pos := r_pos r + length data,
     r_file := write_at (r_pos r) data (r_file r)\<rparr>))"
  using assms by (simp add: store_data_def bwrite_def Let_def)

lemma write_behind: "data \<noteq> [] \<Longrightarrow> write_at (length (file @ replicate k 0)) data file = file @ replicate k 0 @ data"
  by (simp add: write_at_def)

lemma store_packet_restores:
  assumes libs: "zlib_ok env" "lzo_ok env" "\<forall>pos data. disk_write env pos data"
    and room: "room_ok cfg b (length data)" and filters: "same_filters cfg (b_ff b) stream (r_flags r)"
    and r: "restored content dig r" "length content < 2 ^ 63" "data \<noteq> []"
  shows "\<exists>z r'. compressed env cfg b data = Some z \<and> length z < 2 ^ 31 - 4 \<and>
     store_packet env cfg stream (packet_of (b_ff b) (length content) z) r = Some (Ret (True, length data, r')) \<and> same_frame r r' \<and>
     r_file r' = content @ data \<and>
     restored (content @ data) (dig @ data)
       (if addr_on (b_ff b) then r'\<lparr>r_fileAddr := r_fileAddr r' + of_nat (length data)\<rparr> else r')"
proof -
  let ?ff = "b_ff b" and ?v = "r_flags r"
  obtain k where k: "content = r_file r @ replicate k 0" "0 < k \<longrightarrow> has_flag ?v FO_SPARSE" "r_pos r = length (r_file r)"
    using r(1) by (auto simp: restored_def)
  have addr: "addr_on ?ff \<longleftrightarrow> has_flag ?v FO_SPARSE \<or> has_flag ?v FO_OFFSETS" using filters by (simp add: addr_on_def same_filters_def)
  define r1 where "r1 = (if addr_on ?ff then r\<lparr>r_fileAddr := of_nat (length content), r_pos := length content\<rparr> else r)"
  have r1: "r_pos r1 = length content" "r_file r1 = r_file r" "r_flags r1 = ?v" "r_digest r1 = dig" "2 \<le> sint (r_compress_buf_size r1)"
      "same_frame r r1" "addr_on ?ff \<Longrightarrow> r_fileAddr r1 = of_nat (length content)"
    using k r(1) addr by (auto simp: r1_def restored_def same_frame_def)
  obtain z where z: "compressed env cfg b data = Some z" "length z < 2 ^ 31 - 4"
      "if gzip_on cfg ?ff \<or> lzo_on cfg ?ff
       then \<forall>r :: 'a rctx. \<forall>stream. 2 \<le> sint (r_compress_buf_size r) \<longrightarrow> (is_lzo_stream stream \<longleftrightarrow> lzo_on cfg ?ff) \<longrightarrow>
         (\<exists>n. decompress_data env cfg stream z r = Some (Ret (True, data, r\<lparr>r_compress_buf_size := n\<rparr>)) \<and> 2 \<le> sint n)
       else z = data"
    using compress_decompress [OF libs(1,2) room] by blast
  have s1: "(if has_flag ?v FO_SPARSE \<or> has_flag ?v FO_OFFSETS then Some (sparse_data (packet_of ?ff (length content) z) r)
      else Some (Ret (True, packet_of ?ff (length content) z, r))) = Some (Ret (True, z, r1))"
    using sparse_step [OF r(1,2)] addr by (auto simp: packet_of_def r1_def)
  obtain n where n: "(if has_flag (r_flags r1) FO_COMPRESS then decompress_data env cfg stream z r1 else Some (Ret (True, z, r1))) =
      Some (Ret (True, data, r1\<lparr>r_compress_buf_size := n\<rparr>))" "2 \<le> sint n"
  proof (cases "gzip_on cfg ?ff \<or> lzo_on cfg ?ff")
    case True
    then show ?thesis using z(3) filters r1(3,5) that unfolding same_filters_def by auto
  next
    case False
    then show ?thesis using z(3) filters r1(3,5) that [of "r_compress_buf_size r1"] unfolding same_filters_def by simp
  qed
  define r2 where "r2 = r1\<lparr>r_compress_buf_size := n\<rparr>"
  have nw: "\<not> has_flag (r_flags r2) FO_WIN32DECOMP" using filters r1(3) by (simp add: r2_def same_filters_def)
  have wr: "write_at (r_pos r2) data (r_file r2) = content @ data"
    using write_behind [OF r(3), of "r_file r" k] k(1) r1(1,2) by (simp add: r2_def)
  define r3 where "r3 = r2\<lparr>r_digest := r_digest r2 @ data, r_pos := r_pos r2 + length data, r_file := write_at (r_pos r2) data (r_file r2)\<rparr>"
  let ?r' = "r3\<lparr>r_JobBytes := r_JobBytes r3 + of_nat (length data)\<rparr>"
  have "store_packet env cfg stream (packet_of ?ff (length content) z) r = Some (Ret (True, length data, ?r'))"
    unfolding store_packet_def s1 bind_run.simps prod.case n(1) r2_def [symmetric]
    by (simp add: n(1) r2_def [symmetric] store_step [OF libs(3) nw] r3_def [symmetric])
  moreover have "r_file ?r' = content @ data" using wr by (simp add: r3_def)
  moreover have "same_frame r ?r'" using r1(6) by (simp add: r3_def r2_def same_frame_def)
  moreover have "restored (content @ data) (dig @ data) (if addr_on ?ff then ?r'\<lparr>r_fileAddr := r_fileAddr ?r' + of_nat (length data)\<rparr> else ?r')"
    using wr r1 addr n(2) by (auto simp: restored_def r3_def r2_def)
  ultimately show ?thesis using z(1,2) by blast
qed

section \<open>The packets of a file\<close>

lemma is_buf_zero_iff:
  assumes "0 < n" and "n \<le> length m"
  shows "is_buf_zero m n \<longleftrightarrow> list_all (\<lambda>x. x = 0) (take n m)"
proof -
  have word: "(of_le_bytes (take 8 (drop (8 * i) m)) :: uint64_t) = 0 \<longleftrightarrow> (\<forall>j < 8. m ! (8 * i + j) = 0)" if "8 * i + 8 \<le> length m" for i
  proof -
    let ?bs = "take 8 (drop (8 * i) m)"
    have len: "length ?bs = 8" using that by simp
    have "(of_le_bytes ?bs :: uint64_t) = of_le_bytes (replicate 8 0) \<longleftrightarrow> ?bs = replicate 8 0"
      using of_le_bytes_inj [where 'a = 64, of ?bs "replicate 8 0"] len by auto
    moreover have "of_le_bytes (replicate 8 0) = (0 :: uint64_t)" by (simp add: numeral_eq_Suc)
    moreover have "?bs = replicate 8 0 \<longleftrightarrow> (\<forall>j < 8. m ! (8 * i + j) = 0)"
      using that by (auto simp: list_eq_iff_nth_eq)
    ultimately show ?thesis by simp
  qed
  let ?k = "n div 8"
  have kn: "?k * 8 \<le> n" "n < ?k * 8 + 8" using div_mult_mod_eq [of n 8] mod_less_divisor [of 8 n] by linarith+
  have all: "list_all (\<lambda>x. x = 0) (take n m) \<longleftrightarrow> (\<forall>j < n. m ! j = 0)" using assms(2) by (auto simp: list_all_length)
  have words: "list_all (\<lambda>i. (of_le_bytes (take 8 (drop (8 * i) m)) :: uint64_t) = 0) [0..<?k] \<longleftrightarrow> (\<forall>j < ?k * 8. m ! j = 0)"
  proof -
    have "list_all (\<lambda>i. (of_le_bytes (take 8 (drop (8 * i) m)) :: uint64_t) = 0) [0..<?k] \<longleftrightarrow> (\<forall>i < ?k. \<forall>j < 8. m ! (8 * i + j) = 0)"
      using word kn assms(2) by (auto simp: list_all_iff)
    also have "\<dots> \<longleftrightarrow> (\<forall>j < ?k * 8. m ! j = 0)"
    proof (intro iffI allI impI)
      fix j assume a: "\<forall>i < ?k. \<forall>j < 8. m ! (8 * i + j) = 0" and j: "j < ?k * 8"
      then have "j div 8 < ?k" by (simp add: less_mult_imp_div_less)
      from a [rule_format, OF this, of "j mod 8"] show "m ! j = 0" by simp
    qed simp
    finally show ?thesis .
  qed
  have rest: "list_all (\<lambda>i. m ! (?k * 8 + i) = 0) [0..<n - ?k * 8] \<longleftrightarrow> (\<forall>j. ?k * 8 \<le> j \<and> j < n \<longrightarrow> m ! j = 0)"
  proof -
    have "(\<forall>i < n - ?k * 8. m ! (?k * 8 + i) = 0) \<longleftrightarrow> (\<forall>j. ?k * 8 \<le> j \<and> j < n \<longrightarrow> m ! j = 0)"
    proof (intro iffI allI impI)
      fix j assume a: "\<forall>i < n - ?k * 8. m ! (?k * 8 + i) = 0" and j: "?k * 8 \<le> j \<and> j < n"
      then have "j - ?k * 8 < n - ?k * 8" by linarith
      from a [rule_format, OF this] j show "m ! j = 0" by simp
    qed simp
    then show ?thesis by (simp add: list_all_length)
  qed
  have "is_buf_zero m n \<longleftrightarrow> m ! 0 = 0 \<and> (\<forall>j < ?k * 8. m ! j = 0) \<and> (\<forall>j. ?k * 8 \<le> j \<and> j < n \<longrightarrow> m ! j = 0)"
    unfolding is_buf_zero_def Let_def words rest by simp
  then show ?thesis unfolding all using assms(1) kn(1) by (metis le_less_linear less_le_trans)
qed

text \<open>A block of zeros that is left out, the blocks that are kept, and their packets.\<close>

definition skipped :: "'c bctx \<Rightarrow> nat \<Rightarrow> byte list \<Rightarrow> bool" where
  "skipped b at d \<longleftrightarrow> has_flag (b_flags b) FO_SPARSE \<and> length d = b_rsize b \<and> at + length d < unat (ff_size (b_ff b)) \<and> list_all (\<lambda>x. x = 0) d"

fun packets :: "'c fd_env \<Rightarrow> build \<Rightarrow> 'c bctx \<Rightarrow> nat \<Rightarrow> byte list list \<Rightarrow> byte list list" where
  "packets env cfg b at [] = []"
| "packets env cfg b at (d # ds) =
     (if skipped b at d then [] else [packet_of (b_ff b) at (the (compressed env cfg b d))]) @ packets env cfg b (at + length d) ds"

fun kept :: "'c bctx \<Rightarrow> nat \<Rightarrow> byte list list \<Rightarrow> byte list" where
  "kept b at [] = []"
| "kept b at (d # ds) = (if skipped b at d then [] else d) @ kept b (at + length d) ds"

fun reads_at :: "nat \<Rightarrow> byte list list \<Rightarrow> (uint64_t \<times> byte list) list" where
  "reads_at at [] = []"
| "reads_at at (d # ds) = (of_nat at, d) # reads_at (at + length d) ds"

definition b_like :: "'c bctx \<Rightarrow> 'c bctx \<Rightarrow> bool" where
  "b_like b b' \<longleftrightarrow> b_ff b' = b_ff b \<and> b_rsize b' = b_rsize b \<and> max_compress_len b' = max_compress_len b \<and> sd_script b' = sd_script b \<and> sd_stream b' = sd_stream b"

lemma b_like_simps:
  assumes "b_like b b'"
  shows "compressed env cfg b' d = compressed env cfg b d" and "skipped b' at d = skipped b at d"
    and "room_ok cfg b' n = room_ok cfg b n" and "b_ff b' = b_ff b" and "sd_script b' = sd_script b" and "sd_stream b' = sd_stream b"
proof -
  have e: "b_ff b' = b_ff b" "b_rsize b' = b_rsize b" "max_compress_len b' = max_compress_len b" using assms by (auto simp: b_like_def)
  show "compressed env cfg b' d = compressed env cfg b d"
    unfolding compressed_def do_libz_compression_def do_lzo_compression_def [abs_def] e by (rule refl)
qed (use assms in \<open>simp_all add: b_like_def skipped_def room_ok_def\<close>)

lemma b_like_lists:
  assumes "b_like b b'"
  shows "packets env cfg b' at ds = packets env cfg b at ds" and "kept b' at ds = kept b at ds"
  using b_like_simps [OF assms] by (induction ds arbitrary: at) simp_all

lemma b_like_trans: "b_like a b \<Longrightarrow> b_like b c \<Longrightarrow> b_like a c"
  by (simp add: b_like_def)

text \<open>A file whose zeros may be left out: not a device of unknown size.\<close>

definition sized :: "FF_PKT \<Rightarrow> bool" where
  "sized ff \<longleftrightarrow> \<not> ((ff_type ff = FT_RAW \<or> ff_type ff = FT_FIFO) \<and> ff_size ff = 0)"

lemma process_step:
  assumes "sized (b_ff b)" and "b_rbuf b = d @ xs" and "d \<noteq> []" and "at + length d < 2 ^ 63"
    and "has_flag (b_flags b) FO_SPARSE \<longrightarrow> b_fileAddr b = of_nat at"
  obtains b1 where "b_like b b1" and "b_rbuf b1 = b_rbuf b" and "b_cipher b1 = b_cipher b" and "sd_sent b1 = sd_sent b" and "b_digest b1 = b_digest b"
    and "has_flag (b_flags b) FO_SPARSE \<longrightarrow> b_fileAddr b1 = of_nat (at + length d)"
    and "process_and_send_data env cfg (of_nat at) (length d) b =
       (if skipped b at d then Ret (True, b1)
        else send_processed env cfg (if addr_on (b_ff b) then be_bytes 8 (of_nat at :: uint64_t) else []) d b1)"
proof (cases "has_flag (b_flags b) FO_SPARSE")
  case True
  let ?b1 = "b\<lparr>b_fileAddr := b_fileAddr b + of_nat (length d)\<rparr>"
  have sum: "b_fileAddr b + of_nat (length d) = of_nat (at + length d)" using assms(5) True by simp
  have "unat (of_nat (at + length d) :: uint64_t) = at + length d" using assms(4) by (intro unat_of_nat_small) simp
  then have lt: "b_fileAddr b + of_nat (length d) < ff_size (b_ff b) \<longleftrightarrow> at + length d < unat (ff_size (b_ff b))"
    unfolding sum by (simp add: word_less_nat_alt)
  have "0 < length d" using assms(3) by simp
  then have zero: "length d = b_rsize b \<Longrightarrow> is_buf_zero (b_rbuf b) (b_rsize b) \<longleftrightarrow> list_all (\<lambda>x. x = 0) d"
    using is_buf_zero_iff [of "length d" "b_rbuf b"] assms(2,3) by simp
  have skip: "(length d = b_rsize b \<and> b_fileAddr b + of_nat (length d) < ff_size (b_ff b) \<or>
      (ff_type (b_ff b) = FT_RAW \<or> ff_type (b_ff b) = FT_FIFO) \<and> ff_size (b_ff b) = 0) \<and> is_buf_zero (b_rbuf b) (b_rsize b) \<longleftrightarrow> skipped b at d"
    using assms(1) zero True unfolding lt skipped_def sized_def by blast
  show ?thesis
  proof (rule that [of ?b1])
    show "process_and_send_data env cfg (of_nat at) (length d) b =
       (if skipped b at d then Ret (True, ?b1)
        else send_processed env cfg (if addr_on (b_ff b) then be_bytes 8 (of_nat at :: uint64_t) else []) d ?b1)"
      unfolding process_and_send_data_def Let_def skip using True assms(2,5) by (simp add: addr_on_def)
  qed (use sum in \<open>simp_all add: b_like_def\<close>)
next
  case False
  then show ?thesis
    using that [of b] assms(2) by (simp add: b_like_def process_and_send_data_def skipped_def addr_on_def)
qed

lemma send_loop_plain:
  assumes "\<not> has_flag (b_flags b) FO_ENCRYPT" and "sized (b_ff b)" and "sd_script b = []"
    and "list_all (\<lambda>d. d \<noteq> [] \<and> compressed env cfg b d \<noteq> None) ds" and "at + length (concat ds) < 2 ^ 63"
    and "has_flag (b_flags b) FO_SPARSE \<longrightarrow> b_fileAddr b = of_nat at"
  shows "\<exists>b'. send_loop env cfg (reads_at at ds) b = Ret (True, b') \<and> b_like b b' \<and>
     sd_sent b' = sd_sent b @ packets env cfg b at ds \<and> b_digest b' = b_digest b @ kept b at ds"
  using assms
proof (induction ds arbitrary: at b)
  case Nil
  then show ?case by (simp add: b_like_def)
next
  case (Cons d ds)
  let ?b = "b\<lparr>b_rbuf := d @ drop (length d) (b_rbuf b)\<rparr>"
  have lb: "b_like b ?b" by (simp add: b_like_def)
  obtain b1 where b1: "b_like ?b b1" "b_cipher b1 = b_cipher b" "sd_sent b1 = sd_sent b" "b_digest b1 = b_digest b"
      "has_flag (b_flags b) FO_SPARSE \<longrightarrow> b_fileAddr b1 = of_nat (at + length d)"
      "process_and_send_data env cfg (of_nat at) (length d) ?b =
         (if skipped ?b at d then Ret (True, b1)
          else send_processed env cfg (if addr_on (b_ff ?b) then be_bytes 8 (of_nat at :: uint64_t) else []) d b1)"
    using process_step [of ?b d "drop (length d) (b_rbuf b)" at env cfg] Cons.prems by auto
  have l1: "b_like b b1" by (rule b_like_trans [OF lb b1(1)])
  obtain z where z: "compressed env cfg b d = Some z" using Cons.prems(4) by auto
  obtain b2 where b2: "process_and_send_data env cfg (of_nat at) (length d) ?b = Ret (True, b2)" "b_like b b2"
      "sd_sent b2 = sd_sent b @ (if skipped b at d then [] else [packet_of (b_ff b) at z])" "b_digest b2 = b_digest b @ (if skipped b at d then [] else d)"
      "has_flag (b_flags b) FO_SPARSE \<longrightarrow> b_fileAddr b2 = of_nat (at + length d)"
  proof (cases "skipped b at d")
    case True
    then show ?thesis using that [of b1] b1 l1 b_like_simps(2) [OF lb] by simp
  next
    case False
    let ?c = "b1\<lparr>b_ReadBytes := b_ReadBytes b1 + of_nat (length d), b_digest := b_digest b1 @ d\<rparr>"
    let ?m = "packet_of (b_ff b) at z"
    let ?b2 = "?c\<lparr>sd_sent := sd_sent b1 @ [?m], b_JobBytes := b_JobBytes b1 + of_nat (length ?m)\<rparr>"
    have lc: "b_like b ?c" using l1 by (simp add: b_like_def)
    note s = b_like_simps [OF lc]
    have "process_and_send_data env cfg (of_nat at) (length d) ?b = send_processed env cfg (if addr_on (b_ff b) then be_bytes 8 (of_nat at :: uint64_t) else []) d b1"
      using b1(6) False b_like_simps(2) [OF lb] by simp
    also have "\<dots> = Ret (True, ?b2)"
      unfolding send_processed_def Let_def compressed_def [symmetric] s(1) z
      using s(4,5) Cons.prems(1,3) by (simp add: sd_send_def packet_of_def)
    finally show ?thesis using that [of ?b2] False b1(3-5) l1 by (simp add: b_like_def)
  qed
  note s2 = b_like_simps [OF b2(2)]
  have "\<exists>b'. send_loop env cfg (reads_at (at + length d) ds) b2 = Ret (True, b') \<and> b_like b2 b' \<and>
     sd_sent b' = sd_sent b2 @ packets env cfg b2 (at + length d) ds \<and> b_digest b' = b_digest b2 @ kept b2 (at + length d) ds"
    using Cons.prems b2(5) by (intro Cons.IH) (simp_all add: s2 add.assoc)
  then show ?case
    using b2 z b_like_trans [OF b2(2)] unfolding b_like_lists [OF b2(2)] by (auto simp: Let_def)
qed

section \<open>Restoring packets that are not encrypted\<close>

text \<open>What \<open>do_restore\<close> sets for a data record.\<close>

definition prep :: "int32_t \<Rightarrow> 'c rctx \<Rightarrow> 'c rctx" where
  "prep full r =
     (let stream = full AND STREAMMASK_TYPE; v = restore_flags (r_decomp r) full
      in r\<lparr>r_stream := stream, r_flags := v, comp_stream := (if has_flag v FO_COMPRESS then stream else comp_stream r)\<rparr>)"

lemma prep_simps [simp]:
  "r_stream (prep full r) = full AND STREAMMASK_TYPE" "r_flags (prep full r) = restore_flags (r_decomp r) full"
  "r_decomp (prep full r) = r_decomp r" "r_cipher (prep full r) = r_cipher r" "r_extract (prep full r) = r_extract r"
  "r_buf (prep full r) = r_buf r" "r_packet_len (prep full r) = r_packet_len r" "r_file (prep full r) = r_file r"
  "r_digest (prep full r) = r_digest r"
  by (simp_all add: prep_def Let_def)

lemma prep_same:
  assumes "same_frame (prep full r) r'"
  shows "prep full r' = r'"
  using assms by (simp add: same_frame_def prep_def Let_def)

lemma restore_record_prep:
  assumes "r_extract r"
  shows "restore_record env cfg full msg r =
     (let r = prep full r; r = (if has_flag (r_flags r) FO_ENCRYPT \<and> r_cipher r = None then r\<lparr>r_cipher := cipher_new env False\<rparr> else r)
      in if has_flag (r_flags r) FO_ENCRYPT \<and> r_cipher r = None then Some (Ret (r\<lparr>r_extract := False\<rparr>))
         else bind_run (extract_data env cfg msg r) (\<lambda>(ok, r). Some (Ret (if ok then r else r\<lparr>r_extract := False\<rparr>))))"
  using assms by (simp add: restore_record_def prep_def Let_def)

lemma restored_read_bytes: "restored content dig (r\<lparr>r_ReadBytes := x\<rparr>) \<longleftrightarrow> restored content dig r"
  by (simp add: restored_def)

lemma restored_zeros:
  assumes "restored content dig r" and "has_flag (r_flags r) FO_SPARSE" and "list_all (\<lambda>x. x = 0) d"
  shows "restored (content @ d) dig r"
proof -
  have "d = replicate (length d) 0" using assms(3) by (simp add: replicate_eqI list_all_iff)
  then show ?thesis using assms(1,2) unfolding restored_def by (metis append.assoc replicate_add)
qed

text \<open>The static part of a backup and its restore.\<close>

definition matched :: "'c fd_env \<Rightarrow> build \<Rightarrow> 'c bctx \<Rightarrow> int32_t \<Rightarrow> bool \<Rightarrow> byte list list \<Rightarrow> bool" where
  "matched env cfg b full decomp ds \<longleftrightarrow>
     zlib_ok env \<and> lzo_ok env \<and> (\<forall>pos data. disk_write env pos data) \<and>
     same_filters cfg (b_ff b) (full AND STREAMMASK_TYPE) (restore_flags decomp full) \<and>
     list_all (\<lambda>d. d \<noteq> [] \<and> room_ok cfg b (length d)) ds"

lemma restore_packet:
  assumes m: "matched env cfg b full (r_decomp r) ds" "d \<in> set ds" and enc: "\<not> has_flag (b_flags b) FO_ENCRYPT"
    and r: "r_extract r" "restored content dig (prep full r)" "length content < 2 ^ 63"
  shows "\<exists>z r'. compressed env cfg b d = Some z \<and>
     restore_record env cfg full (packet_of (b_ff b) (length content) z) r = Some (Ret r') \<and> r_extract r' \<and> r_decomp r' = r_decomp r \<and>
     r_cipher r' = r_cipher r \<and> r_file r' = content @ d \<and> restored (content @ d) (dig @ d) (prep full r')"
proof -
  have m': "zlib_ok env" "lzo_ok env" "\<forall>pos data. disk_write env pos data" "room_ok cfg b (length d)" "d \<noteq> []"
      "same_filters cfg (b_ff b) (full AND STREAMMASK_TYPE) (restore_flags (r_decomp r) full)"
    using m by (auto simp: matched_def list_all_iff)
  have plain: "\<not> has_flag (restore_flags (r_decomp r) full) FO_ENCRYPT" using m'(6) enc by (simp add: same_filters_def)
  have addr: "addr_on (b_ff b) \<longleftrightarrow> has_flag (restore_flags (r_decomp r) full) FO_SPARSE \<or> has_flag (restore_flags (r_decomp r) full) FO_OFFSETS"
    using m'(6) by (simp add: addr_on_def same_filters_def)
  let ?p = "\<lambda>z. packet_of (b_ff b) (length content) z"
  obtain z where z: "compressed env cfg b d = Some z"
    using compress_decompress [OF m'(1,2,4)] by blast
  let ?r = "prep full r\<lparr>r_ReadBytes := r_ReadBytes (prep full r) + of_nat (length (?p z))\<rparr>"
  have "restored content dig ?r" using r(2) by (simp add: restored_read_bytes)
  then obtain r' where r': "store_packet env cfg (full AND STREAMMASK_TYPE) (?p z) ?r = Some (Ret (True, length d, r'))" "same_frame ?r r'"
      "r_file r' = content @ d"
      "restored (content @ d) (dig @ d) (if addr_on (b_ff b) then r'\<lparr>r_fileAddr := r_fileAddr r' + of_nat (length d)\<rparr> else r')"
    using store_packet_restores [of env cfg b d "full AND STREAMMASK_TYPE" ?r content dig] m' z r(3) by auto
  let ?r' = "r'\<lparr>r_fileAddr := r_fileAddr r' + of_nat (length d)\<rparr>"
  have fr: "same_frame (prep full r) ?r'" using r'(2) by (simp add: same_frame_def)
  have "restored (content @ d) (dig @ d) ?r'"
    using r'(4) addr fr by (auto simp: restored_def same_frame_def split: if_splits)
  then have "restored (content @ d) (dig @ d) (prep full ?r')" unfolding prep_same [OF fr] .
  moreover have "restore_record env cfg full (?p z) r = Some (Ret ?r')"
    using plain r'(1) unfolding restore_record_prep [OF r(1)] by (simp add: Let_def extract_data_def extract_plain_def)
  ultimately show ?thesis
    using z fr r r'(3) by (intro exI [of _ z] exI [of _ ?r']) (simp add: same_frame_def)
qed

lemma restore_plain:
  assumes "matched env cfg b full (r_decomp r) ds" and "\<not> has_flag (b_flags b) FO_ENCRYPT" and "r_extract r" and "r_cipher r = None"
    and "restored content dig (prep full r)" and "length content + length (concat ds) < 2 ^ 63"
    and "unat (ff_size (b_ff b)) \<le> length content + length (concat ds)" and "ds = [] \<longrightarrow> r_file r = content"
  shows "\<exists>r'. restore_records env cfg full (packets env cfg b (length content) ds) r = Some (Ret r') \<and>
     r_file r' = content @ concat ds \<and> r_digest r' = dig @ kept b (length content) ds \<and> r_extract r'"
  using assms
proof (induction ds arbitrary: r content dig)
  case Nil
  then show ?case by (simp add: deallocate_cipher_def restored_def)
next
  case (Cons d ds)
  have md: "matched env cfg b full (r_decomp r) ds" using Cons.prems(1) by (simp add: matched_def)
  show ?case
  proof (cases "skipped b (length content) d")
    case True
    then have "has_flag (r_flags (prep full r)) FO_SPARSE" "list_all (\<lambda>x. x = 0) d"
      using Cons.prems(1) by (auto simp: skipped_def matched_def same_filters_def)
    then have "restored (content @ d) dig (prep full r)" using restored_zeros [OF Cons.prems(5)] by blast
    moreover have "ds \<noteq> []" using True Cons.prems(7) by (auto simp: skipped_def)
    ultimately have "\<exists>r'. restore_records env cfg full (packets env cfg b (length (content @ d)) ds) r = Some (Ret r') \<and>
        r_file r' = (content @ d) @ concat ds \<and> r_digest r' = dig @ kept b (length (content @ d)) ds \<and> r_extract r'"
      using Cons.prems md by (intro Cons.IH) (simp_all add: add.assoc)
    then show ?thesis using True by simp
  next
    case False
    obtain z r1 where r1: "compressed env cfg b d = Some z"
        "restore_record env cfg full (packet_of (b_ff b) (length content) z) r = Some (Ret r1)" "r_extract r1" "r_decomp r1 = r_decomp r"
        "r_cipher r1 = r_cipher r" "r_file r1 = content @ d" "restored (content @ d) (dig @ d) (prep full r1)"
      using restore_packet [OF Cons.prems(1) _ Cons.prems(2,3,5), of d] Cons.prems(6) by auto
    have "\<exists>r'. restore_records env cfg full (packets env cfg b (length (content @ d)) ds) r1 = Some (Ret r') \<and>
        r_file r' = (content @ d) @ concat ds \<and> r_digest r' = (dig @ d) @ kept b (length (content @ d)) ds \<and> r_extract r'"
      using Cons.prems md r1 by (intro Cons.IH) (simp_all add: add.assoc)
    then show ?thesis using False r1(1,2) by simp
  qed
qed

end
