(* ===== verification/FileRestore.thy ===== *)
theory FileRestore
  imports FilePackets
begin

text \<open>
  What \<open>send_data\<close> sends for a file is restored by \<open>extract_data\<close> and \<open>flush_cipher\<close>, byte for byte, through every combination of
  filters; and the condition on the sizes of encrypted packets under which this holds.
\<close>

section \<open>Encrypted packets\<close>

definition frame :: "byte list \<Rightarrow> byte list" where
  "frame z = be_bytes 4 (of_nat (length z) :: uint32_t) @ z"

definition framed :: "'c fd_env \<Rightarrow> build \<Rightarrow> 'c bctx \<Rightarrow> byte list \<Rightarrow> byte list" where
  "framed env cfg b d = frame (the (compressed env cfg b d))"

text \<open>The messages that carry the ciphertext of the frames, behind the plaintext \<open>P\<close>.\<close>

fun cipher_msgs :: "(byte list \<Rightarrow> byte list) \<Rightarrow> byte list \<Rightarrow> byte list list \<Rightarrow> byte list list" where
  "cipher_msgs S P [] = []"
| "cipher_msgs S P (f # fs) =
     (let out = drop (length (S P)) (S (P @ f)) in (if out = [] then [] else [out]) @ cipher_msgs S (P @ f) fs)"

lemma encrypt_packet_frame:
  assumes "cipher_laws env bs encst decst S F"
  shows "encrypt_packet env z (encst P) = Some (encst (P @ frame z), drop (length (S P)) (S (P @ frame z)))"
proof -
  let ?l = "be_bytes 4 (of_nat (length z) :: uint32_t)"
  have up: "\<exists>out. cipher_update env (encst P) d = Some (encst (P @ d), out) \<and> S (P @ d) = S P @ out" for P d
    using assms by (simp add: cipher_laws_def)
  obtain o1 where o1: "cipher_update env (encst P) ?l = Some (encst (P @ ?l), o1)" "S (P @ ?l) = S P @ o1" using up by blast
  obtain o2 where o2: "cipher_update env (encst (P @ ?l)) z = Some (encst (P @ ?l @ z), o2)" "S (P @ ?l @ z) = S (P @ ?l) @ o2"
    using up [of "P @ ?l" z] by auto
  show ?thesis using o1 o2 by (simp add: encrypt_packet_def frame_def)
qed

lemma send_loop_encrypted:
  assumes laws: "cipher_laws env bs encst decst S F" and "has_flag (b_flags b) FO_ENCRYPT" and "\<not> addr_on (b_ff b)" and "sd_script b = []"
    and "list_all (\<lambda>d. compressed env cfg b d \<noteq> None) ds" and "b_cipher b = Some (encst P)"
  shows "\<exists>b'. send_loop env cfg (reads_at at ds) b = Ret (True, b') \<and> b_like b b' \<and> b_cipher b' = Some (encst (P @ concat (map (framed env cfg b) ds))) \<and>
     sd_sent b' = sd_sent b @ cipher_msgs S P (map (framed env cfg b) ds) \<and> b_digest b' = b_digest b @ concat ds"
  using assms
proof (induction ds arbitrary: at b P)
  case Nil
  then show ?case by (simp add: b_like_def)
next
  case (Cons d ds)
  let ?b = "b\<lparr>b_rbuf := d @ drop (length d) (b_rbuf b)\<rparr>"
  obtain z where z: "compressed env cfg b d = Some z" using Cons.prems(5) by auto
  let ?c = "?b\<lparr>b_ReadBytes := b_ReadBytes b + of_nat (length d), b_digest := b_digest b @ d\<rparr>"
  have lc: "b_like b ?c" by (simp add: b_like_def)
  let ?out = "drop (length (S P)) (S (P @ framed env cfg b d))"
  have fr: "framed env cfg b d = frame z" by (simp add: framed_def z)
  have na: "\<not> has_flag (b_flags b) FO_SPARSE" "\<not> has_flag (b_flags b) FO_OFFSETS" using Cons.prems(3) by (auto simp: addr_on_def)
  have enc: "encrypt_packet env z (encst P) = Some (encst (P @ frame z), ?out)" using encrypt_packet_frame [OF laws] fr by simp
  obtain b2 where b2: "process_and_send_data env cfg (of_nat at) (length d) ?b = Ret (True, b2)" "b_like b b2"
      "b_cipher b2 = Some (encst (P @ framed env cfg b d))" "sd_sent b2 = sd_sent b @ (if ?out = [] then [] else [?out])" "b_digest b2 = b_digest b @ d"
  proof -
    let ?e = "?c\<lparr>b_cipher := Some (encst (P @ frame z))\<rparr>"
    let ?b2 = "if ?out = [] then ?e else ?e\<lparr>sd_sent := sd_sent b @ [?out], b_JobBytes := b_JobBytes b + of_nat (length ?out)\<rparr>"
    have "process_and_send_data env cfg (of_nat at) (length d) ?b = send_processed env cfg [] d ?b"
      using na by (simp add: process_and_send_data_def)
    also have "\<dots> = Ret (True, ?b2)"
      unfolding send_processed_def Let_def compressed_def [symmetric]
      using b_like_simps(1) [OF lc] z Cons.prems(2,4,6) enc by (simp add: sd_send_def)
    finally show ?thesis using that [of ?b2] by (simp add: b_like_def fr)
  qed
  note l = b_like_simps [OF b2(2)]
  have fm: "framed env cfg b2 = framed env cfg b" by (simp add: framed_def [abs_def] l(1))
  have "\<exists>b'. send_loop env cfg (reads_at (at + length d) ds) b2 = Ret (True, b') \<and> b_like b2 b' \<and>
     b_cipher b' = Some (encst ((P @ framed env cfg b d) @ concat (map (framed env cfg b2) ds))) \<and>
     sd_sent b' = sd_sent b2 @ cipher_msgs S (P @ framed env cfg b d) (map (framed env cfg b2) ds) \<and> b_digest b' = b_digest b2 @ concat ds"
    using Cons.prems b2(3) by (intro Cons.IH [OF laws]) (simp_all add: l)
  then show ?case using b2 b_like_trans [OF b2(2)] by (auto simp: fm Let_def)
qed

text \<open>The length in front of a packet.\<close>

lemma unser_frame: "unser_uint32 (frame z @ rest, 0) = Some (of_nat (length z), (frame z @ rest, 4))"
  by (simp add: codec_simps frame_def get_be_at)

lemma length_frame: "length (frame z) = length z + 4"
  by (simp add: frame_def)

lemma packet_len_read:
  assumes "r_buf r = take k (frame z @ rest)" and "r_packet_len r = 0 \<or> r_packet_len r = of_nat (length (frame z))"
  shows "unser_crypto_packet_len r =
     r\<lparr>r_packet_len := (if r_packet_len r \<noteq> 0 \<or> 4 \<le> length (r_buf r) then of_nat (length (frame z)) else 0)\<rparr>"
proof (cases "r_packet_len r = 0 \<and> 4 \<le> length (r_buf r)")
  case True
  have "length (r_buf r) \<le> k" unfolding assms(1) length_take by simp
  then have "4 \<le> k" using True by linarith
  then have "take 4 (drop 0 (r_buf r)) = be_bytes 4 (of_nat (length z) :: uint32_t)"
    unfolding assms(1) by (simp add: frame_def take_take min_def del: take_append) (simp add: take_append)
  then have "unser_uint32 (r_buf r, 0) = Some (of_nat (length z), (r_buf r, 4))"
    by (simp add: codec_simps get_be_at)
  then show ?thesis using True by (simp add: unser_crypto_packet_len_def CRYPTO_LEN_SIZE_def length_frame)
next
  case False
  then show ?thesis using assms(2) by (auto simp: unser_crypto_packet_len_def CRYPTO_LEN_SIZE_def)
qed

text \<open>
  The static part of an encrypted backup: the frames of the reads and the whole plaintext. Frames are cut
  out of the plaintext by their offsets.
\<close>

definition offset_of :: "byte list list \<Rightarrow> nat \<Rightarrow> nat" where
  "offset_of fs w = length (concat (take w fs))"

lemma offset_Suc: "w < length fs \<Longrightarrow> offset_of fs (Suc w) = offset_of fs w + length (fs ! w)"
  by (simp add: offset_of_def take_Suc_conv_app_nth)

lemma drop_offset: "w < length fs \<Longrightarrow> drop (offset_of fs w) (concat fs) = fs ! w @ concat (drop (Suc w) fs)"
  by (metis (no_types, lifting) append_eq_conv_conj append_take_drop_id concat.simps(2) concat_append id_take_nth_drop offset_of_def Cons_nth_drop_Suc)

lemma offset_all: "offset_of fs (length fs) = length (concat fs)"
  by (simp add: offset_of_def)

lemma offset_mono: "v \<le> w \<Longrightarrow> offset_of fs v \<le> offset_of fs w"
  unfolding offset_of_def by (metis concat_append length_append le_add1 le_iff_add take_add)

definition enc_setup :: "'c fd_env \<Rightarrow> build \<Rightarrow> 'c bctx \<Rightarrow> int32_t \<Rightarrow> bool \<Rightarrow> byte list list \<Rightarrow> byte list list \<Rightarrow> bool" where
  "enc_setup env cfg b full decomp ds fs \<longleftrightarrow>
     matched env cfg b full decomp ds \<and> has_flag (b_flags b) FO_ENCRYPT \<and> \<not> addr_on (b_ff b) \<and> fs = map (framed env cfg b) ds"

lemma enc_setup_frame:
  assumes "enc_setup env cfg b full decomp ds fs" and "w < length fs"
  obtains z where "compressed env cfg b (ds ! w) = Some z" and "fs ! w = frame z" and "length z < 2 ^ 31 - 4" and "w < length ds"
proof -
  have w: "w < length ds" using assms by (simp add: enc_setup_def)
  then have "zlib_ok env" "lzo_ok env" "room_ok cfg b (length (ds ! w))" using assms(1) by (auto simp: enc_setup_def matched_def list_all_length)
  then obtain z where "compressed env cfg b (ds ! w) = Some z" "length z < 2 ^ 31 - 4" using compress_decompress by blast
  then show ?thesis using that [of z] assms w by (simp add: enc_setup_def framed_def)
qed

lemma enc_flags:
  assumes "enc_setup env cfg b full decomp ds fs"
  shows "has_flag (restore_flags decomp full) FO_ENCRYPT" "\<not> has_flag (restore_flags decomp full) FO_SPARSE" "\<not> has_flag (restore_flags decomp full) FO_OFFSETS"
  using assms by (auto simp: enc_setup_def matched_def same_filters_def addr_on_def)

lemma store_framed:
  assumes set: "enc_setup env cfg b full decomp ds fs" and w: "w < length fs" and z: "fs ! w = frame z"
    and r: "r_flags r = restore_flags decomp full" "restored (concat (take w ds)) (dig @ concat (take w ds)) r" "length (concat ds) < 2 ^ 63"
    and stream: "has_flag (restore_flags decomp full) FO_COMPRESS \<longrightarrow> stream = full AND STREAMMASK_TYPE"
  shows "\<exists>n r'. store_packet env cfg stream z r = Some (Ret (True, n, r')) \<and> same_frame r r' \<and>
     restored (concat (take (Suc w) ds)) (dig @ concat (take (Suc w) ds)) r'"
proof -
  obtain z' where z': "compressed env cfg b (ds ! w) = Some z'" "fs ! w = frame z'" "w < length ds" by (rule enc_setup_frame [OF set w])
  then have "z' = z" using z by (simp add: frame_def append_eq_append_conv)
  have s: "zlib_ok env" "lzo_ok env" "\<forall>pos data. disk_write env pos data" "room_ok cfg b (length (ds ! w))" "ds ! w \<noteq> []"
      "same_filters cfg (b_ff b) (full AND STREAMMASK_TYPE) (r_flags r)" "\<not> addr_on (b_ff b)"
    using set z'(3) r(1) by (auto simp: enc_setup_def matched_def list_all_length)
  have "length (concat (take w ds)) < 2 ^ 63" using r(3) offset_mono [of w "length ds" ds] z'(3) by (simp add: offset_of_def)
  from store_packet_restores [OF s(1-4,6) r(2) this s(5)] obtain r' where
      r': "store_packet env cfg (full AND STREAMMASK_TYPE) z r = Some (Ret (True, length (ds ! w), r'))" "same_frame r r'"
        "restored (concat (take w ds) @ ds ! w) ((dig @ concat (take w ds)) @ ds ! w) r'"
    using z'(1) \<open>z' = z\<close> s(7) by (auto simp: packet_of_def)
  have "store_packet env cfg stream z r = store_packet env cfg (full AND STREAMMASK_TYPE) z r"
    using stream r(1) enc_flags [OF set] by (cases "has_flag (restore_flags decomp full) FO_COMPRESS") (simp_all add: store_packet_def)
  then show ?thesis using r' z'(3) by (auto simp: take_Suc_conv_app_nth)
qed

text \<open>The state of a restore that has got the ciphertext \<open>C\<close> and stored \<open>w\<close> packets.\<close>

lemma prep_again:
  assumes "r_decomp r' = r_decomp r" and "r_flags r' = r_flags (prep full r)" and "r_stream r' = r_stream (prep full r)"
    and "comp_stream r' = comp_stream (prep full r)"
  shows "prep full r' = r'"
  using assms by (simp add: prep_def Let_def)

lemma restored_buffers [simp]:
  "restored content dig (r\<lparr>r_buf := x\<rparr>) = restored content dig r"
  "restored content dig (r\<lparr>r_packet_len := n\<rparr>) = restored content dig r"
  "restored content dig (r\<lparr>r_cipher := c\<rparr>) = restored content dig r"
  "restored content dig (r\<lparr>r_ReadBytes := y\<rparr>) = restored content dig r"
  by (simp_all add: restored_def)

lemma restored_address:
  assumes "\<not> has_flag (r_flags r) FO_SPARSE" and "\<not> has_flag (r_flags r) FO_OFFSETS"
  shows "restored content dig (r\<lparr>r_fileAddr := a\<rparr>) = restored content dig r"
  using assms by (simp add: restored_def)

definition receiving :: "int32_t \<Rightarrow> bool \<Rightarrow> nat \<Rightarrow> (byte list \<Rightarrow> 'c) \<Rightarrow> byte list list \<Rightarrow> byte list list \<Rightarrow> byte list \<Rightarrow> nat \<Rightarrow> byte list \<Rightarrow> 'c rctx \<Rightarrow> bool" where
  "receiving full decomp bs decst ds fs dig w C r \<longleftrightarrow>
     w \<le> length fs \<and> offset_of fs w \<le> released bs (length C) \<and> (r_cipher r = Some (decst C) \<or> C = [] \<and> r_cipher r = None) \<and>
     r_buf r = drop (offset_of fs w) (take (released bs (length C)) (concat fs)) \<and>
     (r_packet_len r = 0 \<or> w < length fs \<and> r_packet_len r = of_nat (length (fs ! w))) \<and> r_extract r \<and> r_decomp r = decomp \<and>
     (C = [] \<or> prep full r = r) \<and> restored (concat (take w ds)) (dig @ concat (take w ds)) (prep full r)"

lemma released_mono: "m \<le> n \<Longrightarrow> released bs m \<le> released bs n"
  unfolding released_def by (intro mult_right_mono div_le_mono) simp_all

lemma released_block: "0 < bs \<Longrightarrow> released bs (k * bs + bs) = k * bs"
proof -
  assume "0 < bs"
  then have "(k * bs + bs - 1) div bs = k" by (intro div_nat_eqI) (simp_all add: mult.commute)
  then show ?thesis by (simp add: released_def)
qed

lemma drop_take_append:
  assumes "i \<le> m" and "m \<le> n" and "n \<le> length xs"
  shows "drop i (take m xs) @ drop m (take n xs) = drop i (take n xs)"
proof -
  have "take n xs = take m xs @ drop m (take n xs)" using assms by (metis append_take_drop_id min.absorb1 take_take)
  then have "drop i (take n xs) = drop i (take m xs @ drop m (take n xs))" by simp
  also have "\<dots> = drop i (take m xs) @ drop m (take n xs)" using assms by simp
  finally show ?thesis by simp
qed

text \<open>What \<open>extract_data\<close> does once plaintext came out of the cipher.\<close>

lemma packet_in_buffer:
  assumes set: "enc_setup env cfg b full decomp ds fs" and w: "w < length fs"
    and buf: "r_buf r = drop (offset_of fs w) (take k (concat fs))" and at: "offset_of fs w \<le> k" "k \<le> length (concat fs)"
    and len: "r_packet_len r = 0 \<or> r_packet_len r = of_nat (length (fs ! w))"
  obtains z where "fs ! w = frame z" and "length (frame z) < 2 ^ 31" and "length (r_buf r) = k - offset_of fs w"
    and "r_packet_len (unser_crypto_packet_len r) = (if r_packet_len r \<noteq> 0 \<or> 4 \<le> length (r_buf r) then of_nat (length (frame z)) else 0)"
    and "unser_crypto_packet_len r = r\<lparr>r_packet_len := r_packet_len (unser_crypto_packet_len r)\<rparr>"
    and "offset_of fs (Suc w) \<le> k \<longrightarrow> take (length z) (drop 4 (r_buf r)) = z"
    and "drop (length (frame z)) (r_buf r) = drop (offset_of fs (Suc w)) (take k (concat fs))"
proof -
  obtain z where z: "fs ! w = frame z" "length z < 2 ^ 31 - 4" by (rule enc_setup_frame [OF set w])
  have b: "r_buf r = take (k - offset_of fs w) (frame z @ concat (drop (Suc w) fs))"
    unfolding buf drop_take drop_offset [OF w] z(1) ..
  have n: "offset_of fs (Suc w) = offset_of fs w + length (frame z)" using offset_Suc [OF w] z(1) by simp
  have u: "unser_crypto_packet_len r = r\<lparr>r_packet_len := (if r_packet_len r \<noteq> 0 \<or> 4 \<le> length (r_buf r) then of_nat (length (frame z)) else 0)\<rparr>"
    using packet_len_read [OF b] len z(1) by simp
  show ?thesis
  proof (rule that [OF z(1)])
    show "length (frame z) < 2 ^ 31" using z(2) by (simp add: length_frame)
    show "length (r_buf r) = k - offset_of fs w" unfolding buf using at(2) by simp
    show "r_packet_len (unser_crypto_packet_len r) = (if r_packet_len r \<noteq> 0 \<or> 4 \<le> length (r_buf r) then of_nat (length (frame z)) else 0)"
      unfolding u by simp
    show "unser_crypto_packet_len r = r\<lparr>r_packet_len := r_packet_len (unser_crypto_packet_len r)\<rparr>" unfolding u by simp
    show "offset_of fs (Suc w) \<le> k \<longrightarrow> take (length z) (drop 4 (r_buf r)) = z"
    proof
      assume "offset_of fs (Suc w) \<le> k"
      then have "4 + length z \<le> k - offset_of fs w" using n length_frame [of z] at by linarith
      then show "take (length z) (drop 4 (r_buf r)) = z" unfolding b by (simp add: frame_def drop_take)
    qed
    show "drop (length (frame z)) (r_buf r) = drop (offset_of fs (Suc w)) (take k (concat fs))"
      unfolding buf n by (simp add: add.commute)
  qed
qed

lemma enc_packet:
  assumes set: "enc_setup env cfg b full decomp ds fs" and small: "length (concat ds) < 2 ^ 63" and w: "w < length fs"
    and r: "r_buf r = drop (offset_of fs w) (take k (concat fs))" "offset_of fs w \<le> k" "k \<le> length (concat fs)"
      "r_packet_len r = 0 \<or> r_packet_len r = of_nat (length (fs ! w))"
      "r_flags r = restore_flags decomp full" "r_stream r = full AND STREAMMASK_TYPE" "restored (concat (take w ds)) (dig @ concat (take w ds)) r"
  shows "\<exists>r'. (let u = unser_crypto_packet_len r; n = sint (r_packet_len u)
       in if r_packet_len u = 0 \<or> int (length (r_buf u)) < n then Some (Ret (True, u))
          else if n < int CRYPTO_LEN_SIZE then Some (Dies Out_of_bounds)
          else bind_run (extract_plain env cfg (take (nat n - CRYPTO_LEN_SIZE) (drop CRYPTO_LEN_SIZE (r_buf u))) u)
                 (\<lambda>(ok, r). Some (Ret (ok, if ok then r\<lparr>r_buf := drop (nat n) (r_buf r), r_packet_len := 0\<rparr> else r)))) = Some (Ret (True, r')) \<and>
     same_frame (r\<lparr>r_buf := r_buf r', r_packet_len := r_packet_len r'\<rparr>) r' \<and>
     (if offset_of fs (Suc w) \<le> k
      then r_packet_len r' = 0 \<and> r_buf r' = drop (offset_of fs (Suc w)) (take k (concat fs)) \<and>
        restored (concat (take (Suc w) ds)) (dig @ concat (take (Suc w) ds)) r'
      else (r_packet_len r' = 0 \<or> r_packet_len r' = of_nat (length (fs ! w))) \<and> r_buf r' = r_buf r \<and>
        restored (concat (take w ds)) (dig @ concat (take w ds)) r')"
proof -
  obtain z where z: "fs ! w = frame z" "length (frame z) < 2 ^ 31" "length (r_buf r) = k - offset_of fs w"
      "r_packet_len (unser_crypto_packet_len r) = (if r_packet_len r \<noteq> 0 \<or> 4 \<le> length (r_buf r) then of_nat (length (frame z)) else 0)"
      "unser_crypto_packet_len r = r\<lparr>r_packet_len := r_packet_len (unser_crypto_packet_len r)\<rparr>"
      "offset_of fs (Suc w) \<le> k \<longrightarrow> take (length z) (drop 4 (r_buf r)) = z"
      "drop (length (frame z)) (r_buf r) = drop (offset_of fs (Suc w)) (take k (concat fs))"
    by (rule packet_in_buffer [OF set w r(1-4)])
  let ?u = "unser_crypto_packet_len r"
  have u: "r_buf ?u = r_buf r" "same_frame (r\<lparr>r_packet_len := r_packet_len ?u\<rparr>) ?u" "restored (concat (take w ds)) (dig @ concat (take w ds)) ?u"
    by (subst z(5), simp add: same_frame_def r(7))+
  have sint: "sint (of_nat (length (frame z)) :: int32_t) = int (length (frame z))" using signed_length(1) [OF z(2)] .
  have n: "offset_of fs (Suc w) = offset_of fs w + length (frame z)" using offset_Suc [OF w] z(1) by simp
  have pos: "4 \<le> length (frame z)" by (simp add: length_frame)
  show ?thesis
  proof (cases "offset_of fs (Suc w) \<le> k")
    case False
    then have "length (r_buf r) < length (frame z)" using n z(3) r(2) by linarith
    then have "(let n = sint (r_packet_len ?u) in r_packet_len ?u = 0 \<or> int (length (r_buf ?u)) < n)"
      using z(4) sint u(1) by (simp add: Let_def)
    then show ?thesis
      using False u z(4) unfolding z(1) by (intro exI [of _ ?u]) (simp add: Let_def same_frame_def)
  next
    case True
    have len: "length (frame z) \<le> length (r_buf r)" using True n z(3) by linarith
    then have p: "r_packet_len ?u = of_nat (length (frame z))" using z(4) pos by simp
    have nz: "r_packet_len ?u \<noteq> 0"
    proof
      assume "r_packet_len ?u = 0"
      then have "sint (of_nat (length (frame z)) :: int32_t) = 0" unfolding p by simp
      then show False using sint pos by linarith
    qed
    have sd: "take (length (frame z) - CRYPTO_LEN_SIZE) (drop CRYPTO_LEN_SIZE (r_buf ?u)) = z"
      using z(6) True unfolding u(1) unfolding length_frame CRYPTO_LEN_SIZE_def by simp
    have fl: "r_flags ?u = restore_flags decomp full" "r_stream ?u = full AND STREAMMASK_TYPE" using u(2) r(5,6) by (simp_all add: same_frame_def)
    obtain m r' where r': "store_packet env cfg (r_stream ?u) z ?u = Some (Ret (True, m, r'))" "same_frame ?u r'"
        "restored (concat (take (Suc w) ds)) (dig @ concat (take (Suc w) ds)) r'"
      using store_framed [OF set w z(1) fl(1) u(3) small] fl(2) by blast
    let ?r' = "r'\<lparr>r_fileAddr := r_fileAddr r' + of_nat m, r_buf := drop (length (frame z)) (r_buf r'), r_packet_len := 0\<rparr>"
    have rb: "r_buf r' = r_buf r" "r_flags r' = restore_flags decomp full" using r'(2) u(1) fl by (simp_all add: same_frame_def)
    have rs: "restored (concat (take (Suc w) ds)) (dig @ concat (take (Suc w) ds)) ?r'"
      using r'(3) restored_address [of r'] enc_flags [OF set] rb(2) by simp
    have "\<not> int (length (r_buf ?u)) < sint (r_packet_len ?u)" "\<not> sint (r_packet_len ?u) < int CRYPTO_LEN_SIZE" "nat (sint (r_packet_len ?u)) = length (frame z)"
      unfolding p sint u(1) using len pos by (simp_all add: CRYPTO_LEN_SIZE_def)
    moreover have "extract_plain env cfg z ?u = Some (Ret (True, r'\<lparr>r_fileAddr := r_fileAddr r' + of_nat m\<rparr>))"
      using r'(1) by (simp add: extract_plain_def)
    moreover have "same_frame (r\<lparr>r_buf := r_buf ?r', r_packet_len := r_packet_len ?r'\<rparr>) ?r'"
      using r'(2) u(2) by (simp add: same_frame_def)
    moreover have "r_buf ?r' = drop (offset_of fs (Suc w)) (take k (concat fs))" using rb z(7) by simp
    ultimately show ?thesis
      using True nz rs by (intro exI [of _ ?r']) (simp add: Let_def sd)
  qed
qed

definition advance :: "nat \<Rightarrow> byte list list \<Rightarrow> nat \<Rightarrow> nat \<Rightarrow> nat \<Rightarrow> nat" where
  "advance bs fs n n' w =
     (if released bs n < released bs n' \<and> w < length fs \<and> offset_of fs (Suc w) \<le> released bs n' then Suc w else w)"

lemma enc_extract:
  assumes laws: "cipher_laws env bs encst decst S F" and set: "enc_setup env cfg b full decomp ds fs" and small: "length (concat ds) < 2 ^ 63"
    and r: "receiving full decomp bs decst ds fs dig w C r" "prep full r = r" "r_cipher r = Some (decst C)"
    and m: "m \<noteq> []" "take (length (C @ m)) (S (concat fs) @ F (concat fs)) = C @ m"
  shows "\<exists>r'. extract_data env cfg m r = Some (Ret (True, r')) \<and>
     receiving full decomp bs decst ds fs dig (advance bs fs (length C) (length (C @ m)) w) (C @ m) r'"
proof -
  let ?P = "concat fs" and ?k = "released bs (length C)" and ?k' = "released bs (length (C @ m))"
  let ?plain = "drop ?k (take ?k' ?P)"
  let ?r = "r\<lparr>r_ReadBytes := r_ReadBytes r + of_nat (length m), r_cipher := Some (decst (C @ m))\<rparr>"
  have flags: "r_flags r = restore_flags decomp full" "r_stream r = full AND STREAMMASK_TYPE" "has_flag (r_flags r) FO_ENCRYPT"
      "\<not> has_flag (r_flags r) FO_SPARSE" "\<not> has_flag (r_flags r) FO_OFFSETS"
    using r(1,2) enc_flags [OF set] prep_simps(1,2) [of full r] by (simp_all add: receiving_def)
  have rc: "w \<le> length fs" "offset_of fs w \<le> ?k" "r_buf r = drop (offset_of fs w) (take ?k ?P)"
      "r_packet_len r = 0 \<or> w < length fs \<and> r_packet_len r = of_nat (length (fs ! w))" "r_extract r" "r_decomp r = decomp"
      "restored (concat (take w ds)) (dig @ concat (take w ds)) r"
    using r(1,2) by (auto simp: receiving_def)
  have upd: "cipher_update env (decst C) m = Some (decst (C @ m), ?plain)" using laws m(2) unfolding cipher_laws_def by blast
  have kk: "?k \<le> ?k'" by (intro released_mono) simp
  have k': "?k' \<le> length ?P"
  proof -
    have "length (take (length (C @ m)) (S ?P @ F ?P)) = length (C @ m)" using m(2) by simp
    then have "length (C @ m) \<le> length ?P div bs * bs + bs" using laws by (simp add: cipher_laws_def)
    then have "?k' \<le> released bs (length ?P div bs * bs + bs)" by (rule released_mono)
    also have "\<dots> = length ?P div bs * bs" using laws by (intro released_block) (simp add: cipher_laws_def)
    finally show ?thesis using div_times_less_eq_dividend le_trans by blast
  qed
  have again: "prep full r' = r'" if "same_frame (r\<lparr>r_cipher := r_cipher r', r_buf := r_buf r', r_packet_len := r_packet_len r'\<rparr>) r'" for r'
    using that arg_cong [OF r(2), of comp_stream] flags(1,2) rc(6)
    by (intro prep_again [of _ r]) (simp_all add: same_frame_def)
  show ?thesis
  proof (cases "?plain = []")
    case True
    then have "?k = ?k'" using kk k' by simp
    then have "advance bs fs (length C) (length (C @ m)) w = w" by (simp add: advance_def)
    moreover have "prep full ?r = ?r" by (rule again) (simp add: same_frame_def)
    ultimately have "receiving full decomp bs decst ds fs dig (advance bs fs (length C) (length (C @ m)) w) (C @ m) ?r"
      using rc \<open>?k = ?k'\<close> by (simp add: receiving_def del: length_append)
    then show ?thesis using flags(3) r(3) upd True by (simp add: extract_data_def)
  next
    case False
    let ?b = "?r\<lparr>r_buf := r_buf r @ ?plain\<rparr>"
    have buf: "r_buf ?b = drop (offset_of fs w) (take ?k' ?P)" using rc(3) drop_take_append [OF rc(2) kk k'] by simp
    have w: "w < length fs" using False rc(1,2) kk k' offset_all [of fs] by (cases "w = length fs") auto
    have less: "?k < ?k'" using False kk by simp
    have le: "offset_of fs w \<le> ?k'" using rc(2) kk by simp
    have len: "r_packet_len ?b = 0 \<or> r_packet_len ?b = of_nat (length (fs ! w))" using rc(4) by auto
    have fl: "r_flags ?b = restore_flags decomp full" "r_stream ?b = full AND STREAMMASK_TYPE" using flags(1,2) by simp_all
    have rs: "restored (concat (take w ds)) (dig @ concat (take w ds)) ?b" using rc(7) by simp
    obtain r' where r': "(let u = unser_crypto_packet_len ?b; n = sint (r_packet_len u)
         in if r_packet_len u = 0 \<or> int (length (r_buf u)) < n then Some (Ret (True, u))
            else if n < int CRYPTO_LEN_SIZE then Some (Dies Out_of_bounds)
            else bind_run (extract_plain env cfg (take (nat n - CRYPTO_LEN_SIZE) (drop CRYPTO_LEN_SIZE (r_buf u))) u)
                   (\<lambda>(ok, r). Some (Ret (ok, if ok then r\<lparr>r_buf := drop (nat n) (r_buf r), r_packet_len := 0\<rparr> else r)))) = Some (Ret (True, r'))"
        "same_frame (?b\<lparr>r_buf := r_buf r', r_packet_len := r_packet_len r'\<rparr>) r'"
        "if offset_of fs (Suc w) \<le> ?k'
         then r_packet_len r' = 0 \<and> r_buf r' = drop (offset_of fs (Suc w)) (take ?k' ?P) \<and>
           restored (concat (take (Suc w) ds)) (dig @ concat (take (Suc w) ds)) r'
         else (r_packet_len r' = 0 \<or> r_packet_len r' = of_nat (length (fs ! w))) \<and> r_buf r' = r_buf ?b \<and>
           restored (concat (take w ds)) (dig @ concat (take w ds)) r'"
      using enc_packet [OF set small w buf le k' len fl rs] by blast
    have pr: "prep full r' = r'" by (rule again) (use r'(2) in \<open>simp add: same_frame_def\<close>)
    have same: "r_cipher r' = Some (decst (C @ m))" "r_extract r'" "r_decomp r' = decomp" using r'(2) rc(5,6) by (simp_all add: same_frame_def)
    have "receiving full decomp bs decst ds fs dig (advance bs fs (length C) (length (C @ m)) w) (C @ m) r'"
      using r'(3) less w le pr same buf m(1) unfolding receiving_def advance_def by (simp split: if_splits del: length_append)
    moreover have "extract_data env cfg m r = Some (Ret (True, r'))"
      using r'(1) flags(3) r(3) upd False by (simp add: extract_data_def Let_def)
    ultimately show ?thesis by blast
  qed
qed

lemma enc_record:
  assumes laws: "cipher_laws env bs encst decst S F" and set: "enc_setup env cfg b full decomp ds fs" and small: "length (concat ds) < 2 ^ 63"
    and r: "receiving full decomp bs decst ds fs dig w C r"
    and m: "m \<noteq> []" "take (length (C @ m)) (S (concat fs) @ F (concat fs)) = C @ m"
  shows "\<exists>r'. restore_record env cfg full m r = Some (Ret r') \<and>
     receiving full decomp bs decst ds fs dig (advance bs fs (length C) (length (C @ m)) w) (C @ m) r'"
proof -
  let ?r = "(prep full r)\<lparr>r_cipher := Some (decst C)\<rparr>"
  have rc: "r_extract r" "r_decomp r = decomp" "r_cipher r = Some (decst C) \<or> C = [] \<and> r_cipher r = None"
    using r by (simp_all add: receiving_def)
  have new: "cipher_new env False = Some (decst [])" using laws by (simp add: cipher_laws_def)
  have fixed: "prep full ?r = ?r" by (rule prep_again [of _ r]) simp_all
  have "receiving full decomp bs decst ds fs dig w C ?r"
    using r unfolding receiving_def fixed by simp
  from enc_extract [OF laws set small this fixed _ m] obtain r' where
      r': "extract_data env cfg m ?r = Some (Ret (True, r'))"
        "receiving full decomp bs decst ds fs dig (advance bs fs (length C) (length (C @ m)) w) (C @ m) r'" by auto
  have eq: "(if has_flag (r_flags (prep full r)) FO_ENCRYPT \<and> r_cipher (prep full r) = None
      then (prep full r)\<lparr>r_cipher := cipher_new env False\<rparr> else prep full r) = ?r"
    using rc(2,3) new enc_flags(1) [OF set] by auto
  have "restore_record env cfg full m r = Some (Ret r')"
    unfolding restore_record_prep [OF rc(1)] Let_def eq using r'(1) by simp
  then show ?thesis using r'(2) by blast
qed

section \<open>The packets of an encrypted file\<close>

text \<open>
  A message holds at most one block less than what was encrypted, and \<open>extract_data\<close> stores at most one packet for it. With
  packets of at least a block the restore falls behind by two packets at most.
\<close>

lemma released_mult: "0 < bs \<Longrightarrow> released bs (q * bs) = (q - 1) * bs"
  using released_block [of bs "q - 1"] by (cases q) (simp_all add: released_def add.commute)

lemma advance_le: "w \<le> advance bs fs n n' w"
  by (simp add: advance_def)

lemma last_two:
  assumes "length xs = Suc (Suc n)"
  obtains ys x y where "xs = ys @ [x, y]" and "length ys = n"
proof -
  have "xs = take n xs @ [xs ! n, xs ! Suc n]"
    using assms by (metis Cons_nth_drop_Suc append_take_drop_id drop_all less_Suc_eq order_refl)
  then show ?thesis using that [of "take n xs" "xs ! n" "xs ! Suc n"] assms by simp
qed

lemma below_multiple: "0 < (bs :: nat) \<Longrightarrow> p < p div bs * bs + bs"
  by (metis add.commute div_mult_mod_eq mod_less_divisor nat_add_left_cancel_less)

lemma one_block_more: "1 \<le> (q :: nat) \<Longrightarrow> q * bs = (q - 1) * bs + bs"
  by (cases q) simp_all

lemma keep_up:
  assumes bs: "0 < bs" and fs: "fs = done @ f # todo" and big: "list_all (\<lambda>f. bs \<le> length f) (done @ [f])" and w: "length done \<le> w + 2"
  shows "Suc (length done) \<le> advance bs fs (length (concat done) div bs * bs) (length (concat done @ f) div bs * bs) w + 2"
proof (cases "length done \<le> w + 1")
  case True
  moreover have "w \<le> advance bs fs (length (concat done) div bs * bs) (length (concat done @ f) div bs * bs) w" by (rule advance_le)
  ultimately show ?thesis by linarith
next
  case False
  then obtain D x y where d: "done = D @ [x, y]" "length D = w" using last_two [of "done" w] w by auto
  let ?p = "length (concat done)" and ?n = "length f"
  let ?q = "?p div bs" and ?q' = "(?p + ?n) div bs"
  have sizes: "bs \<le> length x" "bs \<le> length y" "bs \<le> ?n" "?p = length (concat D) + length x + length y" using big d(1) by auto
  have off: "offset_of fs (Suc w) = length (concat D) + length x" using fs d by (simp add: offset_of_def)
  have "(?p + bs) div bs \<le> ?q'" using sizes(3) by (intro div_le_mono) simp
  then have q': "?q + 1 \<le> ?q'" using div_add_self2 [of bs ?p] bs by linarith
  have "(bs + bs) div bs \<le> ?q" using sizes by (intro div_le_mono) linarith
  then have q: "2 \<le> ?q" using div_add_self2 [of bs bs] bs by simp
  have lt: "(?q - 1) * bs < (?q' - 1) * bs" using q q' bs by (intro mult_strict_right_mono) linarith+
  have "?p + ?n < ?q' * bs + bs" by (rule below_multiple [OF bs])
  moreover have "?q' * bs = (?q' - 1) * bs + bs" using q' by (intro one_block_more) linarith
  ultimately have "offset_of fs (Suc w) \<le> (?q' - 1) * bs" using sizes off by linarith
  moreover have "length done = w + 2" "w < length fs" using fs d by simp_all
  ultimately show ?thesis
    using lt by (simp add: advance_def released_mult [OF bs] del: length_concat)
qed

lemma catch_up:
  assumes bs: "0 < bs" and big: "list_all (\<lambda>f. bs \<le> length f) (butlast fs)" and w: "length fs \<le> w + 3"
  shows "length fs \<le> advance bs fs (length (concat fs) div bs * bs) (length (concat fs) div bs * bs + bs) w + 2"
proof (cases "length fs \<le> w + 2")
  case True
  moreover have "w \<le> advance bs fs (length (concat fs) div bs * bs) (length (concat fs) div bs * bs + bs) w" by (rule advance_le)
  ultimately show ?thesis by linarith
next
  case False
  then have n: "length fs = Suc (Suc (Suc w))" using w by simp
  then obtain D x y where d: "butlast fs = D @ [x, y]" "length D = w" using last_two [of "butlast fs" w] by auto
  have fs: "fs = D @ [x, y, last fs]" using d(1) n append_butlast_last_id [of fs] by (metis append.assoc append_Cons append_Nil length_0_conv nat.distinct(1))
  let ?p = "length (concat fs)"
  have p: "?p = length (concat D) + length x + length y + length (last fs)" by (subst fs) simp
  have sizes: "bs \<le> length x" "bs \<le> length y" using big d(1) by auto
  have off: "offset_of fs (Suc w) = length (concat D) + length x" using d(2) by (subst fs) (simp add: offset_of_def)
  have "bs div bs \<le> ?p div bs" using sizes p by (intro div_le_mono) linarith
  then have q: "1 \<le> ?p div bs" using bs by simp
  have lt: "(?p div bs - 1) * bs < ?p div bs * bs" using q bs by (intro mult_strict_right_mono) linarith+
  have "?p < ?p div bs * bs + bs" by (rule below_multiple [OF bs])
  then have "offset_of fs (Suc w) \<le> ?p div bs * bs" using sizes off p by linarith
  then show ?thesis using lt n by (simp add: advance_def released_mult [OF bs] released_block [OF bs])
qed

lemma cipher_prefix:
  assumes "cipher_laws env bs encst decst S F"
  shows "S (P @ Q) = S P @ drop (length (S P)) (S (P @ Q))" and "length (S P) = length P div bs * bs" and "0 < bs" and "S [] = []"
proof -
  have len: "length (S P) = length P div bs * bs" for P using assms by (simp add: cipher_laws_def)
  have "\<exists>out. S (P @ Q) = S P @ out" using assms unfolding cipher_laws_def by blast
  then show "S (P @ Q) = S P @ drop (length (S P)) (S (P @ Q))" by auto
  show "length (S P) = length P div bs * bs" by (rule len)
  show "S [] = []" using len [of "[]"] by simp
qed (use assms in \<open>simp add: cipher_laws_def\<close>)

lemma enc_frame:
  assumes laws: "cipher_laws env bs encst decst S F" and set: "enc_setup env cfg b full decomp ds fs" and small: "length (concat ds) < 2 ^ 63"
    and fs: "fs = done @ f # todo" and r: "receiving full decomp bs decst ds fs dig w (S (concat done)) r"
  shows "\<exists>r'. restore_records env cfg full (cipher_msgs S (concat done) (f # todo) @ rest) r =
       restore_records env cfg full (cipher_msgs S (concat (done @ [f])) todo @ rest) r' \<and>
     receiving full decomp bs decst ds fs dig (advance bs fs (length (concat done) div bs * bs) (length (concat done @ f) div bs * bs) w)
       (S (concat (done @ [f]))) r'"
proof -
  let ?P = "concat done" and ?m = "drop (length (S (concat done))) (S (concat done @ f))"
  have C: "S ?P @ ?m = S (?P @ f)" using cipher_prefix(1) [OF laws, of ?P f] by simp
  have n: "length (S ?P) = length ?P div bs * bs" "length (S (?P @ f)) = length (?P @ f) div bs * bs" by (rule cipher_prefix(2) [OF laws])+
  show ?thesis
  proof (cases "?m = []")
    case True
    then have "S (?P @ f) = S ?P" using C by simp
    moreover from this have "advance bs fs (length ?P div bs * bs) (length (?P @ f) div bs * bs) w = w"
      unfolding n [symmetric] by (simp add: advance_def)
    ultimately show ?thesis using True r by (intro exI [of _ r]) simp
  next
    case False
    have "concat fs = (?P @ f) @ concat todo" using fs by simp
    then have "S (concat fs) = S (?P @ f) @ drop (length (S (?P @ f))) (S (concat fs))" using cipher_prefix(1) [OF laws, of "?P @ f" "concat todo"] by simp
    then have "take (length (S ?P @ ?m)) (S (concat fs) @ F (concat fs)) = S ?P @ ?m"
      unfolding C by (metis append.assoc append_eq_conv_conj)
    from enc_record [OF laws set small r False this] obtain r' where
        r': "restore_record env cfg full ?m r = Some (Ret r')"
          "receiving full decomp bs decst ds fs dig (advance bs fs (length (S ?P)) (length (S (?P @ f))) w) (S (?P @ f)) r'"
      unfolding C by blast
    then show ?thesis using False unfolding n [symmetric] by (intro exI [of _ r']) (simp add: Let_def)
  qed
qed

lemma enc_frames:
  assumes laws: "cipher_laws env bs encst decst S F" and set: "enc_setup env cfg b full decomp ds fs" and small: "length (concat ds) < 2 ^ 63"
    and "fs = done @ todo @ tail" and "list_all (\<lambda>f. bs \<le> length f) (done @ todo)" and "length done \<le> w + 2"
    and "receiving full decomp bs decst ds fs dig w (S (concat done)) r"
  shows "\<exists>w' r'. restore_records env cfg full (cipher_msgs S (concat done) (todo @ tail) @ rest) r =
       restore_records env cfg full (cipher_msgs S (concat (done @ todo)) tail @ rest) r' \<and>
     length (done @ todo) \<le> w' + 2 \<and> receiving full decomp bs decst ds fs dig w' (S (concat (done @ todo))) r'"
  using assms(4-7)
proof (induction todo arbitrary: "done" w r)
  case Nil
  then show ?case by auto
next
  case (Cons f todo)
  let ?w = "advance bs fs (length (concat done) div bs * bs) (length (concat done @ f) div bs * bs) w"
  obtain r1 where r1: "restore_records env cfg full (cipher_msgs S (concat done) (f # todo @ tail) @ rest) r =
        restore_records env cfg full (cipher_msgs S (concat (done @ [f])) (todo @ tail) @ rest) r1"
      "receiving full decomp bs decst ds fs dig ?w (S (concat (done @ [f]))) r1"
    using enc_frame [OF laws set small _ Cons.prems(4), of f "todo @ tail"] Cons.prems(1) by auto
  have "length (done @ [f]) \<le> ?w + 2"
    using keep_up [OF cipher_prefix(3) [OF laws], of fs "done" f "todo @ tail" w] Cons.prems(1-3) by simp
  from Cons.IH [OF _ _ this r1(2)] show ?case using Cons.prems(1,2) r1(1) by simp
qed

text \<open>A pass of \<open>flush_cipher\<close>: the next packet is complete, with whatever the cipher added behind it.\<close>

lemma enc_flush_pass:
  assumes set: "enc_setup env cfg b full decomp ds fs" and small: "length (concat ds) < 2 ^ 63" and w: "w < length fs"
    and r: "r_buf r @ plain = drop (offset_of fs w) (concat fs) @ xs" "r_packet_len r = 0 \<or> r_packet_len r = of_nat (length (fs ! w))"
      "r_flags r = restore_flags decomp full" "restored (concat (take w ds)) (dig @ concat (take w ds)) r"
    and stream: "has_flag (restore_flags decomp full) FO_COMPRESS \<longrightarrow> stream = full AND STREAMMASK_TYPE"
    and fin: "cipher_final env c = (ok, c', plain)"
  shows "\<exists>r'. flush_pass env cfg stream c r = Some (Ret (True, r_buf r' \<noteq> [], r')) \<and> r_buf r' = drop (offset_of fs (Suc w)) (concat fs) @ xs \<and>
     r_packet_len r' = 0 \<and> r_cipher r' = Some c' \<and> r_flags r' = r_flags r \<and> r_extract r' = r_extract r \<and>
     restored (concat (take (Suc w) ds)) (dig @ concat (take (Suc w) ds)) r'"
proof -
  obtain z where z: "fs ! w = frame z" "length z < 2 ^ 31 - 4" by (rule enc_setup_frame [OF set w])
  let ?b = "r\<lparr>r_cipher := Some c', r_buf := r_buf r @ plain\<rparr>" and ?n = "of_nat (length (frame z)) :: int32_t"
  have buf: "r_buf ?b = frame z @ concat (drop (Suc w) fs) @ xs" using r(1) drop_offset [OF w] z(1) by simp
  have off: "drop (length (frame z)) (r_buf ?b) = drop (offset_of fs (Suc w)) (concat fs) @ xs"
    unfolding buf using drop_offset [OF w] z(1) offset_Suc [OF w]
    by (metis append_eq_conv_conj append.assoc add.commute drop_drop)
  have n: "sint ?n = int (length (frame z))" using z(2) by (intro signed_length(1)) (simp add: length_frame)
  let ?u = "?b\<lparr>r_packet_len := ?n\<rparr>"
  have "r_buf ?b = take (length (r_buf ?b)) (frame z @ concat (drop (Suc w) fs) @ xs)" unfolding buf by simp
  from packet_len_read [OF this] have u: "unser_crypto_packet_len ?b = ?u"
    using r(2) z(1) buf by (simp add: length_frame)
  have fl: "r_flags ?u = restore_flags decomp full" using r(3) by simp
  have "restored (concat (take w ds)) (dig @ concat (take w ds)) ?u" using r(4) by simp
  from store_framed [OF set w z(1) fl this small stream] obtain m r' where
      r': "store_packet env cfg stream z ?u = Some (Ret (True, m, r'))" "same_frame ?u r'"
        "restored (concat (take (Suc w) ds)) (dig @ concat (take (Suc w) ds)) r'" by blast
  let ?r' = "r'\<lparr>r_buf := drop (length (frame z)) (r_buf r'), r_packet_len := 0\<rparr>"
  have rb: "r_buf r' = r_buf ?b" using r'(2) by (simp add: same_frame_def)
  have "0 < length (r_buf ?b)" unfolding buf by (simp add: length_frame)
  then have ne: "\<not> (plain = [] \<and> r_buf r = [])" by auto
  have data: "take (length (frame z) - CRYPTO_LEN_SIZE) (drop CRYPTO_LEN_SIZE (r_buf ?b)) = z"
    unfolding buf by (simp add: frame_def CRYPTO_LEN_SIZE_def)
  have ok: "\<not> (sint ?n < int CRYPTO_LEN_SIZE \<or> int (length (r_buf ?b)) < sint ?n)" "nat (sint ?n) = length (frame z)"
    unfolding n buf by (simp_all add: length_frame CRYPTO_LEN_SIZE_def)
  have c1: "(plain = [] \<and> r_buf r = []) = False" using ne by simp
  have u': "unser_crypto_packet_len (r\<lparr>r_cipher := Some c', r_buf := r_buf r @ plain\<rparr>) = ?u" using u by simp
  have pass: "flush_pass env cfg stream c r = Some (Ret (True, r_buf ?r' \<noteq> [], ?r'))"
    using ok data r'(1) by (simp add: flush_pass_def Let_def fin c1 u')
  have "r_buf ?r' = drop (offset_of fs (Suc w)) (concat fs) @ xs" using off rb by simp
  moreover have "r_cipher ?r' = Some c'" "r_flags ?r' = r_flags r" "r_extract ?r' = r_extract r" using r'(2) by (simp_all add: same_frame_def)
  moreover have "restored (concat (take (Suc w) ds)) (dig @ concat (take (Suc w) ds)) ?r'" using r'(3) by simp
  ultimately show ?thesis using pass by (intro exI [of _ ?r']) simp
qed

lemma restored_plain_file:
  assumes "restored content dig r" and "\<not> has_flag (r_flags r) FO_SPARSE"
  shows "r_file r = content" and "r_digest r = dig"
  using assms by (auto simp: restored_def)

lemma enc_flush:
  assumes laws: "cipher_laws env bs encst decst S F" and set: "enc_setup env cfg b full decomp ds fs" and small: "length (concat ds) < 2 ^ 63"
    and r: "receiving full decomp bs decst ds fs dig w (S (concat fs) @ F (concat fs)) r" and w: "length fs \<le> w + 2"
  shows "\<exists>r'. deallocate_cipher env cfg r = Some (Ret r') \<and> r_file r' = concat ds \<and> r_digest r' = dig @ concat ds \<and> r_extract r'"
proof -
  let ?P = "concat fs" and ?s = "comp_stream r"
  have ds: "length ds = length fs" using set by (simp add: enc_setup_def)
  have bs: "0 < bs" by (rule cipher_prefix(3) [OF laws])
  have len: "length (S ?P @ F ?P) = length ?P div bs * bs + bs" using laws by (simp add: cipher_laws_def)
  then have "S ?P @ F ?P \<noteq> []" using bs by (metis add_is_0 length_0_conv less_not_refl)
  then have rc: "w \<le> length fs" "offset_of fs w \<le> length ?P div bs * bs" "r_cipher r = Some (decst (S ?P @ F ?P))"
      "r_buf r = drop (offset_of fs w) (take (length ?P div bs * bs) ?P)" "r_packet_len r = 0 \<or> w < length fs \<and> r_packet_len r = of_nat (length (fs ! w))"
      "r_extract r" "r_decomp r = decomp" "prep full r = r" "restored (concat (take w ds)) (dig @ concat (take w ds)) r"
    using r released_block [OF bs] unfolding receiving_def len by auto
  have fl: "r_flags r = restore_flags decomp full" using rc(7,8) prep_simps(2) [of full r] by simp
  have stream: "has_flag (restore_flags decomp full) FO_COMPRESS \<longrightarrow> ?s = full AND STREAMMASK_TYPE"
    using arg_cong [OF rc(8), of comp_stream] rc(7) by (auto simp: prep_def Let_def split: if_splits)
  have whole: "r_file r' = concat ds \<and> r_digest r' = dig @ concat ds" if "restored (concat (take n ds)) (dig @ concat (take n ds)) r'"
      "r_flags r' = restore_flags decomp full" "n = length fs" for n and r' :: "'a rctx"
    using restored_plain_file [OF that(1)] that(2,3) enc_flags(2) [OF set] ds by simp
  obtain c where c: "cipher_final env (decst (S ?P @ F ?P)) = (True, c, drop (length ?P div bs * bs) ?P)"
    using laws unfolding cipher_laws_def by blast
  have all: "r_buf r @ drop (length ?P div bs * bs) ?P = drop (offset_of fs w) ?P @ []"
    using drop_take_append [OF rc(2) _ order_refl, of ?P] by (simp add: rc(4))
  consider "w = length fs" | "Suc w = length fs" | "Suc (Suc w) = length fs" using w rc(1) by linarith
  then show ?thesis
  proof cases
    case 1
    then have "r_buf r = [] \<and> drop (length ?P div bs * bs) ?P = []" using all offset_all [of fs] by simp
    then have "deallocate_cipher env cfg r = Some (Ret (r\<lparr>r_cipher := None\<rparr>))"
      using rc(3) c by (simp add: deallocate_cipher_def flush_cipher_def flush_pass_def)
    then show ?thesis using whole [OF rc(9) fl 1] rc(6) by simp
  next
    case 2
    have wl: "w < length fs" using 2 by simp
    obtain r1 where r1: "flush_pass env cfg ?s (decst (S ?P @ F ?P)) r = Some (Ret (True, r_buf r1 \<noteq> [], r1))" "r_buf r1 = drop (offset_of fs (Suc w)) ?P @ []"
        "r_flags r1 = r_flags r" "r_extract r1 = r_extract r" "restored (concat (take (Suc w) ds)) (dig @ concat (take (Suc w) ds)) r1"
      using enc_flush_pass [OF set small wl all _ fl rc(9) stream c] rc(5) by blast
    have "r_buf r1 = []" using r1(2) 2 offset_all [of fs] by simp
    then have "deallocate_cipher env cfg r = Some (Ret (r1\<lparr>r_cipher := None\<rparr>))"
      using rc(3) r1(1) by (simp add: deallocate_cipher_def flush_cipher_def)
    then show ?thesis using whole [OF r1(5) _ 2] r1(3,4) rc(6) fl by simp
  next
    case 3
    have wl: "w < length fs" "Suc w < length fs" using 3 by simp_all
    obtain r1 where r1: "flush_pass env cfg ?s (decst (S ?P @ F ?P)) r = Some (Ret (True, r_buf r1 \<noteq> [], r1))" "r_buf r1 = drop (offset_of fs (Suc w)) ?P @ []"
        "r_packet_len r1 = 0" "r_cipher r1 = Some c"
        "r_flags r1 = r_flags r" "r_extract r1 = r_extract r" "restored (concat (take (Suc w) ds)) (dig @ concat (take (Suc w) ds)) r1"
      using enc_flush_pass [OF set small wl(1) all _ fl rc(9) stream c] rc(5) by blast
    have more: "r_buf r1 \<noteq> []"
      using enc_setup_frame [OF set wl(2)] r1(2) drop_offset [OF wl(2)] length_frame by (metis Nil_is_append_conv add_is_0 length_0_conv zero_neq_numeral)
    obtain ok c2 p2 where c2: "cipher_final env c = (ok, c2, p2)" by (cases "cipher_final env c") auto
    have fl1: "r_flags r1 = restore_flags decomp full" using r1(5) fl by simp
    have buf2: "r_buf r1 @ p2 = drop (offset_of fs (Suc w)) ?P @ p2" using r1(2) by simp
    obtain r2 where r2: "flush_pass env cfg ?s c r1 = Some (Ret (True, r_buf r2 \<noteq> [], r2))" "r_flags r2 = r_flags r1" "r_extract r2 = r_extract r1"
        "restored (concat (take (Suc (Suc w)) ds)) (dig @ concat (take (Suc (Suc w)) ds)) r2"
      using enc_flush_pass [OF set small wl(2) buf2 _ fl1 r1(7) stream c2] r1(3) by blast
    have "deallocate_cipher env cfg r = Some (Ret (r2\<lparr>r_buf := [], r_packet_len := 0, r_cipher := None\<rparr>))"
      using rc(3) r1(1,4) more r2(1) by (simp add: deallocate_cipher_def flush_cipher_def)
    then show ?thesis using whole [OF r2(4) _ 3] r2(2,3) r1(6) rc(6) fl1 by simp
  qed
qed

lemma enc_all_frames:
  assumes laws: "cipher_laws env bs encst decst S F" and set: "enc_setup env cfg b full decomp ds fs" and small: "length (concat ds) < 2 ^ 63"
    and big: "list_all (\<lambda>f. bs \<le> length f) (butlast fs)" and r: "receiving full decomp bs decst ds fs dig 0 [] r"
  shows "\<exists>w r'. restore_records env cfg full (cipher_msgs S [] fs @ rest) r = restore_records env cfg full rest r' \<and>
     length fs \<le> w + 3 \<and> receiving full decomp bs decst ds fs dig w (S (concat fs)) r'"
proof (cases "fs = []")
  case True
  then show ?thesis using r cipher_prefix(4) [OF laws] by (intro exI [of _ 0] exI [of _ r]) simp
next
  case False
  then have fs: "fs = butlast fs @ [last fs]" by simp
  have r0: "receiving full decomp bs decst ds fs dig 0 (S (concat [])) r" using r cipher_prefix(4) [OF laws] by simp
  obtain w r1 where r1: "restore_records env cfg full (cipher_msgs S (concat []) (butlast fs @ [last fs]) @ rest) r =
        restore_records env cfg full (cipher_msgs S (concat ([] @ butlast fs)) [last fs] @ rest) r1"
      "length ([] @ butlast fs) \<le> w + 2" "receiving full decomp bs decst ds fs dig w (S (concat ([] @ butlast fs))) r1"
    using enc_frames [OF laws set small _ _ _ r0, of "butlast fs" "[last fs]" rest] fs big by auto
  let ?w = "advance bs fs (length (concat (butlast fs)) div bs * bs) (length (concat (butlast fs) @ last fs) div bs * bs) w"
  obtain r2 where r2: "restore_records env cfg full (cipher_msgs S (concat (butlast fs)) [last fs] @ rest) r1 =
        restore_records env cfg full (cipher_msgs S (concat (butlast fs @ [last fs])) [] @ rest) r2"
      "receiving full decomp bs decst ds fs dig ?w (S (concat (butlast fs @ [last fs]))) r2"
    using enc_frame [OF laws set small fs, of dig w r1 rest] r1(3) by auto
  have "w \<le> ?w" by (rule advance_le)
  then have "length fs \<le> ?w + 3" using r1(2) by simp
  moreover have "restore_records env cfg full (cipher_msgs S [] fs @ rest) r = restore_records env cfg full rest r2"
    using r1(1) r2(1) fs by simp
  ultimately show ?thesis using r2(2) fs by (intro exI [of _ ?w] exI [of _ r2]) simp
qed

lemma restore_encrypted:
  assumes laws: "cipher_laws env bs encst decst S F" and set: "enc_setup env cfg b full decomp ds fs" and small: "length (concat ds) < 2 ^ 63"
    and big: "list_all (\<lambda>f. bs \<le> length f) (butlast fs)" and r: "receiving full decomp bs decst ds fs dig 0 [] r"
  shows "\<exists>r'. restore_records env cfg full (cipher_msgs S [] fs @ [F (concat fs)]) r = Some (Ret r') \<and>
     r_file r' = concat ds \<and> r_digest r' = dig @ concat ds \<and> r_extract r'"
proof -
  let ?P = "concat fs"
  obtain w r1 where r1: "restore_records env cfg full (cipher_msgs S [] fs @ [F ?P]) r = restore_records env cfg full [F ?P] r1"
      "length fs \<le> w + 3" "receiving full decomp bs decst ds fs dig w (S ?P) r1"
    using enc_all_frames [OF laws set small big r] by blast
  have bs: "0 < bs" by (rule cipher_prefix(3) [OF laws])
  have len: "length (S ?P) = length ?P div bs * bs" "length (F ?P) = bs" using laws by (simp_all add: cipher_laws_def)
  have "F ?P \<noteq> []" using len(2) bs by auto
  moreover have "take (length (S ?P @ F ?P)) (S ?P @ F ?P) = S ?P @ F ?P" by simp
  ultimately obtain r2 where r2: "restore_record env cfg full (F ?P) r1 = Some (Ret r2)"
      "receiving full decomp bs decst ds fs dig (advance bs fs (length (S ?P)) (length (S ?P @ F ?P)) w) (S ?P @ F ?P) r2"
    using enc_record [OF laws set small r1(3)] by blast
  have "length fs \<le> advance bs fs (length (S ?P)) (length (S ?P @ F ?P)) w + 2"
    using catch_up [OF bs big r1(2)] len by simp
  from enc_flush [OF laws set small r2(2) this] obtain r' where
      "deallocate_cipher env cfg r2 = Some (Ret r')" "r_file r' = concat ds" "r_digest r' = dig @ concat ds" "r_extract r'" by blast
  moreover have "r_extract r2" using r2(2) by (simp add: receiving_def)
  ultimately show ?thesis using r1(1) r2(1) by simp
qed

section \<open>A file\<close>

text \<open>The stream that \<open>send_data\<close> announces and the filters that \<open>do_restore\<close> takes from it.\<close>

definition announced :: "FF_PKT \<Rightarrow> int32_t \<Rightarrow> int32_t" where
  "announced ff stream = (if has_flag (ff_flags ff) FO_OFFSETS then stream OR STREAM_BIT_OFFSETS else stream)"

lemma announced_stream:
  assumes "stream AND STREAMMASK_TYPE = stream"
  shows "announced ff stream AND STREAMMASK_TYPE = stream" and "announced ff stream AND STREAM_BIT_OFFSETS \<noteq> 0 \<longleftrightarrow> has_flag (ff_flags ff) FO_OFFSETS"
proof -
  have m: "STREAM_BIT_OFFSETS AND STREAMMASK_TYPE = 0" "STREAMMASK_TYPE AND STREAM_BIT_OFFSETS = 0" "STREAM_BIT_OFFSETS \<noteq> 0"
    by (simp_all add: STREAM_BIT_OFFSETS_def stream_mask)
  show "announced ff stream AND STREAMMASK_TYPE = stream"
    using assms m by (simp add: announced_def bit.conj_disj_distrib2)
  have "stream AND STREAM_BIT_OFFSETS = 0" using assms m(2) by (metis and.assoc and_zero_eq)
  then show "announced ff stream AND STREAM_BIT_OFFSETS \<noteq> 0 \<longleftrightarrow> has_flag (ff_flags ff) FO_OFFSETS"
    using m(3) by (simp add: announced_def bit.conj_disj_distrib2)
qed

lemma filters_agree:
  assumes sel: "ff_select_data_stream cfg portable ff0 = Ret (stream, ff)" and crypto: "HAVE_CRYPTO cfg" and win: "portable \<or> \<not> decomp"
  shows "same_filters cfg ff (announced ff stream AND STREAMMASK_TYPE) (restore_flags decomp (announced ff stream))"
    and "\<not> (has_flag (ff_flags ff) FO_SPARSE \<and> has_flag (ff_flags ff) FO_ENCRYPT)"
proof -
  have f: "ff = ff0\<lparr>ff_flags := ff_flags ff\<rparr>" "is_win32_stream stream \<longrightarrow> \<not> portable" "stream AND STREAMMASK_TYPE = stream"
     "has_flag (restore_flags decomp stream) FO_SPARSE \<longleftrightarrow> has_flag (ff_flags ff) FO_SPARSE"
     "has_flag (restore_flags decomp stream) FO_ENCRYPT \<longleftrightarrow> has_flag (ff_flags ff) FO_ENCRYPT"
     "has_flag (restore_flags decomp stream) FO_COMPRESS \<longleftrightarrow> has_flag (ff_flags ff) FO_COMPRESS \<and>
        (HAVE_LIBZ cfg \<and> Compress_algo ff0 = COMPRESS_GZIP \<or> HAVE_LZO cfg \<and> Compress_algo ff0 = COMPRESS_LZO1X)"
     "is_lzo_stream stream \<longleftrightarrow> has_flag (ff_flags ff) FO_COMPRESS \<and> HAVE_LZO cfg \<and> Compress_algo ff0 = COMPRESS_LZO1X"
     "\<not> (has_flag (ff_flags ff) FO_SPARSE \<and> has_flag (ff_flags ff) FO_ENCRYPT)"
    using select_filters [of ff0 portable cfg decomp] sel crypto by auto
  have algo: "Compress_algo ff0 = Compress_algo ff" by (subst f(1)) simp
  note a = announced_stream [OF f(3), of ff]
  have w: "is_win32_stream (announced ff stream) \<longleftrightarrow> is_win32_stream stream" unfolding is_win32_stream_def a(1) f(3) ..
  show "same_filters cfg ff (announced ff stream AND STREAMMASK_TYPE) (restore_flags decomp (announced ff stream))"
    using f(2,4-7) win a(2) unfolding same_filters_def restore_flag_bits a(1) f(3) w algo gzip_on_def lzo_on_def by blast
  show "\<not> (has_flag (ff_flags ff) FO_SPARSE \<and> has_flag (ff_flags ff) FO_ENCRYPT)" by (rule f(8))
qed

text \<open>The size of the compression buffer of \<open>blast_data_to_storage_daemon\<close>.\<close>

definition compress_room :: "bool \<Rightarrow> nat \<Rightarrow> nat" where
  "compress_room have_lzo n =
     (if have_lzo then max (n + n div 16 + 67 + comp_stream_header_size) (n + (n + 999) div 1000 + 30) else n + (n + 999) div 1000 + 30)"

text \<open>
  A backup context before \<open>send_data\<close>, and the reads of a file that does not shrink while it is read. A restore context
  before the first data record of a file.
\<close>

definition backup_ready :: "build \<Rightarrow> 'c bctx \<Rightarrow> byte list list \<Rightarrow> bool" where
  "backup_ready cfg b ds \<longleftrightarrow>
     sd_script b = [] \<and> sd_sent b = [] \<and> b_digest b = [] \<and> b_buf_size b < 2 ^ 28 \<and> b_compress_buf_size b = compress_room (HAVE_LZO cfg) (b_buf_size b) \<and>
     list_all (\<lambda>d. d \<noteq> [] \<and> length d \<le> b_buf_size b) ds \<and> sized (b_ff b) \<and> unat (ff_size (b_ff b)) \<le> length (concat ds) \<and> length (concat ds) < 2 ^ 63"

definition restore_ready :: "'c rctx \<Rightarrow> bool" where
  "restore_ready r \<longleftrightarrow>
     r_extract r \<and> r_cipher r = None \<and> r_buf r = [] \<and> r_packet_len r = 0 \<and> r_file r = [] \<and> r_pos r = 0 \<and> r_fileAddr r = 0 \<and>
     r_digest r = [] \<and> 2 \<le> sint (r_compress_buf_size r)"

definition packet_lengths :: "'c fd_env \<Rightarrow> build \<Rightarrow> 'c bctx \<Rightarrow> byte list list \<Rightarrow> nat list" where
  "packet_lengths env cfg b ds = map (\<lambda>d. length (the (compressed env cfg (setup_compression cfg b) d))) ds"

text \<open>The context at the start of the loop over the reads.\<close>

definition started :: "build \<Rightarrow> int32_t \<Rightarrow> 'c option \<Rightarrow> 'c bctx \<Rightarrow> 'c bctx" where
  "started cfg stream c b =
     (setup_compression cfg (b\<lparr>b_rsize := b_buf_size b, b_fileAddr := 0, b_cipher := None\<rparr>))\<lparr>b_cipher := c, sd_stream := announced (b_ff b) stream,
        b_rsize := (if has_flag (b_flags b) FO_SPARSE then b_buf_size b - OFFSET_FADDR_SIZE else b_buf_size b)\<rparr>"

lemma started_simps:
  "b_ff (started cfg stream c b) = b_ff b" "sd_script (started cfg stream c b) = sd_script b" "sd_sent (started cfg stream c b) = sd_sent b"
  "b_digest (started cfg stream c b) = b_digest b" "b_cipher (started cfg stream c b) = c" "b_fileAddr (started cfg stream c b) = 0"
  "sd_stream (started cfg stream c b) = announced (b_ff b) stream"
  "max_compress_len (started cfg stream c b) = max_compress_len (setup_compression cfg b)"
  by (auto simp: started_def setup_compression_def Let_def)

lemma started_room:
  assumes "backup_ready cfg b ds" and "d \<in> set ds"
  shows "room_ok cfg (started cfg stream c b) (length d)"
proof -
  let ?n = "length d" and ?m = "b_buf_size b"
  have n: "?n \<le> ?m" "?m < 2 ^ 28" "b_compress_buf_size b = compress_room (HAVE_LZO cfg) ?m" using assms by (auto simp: backup_ready_def list_all_iff)
  have mono: "?n div 16 \<le> ?m div 16" "(?n + 999) div 1000 \<le> (?m + 999) div 1000" using n(1) by (auto intro: div_le_mono)
  have small: "compress_room (HAVE_LZO cfg) ?m < 2 ^ 30" using n(2) by (auto simp: compress_room_def comp_stream_header_size_def)
  have "max_compress_len (setup_compression cfg b) \<le> b_compress_buf_size b" by (auto simp: setup_compression_def Let_def)
  moreover have "gzip_on cfg (b_ff b) \<Longrightarrow> compress_room (HAVE_LZO cfg) ?m - 8 \<le> max_compress_len (setup_compression cfg b)"
      "lzo_on cfg (b_ff b) \<Longrightarrow> compress_room (HAVE_LZO cfg) ?m - 8 \<le> max_compress_len (setup_compression cfg b)"
    using n(3) by (auto simp: setup_compression_def Let_def gzip_on_def lzo_on_def OFFSET_FADDR_SIZE_def)
  moreover have "?n + (?n + 999) div 1000 + 12 \<le> compress_room (HAVE_LZO cfg) ?m - 8" using n(1) mono by (auto simp: compress_room_def)
  moreover have "lzo_on cfg (b_ff b) \<Longrightarrow> ?n + ?n div 16 + 67 \<le> compress_room (HAVE_LZO cfg) ?m - 8"
    using n(1) mono by (auto simp: compress_room_def comp_stream_header_size_def lzo_on_def)
  ultimately show ?thesis
    using n small unfolding room_ok_def started_simps by (auto intro: le_trans)
qed

lemma send_data_started:
  assumes "sd_script b = []" and "if has_flag (b_flags b) FO_ENCRYPT then \<not> addr_on (b_ff b) \<and> cipher_new env True = c \<and> c \<noteq> None else c = None"
    and "send_loop env cfg reads (started cfg stream c b) = Ret (True, b1)" and "b_like (started cfg stream c b) b1"
    and "finish_sending env True b1 = (True, b2)" and "sd_script b2 = []"
  shows "send_data env cfg stream reads True b = Ret (True, b2)"
proof -
  let ?b = "setup_compression cfg (b\<lparr>b_rsize := b_buf_size b, b_fileAddr := 0, b_cipher := None\<rparr>)"
  have b: "b_ff ?b = b_ff b" "sd_script ?b = sd_script b" "b_rsize ?b = b_buf_size b" by (simp_all add: setup_compression_def Let_def)
  have st: "?b\<lparr>b_cipher := c, sd_stream := announced (b_ff b) stream,
        b_rsize := (if has_flag (b_flags b) FO_SPARSE then b_buf_size b - OFFSET_FADDR_SIZE else b_buf_size b)\<rparr> = started cfg stream c b"
    by (simp add: started_def)
  have none: "?b\<lparr>b_cipher := None\<rparr> = ?b" by (simp add: setup_compression_def Let_def)
  have alloc: "(if has_flag (b_flags ?b) FO_ENCRYPT then crypto_allocate_ctx env ?b else (True, ?b)) = (True, ?b\<lparr>b_cipher := c\<rparr>)"
    using assms(2) none by (auto simp: crypto_allocate_ctx_def b addr_on_def split: if_splits)
  have "send_data env cfg stream reads True b =
      bind_outcome (send_loop env cfg reads (started cfg stream c b))
        (\<lambda>(ok, b). if \<not> ok then Ret (False, b) else case finish_sending env True b of (ok, b) \<Rightarrow> Ret (if ok then sd_control b else (False, b)))"
    unfolding send_data_def Let_def alloc using assms(1) by (simp add: sd_control_def b st [symmetric] announced_def)
  then show ?thesis using assms(3,5,6) by (simp add: sd_control_def)
qed

lemma started_compressed:
  assumes "backup_ready cfg b ds" and "zlib_ok env" and "lzo_ok env"
  shows "list_all (\<lambda>d. d \<noteq> [] \<and> compressed env cfg (started cfg stream c b) d \<noteq> None) ds"
    and "list_all (\<lambda>d. d \<noteq> [] \<and> room_ok cfg (started cfg stream c b) (length d)) ds"
proof -
  have "d \<noteq> []" if "d \<in> set ds" for d using assms(1) that by (auto simp: backup_ready_def list_all_iff)
  moreover have "compressed env cfg (started cfg stream c b) d \<noteq> None" if "d \<in> set ds" for d
    using compress_decompress [OF assms(2,3) started_room [OF assms(1) that]] by (metis option.distinct(1))
  ultimately show "list_all (\<lambda>d. d \<noteq> [] \<and> compressed env cfg (started cfg stream c b) d \<noteq> None) ds"
      "list_all (\<lambda>d. d \<noteq> [] \<and> room_ok cfg (started cfg stream c b) (length d)) ds"
    using started_room [OF assms(1)] by (simp_all add: list_all_iff)
qed

lemma fresh_restored:
  assumes "restore_ready r"
  shows "restored [] [] (prep full r)"
  using assms by (simp add: restored_def restore_ready_def prep_def Let_def)

lemma file_restored_plain:
  assumes "zlib_ok env" "lzo_ok env" "\<forall>pos data. disk_write env pos data" and plain: "\<not> has_flag (b_flags b) FO_ENCRYPT"
    and same: "same_filters cfg (b_ff b) (announced (b_ff b) stream AND STREAMMASK_TYPE) (restore_flags (r_decomp r) (announced (b_ff b) stream))"
    and b: "backup_ready cfg b ds" and r: "restore_ready r"
  shows "\<exists>b' r'. send_data env cfg stream (reads_at 0 ds) True b = Ret (True, b') \<and>
     restore_records env cfg (sd_stream b') (sd_sent b') r = Some (Ret r') \<and> r_extract r' \<and> r_file r' = concat ds \<and> r_digest r' = b_digest b'"
proof -
  let ?s = "started cfg stream None b"
  have bb: "sd_script b = []" "sd_sent b = []" "b_digest b = []" "sized (b_ff b)" "unat (ff_size (b_ff b)) \<le> length (concat ds)" "length (concat ds) < 2 ^ 63"
    using b by (auto simp: backup_ready_def)
  note c = started_compressed [OF b assms(1,2), of stream None]
  obtain b1 where b1: "send_loop env cfg (reads_at 0 ds) ?s = Ret (True, b1)" "b_like ?s b1" "sd_sent b1 = packets env cfg ?s 0 ds" "b_digest b1 = kept ?s 0 ds"
    using send_loop_plain [of ?s env cfg ds 0] plain c(1) bb by (auto simp: started_simps)
  have l: "b_ff b1 = b_ff b" "sd_script b1 = []" "sd_stream b1 = announced (b_ff b) stream"
    using b_like_simps [OF b1(2)] bb(1) by (simp_all add: started_simps)
  have "finish_sending env True b1 = (True, b1)" using plain l by (simp add: finish_sending_def)
  then have send: "send_data env cfg stream (reads_at 0 ds) True b = Ret (True, b1)"
    using plain bb(1) l by (intro send_data_started [OF _ _ b1(1,2)]) simp_all
  have "matched env cfg ?s (announced (b_ff b) stream) (r_decomp r) ds"
    using assms(1-3) same c(2) by (simp add: matched_def started_simps)
  then obtain r' where "restore_records env cfg (announced (b_ff b) stream) (packets env cfg ?s (length ([] :: byte list)) ds) r = Some (Ret r')"
      "r_file r' = [] @ concat ds" "r_digest r' = [] @ kept ?s (length ([] :: byte list)) ds" "r_extract r'"
    using restore_plain [of env cfg ?s "announced (b_ff b) stream" r ds "[]" "[]"] plain bb fresh_restored [OF r] r
    by (auto simp: started_simps restore_ready_def)
  then show ?thesis using send b1(3,4) l(3) by auto
qed

lemma file_restored_encrypted:
  assumes "zlib_ok env" "lzo_ok env" "\<forall>pos data. disk_write env pos data" and laws: "cipher_laws env bs encst decst S F"
    and enc: "has_flag (b_flags b) FO_ENCRYPT" "\<not> addr_on (b_ff b)"
    and same: "same_filters cfg (b_ff b) (announced (b_ff b) stream AND STREAMMASK_TYPE) (restore_flags (r_decomp r) (announced (b_ff b) stream))"
    and b: "backup_ready cfg b ds" and r: "restore_ready r" and big: "list_all (\<lambda>n. bs \<le> CRYPTO_LEN_SIZE + n) (butlast (packet_lengths env cfg b ds))"
  shows "\<exists>b' r'. send_data env cfg stream (reads_at 0 ds) True b = Ret (True, b') \<and>
     restore_records env cfg (sd_stream b') (sd_sent b') r = Some (Ret r') \<and> r_extract r' \<and> r_file r' = concat ds \<and> r_digest r' = b_digest b'"
proof -
  let ?s = "started cfg stream (Some (encst [])) b" and ?full = "announced (b_ff b) stream"
  let ?fs = "map (framed env cfg ?s) ds"
  have bb: "sd_script b = []" "sd_sent b = []" "b_digest b = []" "length (concat ds) < 2 ^ 63" using b by (auto simp: backup_ready_def)
  note c = started_compressed [OF b assms(1,2), of stream "Some (encst [])"]
  have c1: "list_all (\<lambda>d. compressed env cfg ?s d \<noteq> None) ds" using c(1) by (simp add: list_all_iff)
  obtain b1 where b1: "send_loop env cfg (reads_at 0 ds) ?s = Ret (True, b1)" "b_like ?s b1" "b_cipher b1 = Some (encst (concat ?fs))"
      "sd_sent b1 = cipher_msgs S [] ?fs" "b_digest b1 = concat ds"
    using send_loop_encrypted [OF laws, of ?s cfg ds "[]" 0] enc c1 bb by (auto simp: started_simps)
  have l: "b_ff b1 = b_ff b" "sd_script b1 = []" "sd_stream b1 = ?full"
    using b_like_simps [OF b1(2)] bb(1) by (simp_all add: started_simps)
  let ?F = "F (concat ?fs)"
  let ?b2 = "b1\<lparr>sd_sent := sd_sent b1 @ [?F], b_JobBytes := b_JobBytes b1 + of_nat (length ?F)\<rparr>"
  have F: "?F \<noteq> []" "\<exists>c. cipher_final env (encst (concat ?fs)) = (True, c, ?F)"
    using laws cipher_prefix(3) [OF laws] unfolding cipher_laws_def by (metis length_0_conv less_not_refl, blast)
  then have "finish_sending env True b1 = (True, ?b2)"
    using enc(1) l b1(3) by (auto simp: finish_sending_def sd_send_def)
  then have send: "send_data env cfg stream (reads_at 0 ds) True b = Ret (True, ?b2)"
    using enc bb(1) l laws by (intro send_data_started [OF _ _ b1(1,2)]) (simp_all add: cipher_laws_def)
  have set: "enc_setup env cfg ?s ?full (r_decomp r) ds ?fs"
    using assms(1-3) same c(2) enc by (simp add: enc_setup_def matched_def started_simps)
  have ff: "b_ff (setup_compression cfg b) = b_ff b" by (simp add: setup_compression_def Let_def)
  have "compressed env cfg ?s d = compressed env cfg (setup_compression cfg b) d" for d
    unfolding compressed_def do_libz_compression_def do_lzo_compression_def [abs_def] started_simps ff ..
  then have "map length ?fs = map (\<lambda>n. CRYPTO_LEN_SIZE + n) (packet_lengths env cfg b ds)"
    by (simp add: packet_lengths_def framed_def length_frame CRYPTO_LEN_SIZE_def)
  then have "list_all (\<lambda>f. bs \<le> length f) (butlast ?fs)"
    using big by (metis (no_types, lifting) list.pred_map list.pred_cong map_butlast comp_apply)
  moreover have "receiving ?full (r_decomp r) bs decst ds ?fs [] 0 [] r"
    using r fresh_restored [OF r] by (simp add: receiving_def restore_ready_def offset_of_def released_def)
  ultimately obtain r' where "restore_records env cfg ?full (cipher_msgs S [] ?fs @ [?F]) r = Some (Ret r')"
      "r_file r' = concat ds" "r_digest r' = [] @ concat ds" "r_extract r'"
    using restore_encrypted [OF laws set bb(4)] by blast
  then show ?thesis using send b1(4,5) l(3) by auto
qed


section \<open>An example\<close>

text \<open>Libraries that store the data as they are, with the padding of a block cipher.\<close>

definition null_pad :: "nat \<Rightarrow> byte list \<Rightarrow> byte list" where
  "null_pad bs p = drop (length p div bs * bs) p @ replicate (bs - length p mod bs) (of_nat (bs - length p mod bs))"

definition null_env :: "nat \<Rightarrow> (bool \<times> byte list) fd_env" where
  "null_env bs =
     \<lparr>zdeflate = (\<lambda>room d. if length d \<le> room then Some d else None),
      zuncompress = (\<lambda>n z. if length z \<le> n then Unpacked z else No_room),
      lzo_compress = Some,
      lzo_decompress = (\<lambda>n z. if length z \<le> n then Unpacked z else No_room),
      cipher_new = (\<lambda>enc. Some (enc, [])),
      cipher_update = (\<lambda>(enc, p) d.
        Some ((enc, p @ d),
          if enc then drop (length p div bs * bs) (take (length (p @ d) div bs * bs) (p @ d))
          else drop (released bs (length p)) (take (released bs (length (p @ d))) (p @ d)))),
      cipher_final = (\<lambda>(enc, p).
        (True, (enc, p), if enc then null_pad bs p else drop (released bs (length p)) (take (length p - unat (last p)) p))),
      disk_write = (\<lambda>pos data. True)\<rparr>"

lemma null_libs:
  assumes "0 < bs" and "bs < 256"
  shows "libs_ok (null_env bs) bs"
proof -
  let ?S = "\<lambda>p :: byte list. take (length p div bs * bs) p" and ?F = "null_pad bs"
  have le: "length p div bs * bs \<le> length p" for p :: "byte list" by (rule div_times_less_eq_dividend)
  have lenS: "length (?S p) = length p div bs * bs" for p using le by simp
  have lenF: "length (?F p) = bs" for p
    using assms(1) minus_div_mult_eq_mod [of "length p" bs] mod_le_divisor [of bs "length p"] by (simp add: null_pad_def)
  have upd: "\<exists>out. cipher_update (null_env bs) (True, p) d = Some ((True, p @ d), out) \<and> ?S (p @ d) = ?S p @ out" for p d
  proof -
    have mono: "length p div bs * bs \<le> length (p @ d) div bs * bs" by (intro mult_le_mono1 div_le_mono) simp
    have "?S p = take (length p div bs * bs) (?S (p @ d))" using mono le [of p] by (simp add: take_take min_def)
    then have "?S (p @ d) = ?S p @ drop (length p div bs * bs) (?S (p @ d))" by (metis append_take_drop_id)
    then show ?thesis by (simp add: null_env_def)
  qed
  have rel: "released bs (length c) \<le> length p div bs * bs" if "length c \<le> length p div bs * bs + bs" for c p :: "byte list"
    using released_mono [OF that, of bs] released_block [OF assms(1)] by simp
  have dec: "cipher_update (null_env bs) (False, c) d = Some ((False, c @ d), drop (released bs (length c)) (take (released bs (length (c @ d))) p))"
    if "take (length (c @ d)) (?S p @ ?F p) = c @ d" for p c d
  proof -
    have "length (take (length (c @ d)) (?S p @ ?F p)) = length (c @ d)" using arg_cong [OF that, of length] .
    then have "length (c @ d) \<le> length (?S p @ ?F p)" unfolding length_take by linarith
    then have "length (c @ d) \<le> length p div bs * bs + bs" using lenS [of p] lenF [of p] unfolding length_append by linarith
    then have r: "released bs (length (c @ d)) \<le> length p div bs * bs" by (rule rel)
    have rn: "released bs n \<le> n" for n unfolding released_def by (meson div_times_less_eq_dividend diff_le_self le_trans)
    have "take (released bs (length (c @ d))) (c @ d) = take (released bs (length (c @ d))) (?S p @ ?F p)"
      using rn [of "length (c @ d)"] by (subst that [symmetric]) (simp only: take_take min.absorb1)
    also have "\<dots> = take (released bs (length (c @ d))) p" unfolding take_append lenS using r by (simp add: min.absorb1)
    finally show ?thesis by (simp add: null_env_def del: take_append length_append)
  qed
  have fin: "\<exists>c. cipher_final (null_env bs) (False, ?S p @ ?F p) = (True, c, drop (length p div bs * bs) p)" for p
  proof -
    let ?n = "bs - length p mod bs"
    have n: "0 < ?n" "?n < 256" using assms by (simp_all add: less_imp_diff_less)
    have all: "?S p @ ?F p = p @ replicate ?n (of_nat ?n)" by (simp add: null_pad_def flip: append_assoc)
    have "last (?S p @ ?F p) = of_nat ?n" unfolding all using n(1) by (simp add: last_append)
    then have "unat (last (?S p @ ?F p)) = ?n" using n(2) by (simp add: unat_of_nat_small)
    moreover have "length (?S p @ ?F p) = length p div bs * bs + bs" using lenS lenF by simp
    moreover have "length p + ?n = length p div bs * bs + bs"
      using arg_cong [OF all, of length] lenS lenF by simp
    ultimately show ?thesis
      using released_block [OF assms(1), of "length p div bs"] by (intro exI [of _ "(False, ?S p @ ?F p)"]) (simp add: null_env_def all)
  qed
  have enc_fin: "\<exists>c. cipher_final (null_env bs) (True, p) = (True, c, ?F p)" for p
    by (rule exI [of _ "(True, p)"]) (simp add: null_env_def)
  have new: "cipher_new (null_env bs) True = Some (True, [])" "cipher_new (null_env bs) False = Some (False, [])" by (simp_all add: null_env_def)
  have "cipher_laws (null_env bs) bs (Pair True) (Pair False) ?S ?F"
    unfolding cipher_laws_def using assms(1) new upd dec enc_fin fin lenS lenF by blast
  then have "cipher_ok (null_env bs) bs" unfolding cipher_ok_def by blast
  moreover have "zlib_ok (null_env bs)" "lzo_ok (null_env bs)"
    by (auto simp: zlib_ok_def lzo_ok_def null_env_def unpacks_def)
  ultimately show ?thesis by (simp add: libs_ok_def null_env_def)
qed

definition null_build :: build where
  "null_build = \<lparr>HAVE_LIBZ = True, HAVE_LZO = True, HAVE_CRYPTO = True\<rparr>"

definition null_file :: "uint64_t \<Rightarrow> int64_t \<Rightarrow> FF_PKT" where
  "null_file fl n = \<lparr>ff_type = 3, ff_flags = fl, Compress_algo = COMPRESS_GZIP, ff_size = n\<rparr>"

definition null_backup :: "FF_PKT \<Rightarrow> (bool \<times> byte list) bctx" where
  "null_backup ff =
     \<lparr>b_ff = ff, b_fileAddr = 0, b_rsize = 0, b_rbuf = replicate 64 0, b_cipher = None, b_buf_size = 64,
      b_compress_buf_size = compress_room True 64, max_compress_len = 0, b_ReadBytes = 0, b_JobBytes = 0, b_JobErrors = 0,
      b_fatal = False, b_digest = [], sd_stream = 0, sd_sent = [], sd_script = []\<rparr>"

definition null_restore :: "(bool \<times> byte list) rctx" where
  "null_restore =
     \<lparr>r_stream = 0, comp_stream = 0, r_flags = 0, r_fileAddr = 0, r_cipher = None, r_buf = [], r_packet_len = 0, r_extract = True,
      r_file = [], r_pos = 0, r_filter = wf_init (replicate 20 0), r_decomp = True, r_lenient = False, r_compress_buf_size = 200,
      r_digest = [], r_ReadBytes = 0, r_JobBytes = 0, r_fatal = False\<rparr>"

lemma null_ready:
  assumes "list_all (\<lambda>d. d \<noteq> [] \<and> length d \<le> 64) ds" and "length (concat ds) < 2 ^ 63" and "unat n \<le> length (concat ds)"
  shows "backup_ready null_build (null_backup (null_file fl n)) ds" and "restore_ready null_restore"
  using assms
  by (simp_all add: backup_ready_def restore_ready_def null_backup_def null_restore_def null_build_def null_file_def sized_def FT_RAW_def FT_FIFO_def)



end
