(* ===== verification/Spec2Isabelle.thy ===== *)
theory Spec2Isabelle
  imports Serial Crc32 Base64 Args RwLock Device Block WriteErrors Spool MatchBsr Label FileRestore
begin

text \<open>
  Bacula is a network backup system: a Director schedules jobs and keeps a catalog, a File daemon
  on each client produces the records of the files, and a Storage daemon writes them to volumes and
  reads them back for a restore. This library models the data path of the Storage daemon, from the
  records of a job to the bytes of a volume and back, and the path of the data of a file through the File daemon. All paths below are relative to
  \<^verbatim>\<open>src/bacula/src\<close>.

  \<^bold>\<open>Parts and how they interact.\<close> A record of a file (\<open>DEV_RECORD\<close>, \<^verbatim>\<open>stored/record.h\<close>) is put behind
  a record header into the block in memory (\<open>DEV_BLOCK\<close>, \<^verbatim>\<open>stored/block.h\<close>) by \<open>write_record_to_block\<close>;
  a record that does not fit is split, and a full block goes through \<open>write_block_to_device\<close> and
  \<open>write_block_to_dev\<close> to the open volume of a \<open>DEVICE\<close>, with a header that holds a length, a number, the
  session and a CRC32. Index records (\<open>JOBMEDIA_ITEM\<close>) and the counters of the volume go to the
  Director. At the end of a volume the next one is mounted. Reading is the reverse:
  \<open>read_block_from_dev\<close> reads and checks a block, \<open>read_record_from_block\<close> takes records out of it and joins
  the parts of a split record, and \<open>read_records\<close> drives both over the volume and hands the records to a
  callback.

  \<^bold>\<open>Theories, from the bottom up.\<close>
  \<^item> \<open>Prelude\<close>: machine types, memory as a byte list with bounds, the \<open>outcome\<close> of a routine that may
    die (\<open>Dies\<close> with an assertion or an access outside a buffer), generic list and word lemmas.
  \<^item> \<open>Serial\<close>: \<^verbatim>\<open>lib/serial.c\<close> and the macros of \<^verbatim>\<open>lib/serial.h\<close>, on hosts of both byte orders. Every
    reader inverts its writer; \<open>unser_string\<close> can write one byte behind its destination.
  \<^item> \<open>Crc32_Table\<close>, \<open>Crc32\<close>: \<^verbatim>\<open>lib/bcrc32.c\<close> with its sixteen tables. All variants equal the bitwise CRC,
    CRCs can be continued, and a change within four bytes is detected.
  \<^item> \<open>Base64\<close>: \<^verbatim>\<open>lib/base64.c\<close>. Numbers and binary data survive encoding and decoding, and the size that
    \<open>base64_to_bin\<close> asks for is one byte too small.
  \<^item> \<open>Bsnprintf\<close>, \<open>Scan\<close>, \<open>Args\<close>: \<^verbatim>\<open>lib/bsnprintf.c\<close> without floating point and \<^verbatim>\<open>lib/scan.c\<close>. Printing ends and stays in its buffer, numbers that are
    printed are scanned again, and a command line of quoted arguments is split into them; the scanner accepts every text as a stream header.
  \<^item> \<open>RwLock\<close>: the read/write locks of \<^verbatim>\<open>lib/rwlock.c\<close>, with threads that take turns as a step relation. Writers exclude everyone
    else, and no thread is left waiting for a lock that is free.
  \<^item> \<open>Device\<close>: the state of a \<open>DEVICE\<close> (\<^verbatim>\<open>stored/dev.h\<close>, \<^verbatim>\<open>stored/dev.c\<close>): mode bits, catalog counters,
    addresses. The state changes as a step relation; append and read mode exclude each other in every
    reachable state.
  \<^item> \<open>Block\<close>: \<open>DEV_BLOCK\<close> and the header routines of \<^verbatim>\<open>stored/block_util.c\<close>. What was written is accepted and
    read back, damage within four bytes is rejected, padding stays in the buffer.
  \<^item> \<open>VolRecord\<close>, \<open>RecordWrite\<close>, \<open>RecordRead\<close>: \<^verbatim>\<open>stored/record_util.c\<close>, \<^verbatim>\<open>stored/record_write.c\<close> with its
    state machine \<open>write_step\<close>, and \<^verbatim>\<open>stored/record_read.c\<close>.
  \<^item> \<open>RecordStream\<close>: the format of a record stream as a specification: chunks, their encoding, and
    \<open>decode\<close>, which joins continuation chunks. The locale \<open>block_sink\<close> is the interface that
    \<open>write_record\<close> needs of a device; inside it, that records end up in the blocks of the sink in order.
  \<^item> \<open>Dcr\<close>: \<open>DCR\<close>, the job status of \<^verbatim>\<open>lib/jcr.c\<close>, the system calls on a volume and \<open>sd_env\<close>, everything the
    Storage daemon asks of the Director, the operator, the operating system and the tape drive.
  \<^item> \<open>BlockRead\<close>, \<open>BlockWrite\<close>: \<^verbatim>\<open>stored/block.c\<close> and the routines it calls in \<^verbatim>\<open>stored/block_util.c\<close>,
    \<^verbatim>\<open>stored/dev.c\<close>, \<^verbatim>\<open>stored/device.c\<close> and \<^verbatim>\<open>stored/askdir.c\<close>.
  \<^item> \<open>VolumeFormat\<close>: a disk volume as a sequence of blocks (\<open>parse_volume\<close>). Writing a block appends it;
    the interpretation \<open>disk\<close> of \<open>block_sink\<close> on \<open>write_block_to_device\<close>.
  \<^item> \<open>VolumeRead\<close>: reading returns the blocks of a volume in order and then the end.
  \<^item> \<open>ReadRecords\<close>: \<^verbatim>\<open>stored/read_records.c\<close> for a reader without bootstrap; a volume is read to its end.
  \<^item> \<open>WriteErrors\<close>: writing when system calls fail or the volume is full.
  \<^item> \<open>BackupRestore\<close>: a job is written and read back.
  \<^item> \<open>Spool\<close>: data spooling (\<^verbatim>\<open>stored/spool.c\<close>), a second interpretation of \<open>block_sink\<close>: the blocks of a job go through a
    spool file with a format of its own (\<open>spool_blocks\<close>), and the job is written and read back whatever the limits on spooled data are; the space that
    devices count.
  \<^item> \<open>MatchBsr\<close>: the choice of records by a bootstrap (\<^verbatim>\<open>stored/match_bsr.c\<close>, and the positioning of
    \<^verbatim>\<open>stored/read_records.c\<close>). The filter, which forgets what it is done with, selects the same records as one
    without memory; rejecting blocks by their header and moving forward on the volume lose nothing.
  \<^item> \<open>LabelFormat\<close>: the labels of volumes and sessions (\<^verbatim>\<open>stored/label.c\<close>) as records, written and read back; the numbers of a
    volume label are not read back as written.
  \<^item> \<open>Label\<close>: the routines of \<^verbatim>\<open>stored/label.c\<close> that act on a device. A volume that is labelled is accepted under its
    name, and no volume is accepted under another.

  The File daemon:
  \<^item> \<open>Attribs\<close>: the attributes of a file as text (\<^verbatim>\<open>findlib/attribs.c\<close>), written and read back; what happens on
    a text that ends early.
  \<^item> \<open>Win32Filter\<close>: \<^verbatim>\<open>findlib/win32filter.c\<close>, which takes the data out of the streams of the Windows backup
    interface, proved equal to a filter that takes single bytes; a header that hangs it.
  \<^item> \<open>FileData\<close>: the choice of the data stream, and that the stream tells a restore which filters were used.
  \<^item> \<open>FileBackup\<close>: \<open>send_data\<close> of \<^verbatim>\<open>filed/backup.c\<close> and \<open>extract_data\<close> of \<^verbatim>\<open>filed/restore.c\<close> with their filters.
  \<^item> \<open>FilePackets\<close>, \<open>FileRestore\<close>: what is documented of the compression and cipher libraries (hypotheses of the theorems, which
    \<open>null_env\<close> satisfies), and that what \<open>send_data\<close> sends is restored byte for byte; encrypted packets that are
    smaller than a block of the cipher can get lost.

  \<^bold>\<open>State, errors and loops.\<close> The volume is a byte list with a file offset in the \<open>DCR\<close>. The results
  of the coming system calls are two scripts in the \<open>DCR\<close> (\<open>write_script\<close>, \<open>read_script\<close>), so that theorems
  can speak of every sequence of failures. A C routine is a function from the old state to the new one
  with its result; one that can die returns an \<open>outcome\<close>, and one with a loop that the C code does not
  bound is a \<open>partial_function\<close> in \<open>option\<close>, where \<open>None\<close> means that it does not return.
  Theorems about them state that they return. No fuel is used. Machine integers are words of their width.

  \<^bold>\<open>Not modelled.\<close> The use of locks by the daemons and the other jobs attached to a device, the aligned (\<open>adata\<close>) volumes whose
  methods are empty in this edition, tape motion and ANSI labels (fields of \<open>sd_env\<close> and \<open>label_env\<close>), mounting
  (a field of \<open>sd_env\<close>), the spooling of attributes, the parser of bootstrap files, messages and traces apart from
  the effect of a fatal message on the job status, and the other daemons.
\<close>

end
